(* ===== verification/Prelude.thy ===== *)
theory Prelude
  imports
    Main
    "HOL-Library.Word"
    "HOL-Library.AList"
    "HOL-Library.Multiset"
    "HOL-Library.Sublist"
    "HOL-Library.List_Lexorder"
    "HOL-Library.Product_Lexorder"
    "HOL-Library.Code_Target_Numeral"
begin

text \<open>
  What every component shares: identifiers and instants, the result type that
  carries a raise or an early return, ordered de-duplication (\<^verbatim>\<open>dict.fromkeys\<close>),
  and tables of rows addressed by a key, as the code's ORM sessions use them.
  The collections \<^verbatim>\<open>result_simps\<close> and \<^verbatim>\<open>table_simps\<close> hold the facts the component
  proofs add to the simplifier.
\<close>

named_theorems result_simps \<open>evaluation of computations that may raise\<close>
named_theorems table_simps \<open>lookups after writes in row tables\<close>

section \<open>Identifiers and time\<close>

text \<open>A \<^verbatim>\<open>uuid.UUID\<close> is its 128-bit value; comparing two of them compares the values.
  An aware datetime is its UTC instant in microseconds since 0001-01-01T00:00Z.\<close>

type_synonym uuid = "128 word"
type_synonym instant = int

definition datetime_min :: instant where
  "datetime_min = 0"

definition datetime_max :: instant where
  "datetime_max = 315537897600 * 1000000 - 1"

definition in_datetime_range :: "instant \<Rightarrow> bool" where
  "in_datetime_range t \<longleftrightarrow> datetime_min \<le> t \<and> t \<le> datetime_max"

text \<open>A \<^verbatim>\<open>datetime\<close> is naive, or aware with its local reading and UTC offset, both in
  microseconds.\<close>

datatype py_datetime = Naive int | Aware int int

fun utc_reading :: "py_datetime \<Rightarrow> int" where
  "utc_reading (Naive t) = t"
| "utc_reading (Aware t offset) = t - offset"

datatype py_error = ValueError | OverflowError | KeyError | AttributeError | PyIndexError

text \<open>\<^verbatim>\<open>astimezone(UTC)\<close> subtracts the offset, which raises where the result leaves the calendar.\<close>

fun astimezone_utc :: "py_datetime \<Rightarrow> py_error + instant" where
  "astimezone_utc (Naive t) = Inr t"
| "astimezone_utc (Aware t offset) =
     (if in_datetime_range (t - offset) then Inr (t - offset) else Inl OverflowError)"

definition seconds :: "int \<Rightarrow> int" where
  "seconds n = n * 1000000"

lemma seconds_mono [simp]: "seconds m \<le> seconds n \<longleftrightarrow> m \<le> n"
  by (simp add: seconds_def)

lemma seconds_pos [simp]: "0 < seconds n \<longleftrightarrow> 0 < n"
  by (simp add: seconds_def)

section \<open>Results\<close>

text \<open>\<open>Inl e\<close> is a raised error, \<open>Inr x\<close> a returned value.\<close>

fun rbind :: "'e + 'a \<Rightarrow> ('a \<Rightarrow> 'e + 'b) \<Rightarrow> 'e + 'b" where
  "rbind (Inl e) f = Inl e"
| "rbind (Inr x) f = f x"

declare rbind.simps [result_simps]

fun traverse :: "('a \<Rightarrow> 'e + 'b) \<Rightarrow> 'a list \<Rightarrow> 'e + 'b list" where
  "traverse f [] = Inr []"
| "traverse f (x # xs) = rbind (f x) (\<lambda>y. rbind (traverse f xs) (\<lambda>ys. Inr (y # ys)))"

fun foldr_result :: "('s \<Rightarrow> 'a \<Rightarrow> 'e + 's) \<Rightarrow> 's \<Rightarrow> 'a list \<Rightarrow> 'e + 's" where
  "foldr_result f s [] = Inr s"
| "foldr_result f s (x # xs) = rbind (f s x) (\<lambda>s'. foldr_result f s' xs)"

definition guard :: "bool \<Rightarrow> 'e \<Rightarrow> 'e + unit" where
  "guard b e = (if b then Inr () else Inl e)"

lemma rbind_Inr_iff [result_simps]:
  "rbind r f = Inr y \<longleftrightarrow> (\<exists>x. r = Inr x \<and> f x = Inr y)"
  by (cases r) auto

lemma rbind_Inl_iff [result_simps]:
  "rbind r f = Inl e \<longleftrightarrow> r = Inl e \<or> (\<exists>x. r = Inr x \<and> f x = Inl e)"
  by (cases r) auto

lemma guard_Inr_iff [result_simps, simp]: "guard b e = Inr u \<longleftrightarrow> b"
  by (simp add: guard_def)

lemma guard_Inl_iff [result_simps, simp]: "guard b e = Inl e' \<longleftrightarrow> \<not> b \<and> e' = e"
  by (auto simp: guard_def)

lemma rbind_assoc: "rbind (rbind r f) g = rbind r (\<lambda>x. rbind (f x) g)"
  by (cases r) simp_all

lemma traverse_Inr_length: "traverse f xs = Inr ys \<Longrightarrow> length ys = length xs"
  by (induction xs arbitrary: ys) (auto simp: rbind_Inr_iff)

lemma traverse_Inr_nth:
  "traverse f xs = Inr ys \<Longrightarrow> i < length xs \<Longrightarrow> f (xs ! i) = Inr (ys ! i)"
  by (induction xs arbitrary: ys i) (auto simp: rbind_Inr_iff nth_Cons split: nat.splits)

lemma traverse_total: "(\<And>x. x \<in> set xs \<Longrightarrow> f x = Inr (g x)) \<Longrightarrow> traverse f xs = Inr (map g xs)"
  by (induction xs) auto

lemma foldr_result_append:
  "foldr_result f s (xs @ ys) = rbind (foldr_result f s xs) (\<lambda>s'. foldr_result f s' ys)"
  by (induction xs arbitrary: s) (simp_all add: rbind_assoc)

lemma foldr_result_invariant:
  assumes "foldr_result f s xs = Inr s'" and "P s"
    and "\<And>s x s'. P s \<Longrightarrow> x \<in> set xs \<Longrightarrow> f s x = Inr s' \<Longrightarrow> P s'"
  shows "P s'"
  using assms
proof (induction xs arbitrary: s)
  case (Cons x xs)
  obtain t where t: "f s x = Inr t" "foldr_result f t xs = Inr s'"
    using Cons.prems(1) by (auto simp: rbind_Inr_iff)
  have "P t"
    by (rule Cons.prems(3) [OF Cons.prems(2) _ t(1)]) simp
  show ?case
  proof (rule Cons.IH [OF t(2) \<open>P t\<close>])
    fix u y u'
    assume "P u" "y \<in> set xs" "f u y = Inr u'"
    moreover have "y \<in> set (x # xs)"
      using \<open>y \<in> set xs\<close> by simp
    ultimately show "P u'"
      using Cons.prems(3) by blast
  qed
qed simp

section \<open>Ordered sets of keys\<close>

text \<open>\<^verbatim>\<open>dict.fromkeys(xs)\<close>: the first occurrence of each value, in order.\<close>

definition fromkeys :: "'a list \<Rightarrow> 'a list" where
  "fromkeys xs = rev (remdups (rev xs))"

lemma fromkeys_Nil [simp]: "fromkeys [] = []"
  by (simp add: fromkeys_def)

lemma set_fromkeys [simp]: "set (fromkeys xs) = set xs"
  by (simp add: fromkeys_def)

lemma distinct_fromkeys [simp]: "distinct (fromkeys xs)"
  by (simp add: fromkeys_def)

lemma fromkeys_snoc: "fromkeys (xs @ [x]) = (if x \<in> set xs then fromkeys xs else fromkeys xs @ [x])"
  by (simp add: fromkeys_def)

lemma fromkeys_distinct: "distinct xs \<Longrightarrow> fromkeys xs = xs"
  by (simp add: fromkeys_def distinct_remdups_id)

lemma fromkeys_idem [simp]: "fromkeys (fromkeys xs) = fromkeys xs"
  by (simp add: fromkeys_distinct)

lemma fromkeys_append_subset: "set ys \<subseteq> set xs \<Longrightarrow> fromkeys (xs @ ys) = fromkeys xs"
proof (induction ys rule: rev_induct)
  case (snoc y ys)
  then show ?case
    using fromkeys_snoc [of "xs @ ys" y] by auto
qed simp

section \<open>Ordered dictionaries\<close>

text \<open>A Python \<^verbatim>\<open>dict\<close> whose order the code observes is the list of its items;
  \<open>AList.update\<close> overwrites in place and appends new keys, as the dict does.
  \<open>dict_append\<close> is \<^verbatim>\<open>d.setdefault(k, []).append(v)\<close>.\<close>

definition dict_append :: "'k \<Rightarrow> 'v \<Rightarrow> ('k \<times> 'v list) list \<Rightarrow> ('k \<times> 'v list) list" where
  "dict_append k v d = AList.update k ((case map_of d k of Some vs \<Rightarrow> vs | None \<Rightarrow> []) @ [v]) d"

lemma dict_append_distinct:
  "distinct (map fst d) \<Longrightarrow> distinct (map fst (dict_append k v d))"
  by (simp add: dict_append_def distinct_update)

lemma dict_append_values:
  assumes "(k', vs) \<in> set (dict_append k v d)" "distinct (map fst d)" "x \<in> set vs"
  shows "(k' = k \<and> x = v) \<or> (\<exists>ws. (k', ws) \<in> set d \<and> x \<in> set ws)"
proof -
  have "map_of (dict_append k v d) k' = Some vs"
    using assms by (simp add: dict_append_distinct)
  then have "(if k' = k then Some ((case map_of d k of Some vs \<Rightarrow> vs | None \<Rightarrow> []) @ [v])
      else map_of d k') = Some vs"
    by (simp add: dict_append_def update_conv')
  then show ?thesis
    using assms(3) by (auto split: if_splits option.splits dest: map_of_SomeD)
qed

text \<open>\<^verbatim>\<open>d.setdefault(k, set()).add(v)\<close> on a dict that is only read by key with an empty default.\<close>

definition index_add :: "'k \<Rightarrow> 'v \<Rightarrow> ('k \<Rightarrow> 'v set) \<Rightarrow> 'k \<Rightarrow> 'v set" where
  "index_add k v m = m(k := insert v (m k))"

section \<open>Row tables\<close>

text \<open>
  A table is the list of its rows; \<open>key\<close> reads a row's primary key. The four
  operations are \<^verbatim>\<open>session.get\<close>, an \<^verbatim>\<open>UPDATE ... WHERE id = k\<close> (or the flush of a changed
  ORM object), \<^verbatim>\<open>session.add\<close> and \<^verbatim>\<open>session.delete\<close>.
\<close>

definition row_get :: "('r \<Rightarrow> 'k) \<Rightarrow> 'k \<Rightarrow> 'r list \<Rightarrow> 'r option" where
  "row_get key k rows = find (\<lambda>r. key r = k) rows"

definition row_upd :: "('r \<Rightarrow> 'k) \<Rightarrow> 'k \<Rightarrow> ('r \<Rightarrow> 'r) \<Rightarrow> 'r list \<Rightarrow> 'r list" where
  "row_upd key k f rows = map (\<lambda>r. if key r = k then f r else r) rows"

definition row_add :: "'r \<Rightarrow> 'r list \<Rightarrow> 'r list" where
  "row_add r rows = rows @ [r]"

definition row_del :: "('r \<Rightarrow> 'k) \<Rightarrow> 'k \<Rightarrow> 'r list \<Rightarrow> 'r list" where
  "row_del key k rows = filter (\<lambda>r. key r \<noteq> k) rows"

definition keys_unique :: "('r \<Rightarrow> 'k) \<Rightarrow> 'r list \<Rightarrow> bool" where
  "keys_unique key rows \<longleftrightarrow> distinct (map key rows)"

lemma row_get_Nil [simp]: "row_get key k [] = None"
  by (simp add: row_get_def)

lemma row_get_Cons [simp]:
  "row_get key k (r # rows) = (if key r = k then Some r else row_get key k rows)"
  by (simp add: row_get_def)

lemma row_get_Some: "row_get key k rows = Some r \<Longrightarrow> r \<in> set rows \<and> key r = k"
  by (induction rows) (auto split: if_splits)

lemma row_get_None: "row_get key k rows = None \<longleftrightarrow> (\<forall>r \<in> set rows. key r \<noteq> k)"
  by (induction rows) auto

lemma row_get_append: "row_get key k (xs @ ys)
    = (case row_get key k xs of Some r \<Rightarrow> Some r | None \<Rightarrow> row_get key k ys)"
  by (induction xs) simp_all

lemma row_get_unique:
  "keys_unique key rows \<Longrightarrow> r \<in> set rows \<Longrightarrow> row_get key (key r) rows = Some r"
  by (induction rows) (auto simp: keys_unique_def)

lemma row_get_upd [table_simps]:
  assumes "\<And>r. key (f r) = key r"
  shows "row_get key k (row_upd key k' f rows)
    = (if k = k' then map_option f (row_get key k rows) else row_get key k rows)"
  by (induction rows) (auto simp: row_upd_def assms)

lemma row_get_put [table_simps]:
  "key r = k' \<Longrightarrow> row_get key k (row_upd key k' (\<lambda>_. r) rows)
    = (if k = k' then map_option (\<lambda>_. r) (row_get key k rows) else row_get key k rows)"
  by (induction rows) (auto simp: row_upd_def)

lemma row_get_add [table_simps]:
  "row_get key k (row_add r rows)
    = (case row_get key k rows of Some r' \<Rightarrow> Some r' | None \<Rightarrow> if key r = k then Some r else None)"
  by (induction rows) (auto simp: row_add_def)

lemma row_get_del [table_simps]:
  "row_get key k (row_del key k' rows) = (if k = k' then None else row_get key k rows)"
  by (induction rows) (auto simp: row_del_def)

lemma map_key_upd [table_simps]:
  "(\<And>r. key (f r) = key r) \<Longrightarrow> map key (row_upd key k f rows) = map key rows"
  by (simp add: row_upd_def)

lemma keys_unique_upd [table_simps]:
  "(\<And>r. key (f r) = key r) \<Longrightarrow> keys_unique key (row_upd key k f rows) = keys_unique key rows"
  by (simp add: keys_unique_def map_key_upd)

lemma keys_unique_add [table_simps]:
  "keys_unique key (row_add r rows) \<longleftrightarrow> keys_unique key rows \<and> row_get key (key r) rows = None"
  by (auto simp: keys_unique_def row_add_def row_get_None image_iff)

lemma keys_unique_del: "keys_unique key rows \<Longrightarrow> keys_unique key (row_del key k rows)"
  by (simp add: keys_unique_def row_del_def distinct_map_filter)

lemma set_row_upd: "set (row_upd key k f rows) = (\<lambda>r. if key r = k then f r else r) ` set rows"
  by (simp add: row_upd_def)

lemma row_upd_absent: "row_get key k rows = None \<Longrightarrow> row_upd key k f rows = rows"
  by (auto simp: row_upd_def row_get_None intro: map_idI)

section \<open>Lists\<close>

lemma find_SomeD: "find P xs = Some x \<Longrightarrow> P x \<and> x \<in> set xs"
  by (induction xs) (auto split: if_splits)

lemma enumerate_snoc: "enumerate n (xs @ [x]) = enumerate n xs @ [(n + length xs, x)]"
  by (simp add: enumerate_append_eq)

lemma in_enumerateD: "(n, x) \<in> set (enumerate k xs) \<Longrightarrow> x \<in> set xs"
  by (induction xs arbitrary: k) auto

lemma in_enumerateI: "x \<in> set xs \<Longrightarrow> \<exists>n. (n, x) \<in> set (enumerate k xs)"
  by (induction xs arbitrary: k) auto

text \<open>Python's \<^verbatim>\<open>enumerate\<close> with the index first, and \<^verbatim>\<open>max(xs, key=f)\<close>: the first maximal element.\<close>

fun max_by :: "('a \<Rightarrow> 'b::linorder) \<Rightarrow> 'a list \<Rightarrow> 'a option" where
  "max_by f [] = None"
| "max_by f (x # xs) = (case max_by f xs of None \<Rightarrow> Some x
     | Some y \<Rightarrow> if f y > f x then Some y else Some x)"

lemma max_by_None [simp]: "max_by f xs = None \<longleftrightarrow> xs = []"
  by (cases xs) (auto split: option.splits if_splits)

lemma max_by_Some: "max_by f xs = Some m \<Longrightarrow> m \<in> set xs \<and> (\<forall>x \<in> set xs. f x \<le> f m)"
proof (induction xs arbitrary: m)
  case (Cons x xs)
  then show ?case
    by (cases "max_by f xs") (auto split: if_splits)
qed simp

lemma sorted_wrt_snoc: "sorted_wrt P (xs @ [x]) \<longleftrightarrow> sorted_wrt P xs \<and> (\<forall>y \<in> set xs. P y x)"
  by (simp add: sorted_wrt_append)

end
