(* ===== verification/PyText.thy ===== *)
theory PyText
  imports Prelude
begin

text \<open>
  Python text: a \<^verbatim>\<open>str\<close> is the list of its code points, compared lexicographically.
  The whitespace set is the one \<^verbatim>\<open>str.isspace\<close>, \<^verbatim>\<open>str.strip\<close> and the regular expression
  class \<^verbatim>\<open>\s\<close> share. The Unicode database (NFKC, case folding, decimal digits) is a
  record of functions every operation that uses it takes; \<open>ascii_unicode\<close> is the
  instance that is exact on ASCII and on precomposed Hangul.
\<close>

type_synonym pystr = "nat list"

definition lit :: "string \<Rightarrow> pystr" where
  "lit s = map of_char s"

definition py_isspace :: "nat \<Rightarrow> bool" where
  "py_isspace c \<longleftrightarrow> (9 \<le> c \<and> c \<le> 13) \<or> (28 \<le> c \<and> c \<le> 32) \<or> c = 133 \<or> c = 160 \<or> c = 5760
     \<or> (8192 \<le> c \<and> c \<le> 8202) \<or> c = 8232 \<or> c = 8233 \<or> c = 8239 \<or> c = 8287 \<or> c = 12288"

section \<open>Stripping and joining\<close>

definition lstrip :: "pystr \<Rightarrow> pystr" where
  "lstrip s = dropWhile py_isspace s"

definition rstrip :: "pystr \<Rightarrow> pystr" where
  "rstrip s = rev (dropWhile py_isspace (rev s))"

definition strip :: "pystr \<Rightarrow> pystr" where
  "strip s = rstrip (lstrip s)"

definition blank :: "pystr \<Rightarrow> bool" where
  "blank s \<longleftrightarrow> strip s = []"

fun join :: "pystr \<Rightarrow> pystr list \<Rightarrow> pystr" where
  "join sep [] = []"
| "join sep [x] = x"
| "join sep (x # y # ys) = x @ sep @ join sep (y # ys)"

text \<open>\<^verbatim>\<open>re.sub(r"\s+", "", s)\<close> deletes exactly the whitespace characters.\<close>

definition squash_spaces :: "pystr \<Rightarrow> pystr" where
  "squash_spaces s = filter (\<lambda>c. \<not> py_isspace c) s"

definition contains :: "pystr \<Rightarrow> pystr \<Rightarrow> bool" where
  "contains needle hay \<longleftrightarrow> sublist needle hay"

text \<open>The value of \<^verbatim>\<open>a or b\<close> for an optional string: the empty string is false.\<close>

fun truthy :: "pystr option \<Rightarrow> pystr option" where
  "truthy (Some []) = None"
| "truthy v = v"

definition removeprefix :: "pystr \<Rightarrow> pystr \<Rightarrow> pystr" where
  "removeprefix p s = (if prefix p s then drop (length p) s else s)"

lemma rstrip_Nil_iff: "rstrip s = [] \<longleftrightarrow> (\<forall>c \<in> set s. py_isspace c)"
  by (simp add: rstrip_def)

lemma lstrip_Nil_iff: "lstrip s = [] \<longleftrightarrow> (\<forall>c \<in> set s. py_isspace c)"
  by (simp add: lstrip_def)

lemma strip_Nil_iff: "strip s = [] \<longleftrightarrow> (\<forall>c \<in> set s. py_isspace c)"
proof -
  have "(\<forall>c \<in> set (lstrip s). py_isspace c) \<longleftrightarrow> (\<forall>c \<in> set s. py_isspace c)"
    unfolding lstrip_def
    by (metis dropWhile_eq_Nil_conv hd_dropWhile hd_in_set empty_iff list.set(1))
  then show ?thesis
    by (simp add: strip_def rstrip_Nil_iff)
qed

lemma lstrip_idem [simp]: "lstrip (lstrip s) = lstrip s"
  by (simp add: lstrip_def)

lemma rstrip_idem [simp]: "rstrip (rstrip s) = rstrip s"
  by (simp add: rstrip_def)

lemma hd_rstrip: "rstrip s \<noteq> [] \<Longrightarrow> hd (rstrip s) = hd s"
proof -
  assume a: "rstrip s \<noteq> []"
  obtain t where "s = rstrip s @ t"
    unfolding rstrip_def
    by (metis rev_append rev_rev_ident takeWhile_dropWhile_id)
  then show ?thesis
    using a by (metis hd_append2)
qed

lemma lstrip_fixed: "s = [] \<or> \<not> py_isspace (hd s) \<Longrightarrow> lstrip s = s"
  by (cases s) (auto simp: lstrip_def)

lemma strip_idem [simp]: "strip (strip s) = strip s"
proof -
  have "lstrip (rstrip (lstrip s)) = rstrip (lstrip s)"
  proof (rule lstrip_fixed, rule disjCI)
    assume "\<not> \<not> py_isspace (hd (rstrip (lstrip s)))"
    then show "rstrip (lstrip s) = []"
      by (metis hd_rstrip hd_dropWhile lstrip_def rstrip_Nil_iff empty_iff list.set(1))
  qed
  then show ?thesis
    by (simp add: strip_def)
qed

lemma strip_Nil [simp]: "strip [] = []"
  by (simp add: strip_def lstrip_def rstrip_def)

lemma set_strip: "set (strip s) \<subseteq> set s"
  unfolding strip_def lstrip_def rstrip_def
  by (auto dest!: set_dropWhileD)

lemma length_strip: "length (strip s) \<le> length s"
  unfolding strip_def lstrip_def rstrip_def
  by (metis length_dropWhile_le length_rev order_trans)

lemma sublist_rstrip: "sublist (rstrip s) s"
  unfolding rstrip_def
  by (metis rev_rev_ident sublist_rev suffix_dropWhile suffix_imp_sublist)

lemma sublist_lstrip: "sublist (lstrip s) s"
  unfolding lstrip_def by (simp add: suffix_dropWhile suffix_imp_sublist)

lemma contains_strip: "contains (strip s) s"
  unfolding contains_def strip_def
  by (meson sublist_lstrip sublist_rstrip sublist_order.order_trans)

lemma contains_trans: "contains a b \<Longrightarrow> contains b c \<Longrightarrow> contains a c"
  unfolding contains_def by (rule sublist_order.order_trans)

lemma contains_Nil [simp]: "contains [] s"
  by (simp add: contains_def)

lemma squash_append [simp]: "squash_spaces (s @ t) = squash_spaces s @ squash_spaces t"
  by (simp add: squash_spaces_def)

lemma squash_idem [simp]: "squash_spaces (squash_spaces s) = squash_spaces s"
  by (simp add: squash_spaces_def)

section \<open>Unicode\<close>

record unicode =
  uc_nfkc :: "pystr \<Rightarrow> pystr"
  uc_casefold :: "pystr \<Rightarrow> pystr"
  uc_lower :: "pystr \<Rightarrow> pystr"
  uc_decimal :: "nat \<Rightarrow> nat option"

definition ascii_lower :: "nat \<Rightarrow> nat" where
  "ascii_lower c = (if 65 \<le> c \<and> c \<le> 90 then c + 32 else c)"

definition ascii_decimal :: "nat \<Rightarrow> nat option" where
  "ascii_decimal c = (if 48 \<le> c \<and> c \<le> 57 then Some (c - 48) else None)"

definition ascii_unicode :: unicode where
  "ascii_unicode = \<lparr>uc_nfkc = id, uc_casefold = map ascii_lower, uc_lower = map ascii_lower,
     uc_decimal = ascii_decimal\<rparr>"

section \<open>Numbers and identifiers as text\<close>

fun nat_str :: "nat \<Rightarrow> pystr" where
  "nat_str n = (if n < 10 then [48 + n] else nat_str (n div 10) @ [48 + n mod 10])"

declare nat_str.simps [simp del]

definition hex_digit :: "nat \<Rightarrow> nat" where
  "hex_digit d = (if d < 10 then 48 + d else 87 + d)"

fun hex_str :: "nat \<Rightarrow> nat \<Rightarrow> pystr" where
  "hex_str 0 n = []"
| "hex_str (Suc w) n = hex_str w (n div 16) @ [hex_digit (n mod 16)]"

text \<open>\<^verbatim>\<open>str(uuid)\<close>: 8-4-4-4-12 lower-case hexadecimal digits.\<close>

definition uuid_str :: "uuid \<Rightarrow> pystr" where
  "uuid_str u = (let h = hex_str 32 (unat u) in
     take 8 h @ [45] @ take 4 (drop 8 h) @ [45] @ take 4 (drop 12 h) @ [45]
       @ take 4 (drop 16 h) @ [45] @ drop 20 h)"

lemma hex_digit_inj: "d < 16 \<Longrightarrow> e < 16 \<Longrightarrow> hex_digit d = hex_digit e \<longleftrightarrow> d = e"
  by (auto simp: hex_digit_def split: if_splits)

lemma length_hex_str [simp]: "length (hex_str w n) = w"
  by (induction w arbitrary: n) auto

lemma hex_str_inj: "m < 16 ^ w \<Longrightarrow> n < 16 ^ w \<Longrightarrow> hex_str w m = hex_str w n \<longleftrightarrow> m = n"
proof (induction w arbitrary: m n)
  case (Suc w)
  have "m div 16 < 16 ^ w" "n div 16 < 16 ^ w"
    using Suc.prems by (auto simp: less_mult_imp_div_less mult.commute)
  then have "hex_str w (m div 16) = hex_str w (n div 16) \<longleftrightarrow> m div 16 = n div 16"
    by (rule Suc.IH)
  moreover have "hex_digit (m mod 16) = hex_digit (n mod 16) \<longleftrightarrow> m mod 16 = n mod 16"
    by (rule hex_digit_inj) simp_all
  ultimately show ?case
    by simp (metis mult_div_mod_eq)
qed auto

lemma hex_digit_not_dash: "d < 16 \<Longrightarrow> hex_digit d \<noteq> 45"
  by (auto simp: hex_digit_def)

lemma uuid_str_inj: "uuid_str u = uuid_str v \<longleftrightarrow> u = v"
proof
  assume eq: "uuid_str u = uuid_str v"
  define h where "h = hex_str 32 (unat u)"
  define k where "k = hex_str 32 (unat v)"
  have len: "length h = 32" "length k = 32"
    by (simp_all add: h_def k_def)
  have parts: "take 8 h = take 8 k" "take 4 (drop 8 h) = take 4 (drop 8 k)"
    "take 4 (drop 12 h) = take 4 (drop 12 k)" "take 4 (drop 16 h) = take 4 (drop 16 k)"
    "drop 20 h = drop 20 k"
    using eq len by (auto simp: uuid_str_def Let_def h_def [symmetric] k_def [symmetric])
  have split: "x = take 8 x @ take 4 (drop 8 x) @ take 4 (drop 12 x) @ take 4 (drop 16 x) @ drop 20 x"
    for x :: pystr
    using append_take_drop_id [of 8 x] append_take_drop_id [of 4 "drop 8 x"]
      append_take_drop_id [of 4 "drop 12 x"] append_take_drop_id [of 4 "drop 16 x"] by simp
  have "h = k"
    using parts split by metis
  moreover have "unat u < 16 ^ 32" "unat v < 16 ^ 32"
    using unsigned_less [of u] unsigned_less [of v] by simp_all
  ultimately have "unat u = unat v"
    unfolding h_def k_def using hex_str_inj by blast
  then show "u = v"
    by (rule unsigned_word_eqI)
qed simp

lemma length_uuid_str [simp]: "length (uuid_str u) = 36"
  by (simp add: uuid_str_def Let_def)

section \<open>The runtime\<close>

text \<open>
  What the operations take from the Python library beyond the text functions above:
  the Unicode database, \<^verbatim>\<open>datetime.fromisoformat\<close> (\<open>None\<close> for a \<^verbatim>\<open>ValueError\<close>),
  \<^verbatim>\<open>isoformat\<close> of a UTC datetime, \<^verbatim>\<open>uuid5(NAMESPACE_URL, name)\<close> and \<^verbatim>\<open>UUID(text)\<close>.
\<close>

record runtime =
  rt_unicode :: unicode
  rt_fromisoformat :: "pystr \<Rightarrow> py_datetime option"
  rt_isoformat :: "instant \<Rightarrow> pystr"
  rt_uuid5 :: "pystr \<Rightarrow> uuid"
  rt_parse_uuid :: "pystr \<Rightarrow> uuid option"

text \<open>An instance to evaluate with: ASCII text, the year-month-day form of January dates of the
  first ten years, and a polynomial code for names.\<close>

definition toy_fromisoformat :: "pystr \<Rightarrow> py_datetime option" where
  "toy_fromisoformat s =
     (if length s = 10 \<and> take 3 s = lit ''000'' \<and> take 5 (drop 4 s) = lit ''-01-0''
      then (case (ascii_decimal (s ! 3), ascii_decimal (s ! 9)) of
              (Some y, Some d) \<Rightarrow> if 0 < y \<and> 0 < d
                then Some (Naive (seconds (86400 * (365 * (int y - 1) + (if y > 4 then 1 else 0)
                  + (if y > 8 then 1 else 0) + int d - 1)))) else None
            | _ \<Rightarrow> None)
      else None)"

definition toy_uuid5 :: "pystr \<Rightarrow> uuid" where
  "toy_uuid5 name = foldl (\<lambda>h c. h * 257 + of_nat c) 7 name"

definition toy_runtime :: runtime where
  "toy_runtime = \<lparr>rt_unicode = ascii_unicode, rt_fromisoformat = toy_fromisoformat,
     rt_isoformat = (\<lambda>t. nat_str (nat t)), rt_uuid5 = toy_uuid5, rt_parse_uuid = (\<lambda>_. None)\<rparr>"

end
