(* ===== verification/Ontology.thy ===== *)
theory Ontology
  imports PyText
begin

text \<open>
  The vocabulary of the context engine and the values its stages exchange:
  \<^verbatim>\<open>domain/ontology.py\<close>, \<^verbatim>\<open>domain/extraction.py\<close>, \<^verbatim>\<open>domain/analysis.py\<close>,
  \<^verbatim>\<open>domain/context_store.py\<close> and the graph values of \<^verbatim>\<open>retrieval/domain/models.py\<close>.
  A warning is the message of the code as a constructor with its interpolated values.
\<close>

section \<open>Kinds\<close>

datatype entity_kind = Person | Project | Organization | Meeting | Document | Issue | Task
  | Decision | Event | Technology

datatype relation_kind = WORKS_ON | PARTICIPATED_IN | MENTIONED_IN | CREATED | ASSIGNED_TO
  | RELATED_TO | DECIDED_IN | RESULTED_IN | BLOCKED_BY | DUE_ON

datatype context_kind = CtxEvent | CtxDecision | CtxTask | CtxIssue | CtxFact | CtxSummary

datatype source_type = StMeeting | StDecisionRecord | StPlan | StReport | StSpec | StOther

text \<open>The order in which \<^verbatim>\<open>for kind in EntityKind\<close> visits the members.\<close>

definition entity_kinds :: "entity_kind list" where
  "entity_kinds = [Person, Project, Organization, Meeting, Document, Issue, Task, Decision,
     Event, Technology]"

fun entity_kind_value :: "entity_kind \<Rightarrow> pystr" where
  "entity_kind_value Person = lit ''Person''"
| "entity_kind_value Project = lit ''Project''"
| "entity_kind_value Organization = lit ''Organization''"
| "entity_kind_value Meeting = lit ''Meeting''"
| "entity_kind_value Document = lit ''Document''"
| "entity_kind_value Issue = lit ''Issue''"
| "entity_kind_value Task = lit ''Task''"
| "entity_kind_value Decision = lit ''Decision''"
| "entity_kind_value Event = lit ''Event''"
| "entity_kind_value Technology = lit ''Technology''"

fun relation_kind_value :: "relation_kind \<Rightarrow> pystr" where
  "relation_kind_value WORKS_ON = lit ''WORKS_ON''"
| "relation_kind_value PARTICIPATED_IN = lit ''PARTICIPATED_IN''"
| "relation_kind_value MENTIONED_IN = lit ''MENTIONED_IN''"
| "relation_kind_value CREATED = lit ''CREATED''"
| "relation_kind_value ASSIGNED_TO = lit ''ASSIGNED_TO''"
| "relation_kind_value RELATED_TO = lit ''RELATED_TO''"
| "relation_kind_value DECIDED_IN = lit ''DECIDED_IN''"
| "relation_kind_value RESULTED_IN = lit ''RESULTED_IN''"
| "relation_kind_value BLOCKED_BY = lit ''BLOCKED_BY''"
| "relation_kind_value DUE_ON = lit ''DUE_ON''"

fun context_kind_value :: "context_kind \<Rightarrow> pystr" where
  "context_kind_value CtxEvent = lit ''event''"
| "context_kind_value CtxDecision = lit ''decision''"
| "context_kind_value CtxTask = lit ''task''"
| "context_kind_value CtxIssue = lit ''issue''"
| "context_kind_value CtxFact = lit ''fact''"
| "context_kind_value CtxSummary = lit ''summary''"

fun source_type_value :: "source_type \<Rightarrow> pystr" where
  "source_type_value StMeeting = lit ''meeting''"
| "source_type_value StDecisionRecord = lit ''decision_record''"
| "source_type_value StPlan = lit ''plan''"
| "source_type_value StReport = lit ''report''"
| "source_type_value StSpec = lit ''spec''"
| "source_type_value StOther = lit ''other''"

definition event_stage_kinds :: "entity_kind list" where
  "event_stage_kinds = [Meeting, Event, Decision, Task, Issue]"

lemma entity_kind_value_inj: "entity_kind_value k = entity_kind_value k' \<longleftrightarrow> k = k'"
  by (cases k; cases k') (simp_all add: lit_def)

lemma entity_kind_value_no_colon: "58 \<notin> set (entity_kind_value k)"
  by (cases k) (simp_all add: lit_def)

lemma relation_kind_value_inj: "relation_kind_value k = relation_kind_value k' \<longleftrightarrow> k = k'"
  by (cases k; cases k') (simp_all add: lit_def)

lemma set_entity_kinds: "set entity_kinds = UNIV"
proof -
  have "k \<in> set entity_kinds" for k
    by (cases k) (simp_all add: entity_kinds_def)
  then show ?thesis
    by auto
qed

section \<open>Warnings\<close>

datatype warning =
    NoSourceRef pystr pystr
  | UnknownRelationEnd pystr pystr pystr
  | UnverifiedRef pystr
  | NotAMeeting pystr
  | PlanningWithoutRef
  | EmptyEntityName pystr
  | AmbiguousHomonym pystr
  | SupersederUnclear pystr
  | SupersedesItself pystr
  | SupersededUnclear pystr
  | AlreadySuperseded pystr
  | AmbiguousEndpoint pystr
  | RelationDropped pystr pystr
  | EndBeforeStart pystr pystr
  | CloseTargetMissing pystr pystr
  | CloseUngrounded pystr pystr
  | SummaryFull
  | AnalysisSkipped pystr
  | GraphNotConfigured
  | AmbiguousNode pystr
  | SupersededNotFound pystr

section \<open>Extraction values\<close>

record classification_output =
  cl_source_type :: source_type
  cl_language :: pystr
  cl_topics :: "pystr list"

record extracted_entity =
  en_name :: pystr
  en_kind :: entity_kind
  en_aliases :: "pystr list"
  en_identifiers :: "pystr list"
  en_source_refs :: "pystr list"

record extracted_event =
  ev_name :: pystr
  ev_kind :: entity_kind
  ev_description :: pystr
  ev_occurred_at :: "pystr option"
  ev_due_at :: "pystr option"
  ev_supersedes :: "pystr option"
  ev_source_refs :: "pystr list"

record extracted_relation =
  re_source :: pystr
  re_target :: pystr
  re_kind :: relation_kind
  re_valid_from :: "pystr option"
  re_valid_to :: "pystr option"
  re_source_refs :: "pystr list"

record extracted_context =
  cx_kind :: context_kind
  cx_title :: pystr
  cx_body :: pystr
  cx_occurred_at :: "pystr option"
  cx_source_refs :: "pystr list"

record extraction_result =
  xr_classification :: classification_output
  xr_entities :: "extracted_entity list"
  xr_events :: "extracted_event list"
  xr_relations :: "extracted_relation list"
  xr_contexts :: "extracted_context list"
  xr_warnings :: "warning list"
  xr_usage :: "(pystr \<times> int) list"

section \<open>Analysis values\<close>

definition schema_version :: pystr where
  "schema_version = lit ''1''"

record analysis_item =
  ai_title :: pystr
  ai_description :: pystr
  ai_source_refs :: "pystr list"

record decision_item = analysis_item +
  di_decided_at :: "pystr option"
  di_supersedes :: "pystr option"

record action_item = analysis_item +
  ac_assignee :: "pystr option"
  ac_due_at :: "pystr option"

record named_entity =
  ne_name :: pystr
  ne_kind :: pystr
  ne_source_refs :: "pystr list"

record schedule_item =
  sc_milestone :: pystr
  sc_date :: "pystr option"

record planning_brief =
  pb_project :: "pystr option"
  pb_goal :: "pystr option"
  pb_owners :: "pystr list"
  pb_schedule :: "schedule_item list"
  pb_related_systems :: "pystr list"
  pb_source_refs :: "pystr list"

record meeting_analysis =
  ma_schema_version :: pystr
  ma_meeting_title :: "pystr option"
  ma_occurred_at :: "pystr option"
  ma_participants :: "pystr list"
  ma_summary :: pystr
  ma_decisions :: "decision_item list"
  ma_action_items :: "action_item list"
  ma_issues :: "analysis_item list"
  ma_warnings :: "warning list"
  ma_usage :: "(pystr \<times> int) list"

record document_analysis =
  da_schema_version :: pystr
  da_title :: "pystr option"
  da_source_type :: source_type
  da_summary :: pystr
  da_projects :: "pystr list"
  da_entities :: "named_entity list"
  da_issues :: "analysis_item list"
  da_tasks :: "action_item list"
  da_decisions :: "decision_item list"
  da_planning :: "planning_brief option"
  da_warnings :: "warning list"
  da_usage :: "(pystr \<times> int) list"

section \<open>Context Store values\<close>

record store_item =
  si_title :: pystr
  si_description :: pystr
  si_source_refs :: "pystr list"
  si_source_id :: "pystr option"

record store_decision = store_item +
  sd_decided_at :: "pystr option"

record store_action = store_item +
  sa_assignee :: "pystr option"
  sa_due_at :: "pystr option"

record context_store_state =
  cs_subject :: pystr
  cs_summary :: pystr
  cs_current_state :: pystr
  cs_open_issues :: "store_item list"
  cs_decisions :: "store_decision list"
  cs_next_actions :: "store_action list"
  cs_source_ids :: "pystr list"
  cs_updated_at :: "instant option"

text \<open>\<^verbatim>\<open>ContextStoreState(subject=subject)\<close>: every other field at its default.\<close>

definition empty_state :: "pystr \<Rightarrow> context_store_state" where
  "empty_state subject = \<lparr>cs_subject = subject, cs_summary = [], cs_current_state = [],
     cs_open_issues = [], cs_decisions = [], cs_next_actions = [], cs_source_ids = [],
     cs_updated_at = None\<rparr>"

record resolution =
  rs_title :: pystr
  rs_source_refs :: "pystr list"

record context_update_output =
  cu_summary :: pystr
  cu_current_state :: pystr
  cu_resolved_issues :: "resolution list"
  cu_completed_actions :: "resolution list"

section \<open>Graph values\<close>

record graph_evidence =
  gv_source_id :: uuid
  gv_chunk_id :: "uuid option"
  gv_timestamp :: "py_datetime option"

record graph_entity =
  ge_id :: uuid
  ge_workspace_id :: uuid
  ge_kind :: pystr
  ge_name :: pystr
  ge_evidence :: graph_evidence
  ge_aliases :: "pystr list"
  ge_keys :: "pystr list"
  ge_identifiers :: "pystr list"
  ge_superseded_by :: "uuid option"

record graph_relation =
  gr_id :: uuid
  gr_workspace_id :: uuid
  gr_source_entity_id :: uuid
  gr_target_entity_id :: uuid
  gr_kind :: pystr
  gr_evidence :: graph_evidence
  gr_valid_from :: "instant option"
  gr_valid_to :: "instant option"

end
