(* ===== verification/Providers.thy ===== *)
theory Providers
  imports Complex_Main Ontology
begin

text \<open>
  The values exchanged with model providers (\<^verbatim>\<open>context_engine/application/provider.py\<close>) and the
  provider interface the pipelines call. A provider is a record of functions: what it
  answers is not under the program's control, so every result about a pipeline holds for
  all of them. JSON values are a datatype; \<^verbatim>\<open>json.dumps\<close> and the pydantic validators of the
  output models are parameters.
\<close>

text \<open>A Python \<^verbatim>\<open>float\<close> that the code only compares, adds and divides is a rational.\<close>

type_synonym py_float = rat

datatype json = JNull | JBool bool | JInt int | JStr pystr | JArr "json list"
  | JObj "(pystr \<times> json) list"

fun jopt :: "pystr option \<Rightarrow> json" where
  "jopt None = JNull"
| "jopt (Some s) = JStr s"

definition jstrs :: "pystr list \<Rightarrow> json" where
  "jstrs xs = JArr (map JStr xs)"

section \<open>Requests and responses\<close>

record model_info =
  mi_id :: pystr
  mi_created :: "py_datetime option"
  mi_shutdown_date :: "int option"
  mi_roles :: "pystr list option"

record chat_message =
  cm_role :: pystr
  cm_content :: pystr

record chat_request =
  cq_messages :: "chat_message list"
  cq_model :: pystr
  cq_temperature :: "py_float option"
  cq_max_tokens :: "int option"
  cq_provider_options :: "(pystr \<times> json) list"

record chat_response =
  cr_text :: pystr
  cr_model :: pystr
  cr_provider :: pystr
  cr_usage :: "(pystr \<times> int) list"
  cr_provider_metadata :: "(pystr \<times> json) list"

record embedding_request =
  eq_input :: "pystr list"
  eq_model :: pystr
  eq_dimensions :: "int option"
  eq_provider_options :: "(pystr \<times> json) list"

record embedding_response =
  er_embeddings :: "py_float list list"
  er_model :: pystr
  er_provider :: pystr
  er_usage :: "(pystr \<times> int) list"

record transcription_request =
  tq_audio :: "8 word list"
  tq_filename :: pystr
  tq_content_type :: pystr
  tq_model :: pystr
  tq_language :: "pystr option"

record transcription_segment =
  ts_text :: pystr
  ts_start_seconds :: py_float
  ts_end_seconds :: py_float
  ts_speaker :: "pystr option"

record transcription_response =
  tr_text :: pystr
  tr_model :: pystr
  tr_provider :: pystr
  tr_language :: "pystr option"
  tr_duration_seconds :: "py_float option"
  tr_segments :: "transcription_segment list"

record structured_request =
  sq_messages :: "chat_message list"
  sq_model :: pystr
  sq_schema_name :: pystr
  sq_json_schema :: json
  sq_temperature :: "py_float option"

record structured_response =
  sr_data :: json
  sr_model :: pystr
  sr_provider :: pystr
  sr_usage :: "(pystr \<times> int) list"

section \<open>The provider interface\<close>

text \<open>What the classification asks of an exception: its class (with the fields of that class), its
  type name and its \<^verbatim>\<open>capability\<close> and \<^verbatim>\<open>provider\<close> attributes, if it has them.\<close>

datatype exc_class =
    MissingCapabilityCredential "pystr list"
  | IngestionErr
  | ExtractionErr pystr
  | HttpStatusErr int
  | HttpTimeoutErr
  | HttpConnectErr
  | ProviderErr "int option"
  | DbApiErr
  | OtherErr

record exc =
  ex_class :: exc_class
  ex_type :: pystr
  ex_capability :: "pystr option"
  ex_provider :: "pystr option"

text \<open>A raised exception is the non-empty list of itself and its \<^verbatim>\<open>__cause__\<close> chain.\<close>

type_synonym raised = "exc list"

text \<open>A \<^verbatim>\<open>ProviderError\<close> is its message and the exception with its causes;
  \<^verbatim>\<open>UnsupportedStructuredFormatError\<close> is the subclass a pipeline treats apart.\<close>

datatype provider_error = UnsupportedStructuredFormat pystr raised | ProviderError pystr raised

fun provider_message :: "provider_error \<Rightarrow> pystr" where
  "provider_message (UnsupportedStructuredFormat msg r) = msg"
| "provider_message (ProviderError msg r) = msg"

fun provider_raised :: "provider_error \<Rightarrow> raised" where
  "provider_raised (UnsupportedStructuredFormat msg r) = r"
| "provider_raised (ProviderError msg r) = r"

text \<open>The last three operations take the API key as an argument; the pipelines below hold one key, so
  the key of a chat is part of the function.\<close>

datatype capability = CapChat | CapStructuredOutput | CapEmbedding | CapTranscription | CapStream

record adapter =
  ad_id :: pystr
  ad_display_name :: pystr
  ad_capabilities :: "capability list"
  ad_chat :: "chat_request \<Rightarrow> provider_error + chat_response"
  ad_structured_output :: "structured_request \<Rightarrow> provider_error + structured_response"
  ad_embedding :: "embedding_request \<Rightarrow> pystr \<Rightarrow> provider_error + embedding_response"
  ad_transcribe :: "transcription_request \<Rightarrow> pystr \<Rightarrow> provider_error + transcription_response"
  ad_list_model_infos :: "pystr \<Rightarrow> provider_error + model_info list"

text \<open>A pydantic output model: its schema and its two validators, which report an error count.\<close>

record 'o output_type =
  ot_schema :: json
  ot_validate :: "json \<Rightarrow> nat + 'o"
  ot_validate_json :: "pystr \<Rightarrow> nat + 'o"

end
