(* ===== verification/Temporal.thy ===== *)
theory Temporal
  imports Ontology
begin

text \<open>
  Validity intervals of relations (\<^verbatim>\<open>context_engine/application/temporal.py\<close>): parsing of
  instants, overlap and merge of intervals, and \<open>normalize\<close>, which sorts the intervals of
  one relation and folds the overlapping ones. The lemmas show that the result is sorted,
  pairwise separated, and uses only starts and ends its sources stated.
\<close>

section \<open>Instants\<close>

text \<open>\<open>fromiso\<close> is \<^verbatim>\<open>datetime.fromisoformat\<close>: \<open>None\<close> where it raises \<^verbatim>\<open>ValueError\<close>.\<close>

definition parse_instant ::
  "(pystr \<Rightarrow> py_datetime option) \<Rightarrow> pystr option \<Rightarrow> py_error + instant option" where
  "parse_instant fromiso v = (case v of
     None \<Rightarrow> Inr None
   | Some s \<Rightarrow>
       if blank s then Inr None
       else (case fromiso (strip s) of
               None \<Rightarrow> Inr None
             | Some parsed \<Rightarrow> rbind (astimezone_utc parsed) (\<lambda>t. Inr (Some t))))"

definition as_utc :: "py_datetime option \<Rightarrow> py_error + instant option" where
  "as_utc v = (case v of None \<Rightarrow> Inr None
     | Some d \<Rightarrow> rbind (astimezone_utc d) (\<lambda>t. Inr (Some t)))"

lemma parse_instant_blank [simp]: "blank s \<Longrightarrow> parse_instant fromiso (Some s) = Inr None"
  by (simp add: parse_instant_def)

lemma parse_instant_None [simp]: "parse_instant fromiso None = Inr None"
  by (simp add: parse_instant_def)

lemma astimezone_utc_error:
  "astimezone_utc d = Inl e \<longleftrightarrow>
    (\<exists>t offset. d = Aware t offset \<and> \<not> in_datetime_range (t - offset) \<and> e = OverflowError)"
  by (cases d) auto

lemma parse_instant_error_iff:
  "parse_instant fromiso v = Inl e \<longleftrightarrow>
    (\<exists>s t offset. v = Some s \<and> \<not> blank s \<and> fromiso (strip s) = Some (Aware t offset)
      \<and> \<not> in_datetime_range (t - offset) \<and> e = OverflowError)"
  by (auto simp: parse_instant_def rbind_Inl_iff astimezone_utc_error split: option.splits)

text \<open>\<open>fromisoformat\<close> only returns readings inside the calendar.\<close>

definition calendar_parser :: "(pystr \<Rightarrow> py_datetime option) \<Rightarrow> bool" where
  "calendar_parser fromiso \<longleftrightarrow> (\<forall>s t. fromiso s = Some (Naive t) \<longrightarrow> in_datetime_range t)"

lemma parse_instant_in_range:
  assumes "parse_instant fromiso v = Inr (Some t)" and "calendar_parser fromiso"
  shows "in_datetime_range t"
proof (cases v)
  case (Some s)
  with assms(1) obtain d where d: "fromiso (strip s) = Some d" "astimezone_utc d = Inr t"
    by (auto simp: parse_instant_def rbind_Inr_iff split: if_splits option.splits)
  then show ?thesis
    using assms(2) by (cases d) (auto simp: calendar_parser_def split: if_splits)
qed (use assms(1) in simp)

section \<open>Intervals\<close>

record interval =
  valid_from :: "instant option"
  valid_to :: "instant option"

fun at_most :: "instant option \<Rightarrow> instant option \<Rightarrow> bool" where
  "at_most (Some s) (Some e) \<longleftrightarrow> s \<le> e"
| "at_most _ _ \<longleftrightarrow> True"

definition overlaps :: "interval \<Rightarrow> interval \<Rightarrow> bool" where
  "overlaps a b \<longleftrightarrow> at_most (valid_from a) (valid_to b) \<and> at_most (valid_from b) (valid_to a)"

fun known :: "(instant \<Rightarrow> instant \<Rightarrow> instant) \<Rightarrow> instant option \<Rightarrow> instant option \<Rightarrow> instant option" where
  "known f (Some a) (Some b) = Some (f a b)"
| "known f (Some a) None = Some a"
| "known f None b = b"

definition merge :: "interval \<Rightarrow> interval \<Rightarrow> interval" where
  "merge a b = \<lparr>valid_from = known min (valid_from a) (valid_from b),
     valid_to = known max (valid_to a) (valid_to b)\<rparr>"

definition start_key :: "interval \<Rightarrow> instant" where
  "start_key i = (case valid_from i of Some s \<Rightarrow> s | None \<Rightarrow> datetime_min)"

definition normalize_step :: "interval list \<Rightarrow> interval \<Rightarrow> interval list" where
  "normalize_step result i =
     (if result \<noteq> [] \<and> overlaps (last result) i
      then butlast result @ [merge (last result) i]
      else result @ [i])"

definition normalize :: "interval list \<Rightarrow> interval list" where
  "normalize intervals = foldl normalize_step [] (sort_key start_key intervals)"

lemma overlaps_sym: "overlaps a b \<longleftrightarrow> overlaps b a"
  by (auto simp: overlaps_def)

lemma merge_commute: "merge a b = merge b a"
  by (cases "valid_from a"; cases "valid_from b"; cases "valid_to a"; cases "valid_to b")
    (simp_all add: merge_def min.commute max.commute)

lemma merge_assoc: "merge (merge a b) c = merge a (merge b c)"
  by (cases "valid_from a"; cases "valid_from b"; cases "valid_from c";
      cases "valid_to a"; cases "valid_to b"; cases "valid_to c")
    (simp_all add: merge_def min.assoc max.assoc)

lemma merge_idem [simp]: "merge a a = a"
  by (cases "valid_from a"; cases "valid_to a") (simp_all add: merge_def)

section \<open>Well-formed input\<close>

text \<open>A stated end is not before a stated start, and no start precedes the calendar;
  \<open>resolve_extraction\<close> establishes both before it calls \<open>normalize\<close>.\<close>

definition wf_interval :: "interval \<Rightarrow> bool" where
  "wf_interval i \<longleftrightarrow> at_most (valid_from i) (valid_to i)
     \<and> at_most (Some datetime_min) (valid_from i) \<and> at_most (Some datetime_min) (valid_to i)"

text \<open>\<open>before a b\<close>: \<open>a\<close> has a stated end, and \<open>b\<close> a stated start after it.\<close>

fun strictly_less :: "instant option \<Rightarrow> instant option \<Rightarrow> bool" where
  "strictly_less (Some e) (Some s) \<longleftrightarrow> e < s"
| "strictly_less _ _ \<longleftrightarrow> False"

definition before :: "interval \<Rightarrow> interval \<Rightarrow> bool" where
  "before a b \<longleftrightarrow> strictly_less (valid_to a) (valid_from b)"

definition separated :: "interval list \<Rightarrow> bool" where
  "separated xs \<longleftrightarrow> (\<forall>i \<in> set xs. wf_interval i) \<and> sorted_wrt before xs"

lemma before_not_overlaps: "before a b \<Longrightarrow> \<not> overlaps a b"
  by (cases "valid_to a"; cases "valid_from b") (auto simp: before_def overlaps_def)

lemma not_overlaps_before:
  assumes "wf_interval a" "wf_interval b" "start_key a \<le> start_key b" "\<not> overlaps a b"
  shows "before a b"
  using assms
  by (cases "valid_from a"; cases "valid_to a"; cases "valid_from b"; cases "valid_to b")
    (auto simp: wf_interval_def start_key_def overlaps_def before_def)

lemma wf_merge:
  assumes "wf_interval a" "wf_interval b" "overlaps a b"
  shows "wf_interval (merge a b)"
  using assms
  by (cases "valid_from a"; cases "valid_to a"; cases "valid_from b"; cases "valid_to b")
    (auto simp: wf_interval_def overlaps_def merge_def)

lemma start_key_merge_le:
  assumes "wf_interval b" "start_key a \<le> start_key b"
  shows "start_key (merge a b) \<le> start_key b"
  using assms
  by (cases "valid_from a"; cases "valid_from b")
    (auto simp: wf_interval_def start_key_def merge_def)

lemma before_merge:
  assumes "before x a" "wf_interval x" "wf_interval a" "start_key a \<le> start_key b"
  shows "before x (merge a b)"
  using assms
  by (cases "valid_from a"; cases "valid_to x"; cases "valid_from b")
    (auto simp: before_def merge_def start_key_def wf_interval_def)

lemma before_start:
  assumes "before x a" "wf_interval a" "start_key a \<le> start_key b" "valid_from b \<noteq> None"
  shows "before x b"
  using assms
  by (cases "valid_from a"; cases "valid_to x"; cases "valid_from b")
    (auto simp: before_def start_key_def)

section \<open>The fold\<close>

definition fold_ready :: "interval list \<Rightarrow> instant \<Rightarrow> bool" where
  "fold_ready rs k \<longleftrightarrow> separated rs \<and> (rs \<noteq> [] \<longrightarrow> start_key (last rs) \<le> k)"

lemma fold_ready_snoc:
  "fold_ready (rs @ [l]) k \<longleftrightarrow>
    separated rs \<and> wf_interval l \<and> (\<forall>x \<in> set rs. before x l) \<and> start_key l \<le> k"
  by (auto simp: fold_ready_def separated_def sorted_wrt_snoc)

lemma normalize_step_snoc:
  "normalize_step (rs @ [l]) i = (if overlaps l i then rs @ [merge l i] else rs @ [l, i])"
  by (simp add: normalize_step_def)

lemma normalize_step_Nil [simp]: "normalize_step [] i = [i]"
  by (simp add: normalize_step_def)

lemma normalize_step_ready:
  assumes "fold_ready rs (start_key i)" and "wf_interval i"
  shows "fold_ready (normalize_step rs i) (start_key i)"
proof (cases rs rule: rev_cases)
  case Nil
  then show ?thesis
    using assms(2) by (simp add: fold_ready_def separated_def)
next
  case (snoc init l)
  then have r: "separated init" "wf_interval l" "\<forall>x \<in> set init. before x l" "start_key l \<le> start_key i"
    using assms(1) by (simp_all add: fold_ready_snoc)
  show ?thesis
  proof (cases "overlaps l i")
    case True
    then show ?thesis
      using snoc r assms(2)
      by (auto simp: normalize_step_snoc fold_ready_snoc wf_merge start_key_merge_le separated_def
          intro: before_merge)
  next
    case False
    then have b: "before l i"
      using r assms(2) by (intro not_overlaps_before) auto
    then have "valid_from i \<noteq> None"
      by (cases "valid_to l"; cases "valid_from i") (simp_all add: before_def)
    then have "\<forall>x \<in> set init. before x i"
      using r by (auto intro: before_start)
    then have "fold_ready ((init @ [l]) @ [i]) (start_key i)"
      unfolding fold_ready_snoc using r b assms(2) by (auto simp: separated_def sorted_wrt_snoc)
    then show ?thesis
      using snoc False by (simp add: normalize_step_snoc)
  qed
qed

lemma fold_ready_mono: "fold_ready rs k \<Longrightarrow> k \<le> k' \<Longrightarrow> fold_ready rs k'"
  by (auto simp: fold_ready_def)

lemma foldl_normalize_separated:
  assumes "sorted (map start_key xs)" "\<forall>i \<in> set xs. wf_interval i"
    and "xs \<noteq> [] \<longrightarrow> fold_ready rs (start_key (hd xs))" "separated rs"
  shows "separated (foldl normalize_step rs xs)"
  using assms
proof (induction xs arbitrary: rs)
  case (Cons i xs)
  have step: "fold_ready (normalize_step rs i) (start_key i)"
    using Cons.prems by (intro normalize_step_ready) simp_all
  have "xs \<noteq> [] \<longrightarrow> fold_ready (normalize_step rs i) (start_key (hd xs))"
    using Cons.prems(1) step by (cases xs) (auto intro: fold_ready_mono)
  then show ?case
    using Cons step by (simp add: fold_ready_def)
qed simp

lemma normalize_separated:
  assumes "\<forall>i \<in> set xs. wf_interval i"
  shows "separated (normalize xs)"
  unfolding normalize_def
  by (rule foldl_normalize_separated)
    (use assms in \<open>simp_all add: fold_ready_def separated_def\<close>)

lemma separated_sorted:
  assumes "separated xs"
  shows "sorted (map start_key xs)"
proof -
  have "start_key a \<le> start_key b" if "before a b" "wf_interval a" for a b
    using that
    by (cases "valid_from a"; cases "valid_to a"; cases "valid_from b")
      (auto simp: before_def wf_interval_def start_key_def datetime_min_def)
  then show ?thesis
    using assms unfolding separated_def sorted_map
    by (metis (mono_tags, lifting) sorted_wrt_mono_rel)
qed

lemma foldl_normalize_fixed:
  "separated (rs @ xs) \<Longrightarrow> foldl normalize_step rs xs = rs @ xs"
proof (induction xs arbitrary: rs)
  case (Cons i xs)
  have "normalize_step rs i = rs @ [i]"
  proof (cases rs rule: rev_cases)
    case (snoc init l)
    then have "before l i"
      using Cons.prems by (auto simp: separated_def sorted_wrt_append)
    then show ?thesis
      using snoc by (simp add: normalize_step_snoc before_not_overlaps)
  qed simp
  then show ?case
    using Cons by simp
qed simp

lemma sort_key_sorted: "sorted (map f xs) \<Longrightarrow> sort_key f xs = xs"
  by (induction xs) (auto simp: insort_is_Cons)

lemma normalize_fixed: "separated xs \<Longrightarrow> normalize xs = xs"
  using foldl_normalize_fixed [of "[]" xs]
  by (simp add: normalize_def sort_key_sorted separated_sorted)

lemma normalize_ends:
  assumes "i \<in> set (normalize xs)"
  shows "(valid_to i = None \<or> valid_to i \<in> valid_to ` set xs)
    \<and> (valid_from i = None \<or> valid_from i \<in> valid_from ` set xs)"
proof -
  define stated where "stated ys i \<longleftrightarrow> (valid_to i = None \<or> valid_to i \<in> valid_to ` set ys)
    \<and> (valid_from i = None \<or> valid_from i \<in> valid_from ` set ys)" for ys :: "interval list" and i :: interval
  have merge: "stated ys (merge a b)" if "stated ys a" "stated ys b" for ys a b
    using that unfolding stated_def merge_def
    by (cases "valid_from a"; cases "valid_from b"; cases "valid_to a"; cases "valid_to b")
      (auto simp: min_def max_def)
  have all: "\<forall>i \<in> set (foldl normalize_step rs ys). stated xs i"
    if "\<forall>i \<in> set rs. stated xs i" "set ys \<subseteq> set xs" for rs ys
    using that
  proof (induction ys arbitrary: rs)
    case (Cons y ys)
    have "stated xs y"
      using Cons.prems(2) by (auto simp: stated_def)
    then have "\<forall>i \<in> set (normalize_step rs y). stated xs i"
      using Cons.prems(1) merge
      by (cases rs rule: rev_cases) (auto simp: normalize_step_snoc)
    then show ?case
      using Cons by simp
  qed simp
  from all [of "[]" "sort_key start_key xs"] show ?thesis
    using assms by (simp add: normalize_def stated_def)
qed

section \<open>Independence of the input order\<close>

lemma overlaps_same_key:
  assumes "wf_interval a" "wf_interval b" "start_key a = start_key b"
  shows "overlaps a b"
  using assms
  by (cases "valid_from a"; cases "valid_to a"; cases "valid_from b"; cases "valid_to b")
    (auto simp: wf_interval_def start_key_def overlaps_def datetime_min_def)

lemma overlaps_merge_same_key:
  assumes "wf_interval l" "wf_interval a" "wf_interval b" "start_key a = start_key b"
    and "start_key l \<le> start_key a" "overlaps l a"
  shows "overlaps (merge l a) b" and "overlaps l b"
  using assms
  by (cases "valid_from l"; cases "valid_to l"; cases "valid_from a"; cases "valid_to a";
      cases "valid_from b"; cases "valid_to b";
      fastforce simp: wf_interval_def start_key_def overlaps_def merge_def datetime_min_def)+

lemma normalize_step_swap:
  assumes "fold_ready rs (start_key a)" "wf_interval a" "wf_interval b" "start_key a = start_key b"
  shows "normalize_step (normalize_step rs a) b = normalize_step (normalize_step rs b) a"
proof (cases rs rule: rev_cases)
  case Nil
  then show ?thesis
    using overlaps_same_key [OF assms(2,3,4)]
    by (simp add: normalize_step_def overlaps_sym merge_commute)
next
  case (snoc init l)
  then have l: "wf_interval l" "start_key l \<le> start_key a" "start_key l \<le> start_key b"
    using assms by (simp_all add: fold_ready_snoc)
  have ab: "overlaps a b" "overlaps b a"
    using overlaps_same_key assms by simp_all
  have iff: "overlaps l a \<longleftrightarrow> overlaps l b"
    using overlaps_merge_same_key(2) l assms(2,3,4) by metis
  show ?thesis
  proof (cases "overlaps l a")
    case True
    moreover have "overlaps (merge l a) b" "overlaps (merge l b) a"
      using overlaps_merge_same_key(1) l assms(2,3,4) True iff by metis+
    ultimately show ?thesis
      using snoc iff by (simp add: normalize_step_snoc merge_assoc merge_commute [of a b])
  next
    case False
    have "normalize_step (init @ [l, a]) b = init @ [l, merge a b]"
      "normalize_step (init @ [l, b]) a = init @ [l, merge b a]"
      using normalize_step_snoc [of "init @ [l]" a b] normalize_step_snoc [of "init @ [l]" b a] ab
      by simp_all
    then show ?thesis
      using False snoc iff by (simp add: normalize_step_snoc merge_commute)
  qed
qed

lemma foldl_bring_front:
  assumes "fold_ready rs (start_key x)" "\<forall>i \<in> set us. start_key i = start_key x"
    and "\<forall>i \<in> set us. wf_interval i" "wf_interval x"
  shows "foldl normalize_step rs (us @ [x]) = foldl normalize_step rs (x # us)"
  using assms
proof (induction us arbitrary: rs)
  case (Cons u us)
  have "fold_ready (normalize_step rs u) (start_key x)"
    using normalize_step_ready [of rs u] Cons.prems by simp
  then have "foldl normalize_step rs ((u # us) @ [x])
      = foldl normalize_step (normalize_step (normalize_step rs u) x) us"
    using Cons by simp
  also have "normalize_step (normalize_step rs u) x = normalize_step (normalize_step rs x) u"
    using Cons.prems by (intro normalize_step_swap) simp_all
  finally show ?case
    by simp
qed simp

lemma foldl_normalize_perm:
  assumes "sorted (map start_key xs)" "sorted (map start_key ys)" "mset xs = mset ys"
    and "\<forall>i \<in> set xs. wf_interval i" "xs \<noteq> [] \<longrightarrow> fold_ready rs (start_key (hd xs))"
  shows "foldl normalize_step rs xs = foldl normalize_step rs ys"
  using assms
proof (induction xs arbitrary: ys rs)
  case (Cons x xs)
  have same: "set (x # xs) = set ys"
    using Cons.prems(3) by (rule mset_eq_setD)
  then have "x \<in> set ys"
    by auto
  then obtain us vs where ys: "ys = us @ x # vs"
    by (meson split_list)
  have sets: "set us \<subseteq> set (x # xs)" "set (x # xs) = set ys"
    using same ys by auto
  have key: "\<forall>i \<in> set us. start_key i = start_key x"
    using Cons.prems(1,2) sets ys by (fastforce simp: sorted_append)
  have ready: "fold_ready rs (start_key x)"
    using Cons.prems(5) by simp
  have "\<forall>i \<in> set us. wf_interval i" "wf_interval x"
    using Cons.prems(4) sets by auto
  then have "foldl normalize_step rs ys = foldl normalize_step rs (x # us @ vs)"
    using foldl_bring_front [OF ready key] ys by simp
  moreover have "foldl normalize_step (normalize_step rs x) xs
      = foldl normalize_step (normalize_step rs x) (us @ vs)"
  proof (rule Cons.IH)
    show "sorted (map start_key (us @ vs))"
      using Cons.prems(2) ys by (simp add: sorted_append)
    show "mset xs = mset (us @ vs)"
      using Cons.prems(3) ys by simp
    show "xs \<noteq> [] \<longrightarrow> fold_ready (normalize_step rs x) (start_key (hd xs))"
      using normalize_step_ready [OF ready] Cons.prems(1,4)
      by (cases xs) (auto intro: fold_ready_mono)
  qed (use Cons.prems in simp_all)
  ultimately show ?case
    by simp
qed simp

lemma normalize_perm:
  assumes "mset xs = mset ys" "\<forall>i \<in> set xs. wf_interval i"
  shows "normalize xs = normalize ys"
  unfolding normalize_def
  by (rule foldl_normalize_perm)
    (use assms in \<open>simp_all add: fold_ready_def separated_def\<close>)

section \<open>Properties\<close>

text \<open>C5: The validity periods \<open>normalize\<close> returns never overlap and come sorted by start; normalizing
  them again changes nothing; and the result does not depend on the order in which the
  periods were stated. The periods must be well formed, as \<open>stated_interval\<close> makes them.\<close>

theorem normalize_canonical:
  assumes "\<forall>i \<in> set xs. wf_interval i" and "mset ys = mset xs"
  shows "sorted_wrt (\<lambda>a b. \<not> overlaps a b) (normalize xs)
    \<and> sorted (map start_key (normalize xs))
    \<and> normalize (normalize xs) = normalize xs
    \<and> normalize ys = normalize xs"
proof -
  have sep: "separated (normalize xs)"
    by (rule normalize_separated [OF assms(1)])
  then have "sorted_wrt before (normalize xs)"
    by (simp add: separated_def)
  then have "sorted_wrt (\<lambda>a b. \<not> overlaps a b) (normalize xs)"
    by (rule sorted_wrt_mono_rel [rotated]) (rule before_not_overlaps)
  then show ?thesis
    using separated_sorted [OF sep] normalize_fixed [OF sep]
      normalize_perm [OF assms(2) [symmetric] assms(1)] by simp
qed

definition sample_periods :: "interval list" where
  "sample_periods = [\<lparr>valid_from = Some 20, valid_to = None\<rparr>, \<lparr>valid_from = Some 1, valid_to = Some 6\<rparr>,
     \<lparr>valid_from = None, valid_to = Some 3\<rparr>, \<lparr>valid_from = Some 5, valid_to = Some 9\<rparr>]"

theorem normalize_canonical_witness:
  "normalize sample_periods
     = [\<lparr>valid_from = Some 1, valid_to = Some 9\<rparr>, \<lparr>valid_from = Some 20, valid_to = None\<rparr>]
   \<and> normalize (rev sample_periods) = normalize sample_periods"
proof -
  have wf: "\<forall>i \<in> set sample_periods. wf_interval i"
    by (simp add: sample_periods_def wf_interval_def datetime_min_def)
  show ?thesis
    using normalize_canonical [OF wf, of "rev sample_periods"] by simp code_simp
qed

text \<open>An end (or a start) of a normalized period is one the sources stated: merging closes a
  relation only with an explicit end, and never invents an instant.\<close>

theorem normalize_states_only_input:
  "i \<in> set (normalize xs) \<Longrightarrow>
    (valid_to i = None \<or> valid_to i \<in> valid_to ` set xs)
    \<and> (valid_from i = None \<or> valid_from i \<in> valid_from ` set xs)"
  by (rule normalize_ends)

theorem normalize_states_only_input_witness:
  "(Some 9 :: instant option) \<in> valid_to ` set sample_periods"
proof -
  have "\<lparr>valid_from = Some 1, valid_to = Some 9\<rparr> \<in> set (normalize sample_periods)"
    by code_simp
  from normalize_states_only_input [OF this] show ?thesis
    by simp
qed

text \<open>\<open>parse_instant\<close> raises exactly on a non-blank text that denotes an aware datetime whose UTC
  reading leaves the calendar, and then \<^verbatim>\<open>OverflowError\<close>: unparseable text is \<open>None\<close>, but this
  one is not.\<close>

theorem parse_instant_raises:
  "parse_instant fromiso v = Inl e \<longleftrightarrow>
    (\<exists>s t offset. v = Some s \<and> \<not> blank s \<and> fromiso (strip s) = Some (Aware t offset)
      \<and> \<not> in_datetime_range (t - offset) \<and> e = OverflowError)"
  by (rule parse_instant_error_iff)

end
