(* ===== verification/EntityResolution.thy ===== *)
theory EntityResolution
  imports Temporal
begin

text \<open>
  Merging the mentions of one source into graph entities and relations
  (\<^verbatim>\<open>context_engine/application/entity_resolution.py\<close>). A group collects the mentions of one
  entity; \<open>resolve_mention\<close> is one iteration of the grouping loop, \<open>link_supersession\<close> one of
  the supersession loop, \<open>resolve_relation\<close> one of the relation loop, and
  \<open>resolve_extraction\<close> composes them. The lemmas give the grouping invariant (groups of one
  kind never share an identifier), that homonyms stay apart, and that the validity periods
  of one relation never overlap.
\<close>

section \<open>Names and identifiers\<close>

record supersession =
  ss_new_id :: uuid
  ss_old_name :: pystr
  ss_old_keys :: "pystr list"

record resolved_graph =
  rg_entities :: "graph_entity list"
  rg_relations :: "graph_relation list"
  rg_warnings :: "warning list"
  rg_supersessions :: "supersession list"

text \<open>The character class of \<^verbatim>\<open>_SEPARATORS\<close>: whitespace, the middle dot (183) and four ASCII marks.\<close>

definition is_separator :: "nat \<Rightarrow> bool" where
  "is_separator c \<longleftrightarrow> py_isspace c \<or> c \<in> {183, 46, 44, 95, 45}"

definition person_honorifics :: "pystr list" where
  "person_honorifics = [[0xB2D8], [0xC528]]"

fun drop_honorific :: "pystr list \<Rightarrow> pystr \<Rightarrow> pystr" where
  "drop_honorific [] txt = txt"
| "drop_honorific (h # hs) txt =
     (if suffix h txt \<and> length txt > length h + 1 then take (length txt - length h) txt
      else drop_honorific hs txt)"

definition normalize_name :: "unicode \<Rightarrow> pystr \<Rightarrow> pystr \<Rightarrow> pystr" where
  "normalize_name uc name kind =
     (let txt = filter (\<lambda>c. \<not> is_separator c) (uc_casefold uc (uc_nfkc uc name)) in
      if kind = entity_kind_value Person then drop_honorific person_honorifics txt else txt)"

definition normalize_identifier :: "unicode \<Rightarrow> pystr \<Rightarrow> pystr" where
  "normalize_identifier uc v =
     strip (removeprefix (lit ''mailto:'') (uc_casefold uc (strip (uc_nfkc uc v))))"

definition pick_canonical :: "unicode \<Rightarrow> pystr list \<Rightarrow> pystr \<Rightarrow> pystr option" where
  "pick_canonical uc names kind =
     max_by (\<lambda>n. (length (normalize_name uc n kind), - int (length n))) (fromkeys names)"

definition entity_id :: "runtime \<Rightarrow> uuid \<Rightarrow> pystr \<Rightarrow> pystr \<Rightarrow> uuid" where
  "entity_id rt workspace_id kind key =
     rt_uuid5 rt (lit ''maeglagi:'' @ uuid_str workspace_id @ lit '':'' @ kind @ lit '':'' @ key)"

definition relation_id ::
  "runtime \<Rightarrow> uuid \<Rightarrow> uuid \<Rightarrow> uuid \<Rightarrow> pystr \<Rightarrow> instant option \<Rightarrow> uuid" where
  "relation_id rt workspace_id source target kind start =
     rt_uuid5 rt (lit ''maeglagi:'' @ uuid_str workspace_id @ lit '':'' @ uuid_str source @ lit '':''
       @ kind @ lit '':'' @ uuid_str target @ lit '':''
       @ (case start of Some t \<Rightarrow> rt_isoformat rt t | None \<Rightarrow> []))"

section \<open>Groups\<close>

record group =
  g_kind :: pystr
  g_names :: "pystr list"
  g_keys :: "pystr set"
  g_identifiers :: "pystr set"
  g_timestamp :: "instant option"

definition new_group :: "pystr \<Rightarrow> group" where
  "new_group kind = \<lparr>g_kind = kind, g_names = [], g_keys = {}, g_identifiers = {},
     g_timestamp = None\<rparr>"

fun or_else :: "'a option \<Rightarrow> 'a option \<Rightarrow> 'a option" where
  "or_else (Some a) _ = Some a"
| "or_else None b = b"

definition absorb :: "group \<Rightarrow> group \<Rightarrow> group" where
  "absorb g other = g\<lparr>g_names := g_names g @ g_names other,
     g_keys := g_keys g \<union> g_keys other,
     g_identifiers := g_identifiers g \<union> g_identifiers other,
     g_timestamp := or_else (g_timestamp g) (g_timestamp other)\<rparr>"

definition stable_key :: "unicode \<Rightarrow> pystr \<Rightarrow> pystr \<Rightarrow> pystr set \<Rightarrow> pystr" where
  "stable_key uc kind canonical identifiers =
     (case sorted_list_of_set (Set.filter (\<lambda>v. prefix (lit ''directory:'') v) identifiers) of
        d # _ \<Rightarrow> lit ''id:'' @ d
      | [] \<Rightarrow> (case sorted_list_of_set identifiers of
                 i # _ \<Rightarrow> lit ''id:'' @ i
               | [] \<Rightarrow> normalize_name uc canonical kind))"

record mention =
  m_name :: pystr
  m_kind :: pystr
  m_aliases :: "pystr list"
  m_identifiers :: "pystr set"
  m_occurred_at :: "instant option"

definition trusted_identifier :: "pystr set \<Rightarrow> pystr \<Rightarrow> bool" where
  "trusted_identifier trusted v \<longleftrightarrow>
     v \<noteq> [] \<and> (\<not> prefix (lit ''directory:'') v \<or> v \<in> trusted)"

definition entity_mention :: "runtime \<Rightarrow> pystr set \<Rightarrow> extracted_entity \<Rightarrow> mention" where
  "entity_mention rt trusted e = \<lparr>m_name = en_name e, m_kind = entity_kind_value (en_kind e),
     m_aliases = en_aliases e,
     m_identifiers = set (filter (trusted_identifier trusted)
       (map (normalize_identifier (rt_unicode rt)) (en_identifiers e))),
     m_occurred_at = None\<rparr>"

definition event_mention :: "runtime \<Rightarrow> extracted_event \<Rightarrow> py_error + mention" where
  "event_mention rt e = rbind (parse_instant (rt_fromisoformat rt) (ev_occurred_at e))
     (\<lambda>occurred. Inr \<lparr>m_name = ev_name e, m_kind = entity_kind_value (ev_kind e), m_aliases = [],
       m_identifiers = {}, m_occurred_at = occurred\<rparr>)"

definition mentions :: "runtime \<Rightarrow> pystr set \<Rightarrow> extraction_result \<Rightarrow> py_error + mention list" where
  "mentions rt trusted result = rbind (traverse (event_mention rt) (xr_events result))
     (\<lambda>evs. Inr (map (entity_mention rt trusted) (xr_entities result) @ evs))"

definition mention_keys :: "unicode \<Rightarrow> mention \<Rightarrow> pystr set" where
  "mention_keys uc m = set (map (\<lambda>v. normalize_name uc v (m_kind m)) (m_name m # m_aliases m)) - {[]}"

definition by_identifier :: "group list \<Rightarrow> mention \<Rightarrow> nat list" where
  "by_identifier groups m = filter (\<lambda>i. g_kind (groups ! i) = m_kind m
     \<and> g_identifiers (groups ! i) \<inter> m_identifiers m \<noteq> {}) [0..<length groups]"

definition by_name :: "unicode \<Rightarrow> group list \<Rightarrow> mention \<Rightarrow> nat list" where
  "by_name uc groups m = filter (\<lambda>i. g_kind (groups ! i) = m_kind m
     \<and> g_keys (groups ! i) \<inter> mention_keys uc m \<noteq> {}
     \<and> i \<notin> set (by_identifier groups m)
     \<and> (m_identifiers m = {} \<or> g_identifiers (groups ! i) = {})) [0..<length groups]"

definition ambiguous :: "unicode \<Rightarrow> group list \<Rightarrow> mention \<Rightarrow> bool" where
  "ambiguous uc groups m \<longleftrightarrow> by_identifier groups m = [] \<and> m_identifiers m = {}
     \<and> length (filter (\<lambda>i. g_identifiers (groups ! i) \<noteq> {}) (by_name uc groups m)) > 1"

definition matched :: "unicode \<Rightarrow> group list \<Rightarrow> mention \<Rightarrow> nat list" where
  "matched uc groups m =
     (if by_identifier groups m \<noteq> []
      then by_identifier groups m
        @ filter (\<lambda>i. g_identifiers (groups ! i) = {}) (by_name uc groups m)
      else if ambiguous uc groups m then []
      else by_name uc groups m)"

definition extend_group :: "unicode \<Rightarrow> mention \<Rightarrow> group \<Rightarrow> group" where
  "extend_group uc m g = g\<lparr>g_names := g_names g @ m_name m # m_aliases m,
     g_keys := g_keys g \<union> mention_keys uc m,
     g_identifiers := g_identifiers g \<union> m_identifiers m,
     g_timestamp := or_else (g_timestamp g) (m_occurred_at m)\<rparr>"

text \<open>The first matched group absorbs the others, which leave the list, and takes the mention in.\<close>

definition place_mention :: "unicode \<Rightarrow> group list \<Rightarrow> mention \<Rightarrow> group list" where
  "place_mention uc groups m = (case matched uc groups m of
     [] \<Rightarrow> groups @ [extend_group uc m (new_group (m_kind m))]
   | g # others \<Rightarrow>
       map (\<lambda>i. if i = g
              then extend_group uc m (foldl absorb (groups ! g) (map (\<lambda>j. groups ! j) others))
              else groups ! i)
         (filter (\<lambda>i. i \<notin> set others) [0..<length groups]))"

definition resolve_mention ::
  "unicode \<Rightarrow> group list \<times> warning list \<Rightarrow> mention \<Rightarrow> group list \<times> warning list" where
  "resolve_mention uc s m = (case s of (groups, warnings) \<Rightarrow>
     if mention_keys uc m = {} then (groups, warnings @ [EmptyEntityName (m_name m)])
     else (place_mention uc groups m,
       warnings @ (if ambiguous uc groups m then [AmbiguousHomonym (m_name m)] else [])))"

definition group_mentions :: "unicode \<Rightarrow> mention list \<Rightarrow> group list \<times> warning list" where
  "group_mentions uc ms = foldl (resolve_mention uc) ([], []) ms"

section \<open>Entities\<close>

definition group_entity ::
  "runtime \<Rightarrow> uuid \<Rightarrow> uuid \<Rightarrow> uuid option \<Rightarrow> py_datetime option \<Rightarrow> group \<Rightarrow> py_error + graph_entity" where
  "group_entity rt workspace_id source_id chunk_id ts g =
     (case pick_canonical (rt_unicode rt) (g_names g) (g_kind g) of
        None \<Rightarrow> Inl ValueError
      | Some canonical \<Rightarrow> Inr
          \<lparr>ge_id = entity_id rt workspace_id (g_kind g)
             (stable_key (rt_unicode rt) (g_kind g) canonical (g_identifiers g)),
           ge_workspace_id = workspace_id,
           ge_kind = g_kind g,
           ge_name = canonical,
           ge_evidence = \<lparr>gv_source_id = source_id, gv_chunk_id = chunk_id,
             gv_timestamp = or_else (map_option (\<lambda>t. Aware t 0) (g_timestamp g)) ts\<rparr>,
           ge_aliases = filter (\<lambda>n. n \<noteq> canonical) (fromkeys (g_names g)),
           ge_keys = sorted_list_of_set (g_keys g),
           ge_identifiers = sorted_list_of_set (g_identifiers g),
           ge_superseded_by = None\<rparr>)"

text \<open>\<^verbatim>\<open>lookup\<close> maps \<^verbatim>\<open>kind:key\<close> to the ids of the entities that carry the key.\<close>

definition lookup_key :: "pystr \<Rightarrow> pystr \<Rightarrow> pystr" where
  "lookup_key kind key = kind @ lit '':'' @ key"

definition add_entity_keys ::
  "(pystr \<Rightarrow> uuid set) \<Rightarrow> graph_entity \<Rightarrow> pystr \<Rightarrow> uuid set" where
  "add_entity_keys m e =
     foldl (\<lambda>m k. index_add (lookup_key (ge_kind e) k) (ge_id e) m) m (ge_keys e)"

definition entity_lookup :: "graph_entity list \<Rightarrow> pystr \<Rightarrow> uuid set" where
  "entity_lookup es = foldl add_entity_keys (\<lambda>_. {}) es"

section \<open>Supersession\<close>

text \<open>\<^verbatim>\<open>by_id\<close> is a dict comprehension: the last entity with the id is the one it names.\<close>

definition index_by_id :: "graph_entity list \<Rightarrow> uuid \<Rightarrow> nat option" where
  "index_by_id es u = map_of (rev (zip (map ge_id es) [0..<length es])) u"

record link_state =
  ln_entities :: "graph_entity list"
  ln_warnings :: "warning list"
  ln_pending :: "supersession list"

definition warn_link :: "warning \<Rightarrow> link_state \<Rightarrow> link_state" where
  "warn_link w s = s\<lparr>ln_warnings := ln_warnings s @ [w]\<rparr>"

definition link_supersession ::
  "unicode \<Rightarrow> (pystr \<Rightarrow> uuid set) \<Rightarrow> link_state \<Rightarrow> extracted_event \<Rightarrow> py_error + link_state" where
  "link_supersession uc lookup s event =
     (case ev_supersedes event of
        None \<Rightarrow> Inr s
      | Some old \<Rightarrow>
          if ev_kind event \<noteq> Decision \<or> old = [] then Inr s
          else
            let decision = entity_kind_value Decision;
                news = lookup (lookup_key decision (normalize_name uc (ev_name event) decision));
                old_key = normalize_name uc old decision;
                olds = lookup (lookup_key decision old_key)
            in
            if card news \<noteq> 1 then Inr (warn_link (SupersederUnclear (ev_name event)) s)
            else let new_id = the_elem news in
              if new_id \<in> olds then Inr (warn_link (SupersedesItself (ev_name event)) s)
              else if card olds > 1 then Inr (warn_link (SupersededUnclear old) s)
              else if olds \<noteq> {} then
                (case index_by_id (ln_entities s) (the_elem olds) of
                   None \<Rightarrow> Inl KeyError
                 | Some index \<Rightarrow>
                     if ge_superseded_by (ln_entities s ! index) \<notin> {None, Some new_id}
                     then Inr (warn_link (AlreadySuperseded old) s)
                     else Inr (s\<lparr>ln_entities := (ln_entities s)
                       [index := (ln_entities s ! index)\<lparr>ge_superseded_by := Some new_id\<rparr>]\<rparr>))
              else Inr (s\<lparr>ln_pending := ln_pending s @
                [\<lparr>ss_new_id = new_id, ss_old_name = old, ss_old_keys = [old_key]\<rparr>]\<rparr>))"

definition link_supersessions ::
  "unicode \<Rightarrow> (pystr \<Rightarrow> uuid set) \<Rightarrow> extraction_result \<Rightarrow> graph_entity list \<Rightarrow> warning list
    \<Rightarrow> py_error + link_state" where
  "link_supersessions uc lookup result entities warnings =
     foldr_result (link_supersession uc lookup)
       \<lparr>ln_entities = entities, ln_warnings = warnings, ln_pending = []\<rparr> (xr_events result)"

section \<open>Relations\<close>

text \<open>\<^verbatim>\<open>next(iter(candidates), None)\<close> of a set with at most one element.\<close>

definition only_element :: "'a set \<Rightarrow> 'a option" where
  "only_element A = (if A = {} then None else Some (the_elem A))"

definition endpoint_candidates :: "unicode \<Rightarrow> (pystr \<Rightarrow> uuid set) \<Rightarrow> pystr \<Rightarrow> uuid set" where
  "endpoint_candidates uc lookup name = foldl (\<lambda>acc kind. acc \<union>
     lookup (lookup_key (entity_kind_value kind) (normalize_name uc name (entity_kind_value kind))))
     {} entity_kinds"

definition endpoint ::
  "unicode \<Rightarrow> (pystr \<Rightarrow> uuid set) \<Rightarrow> pystr \<Rightarrow> warning list \<Rightarrow> uuid option \<times> warning list" where
  "endpoint uc lookup name warnings =
     (let candidates = endpoint_candidates uc lookup name in
      if card candidates > 1 then (None, warnings @ [AmbiguousEndpoint name])
      else (only_element candidates, warnings))"

type_synonym triple = "uuid \<times> uuid \<times> pystr"

text \<open>The interval of one stated relation: a stated end before a stated start is dropped; before
  the fallback start (the source's own date) it makes the start unknown.\<close>

definition stated_interval ::
  "extracted_relation \<Rightarrow> instant option \<Rightarrow> instant option \<Rightarrow> instant option
    \<Rightarrow> interval \<times> warning list" where
  "stated_interval r fallback stated_from valid_end =
     (let start = or_else stated_from fallback in
      case (valid_end, start) of
        (Some e, Some s) \<Rightarrow>
          if s > e then
            (if stated_from \<noteq> None
             then (\<lparr>valid_from = start, valid_to = None\<rparr>, [EndBeforeStart (re_source r) (re_target r)])
             else (\<lparr>valid_from = None, valid_to = valid_end\<rparr>, []))
          else (\<lparr>valid_from = start, valid_to = valid_end\<rparr>, [])
      | _ \<Rightarrow> (\<lparr>valid_from = start, valid_to = valid_end\<rparr>, []))"

definition resolve_relation ::
  "runtime \<Rightarrow> (pystr \<Rightarrow> uuid set) \<Rightarrow> instant option \<Rightarrow> (triple \<times> interval list) list \<times> warning list
    \<Rightarrow> extracted_relation \<Rightarrow> py_error + (triple \<times> interval list) list \<times> warning list" where
  "resolve_relation rt lookup fallback acc r = (case acc of (intervals, w0) \<Rightarrow>
     (case endpoint (rt_unicode rt) lookup (re_source r) w0 of (source, w1) \<Rightarrow>
     (case endpoint (rt_unicode rt) lookup (re_target r) w1 of (target, w2) \<Rightarrow>
     (case (source, target) of
        (Some s, Some t) \<Rightarrow>
          rbind (parse_instant (rt_fromisoformat rt) (re_valid_from r)) (\<lambda>stated_from.
          rbind (parse_instant (rt_fromisoformat rt) (re_valid_to r)) (\<lambda>valid_end.
            (case stated_interval r fallback stated_from valid_end of (i, w3) \<Rightarrow>
              Inr (dict_append (s, t, relation_kind_value (re_kind r)) i intervals, w2 @ w3))))
      | _ \<Rightarrow> Inr (intervals, w2 @ [RelationDropped (re_source r) (re_target r)])))))"

definition span_relation ::
  "runtime \<Rightarrow> uuid \<Rightarrow> graph_evidence \<Rightarrow> triple \<Rightarrow> interval \<Rightarrow> graph_relation" where
  "span_relation rt workspace_id evidence tr span = (case tr of (source, target, kind) \<Rightarrow>
     \<lparr>gr_id = relation_id rt workspace_id source target kind (valid_from span),
      gr_workspace_id = workspace_id, gr_source_entity_id = source, gr_target_entity_id = target,
      gr_kind = kind, gr_evidence = evidence, gr_valid_from = valid_from span,
      gr_valid_to = valid_to span\<rparr>)"

definition span_relations ::
  "runtime \<Rightarrow> uuid \<Rightarrow> graph_evidence \<Rightarrow> (triple \<times> interval list) list \<Rightarrow> graph_relation list" where
  "span_relations rt workspace_id evidence intervals =
     concat (map (\<lambda>(tr, spans). map (span_relation rt workspace_id evidence tr) (normalize spans))
       intervals)"

definition resolve_extraction ::
  "runtime \<Rightarrow> extraction_result \<Rightarrow> uuid \<Rightarrow> uuid \<Rightarrow> uuid option \<Rightarrow> py_datetime option \<Rightarrow> pystr set
    \<Rightarrow> py_error + resolved_graph" where
  "resolve_extraction rt result workspace_id source_id chunk_id ts trusted =
     rbind (mentions rt trusted result) (\<lambda>ms.
     (case group_mentions (rt_unicode rt) ms of (groups, w0) \<Rightarrow>
     rbind (traverse (group_entity rt workspace_id source_id chunk_id ts) groups) (\<lambda>entities.
     let lookup = entity_lookup entities in
     rbind (link_supersessions (rt_unicode rt) lookup result entities w0) (\<lambda>linked.
     rbind (as_utc ts) (\<lambda>fallback.
     rbind (foldr_result (resolve_relation rt lookup fallback) ([], ln_warnings linked)
              (xr_relations result)) (\<lambda>(intervals, w1).
     Inr \<lparr>rg_entities = ln_entities linked,
          rg_relations = span_relations rt workspace_id
            \<lparr>gv_source_id = source_id, gv_chunk_id = chunk_id, gv_timestamp = ts\<rparr> intervals,
          rg_warnings = w1,
          rg_supersessions = ln_pending linked\<rparr>))))))"

section \<open>Grouping: the shape of one iteration\<close>

definition merged_group :: "unicode \<Rightarrow> group list \<Rightarrow> mention \<Rightarrow> group" where
  "merged_group uc groups m = extend_group uc m (case matched uc groups m of
     [] \<Rightarrow> new_group (m_kind m)
   | g # others \<Rightarrow> foldl absorb (groups ! g) (map (\<lambda>j. groups ! j) others))"

lemma set_by_identifier: "i \<in> set (by_identifier groups m) \<longleftrightarrow>
    i < length groups \<and> g_kind (groups ! i) = m_kind m
    \<and> g_identifiers (groups ! i) \<inter> m_identifiers m \<noteq> {}"
  by (auto simp: by_identifier_def)

lemma set_by_name: "i \<in> set (by_name uc groups m) \<longleftrightarrow>
    i < length groups \<and> g_kind (groups ! i) = m_kind m
    \<and> g_keys (groups ! i) \<inter> mention_keys uc m \<noteq> {} \<and> i \<notin> set (by_identifier groups m)
    \<and> (m_identifiers m = {} \<or> g_identifiers (groups ! i) = {})"
  by (auto simp: by_name_def)

lemma matched_bounds:
  "i \<in> set (matched uc groups m) \<Longrightarrow> i < length groups \<and> g_kind (groups ! i) = m_kind m"
  by (auto simp: matched_def set_by_identifier set_by_name split: if_splits)

lemma by_identifier_matched: "i \<in> set (by_identifier groups m) \<Longrightarrow> i \<in> set (matched uc groups m)"
  by (auto simp: matched_def)

lemma distinct_matched: "distinct (matched uc groups m)"
  by (auto simp: matched_def set_by_name) (auto simp: by_identifier_def by_name_def)

lemma unmatched_identifiers:
  assumes "i < length groups" "i \<notin> set (matched uc groups m)" "g_kind (groups ! i) = m_kind m"
  shows "g_identifiers (groups ! i) \<inter> m_identifiers m = {}"
proof -
  have "i \<notin> set (by_identifier groups m)"
    using assms(2) by_identifier_matched by blast
  then show ?thesis
    using assms(1,3) by (simp add: set_by_identifier)
qed

lemma foldl_absorb [simp]:
  "g_kind (foldl absorb g others) = g_kind g"
  "g_names (foldl absorb g others) = g_names g @ concat (map g_names others)"
  "g_keys (foldl absorb g others) = g_keys g \<union> \<Union> (g_keys ` set others)"
  "g_identifiers (foldl absorb g others) = g_identifiers g \<union> \<Union> (g_identifiers ` set others)"
  by (induction others arbitrary: g) (auto simp: absorb_def)

lemma merged_group_facts:
  "g_kind (merged_group uc groups m) = m_kind m"
  "set (g_names (merged_group uc groups m)) = insert (m_name m) (set (m_aliases m))
     \<union> \<Union> ((\<lambda>i. set (g_names (groups ! i))) ` set (matched uc groups m))"
  "g_keys (merged_group uc groups m) = mention_keys uc m
     \<union> \<Union> ((\<lambda>i. g_keys (groups ! i)) ` set (matched uc groups m))"
  "g_identifiers (merged_group uc groups m) = m_identifiers m
     \<union> \<Union> ((\<lambda>i. g_identifiers (groups ! i)) ` set (matched uc groups m))"
  using matched_bounds [of "hd (matched uc groups m)" uc groups m]
  by (cases "matched uc groups m"; auto simp: merged_group_def extend_group_def new_group_def)+

text \<open>Up to order, the groups after a mention are the merged one and the unmatched ones.\<close>

lemma set_place_mention:
  "set (place_mention uc groups m) = insert (merged_group uc groups m)
     ((\<lambda>i. groups ! i) ` {i. i < length groups \<and> i \<notin> set (matched uc groups m)})"
proof (cases "matched uc groups m")
  case Nil
  then show ?thesis
    by (simp add: place_mention_def merged_group_def) (auto simp: in_set_conv_nth)
next
  case (Cons g others)
  have "g < length groups" "g \<notin> set others"
    using matched_bounds [of g uc groups m] distinct_matched [of uc groups m] Cons by auto
  then show ?thesis
    by (auto simp: place_mention_def merged_group_def Cons)
qed

definition apart :: "group \<Rightarrow> group \<Rightarrow> bool" where
  "apart g h \<longleftrightarrow> g_kind g = g_kind h \<longrightarrow> g_identifiers g \<inter> g_identifiers h = {}"

lemma apart_sym: "apart g h \<Longrightarrow> apart h g"
  by (auto simp: apart_def)

lemma apart_merged:
  assumes "sorted_wrt apart groups" "i < length groups" "i \<notin> set (matched uc groups m)"
  shows "apart (merged_group uc groups m) (groups ! i)"
proof -
  have "g_identifiers (groups ! j) \<inter> g_identifiers (groups ! i) = {}"
    if "j \<in> set (matched uc groups m)" "g_kind (groups ! i) = m_kind m" for j
  proof -
    have j: "j < length groups" "g_kind (groups ! j) = m_kind m" "i \<noteq> j"
      using matched_bounds that(1) assms(3) by auto
    then have "apart (groups ! i) (groups ! j)"
      using assms(1,2) by (metis apart_sym linorder_neqE_nat sorted_wrt_nth_less)
    then show ?thesis
      using that(2) j(2) by (auto simp: apart_def)
  qed
  moreover have "m_identifiers m \<inter> g_identifiers (groups ! i) = {}" if "g_kind (groups ! i) = m_kind m"
    using unmatched_identifiers [OF assms(2,3) that] by auto
  ultimately show ?thesis
    unfolding apart_def merged_group_facts by fastforce
qed

lemma place_mention_apart:
  assumes "sorted_wrt apart groups"
  shows "sorted_wrt apart (place_mention uc groups m)"
proof (cases "matched uc groups m")
  case Nil
  then have "\<forall>g \<in> set groups. apart g (merged_group uc groups m)"
    using apart_merged [OF assms, of _ uc m] apart_sym by (auto simp: in_set_conv_nth)
  then show ?thesis
    using assms Nil by (simp add: place_mention_def merged_group_def sorted_wrt_snoc)
next
  case (Cons g others)
  define slot where "slot i = (if i = g then merged_group uc groups m else groups ! i)" for i
  have eq: "place_mention uc groups m = map slot (filter (\<lambda>i. i \<notin> set others) [0..<length groups])"
    using Cons by (simp add: place_mention_def merged_group_def slot_def)
  have "apart (slot i) (slot j)"
    if "i < j" "j < length groups" "i \<notin> set others" "j \<notin> set others" for i j
  proof -
    have "apart (groups ! i) (groups ! j)"
      using assms that by (simp add: sorted_wrt_nth_less)
    moreover have "apart (merged_group uc groups m) (groups ! k)" if "k \<in> {i, j}" "k \<noteq> g" for k
      using apart_merged [OF assms, of k uc m] that \<open>i < j\<close> \<open>j < length groups\<close>
        \<open>i \<notin> set others\<close> \<open>j \<notin> set others\<close> Cons by auto
    ultimately show ?thesis
      using \<open>i < j\<close> by (auto simp: slot_def intro: apart_sym)
  qed
  then show ?thesis
    unfolding eq sorted_wrt_map
    by (intro sorted_wrt_mono_rel [OF _ sorted_wrt_filter [OF sorted_wrt_upt]]) auto
qed

section \<open>Grouping: identity is connected identifiers\<close>

text \<open>Two identifiers are linked when one usable mention of the kind states both.\<close>

definition usable :: "unicode \<Rightarrow> mention \<Rightarrow> bool" where
  "usable uc m \<longleftrightarrow> mention_keys uc m \<noteq> {}"

definition linked :: "unicode \<Rightarrow> mention list \<Rightarrow> pystr \<Rightarrow> pystr \<Rightarrow> pystr \<Rightarrow> bool" where
  "linked uc ms kind x y \<longleftrightarrow> (\<exists>m \<in> set ms. usable uc m \<and> m_kind m = kind
     \<and> x \<in> m_identifiers m \<and> y \<in> m_identifiers m)"

lemma linked_mono: "(linked uc ms kind)\<^sup>+\<^sup>+ x y \<Longrightarrow> (linked uc (ms @ ns) kind)\<^sup>+\<^sup>+ x y"
proof (induction rule: tranclp_induct)
  case (base y)
  then show ?case
    by (intro tranclp.r_into_trancl) (auto simp: linked_def)
next
  case (step y z)
  then have "linked uc (ms @ ns) kind y z"
    by (auto simp: linked_def)
  then show ?case
    by (rule tranclp.trancl_into_trancl [OF step.IH])
qed

text \<open>A group's keys are the normalized forms of its names, and it has one of each.\<close>

definition group_wf :: "unicode \<Rightarrow> group \<Rightarrow> bool" where
  "group_wf uc g \<longleftrightarrow> g_names g \<noteq> [] \<and> g_keys g \<noteq> {}
     \<and> g_keys g = (\<lambda>n. normalize_name uc n (g_kind g)) ` set (g_names g) - {[]}"

definition grouping_inv :: "unicode \<Rightarrow> mention list \<Rightarrow> group list \<Rightarrow> bool" where
  "grouping_inv uc ms groups \<longleftrightarrow> sorted_wrt apart groups
     \<and> (\<forall>g \<in> set groups. group_wf uc g)
     \<and> (\<forall>g \<in> set groups. \<forall>x \<in> g_identifiers g. \<forall>y \<in> g_identifiers g.
          (linked uc ms (g_kind g))\<^sup>+\<^sup>+ x y)
     \<and> (\<forall>m \<in> set ms. usable uc m \<longrightarrow> (\<exists>g \<in> set groups. g_kind g = m_kind m
          \<and> m_identifiers m \<subseteq> g_identifiers g \<and> mention_keys uc m \<subseteq> g_keys g
          \<and> m_name m \<in> set (g_names g)))"

lemma matched_unidentified:
  assumes "i \<in> set (matched uc groups m)" "j \<in> set (matched uc groups m)" "i \<noteq> j"
    and "by_identifier groups m = []"
    and "g_identifiers (groups ! i) \<noteq> {}" "g_identifiers (groups ! j) \<noteq> {}"
  shows False
proof -
  have mem: "i \<in> set (by_name uc groups m)" "j \<in> set (by_name uc groups m)"
    and not_amb: "\<not> ambiguous uc groups m"
    using assms(1,2,4) by (auto simp: matched_def split: if_splits)
  then have "m_identifiers m = {}"
    using assms(5) by (auto simp: set_by_name)
  let ?F = "filter (\<lambda>i. g_identifiers (groups ! i) \<noteq> {}) (by_name uc groups m)"
  have "{i, j} \<subseteq> set ?F"
    using mem assms(5,6) by auto
  then have "card {i, j} \<le> card (set ?F)"
    by (intro card_mono) simp_all
  also have "\<dots> \<le> length ?F"
    by (rule card_length)
  finally have "length ?F > 1"
    using assms(3) by simp
  then show False
    using not_amb \<open>m_identifiers m = {}\<close> assms(4) by (simp add: ambiguous_def)
qed

text \<open>Every identifier of the merged group is the mention's own, or comes from a group the mention
  shares an identifier with, or all come from a single group.\<close>

lemma merged_linked:
  assumes inv: "\<forall>g \<in> set groups. \<forall>x \<in> g_identifiers g. \<forall>y \<in> g_identifiers g.
      (linked uc ms (g_kind g))\<^sup>+\<^sup>+ x y"
    and "usable uc m"
    and x: "x \<in> g_identifiers (merged_group uc groups m)"
    and y: "y \<in> g_identifiers (merged_group uc groups m)"
  shows "(linked uc (ms @ [m]) (m_kind m))\<^sup>+\<^sup>+ x y"
proof -
  let ?L = "(linked uc (ms @ [m]) (m_kind m))\<^sup>+\<^sup>+"
  have own: "?L u v" if "u \<in> m_identifiers m" "v \<in> m_identifiers m" for u v
    using that assms(2) by (intro tranclp.r_into_trancl) (auto simp: linked_def)
  have old: "?L u v" if "i \<in> set (matched uc groups m)" "u \<in> g_identifiers (groups ! i)"
    "v \<in> g_identifiers (groups ! i)" for u v i
    using inv that matched_bounds [OF that(1)] linked_mono by (metis nth_mem)
  show ?thesis
  proof (cases "m_identifiers m \<noteq> {} \<and> by_identifier groups m \<noteq> []")
    case True
    have "\<exists>z \<in> m_identifiers m. ?L u z \<and> ?L z u"
      if u: "u \<in> g_identifiers (merged_group uc groups m)" for u
    proof (cases "u \<in> m_identifiers m")
      case False
      then obtain i where i: "i \<in> set (matched uc groups m)" "u \<in> g_identifiers (groups ! i)"
        using u by (auto simp: merged_group_facts)
      then have "i \<in> set (by_identifier groups m)"
        using True by (auto simp: matched_def split: if_splits)
      then obtain z where "z \<in> g_identifiers (groups ! i)" "z \<in> m_identifiers m"
        by (auto simp: set_by_identifier)
      then show ?thesis
        using old [OF i(1)] i(2) by blast
    qed (use own in blast)
    then show ?thesis
      using x y own by (meson tranclp_trans)
  next
    case False
    then have none: "by_identifier groups m = []"
      by (auto simp: by_identifier_def)
    have "g_identifiers (groups ! i) = {}" if "i \<in> set (matched uc groups m)" "m_identifiers m \<noteq> {}" for i
      using that none by (auto simp: matched_def set_by_name split: if_splits)
    then show ?thesis
      using x y own old matched_unidentified [OF _ _ _ none]
      unfolding merged_group_facts by blast
  qed
qed

lemma merged_keys:
  assumes "\<forall>g \<in> set groups. group_wf uc g"
  shows "g_keys (merged_group uc groups m)
    = (\<lambda>n. normalize_name uc n (m_kind m)) ` set (g_names (merged_group uc groups m)) - {[]}"
proof -
  have "g_keys (groups ! i) = (\<lambda>n. normalize_name uc n (m_kind m)) ` set (g_names (groups ! i)) - {[]}"
    if "i \<in> set (matched uc groups m)" for i
  proof -
    have "group_wf uc (groups ! i)" "g_kind (groups ! i) = m_kind m"
      using assms matched_bounds [OF that] by auto
    then show ?thesis
      unfolding group_wf_def by metis
  qed
  then show ?thesis
    by (auto simp: merged_group_facts mention_keys_def)
qed

lemma place_mention_inv:
  assumes "grouping_inv uc ms groups" "usable uc m"
  shows "grouping_inv uc (ms @ [m]) (place_mention uc groups m)"
proof -
  let ?M = "merged_group uc groups m"
  let ?P = "place_mention uc groups m"
  have inv: "sorted_wrt apart groups"
    "\<forall>g \<in> set groups. group_wf uc g"
    "\<forall>g \<in> set groups. \<forall>x \<in> g_identifiers g. \<forall>y \<in> g_identifiers g. (linked uc ms (g_kind g))\<^sup>+\<^sup>+ x y"
    using assms(1) unfolding grouping_inv_def by blast+
  have sub: "g = ?M \<or> g \<in> set groups" if "g \<in> set ?P" for g
    using that by (auto simp: set_place_mention)
  have "g_names ?M \<noteq> []" "g_keys ?M \<noteq> {}"
    using merged_group_facts(2) [of uc groups m] assms(2) merged_group_facts(3) [of uc groups m]
    by (auto simp: usable_def)
  then have "group_wf uc ?M"
    unfolding group_wf_def using merged_keys [OF inv(2)] merged_group_facts(1) by metis
  then have basic: "\<forall>g \<in> set ?P. group_wf uc g"
    using sub inv(2) by blast
  have links: "\<forall>g \<in> set ?P. \<forall>x \<in> g_identifiers g. \<forall>y \<in> g_identifiers g.
      (linked uc (ms @ [m]) (g_kind g))\<^sup>+\<^sup>+ x y"
    using sub inv(3) merged_linked [OF inv(3) assms(2)] linked_mono
    by (metis merged_group_facts(1))
  have holder: "\<exists>h \<in> set ?P. g_kind h = g_kind g \<and> g_identifiers g \<subseteq> g_identifiers h
      \<and> g_keys g \<subseteq> g_keys h \<and> set (g_names g) \<subseteq> set (g_names h)" if g: "g \<in> set groups" for g
  proof -
    obtain i where i: "i < length groups" "groups ! i = g"
      using g by (auto simp: in_set_conv_nth)
    show ?thesis
    proof (cases "i \<in> set (matched uc groups m)")
      case True
      then have "g_kind g = m_kind m"
        using matched_bounds i by blast
      then show ?thesis
        using True i by (intro bexI [of _ ?M]) (auto simp: merged_group_facts set_place_mention)
    next
      case False
      then show ?thesis
        using i by (intro bexI [of _ g]) (auto simp: set_place_mention)
    qed
  qed
  have "\<exists>g \<in> set ?P. g_kind g = m_kind n \<and> m_identifiers n \<subseteq> g_identifiers g
      \<and> mention_keys uc n \<subseteq> g_keys g \<and> m_name n \<in> set (g_names g)"
    if n: "n \<in> set (ms @ [m])" "usable uc n" for n
  proof (cases "n = m")
    case True
    then show ?thesis
      by (intro bexI [of _ ?M]) (auto simp: merged_group_facts set_place_mention)
  next
    case False
    then obtain g where "g \<in> set groups" "g_kind g = m_kind n" "m_identifiers n \<subseteq> g_identifiers g"
      "mention_keys uc n \<subseteq> g_keys g" "m_name n \<in> set (g_names g)"
      using assms(1) n by (auto simp: grouping_inv_def)
    then show ?thesis
      using holder [of g] by (metis subset_iff subset_trans)
  qed
  then have carried: "\<forall>n \<in> set (ms @ [m]). usable uc n \<longrightarrow> (\<exists>g \<in> set ?P. g_kind g = m_kind n
      \<and> m_identifiers n \<subseteq> g_identifiers g \<and> mention_keys uc n \<subseteq> g_keys g
      \<and> m_name n \<in> set (g_names g))"
    by blast
  show ?thesis
    unfolding grouping_inv_def
    by (intro conjI) (rule place_mention_apart [OF inv(1)] basic links carried)+
qed

lemma grouping_inv_skip:
  "grouping_inv uc ms groups \<Longrightarrow> \<not> usable uc m \<Longrightarrow> grouping_inv uc (ms @ [m]) groups"
  unfolding grouping_inv_def using linked_mono [of uc ms _ _ _ "[m]"] by auto

lemma grouping_inv_start: "grouping_inv uc [] []"
  by (simp add: grouping_inv_def)

lemma group_mentions_inv: "grouping_inv uc ms (fst (group_mentions uc ms))"
proof (induction ms rule: rev_induct)
  case (snoc m ms)
  obtain groups w where gw: "group_mentions uc ms = (groups, w)"
    by fastforce
  then show ?case
    using snoc place_mention_inv [of uc ms groups m] grouping_inv_skip [of uc ms groups m]
    by (simp add: group_mentions_def resolve_mention_def usable_def)
qed (simp add: group_mentions_def grouping_inv_start)

lemma apart_same_group:
  assumes "sorted_wrt apart groups" "g \<in> set groups" "h \<in> set groups" "g_kind g = g_kind h"
    and "x \<in> g_identifiers g" "x \<in> g_identifiers h"
  shows "g = h"
proof -
  obtain i j where ij: "i < length groups" "j < length groups" "g = groups ! i" "h = groups ! j"
    using assms(2,3) by (auto simp: in_set_conv_nth)
  have "\<not> apart g h"
    using assms(4-6) by (auto simp: apart_def)
  then show ?thesis
    using assms(1) ij by (metis apart_sym linorder_neqE_nat sorted_wrt_nth_less)
qed

text \<open>The identifiers of a group are exactly the ones linked to any one of them.\<close>

lemma group_component:
  assumes "grouping_inv uc ms groups" "g \<in> set groups" "x \<in> g_identifiers g"
  shows "g_identifiers g = {y. (linked uc ms (g_kind g))\<^sup>+\<^sup>+ x y}"
proof (rule set_eqI, unfold mem_Collect_eq, rule iffI)
  fix y
  assume "y \<in> g_identifiers g"
  then show "(linked uc ms (g_kind g))\<^sup>+\<^sup>+ x y"
    using assms unfolding grouping_inv_def by blast
next
  fix y
  have close: "v \<in> g_identifiers g" if l: "linked uc ms (g_kind g) u v" and u: "u \<in> g_identifiers g" for u v
  proof -
    obtain m where m: "m \<in> set ms" "usable uc m" "m_kind m = g_kind g" "u \<in> m_identifiers m"
      "v \<in> m_identifiers m"
      using l by (auto simp: linked_def)
    then obtain h where h: "h \<in> set groups" "g_kind h = g_kind g" "m_identifiers m \<subseteq> g_identifiers h"
      using assms(1) unfolding grouping_inv_def by metis
    then have "g = h"
      using apart_same_group [of groups g h u] assms(1,2) u m(4) unfolding grouping_inv_def by auto
    then show ?thesis
      using h(3) m(5) by blast
  qed
  assume "(linked uc ms (g_kind g))\<^sup>+\<^sup>+ x y"
  then show "y \<in> g_identifiers g"
    by (induction rule: tranclp_induct) (use close assms(3) in blast)+
qed

section \<open>The lookup table\<close>

lemma foldl_index_add:
  "foldl (\<lambda>m k. index_add (f k) u m) m ks = (\<lambda>q. (if q \<in> f ` set ks then {u} else {}) \<union> m q)"
  by (induction ks arbitrary: m) (auto simp: index_add_def fun_eq_iff)

lemma foldl_entity_keys:
  "foldl add_entity_keys m es q = m q
     \<union> {ge_id e | e. e \<in> set es \<and> q \<in> lookup_key (ge_kind e) ` set (ge_keys e)}"
  by (induction es arbitrary: m) (auto simp: add_entity_keys_def foldl_index_add)

lemma entity_lookup_iff:
  "u \<in> entity_lookup es q \<longleftrightarrow>
    (\<exists>e \<in> set es. u = ge_id e \<and> q \<in> lookup_key (ge_kind e) ` set (ge_keys e))"
  by (auto simp: entity_lookup_def foldl_entity_keys)

lemma entity_lookup_ids: "entity_lookup es q \<subseteq> ge_id ` set es"
  by (auto simp: entity_lookup_iff)

lemma finite_entity_lookup [simp]: "finite (entity_lookup es q)"
  by (rule finite_subset [OF entity_lookup_ids]) simp

lemma foldl_union: "foldl (\<lambda>acc k. acc \<union> f k) A ks = A \<union> \<Union> (f ` set ks)"
  by (induction ks arbitrary: A) auto

lemma endpoint_candidates_eq: "endpoint_candidates uc lookup name =
    (\<Union>k. lookup (lookup_key (entity_kind_value k) (normalize_name uc name (entity_kind_value k))))"
  by (simp add: endpoint_candidates_def foldl_union set_entity_kinds)

lemma the_elem_mem:
  assumes "finite A" "A \<noteq> {}" "card A \<le> 1"
  shows "A = {the_elem A}"
proof -
  have "card A \<noteq> 0"
    using assms by simp
  then have "card A = 1"
    using assms(3) by simp
  then obtain x where "A = {x}"
    by (auto simp: card_1_singleton_iff)
  then show ?thesis
    by simp
qed

lemma only_element_mem: "only_element A = Some u \<Longrightarrow> card A \<le> 1 \<Longrightarrow> finite A \<Longrightarrow> A = {u}"
  using the_elem_mem [of A] by (auto simp: only_element_def split: if_splits)

lemma endpoint_unique:
  assumes "fst (endpoint uc (entity_lookup es) name w) = Some u"
  shows "endpoint_candidates uc (entity_lookup es) name = {u}" and "u \<in> ge_id ` set es"
proof -
  let ?C = "endpoint_candidates uc (entity_lookup es) name"
  have sub: "?C \<subseteq> ge_id ` set es"
    using entity_lookup_ids by (auto simp: endpoint_candidates_eq)
  then have "finite ?C"
    by (rule finite_subset) simp
  moreover have "only_element ?C = Some u" "card ?C \<le> 1"
    using assms by (auto simp: endpoint_def Let_def split: if_splits)
  ultimately show "?C = {u}"
    by (simp add: only_element_mem)
  then show "u \<in> ge_id ` set es"
    using sub by blast
qed

section \<open>Supersession never points at itself\<close>

definition links_ok :: "uuid list \<Rightarrow> graph_entity list \<Rightarrow> bool" where
  "links_ok ids es \<longleftrightarrow> map ge_id es = ids
     \<and> (\<forall>e \<in> set es. case ge_superseded_by e of None \<Rightarrow> True | Some u \<Rightarrow> u \<noteq> ge_id e \<and> u \<in> set ids)"

lemma index_by_id_Some:
  assumes "index_by_id es u = Some i"
  shows "i < length es \<and> ge_id (es ! i) = u"
proof -
  have "(u, i) \<in> set (zip (map ge_id es) [0..<length es])"
    using map_of_SomeD [OF assms [unfolded index_by_id_def]] by simp
  then show ?thesis
    by (auto simp: in_set_zip)
qed

lemma index_by_id_None: "index_by_id es u = None \<longleftrightarrow> u \<notin> ge_id ` set es"
proof -
  have "fst ` set (zip (map ge_id es) [0..<length es]) = set (map ge_id es)"
    by (subst list.set_map [symmetric], subst map_fst_zip) simp_all
  then show ?thesis
    by (simp add: index_by_id_def map_of_eq_None_iff)
qed

lemma links_ok_update:
  assumes "links_ok ids es" "i < length es" "u \<in> set ids" "u \<noteq> ge_id (es ! i)"
  shows "links_ok ids (es [i := (es ! i)\<lparr>ge_superseded_by := Some u\<rparr>])"
proof -
  have "map ge_id (es [i := (es ! i)\<lparr>ge_superseded_by := Some u\<rparr>]) = map ge_id es"
    by (simp add: map_update map_update [symmetric] list_update_same_conv assms(2))
  moreover have "e \<in> set es \<or> e = (es ! i)\<lparr>ge_superseded_by := Some u\<rparr>"
    if "e \<in> set (es [i := (es ! i)\<lparr>ge_superseded_by := Some u\<rparr>])" for e
    using that set_update_subset_insert by fastforce
  ultimately show ?thesis
    using assms unfolding links_ok_def by fastforce
qed

lemma link_supersession_ok:
  assumes "links_ok ids (ln_entities s)" "\<And>q. finite (lookup q) \<and> lookup q \<subseteq> set ids"
  shows "\<exists>s'. link_supersession uc lookup s event = Inr s' \<and> links_ok ids (ln_entities s')"
proof (cases "ev_supersedes event")
  case (Some old)
  define news where "news = lookup (lookup_key (entity_kind_value Decision)
    (normalize_name uc (ev_name event) (entity_kind_value Decision)))"
  define olds where "olds = lookup (lookup_key (entity_kind_value Decision)
    (normalize_name uc old (entity_kind_value Decision)))"
  have fin: "finite news" "finite olds" "news \<subseteq> set ids" "olds \<subseteq> set ids"
    using assms(2) by (simp_all add: news_def olds_def)
  note step = link_supersession_def Some option.case Let_def news_def [symmetric] olds_def [symmetric]
  show ?thesis
  proof (cases "ev_kind event = Decision \<and> old \<noteq> [] \<and> card news = 1 \<and> the_elem news \<notin> olds
      \<and> card olds \<le> 1 \<and> olds \<noteq> {}")
    case True
    have new: "the_elem news \<in> set ids"
      using True fin by (metis card_1_singletonE insert_subset the_elem_eq)
    obtain v where v: "olds = {v}"
      using True fin the_elem_mem [of olds] by blast
    then have "the_elem olds \<in> set ids"
      using fin(4) by simp
    then have "the_elem olds \<in> ge_id ` set (ln_entities s)"
      using assms(1) unfolding links_ok_def by (metis list.set_map)
    then obtain i where "index_by_id (ln_entities s) (the_elem olds) = Some i"
      using index_by_id_None by (metis not_None_eq)
    moreover from index_by_id_Some [OF this]
    have i: "i < length (ln_entities s)" "ge_id (ln_entities s ! i) = the_elem olds"
      by simp_all
    moreover have "the_elem news \<noteq> the_elem olds"
      using True v by auto
    then have "links_ok ids ((ln_entities s)
        [i := (ln_entities s ! i)\<lparr>ge_superseded_by := Some (the_elem news)\<rparr>])"
      using links_ok_update [OF assms(1) i(1) new] i(2) by simp
    ultimately show ?thesis
      using True assms(1) unfolding step by (simp add: warn_link_def)
  next
    case False
    then show ?thesis
      using assms(1) unfolding step by (auto simp: warn_link_def)
  qed
qed (use assms in \<open>simp add: link_supersession_def\<close>)

lemma link_supersessions_ok:
  assumes "\<forall>e \<in> set es. ge_superseded_by e = None"
  shows "\<exists>s. link_supersessions uc (entity_lookup es) result es w = Inr s
    \<and> links_ok (map ge_id es) (ln_entities s)"
proof -
  have lookup: "finite (entity_lookup es q) \<and> entity_lookup es q \<subseteq> set (map ge_id es)" for q
    using entity_lookup_ids [of es q] by simp
  have "\<exists>s'. foldr_result (link_supersession uc (entity_lookup es)) s evs = Inr s'
      \<and> links_ok (map ge_id es) (ln_entities s')"
    if "links_ok (map ge_id es) (ln_entities s)" for evs s
    using that
  proof (induction evs arbitrary: s)
    case (Cons ev evs)
    obtain s' where "link_supersession uc (entity_lookup es) s ev = Inr s'"
      "links_ok (map ge_id es) (ln_entities s')"
      using link_supersession_ok [OF Cons.prems, where lookup = "entity_lookup es" and uc = uc
          and event = ev] lookup by blast
    then show ?case
      using Cons.IH [of s'] by simp
  qed simp
  then show ?thesis
    using assms by (simp add: link_supersessions_def links_ok_def)
qed

section \<open>Relations: endpoints and periods\<close>

fun in_range_opt :: "instant option \<Rightarrow> bool" where
  "in_range_opt None = True"
| "in_range_opt (Some t) = in_datetime_range t"

lemma stated_interval_wf:
  assumes "in_range_opt fallback" "in_range_opt stated_from" "in_range_opt valid_end"
  shows "wf_interval (fst (stated_interval r fallback stated_from valid_end))"
  using assms
  by (cases stated_from; cases fallback; cases valid_end)
    (auto simp: stated_interval_def wf_interval_def in_datetime_range_def Let_def)

definition relations_inv :: "uuid set \<Rightarrow> (triple \<times> interval list) list \<Rightarrow> bool" where
  "relations_inv ids intervals \<longleftrightarrow> distinct (map fst intervals)
     \<and> (\<forall>s t k spans i. ((s, t, k), spans) \<in> set intervals \<longrightarrow> i \<in> set spans
          \<longrightarrow> s \<in> ids \<and> t \<in> ids \<and> wf_interval i)"

lemma relations_inv_append:
  assumes "relations_inv ids intervals" "s \<in> ids" "t \<in> ids" "wf_interval i"
  shows "relations_inv ids (dict_append (s, t, k) i intervals)"
proof -
  have d: "distinct (map fst intervals)"
    using assms(1) by (simp add: relations_inv_def)
  have "s' \<in> ids \<and> t' \<in> ids \<and> wf_interval j"
    if "((s', t', k'), spans) \<in> set (dict_append (s, t, k) i intervals)" "j \<in> set spans"
    for s' t' k' spans j
    using dict_append_values [OF that(1) d that(2)]
  proof (elim disjE exE conjE)
    fix ws
    assume "((s', t', k'), ws) \<in> set intervals" "j \<in> set ws"
    then show ?thesis
      using assms(1) unfolding relations_inv_def by blast
  qed (use assms in simp)
  then show ?thesis
    using dict_append_distinct [OF d] unfolding relations_inv_def by blast
qed

lemma resolve_relation_inv:
  assumes "resolve_relation rt (entity_lookup es) fallback (intervals, w) r = Inr (intervals', w')"
    and "relations_inv (ge_id ` set es) intervals"
    and "calendar_parser (rt_fromisoformat rt)" "in_range_opt fallback"
  shows "relations_inv (ge_id ` set es) intervals'"
proof -
  obtain src w1 where src: "endpoint (rt_unicode rt) (entity_lookup es) (re_source r) w = (src, w1)"
    by fastforce
  obtain tgt w2 where tgt: "endpoint (rt_unicode rt) (entity_lookup es) (re_target r) w1 = (tgt, w2)"
    by fastforce
  show ?thesis
  proof (cases "src \<noteq> None \<and> tgt \<noteq> None")
    case True
    then obtain s t where st: "src = Some s" "tgt = Some t"
      by auto
    have ids: "s \<in> ge_id ` set es" "t \<in> ge_id ` set es"
      using endpoint_unique(2) src tgt st by (metis fst_conv)+
    obtain f e where p: "parse_instant (rt_fromisoformat rt) (re_valid_from r) = Inr f"
      "parse_instant (rt_fromisoformat rt) (re_valid_to r) = Inr e"
      and res: "(case stated_interval r fallback f e of (i, w3) \<Rightarrow>
        Inr (dict_append (s, t, relation_kind_value (re_kind r)) i intervals, w2 @ w3))
          = (Inr (intervals', w') :: py_error + _)"
      using assms(1) src tgt st by (auto simp: resolve_relation_def rbind_Inr_iff)
    have eq: "intervals' = dict_append (s, t, relation_kind_value (re_kind r))
        (fst (stated_interval r fallback f e)) intervals"
      using res by (cases "stated_interval r fallback f e") simp
    have "in_range_opt f" "in_range_opt e"
      using parse_instant_in_range p assms(3) by (cases f; cases e; auto)+
    then show ?thesis
      unfolding eq using assms(2,4) ids by (intro relations_inv_append stated_interval_wf)
  next
    case False
    then show ?thesis
      using assms(1,2) src tgt
      by (auto simp: resolve_relation_def split: option.splits)
  qed
qed

definition span_of :: "graph_relation \<Rightarrow> interval" where
  "span_of r = \<lparr>valid_from = gr_valid_from r, valid_to = gr_valid_to r\<rparr>"

definition triple_of :: "graph_relation \<Rightarrow> triple" where
  "triple_of r = (gr_source_entity_id r, gr_target_entity_id r, gr_kind r)"

lemma span_relation_facts [simp]:
  "triple_of (span_relation rt ws ev tr i) = tr"
  "span_of (span_relation rt ws ev tr i) = i"
  by (cases tr; simp add: triple_of_def span_of_def span_relation_def)+

lemma span_relations_triples:
  "r \<in> set (span_relations rt ws ev intervals) \<Longrightarrow>
    \<exists>spans. (triple_of r, spans) \<in> set intervals \<and> span_of r \<in> set (normalize spans)"
  by (fastforce simp: span_relations_def)

definition periods_disjoint :: "graph_relation list \<Rightarrow> bool" where
  "periods_disjoint rs \<longleftrightarrow>
     sorted_wrt (\<lambda>r r'. triple_of r = triple_of r' \<longrightarrow> before (span_of r) (span_of r')) rs"

lemma span_relations_disjoint:
  assumes "relations_inv ids intervals"
  shows "periods_disjoint (span_relations rt ws ev intervals)"
  using assms
proof (induction intervals)
  case Nil
  then show ?case
    by (simp add: span_relations_def periods_disjoint_def)
next
  case (Cons entry rest)
  obtain tr spans where entry: "entry = (tr, spans)"
    by fastforce
  have "relations_inv ids rest"
    using Cons.prems unfolding relations_inv_def by auto
  then have rest: "periods_disjoint (span_relations rt ws ev rest)"
    by (rule Cons.IH)
  have "\<forall>i \<in> set spans. wf_interval i"
    using Cons.prems entry by (cases tr) (auto simp: relations_inv_def)
  then have "separated (normalize spans)"
    by (rule normalize_separated)
  then have first: "periods_disjoint (map (span_relation rt ws ev tr) (normalize spans))"
    by (simp add: periods_disjoint_def sorted_wrt_map separated_def)
  have "tr \<notin> fst ` set rest"
    using Cons.prems entry by (simp add: relations_inv_def)
  then have "triple_of r \<noteq> tr" if "r \<in> set (span_relations rt ws ev rest)" for r
    using span_relations_triples [OF that] by force
  moreover have "span_relations rt ws ev (entry # rest)
      = map (span_relation rt ws ev tr) (normalize spans) @ span_relations rt ws ev rest"
    by (simp add: span_relations_def entry)
  ultimately show ?case
    using first rest by (auto simp: periods_disjoint_def sorted_wrt_append)
qed

lemma normalize_Nil_iff: "normalize xs = [] \<longleftrightarrow> xs = []"
proof -
  have step: "normalize_step rs i \<noteq> []" for rs i
    by (simp add: normalize_step_def)
  have "foldl normalize_step rs ys = [] \<longleftrightarrow> rs = [] \<and> ys = []" for rs ys
    by (induction ys arbitrary: rs) (auto simp: step)
  then show ?thesis
    by (metis normalize_def length_0_conv length_sort)
qed

lemma span_relations_ends:
  assumes "relations_inv ids intervals" "r \<in> set (span_relations rt ws ev intervals)"
  shows "gr_source_entity_id r \<in> ids \<and> gr_target_entity_id r \<in> ids"
proof -
  obtain spans where sp: "(triple_of r, spans) \<in> set intervals" "span_of r \<in> set (normalize spans)"
    using span_relations_triples [OF assms(2)] by blast
  then have "spans \<noteq> []"
    by (auto simp: normalize_Nil_iff [of spans, symmetric])
  then have "hd spans \<in> set spans"
    by simp
  then show ?thesis
    using assms(1) sp(1) unfolding relations_inv_def triple_of_def by blast
qed

section \<open>The whole resolution\<close>

fun calendar_time :: "py_datetime option \<Rightarrow> bool" where
  "calendar_time None = True"
| "calendar_time (Some d) = in_datetime_range (utc_reading d)"

lemma as_utc_calendar:
  "calendar_time ts \<Longrightarrow> \<exists>t. as_utc ts = Inr t \<and> in_range_opt t"
  by (cases ts rule: calendar_time.cases; simp add: as_utc_def; rename_tac d; case_tac d; simp)

lemma group_entity_shape:
  assumes "group_entity rt ws src chunk ts g = Inr e"
  shows "ge_kind e = g_kind g \<and> ge_superseded_by e = None \<and> ge_name e \<in> set (g_names g)
    \<and> ge_identifiers e = sorted_list_of_set (g_identifiers g)
    \<and> ge_keys e = sorted_list_of_set (g_keys g)"
  using assms max_by_Some
  by (fastforce simp: group_entity_def pick_canonical_def split: option.splits)

lemma traverse_members:
  "traverse f xs = Inr ys \<Longrightarrow> y \<in> set ys \<Longrightarrow> \<exists>x \<in> set xs. f x = Inr y"
  by (induction xs arbitrary: ys) (auto simp: rbind_Inr_iff)

lemma resolve_relations_inv:
  assumes "foldr_result (resolve_relation rt (entity_lookup es) fallback) acc rels = Inr acc'"
    and "relations_inv (ge_id ` set es) (fst acc)"
    and "calendar_parser (rt_fromisoformat rt)" "in_range_opt fallback"
  shows "relations_inv (ge_id ` set es) (fst acc')"
proof (rule foldr_result_invariant [where P = "\<lambda>a. relations_inv (ge_id ` set es) (fst a)", OF assms(1,2)])
  fix s x s'
  assume "relations_inv (ge_id ` set es) (fst s)"
    "resolve_relation rt (entity_lookup es) fallback s x = Inr s'"
  then show "relations_inv (ge_id ` set es) (fst s')"
    using resolve_relation_inv assms(3,4) by (metis prod.collapse)
qed

text \<open>The graph that leaves the resolver: endpoints and supersessions name its own entities, and the
  periods of one relation are disjoint.\<close>

definition graph_ok :: "resolved_graph \<Rightarrow> bool" where
  "graph_ok rg \<longleftrightarrow> links_ok (map ge_id (rg_entities rg)) (rg_entities rg)
     \<and> periods_disjoint (rg_relations rg)
     \<and> (\<forall>r \<in> set (rg_relations rg). gr_source_entity_id r \<in> ge_id ` set (rg_entities rg)
          \<and> gr_target_entity_id r \<in> ge_id ` set (rg_entities rg))"

lemma resolve_graph_ok:
  assumes "resolve_extraction rt result ws src chunk ts trusted = Inr rg"
    and "calendar_parser (rt_fromisoformat rt)" "calendar_time ts"
  shows "graph_ok rg"
proof -
  obtain ms where "mentions rt trusted result = Inr ms"
    using assms(1) by (auto simp: resolve_extraction_def rbind_Inr_iff)
  obtain groups w0 where g: "group_mentions (rt_unicode rt) ms = (groups, w0)"
    by fastforce
  obtain fallback where fb: "as_utc ts = Inr fallback" "in_range_opt fallback"
    using as_utc_calendar [OF assms(3)] by auto
  obtain es linked intervals w1 where
    es: "traverse (group_entity rt ws src chunk ts) groups = Inr es"
    and ln: "link_supersessions (rt_unicode rt) (entity_lookup es) result es w0 = Inr linked"
    and rel: "foldr_result (resolve_relation rt (entity_lookup es) fallback)
      ([], ln_warnings linked) (xr_relations result) = Inr (intervals, w1)"
    and ents: "rg_entities rg = ln_entities linked"
    and rels: "rg_relations rg = span_relations rt ws
      \<lparr>gv_source_id = src, gv_chunk_id = chunk, gv_timestamp = ts\<rparr> intervals"
    using assms(1) \<open>mentions rt trusted result = Inr ms\<close> g fb(1)
    by (auto simp: resolve_extraction_def rbind_Inr_iff Let_def)
  have "\<forall>e \<in> set es. ge_superseded_by e = None"
    using traverse_members [OF es] group_entity_shape by blast
  then have ok: "links_ok (map ge_id es) (rg_entities rg)"
    using link_supersessions_ok ln ents by (metis Inr_inject)
  then have ids: "map ge_id (rg_entities rg) = map ge_id es"
    by (simp add: links_ok_def)
  have "relations_inv (ge_id ` set es) intervals"
    using resolve_relations_inv [OF rel _ assms(2) fb(2)] by (simp add: relations_inv_def)
  moreover have "ge_id ` set es = ge_id ` set (rg_entities rg)"
    using ids by (metis list.set_map)
  ultimately show ?thesis
    unfolding graph_ok_def using ok ids rels span_relations_disjoint span_relations_ends by metis
qed

lemma resolve_relation_total:
  assumes "\<And>v. \<exists>t. parse_instant (rt_fromisoformat rt) v = Inr t"
  shows "\<exists>acc'. resolve_relation rt lookup fallback acc r = Inr acc'"
proof -
  obtain f e where "parse_instant (rt_fromisoformat rt) (re_valid_from r) = Inr f"
    "parse_instant (rt_fromisoformat rt) (re_valid_to r) = Inr e"
    using assms by metis
  then show ?thesis
    by (auto simp: resolve_relation_def split: prod.splits option.splits)
qed

lemma foldr_result_total:
  "(\<And>s x. \<exists>s'. f s x = Inr s') \<Longrightarrow> \<exists>s'. foldr_result f s xs = Inr s'"
proof (induction xs arbitrary: s)
  case (Cons x xs)
  then show ?case
    by (metis foldr_result.simps(2) rbind.simps(2))
qed simp

lemma traverse_totalI:
  "\<forall>x \<in> set xs. \<exists>y. f x = Inr y \<Longrightarrow> \<exists>ys. traverse f xs = Inr ys"
  by (induction xs) (auto simp: rbind_Inr_iff)

lemma resolve_total:
  assumes parse: "\<And>v. \<exists>t. parse_instant (rt_fromisoformat rt) v = Inr t" and "calendar_time ts"
  shows "\<exists>rg. resolve_extraction rt result ws src chunk ts trusted = Inr rg"
proof -
  have "\<exists>m. event_mention rt e = Inr m" for e
    using parse [of "ev_occurred_at e"] by (auto simp: event_mention_def)
  then obtain evs where "traverse (event_mention rt) (xr_events result) = Inr evs"
    using traverse_totalI [of "xr_events result" "event_mention rt"] by blast
  then obtain ms where ms: "mentions rt trusted result = Inr ms"
    by (auto simp: mentions_def)
  obtain groups w0 where g: "group_mentions (rt_unicode rt) ms = (groups, w0)"
    by fastforce
  have "group_wf (rt_unicode rt) gr" if "gr \<in> set groups" for gr
    using group_mentions_inv [of "rt_unicode rt" ms] g that by (auto simp: grouping_inv_def)
  then have "\<exists>e. group_entity rt ws src chunk ts gr = Inr e" if "gr \<in> set groups" for gr
    using that by (fastforce simp: group_entity_def pick_canonical_def group_wf_def
        split: option.splits simp flip: set_empty)
  then obtain es where es: "traverse (group_entity rt ws src chunk ts) groups = Inr es"
    using traverse_totalI [of groups "group_entity rt ws src chunk ts"] by blast
  have "\<forall>e \<in> set es. ge_superseded_by e = None"
    using traverse_members [OF es] group_entity_shape by blast
  then obtain linked where "link_supersessions (rt_unicode rt) (entity_lookup es) result es w0 = Inr linked"
    using link_supersessions_ok by blast
  moreover obtain fallback where "as_utc ts = Inr fallback"
    using as_utc_calendar [OF assms(2)] by auto
  moreover obtain acc where "foldr_result (resolve_relation rt (entity_lookup es) fallback)
      ([], ln_warnings linked) (xr_relations result) = Inr acc"
    using foldr_result_total resolve_relation_total [OF parse] by metis
  ultimately show ?thesis
    using ms g es by (cases acc) (simp add: resolve_extraction_def Let_def)
qed

section \<open>Properties\<close>

text \<open>C3: Identity in one source is connectedness of identifiers, never of names. After any mentions,
  two groups of one kind share no identifier; the identifiers of an identified group are
  exactly those linked to one of them by mentions that state two identifiers together; and
  every usable mention is inside a group that has its name, keys and identifiers.\<close>

theorem grouping_by_identifiers:
  assumes "group_mentions uc ms = (groups, warnings)"
  shows "sorted_wrt apart groups
    \<and> (\<forall>g \<in> set groups. \<forall>x \<in> g_identifiers g. g_identifiers g = {y. (linked uc ms (g_kind g))\<^sup>+\<^sup>+ x y})
    \<and> (\<forall>m \<in> set ms. usable uc m \<longrightarrow> (\<exists>g \<in> set groups. g_kind g = m_kind m
         \<and> m_identifiers m \<subseteq> g_identifiers g \<and> mention_keys uc m \<subseteq> g_keys g
         \<and> m_name m \<in> set (g_names g)))"
proof -
  have inv: "grouping_inv uc ms groups"
    using group_mentions_inv [of uc ms] assms by simp
  then show ?thesis
    using group_component [OF inv] unfolding grouping_inv_def by blast
qed

definition sample_mention :: "string \<Rightarrow> string list \<Rightarrow> mention" where
  "sample_mention name ids = \<lparr>m_name = lit name, m_kind = lit ''Person'', m_aliases = [],
     m_identifiers = set (map lit ids), m_occurred_at = None\<rparr>"

definition sample_mentions :: "mention list" where
  "sample_mentions = [sample_mention ''Kim'' [''a''], sample_mention ''Kim'' [''b''],
     sample_mention ''K'' [''a'', ''c'']]"

theorem grouping_by_identifiers_witness:
  "sorted_wrt apart (fst (group_mentions ascii_unicode sample_mentions))
   \<and> map (\<lambda>g. sorted_list_of_set (g_identifiers g)) (fst (group_mentions ascii_unicode sample_mentions))
     = [[lit ''a'', lit ''c''], [lit ''b'']]"
proof
  show "sorted_wrt apart (fst (group_mentions ascii_unicode sample_mentions))"
    using grouping_by_identifiers [of ascii_unicode sample_mentions] by (metis prod.collapse)
qed code_simp

text \<open>C4: The graph one source resolves to is consistent: relation endpoints and supersession links
  name entities of the graph, no decision supersedes itself, and for every (source, target,
  kind) the periods of its relations are pairwise disjoint and in order.\<close>

theorem resolve_extraction_sound:
  assumes "resolve_extraction rt result ws src chunk ts trusted = Inr rg"
    and "calendar_parser (rt_fromisoformat rt)" and "calendar_time ts"
  shows "(\<forall>r \<in> set (rg_relations rg). gr_source_entity_id r \<in> ge_id ` set (rg_entities rg)
        \<and> gr_target_entity_id r \<in> ge_id ` set (rg_entities rg))
    \<and> (\<forall>e \<in> set (rg_entities rg). \<forall>u. ge_superseded_by e = Some u
        \<longrightarrow> u \<noteq> ge_id e \<and> u \<in> ge_id ` set (rg_entities rg))
    \<and> sorted_wrt (\<lambda>r r'. triple_of r = triple_of r' \<longrightarrow> \<not> overlaps (span_of r) (span_of r'))
        (rg_relations rg)"
proof -
  have ok: "graph_ok rg"
    by (rule resolve_graph_ok [OF assms])
  then have "sorted_wrt (\<lambda>r r'. triple_of r = triple_of r' \<longrightarrow> \<not> overlaps (span_of r) (span_of r'))
      (rg_relations rg)"
    unfolding graph_ok_def periods_disjoint_def
    by (elim conjE sorted_wrt_mono_rel [rotated]) (auto dest: before_not_overlaps)
  moreover have "\<forall>e \<in> set (rg_entities rg). \<forall>u. ge_superseded_by e = Some u
      \<longrightarrow> u \<noteq> ge_id e \<and> u \<in> ge_id ` set (rg_entities rg)"
    using ok unfolding graph_ok_def links_ok_def by fastforce
  ultimately show ?thesis
    using ok unfolding graph_ok_def by blast
qed

definition sample_entity :: "string \<Rightarrow> string list \<Rightarrow> extracted_entity" where
  "sample_entity name ids = \<lparr>en_name = lit name, en_kind = Person, en_aliases = [],
     en_identifiers = map lit ids, en_source_refs = [lit name]\<rparr>"

definition sample_relation ::
  "string \<Rightarrow> string \<Rightarrow> string option \<Rightarrow> string option \<Rightarrow> extracted_relation" where
  "sample_relation s t f e = \<lparr>re_source = lit s, re_target = lit t, re_kind = WORKS_ON,
     re_valid_from = map_option lit f, re_valid_to = map_option lit e, re_source_refs = [lit s]\<rparr>"

definition sample_extraction :: extraction_result where
  "sample_extraction = \<lparr>
     xr_classification = \<lparr>cl_source_type = StMeeting, cl_language = lit ''ko'', cl_topics = []\<rparr>,
     xr_entities = [sample_entity ''Kim'' [''k@x''], sample_entity ''Lee'' []],
     xr_events = [],
     xr_relations = [sample_relation ''Kim'' ''lee'' (Some ''0001-01-02'') (Some ''0001-01-03''),
       sample_relation ''Kim'' ''lee'' (Some ''0001-01-05'') None],
     xr_contexts = [], xr_warnings = [], xr_usage = []\<rparr>"

lemma toy_parser_in_range: "toy_fromisoformat s = Some d \<Longrightarrow> \<exists>t. d = Naive t \<and> in_datetime_range t"
  by (auto simp: toy_fromisoformat_def ascii_decimal_def in_datetime_range_def datetime_min_def
      datetime_max_def seconds_def split: if_splits option.splits)

lemma toy_calendar_parser: "calendar_parser (rt_fromisoformat toy_runtime)"
  using toy_parser_in_range by (fastforce simp: calendar_parser_def toy_runtime_def)

lemma toy_parse_total: "\<exists>t. parse_instant (rt_fromisoformat toy_runtime) v = Inr t"
proof (cases "parse_instant (rt_fromisoformat toy_runtime) v")
  case (Inl e)
  then show ?thesis
    using toy_parser_in_range by (fastforce simp: parse_instant_error_iff toy_runtime_def)
qed simp

theorem resolve_extraction_sound_witness:
  "\<exists>rg. resolve_extraction toy_runtime sample_extraction 1 2 None None {} = Inr rg
    \<and> gr_source_entity_id ` set (rg_relations rg) \<subseteq> ge_id ` set (rg_entities rg)"
proof -
  obtain rg where rg: "resolve_extraction toy_runtime sample_extraction 1 2 None None {} = Inr rg"
    using resolve_total [OF toy_parse_total, of None sample_extraction 1 2 None "{}"] by auto
  then show ?thesis
    using resolve_extraction_sound [OF rg toy_calendar_parser] by auto
qed



end
