(* ===== verification/Rows.thy ===== *)
theory Rows
  imports Providers EntityResolution
begin

text \<open>
  The workspace tables (\<^verbatim>\<open>workspaces/infrastructure/models.py\<close>), the workflow values of
  \<^verbatim>\<open>workspaces/domain/source_state.py\<close> and the processing jobs of
  \<^verbatim>\<open>ingestion/infrastructure/pg_jobs.py\<close>, as records; a table is the list of its rows. The
  check and uniqueness constraints the models declare are predicates on rows and tables.
\<close>

section \<open>Workflow values\<close>

datatype source_status = Queued | EnqueuePending | Processing | AwaitingReview | AwaitingAgent
  | Succeeded | Failed

datatype review_state = RvTranscribing | RvAwaitingReview | RvConfirmed

datatype processing_stage = Uploaded | Transcribing | StAwaitingReview | StAwaitingAgent
  | Confirmed | Analyzing | Graphing | Completed

fun source_status_value :: "source_status \<Rightarrow> pystr" where
  "source_status_value Queued = lit ''queued''"
| "source_status_value EnqueuePending = lit ''enqueue_pending''"
| "source_status_value Processing = lit ''processing''"
| "source_status_value AwaitingReview = lit ''awaiting_review''"
| "source_status_value AwaitingAgent = lit ''awaiting_agent''"
| "source_status_value Succeeded = lit ''succeeded''"
| "source_status_value Failed = lit ''failed''"

fun review_state_value :: "review_state \<Rightarrow> pystr" where
  "review_state_value RvTranscribing = lit ''transcribing''"
| "review_state_value RvAwaitingReview = lit ''awaiting_review''"
| "review_state_value RvConfirmed = lit ''confirmed''"

fun processing_stage_value :: "processing_stage \<Rightarrow> pystr" where
  "processing_stage_value Uploaded = lit ''uploaded''"
| "processing_stage_value Transcribing = lit ''transcribing''"
| "processing_stage_value StAwaitingReview = lit ''awaiting_review''"
| "processing_stage_value StAwaitingAgent = lit ''awaiting_agent''"
| "processing_stage_value Confirmed = lit ''confirmed''"
| "processing_stage_value Analyzing = lit ''analyzing''"
| "processing_stage_value Graphing = lit ''graphing''"
| "processing_stage_value Completed = lit ''completed''"

lemma source_status_value_inj: "source_status_value a = source_status_value b \<longleftrightarrow> a = b"
  by (cases a; cases b) (simp_all add: lit_def)

lemma processing_stage_value_inj: "processing_stage_value a = processing_stage_value b \<longleftrightarrow> a = b"
  by (cases a; cases b) (simp_all add: lit_def)

section \<open>Workspaces, members and their audit\<close>

record workspace_row =
  wk_id :: uuid
  wk_owner_id :: uuid
  wk_name :: pystr
  wk_model_settings :: "(pystr \<times> json) list"
  wk_created_at :: instant

datatype member_role = Owner | Admin | Editor | Viewer

record member_row =
  mb_id :: uuid
  mb_workspace_id :: uuid
  mb_user_id :: "uuid option"
  mb_email :: pystr
  mb_email_normalized :: pystr
  mb_role :: member_role
  mb_invited_by :: uuid
  mb_joined_at :: "instant option"
  mb_created_at :: instant

text \<open>\<^verbatim>\<open>uq_workspace_members_user\<close> (nulls are distinct) and \<^verbatim>\<open>uq_workspace_members_email\<close>.\<close>

definition members_unique :: "member_row list \<Rightarrow> bool" where
  "members_unique rows \<longleftrightarrow> distinct (map (\<lambda>m. (mb_workspace_id m, mb_email_normalized m)) rows)
     \<and> distinct (map (\<lambda>m. (mb_workspace_id m, mb_user_id m)) (filter (\<lambda>m. mb_user_id m \<noteq> None) rows))"

record audit_row =
  au_id :: uuid
  au_workspace_id :: uuid
  au_actor_id :: uuid
  au_actor_email :: "pystr option"
  au_action :: pystr
  au_target_type :: pystr
  au_target_id :: "pystr option"
  au_origin :: pystr
  au_details :: "(pystr \<times> json) list"
  au_request_id :: "pystr option"
  au_created_at :: instant

section \<open>The directory\<close>

record person_row =
  pe_id :: uuid
  pe_workspace_id :: uuid
  pe_owner_id :: uuid
  pe_name :: pystr
  pe_email :: "pystr option"
  pe_email_normalized :: "pystr option"
  pe_role :: "pystr option"
  pe_aliases :: "pystr list"
  pe_archived_at :: "instant option"
  pe_created_at :: instant
  pe_updated_at :: instant

record project_row =
  pj_id :: uuid
  pj_workspace_id :: uuid
  pj_owner_id :: uuid
  pj_revision :: int
  pj_name :: pystr
  pj_goal :: "pystr option"
  pj_description :: "pystr option"
  pj_owner_person_id :: "uuid option"
  pj_starts_on :: "int option"
  pj_ends_on :: "int option"
  pj_archived_at :: "instant option"
  pj_created_at :: instant
  pj_updated_at :: instant

record project_member_row =
  pm_id :: uuid
  pm_workspace_id :: uuid
  pm_project_id :: uuid
  pm_person_id :: uuid

record source_project_row =
  sp_id :: uuid
  sp_workspace_id :: uuid
  sp_source_id :: uuid
  sp_project_id :: uuid
  sp_position :: int

datatype source_person_role = Participant | Author

record source_person_row =
  sn_id :: uuid
  sn_workspace_id :: uuid
  sn_source_id :: uuid
  sn_person_id :: uuid
  sn_role :: source_person_role

section \<open>Sources\<close>

datatype source_kind = DocumentKind | MeetingKind

datatype analysis_mode = ServerMode | AgentMode

datatype transcript_source = FromServer | FromBrowser | FromAgent

text \<open>An element of \<^verbatim>\<open>raw_utterances\<close> and \<^verbatim>\<open>review_utterances\<close>.\<close>

record utterance =
  ut_id :: pystr
  ut_person_id :: "uuid option"
  ut_speaker_name :: pystr
  ut_text :: pystr
  ut_start_seconds :: "py_float option"
  ut_end_seconds :: "py_float option"

text \<open>The directory as it was when a transcript was confirmed (\<^verbatim>\<open>_snapshot\<close> of the review routes writes it),
  and the progress of an analysis: the JSON columns \<^verbatim>\<open>confirmed_snapshot\<close> and
  \<^verbatim>\<open>analysis_checkpoint\<close>, read back as they were written.\<close>

record snapshot_person =
  dp_id :: uuid
  dp_name :: pystr
  dp_role :: "pystr option"
  dp_email :: "pystr option"
  dp_aliases :: "pystr list"

record snapshot_project =
  dj_id :: uuid
  dj_name :: pystr
  dj_goal :: "pystr option"
  dj_description :: "pystr option"
  dj_owner_person_id :: "uuid option"
  dj_owner_name :: "pystr option"
  dj_owner_role :: "pystr option"
  dj_starts_on :: "int option"
  dj_ends_on :: "int option"

record directory_snapshot =
  dy_project :: "snapshot_project option"
  dy_projects :: "snapshot_project list"
  dy_people :: "snapshot_person list"
  dy_roster :: "snapshot_person list"

datatype checkpoint_phase = Extracted | ContextApplied | AnalysisDone

text \<open>What only a checkpoint of mode \<^verbatim>\<open>agent\<close> holds: the fingerprint of the context the agent was given and
  the hash of the result it submitted.\<close>

record agent_mark =
  am_context_fingerprint :: pystr
  am_result_hash :: pystr

record analysis_checkpoint =
  cp_fingerprint :: pystr
  cp_decision_fingerprint :: "pystr option"
  cp_phase :: checkpoint_phase
  cp_result :: extraction_result
  cp_graph :: resolved_graph
  cp_provenance :: "(pystr \<times> json) list"
  cp_context_warnings :: "warning list"
  cp_warnings :: "warning list"
  cp_agent :: "agent_mark option"

record source_row =
  so_id :: uuid
  so_workspace_id :: uuid
  so_owner_id :: uuid
  so_kind :: source_kind
  so_title :: pystr
  so_object_path :: pystr
  so_content_type :: pystr
  so_size_bytes :: int
  so_analysis_mode :: analysis_mode
  so_transcript_source :: "transcript_source option"
  so_duration_seconds :: "py_float option"
  so_transcript_text :: "pystr option"
  so_raw_transcript_text :: "pystr option"
  so_raw_utterances :: "utterance list"
  so_review_utterances :: "utterance list"
  so_review_state :: "review_state option"
  so_review_revision :: int
  so_project_id :: "uuid option"
  so_association_revision :: int
  so_confirmed_at :: "instant option"
  so_confirmed_snapshot :: "directory_snapshot option"
  so_content_text :: "pystr option"
  so_analysis_checkpoint :: "analysis_checkpoint option"
  so_status :: source_status
  so_processing_stage :: processing_stage
  so_progress :: py_float
  so_error_message :: "pystr option"
  so_created_at :: instant

text \<open>\<^verbatim>\<open>ck_sources_duration_seconds\<close> and \<^verbatim>\<open>ck_sources_progress\<close>; the other checks are the types.\<close>

definition source_checks :: "source_row \<Rightarrow> bool" where
  "source_checks s \<longleftrightarrow> (case so_duration_seconds s of None \<Rightarrow> True | Some d \<Rightarrow> 0 \<le> d)
     \<and> 0 \<le> so_progress s \<and> so_progress s \<le> 1"

text \<open>A freshly uploaded document, the input of the concrete runs further on.\<close>

definition example_source :: source_row where
  "example_source = \<lparr>so_id = 9, so_workspace_id = 1, so_owner_id = 2, so_kind = DocumentKind,
     so_title = lit ''notes'', so_object_path = lit ''sources/notes.txt'',
     so_content_type = lit ''text/plain'', so_size_bytes = 120, so_analysis_mode = ServerMode,
     so_transcript_source = None, so_duration_seconds = None, so_transcript_text = None,
     so_raw_transcript_text = None, so_raw_utterances = [], so_review_utterances = [],
     so_review_state = None, so_review_revision = 0, so_project_id = None,
     so_association_revision = 0, so_confirmed_at = None, so_confirmed_snapshot = None,
     so_content_text = None, so_analysis_checkpoint = None, so_status = Queued,
     so_processing_stage = Uploaded, so_progress = 0, so_error_message = None, so_created_at = 5\<rparr>"

section \<open>Credentials\<close>

record credential_row =
  cd_id :: uuid
  cd_workspace_id :: "uuid option"
  cd_owner_id :: uuid
  cd_provider :: pystr
  cd_label :: pystr
  cd_vault_secret_id :: "uuid option"
  cd_base_url :: "pystr option"
  cd_encrypted_secret :: "pystr option"
  cd_key_hint :: pystr
  cd_status :: pystr
  cd_is_default :: bool
  cd_created_at :: instant
  cd_updated_at :: instant

definition credential_has_secret :: "credential_row \<Rightarrow> bool" where
  "credential_has_secret c \<longleftrightarrow> cd_provider c = lit ''ollama'' \<or> cd_vault_secret_id c \<noteq> None
     \<or> cd_encrypted_secret c \<noteq> None"

section \<open>Processing jobs\<close>

datatype job_status = JobPending | JobRunning | JobCompleted | JobFailed | JobCancelled

record job_row =
  jb_source_id :: uuid
  jb_status :: job_status
  jb_stage :: processing_stage
  jb_provider_attempts :: int
  jb_claim_generation :: int
  jb_lease_owner :: "uuid option"
  jb_lease_expires_at :: "instant option"
  jb_next_run_at :: instant
  jb_last_error :: "pystr option"
  jb_created_at :: instant
  jb_updated_at :: instant

end
