(* ===== verification/Attempts.thy ===== *)
theory Attempts
  imports Rows
begin

text \<open>
  How a failed processing attempt is described and keyed (the first half of
  \<^verbatim>\<open>ingestion/infrastructure/source_processor.py\<close>): an exception with its causes is reduced to
  a \<open>safe_error\<close> that carries only vetted fields, and the advisory lock keys of a source and
  of a workspace. The lemmas show that nothing outside the vetted sets leaves the
  classification, which failures are terminal, and that the two key spaces are disjoint.
\<close>

section \<open>The chain of causes\<close>

definition exc_chain :: "raised \<Rightarrow> exc list" where
  "exc_chain r = take 8 r"

definition capabilities :: "pystr list" where
  "capabilities = map lit [''chat'', ''embedding'', ''transcription'', ''structuredOutput'']"

definition providers :: "pystr list" where
  "providers = map lit [''openai'', ''anthropic'', ''nvidia'', ''ollama'']"

definition extraction_stages :: "pystr list" where
  "extraction_stages = map lit [''classification'', ''entity'', ''event'', ''relation'', ''context'',
     ''context_update'']"

text \<open>The messages a failed source shows, by the constructor that names them.\<close>

datatype failure_message = MissingTranscriptionMessage | GenericFailureMessage
  | ModelUnavailableMessage | ProviderAuthMessage

datatype error_code = MissingCapabilityCode | HttpStatusCode | HttpTimeoutCode | HttpConnectCode
  | ProviderErrorCode | IngestionErrorCode | ProcessingErrorCode | RecoveredTerminalCode

section \<open>Safe errors\<close>

record safe_error =
  sf_code :: error_code
  sf_stage :: pystr
  sf_error_type :: pystr
  sf_cause_type :: "pystr option"
  sf_http_status :: "int option"
  sf_capability :: "pystr option"
  sf_provider :: "pystr option"
  sf_extraction_stage :: "pystr option"
  sf_terminal :: bool
  sf_provider_failure :: bool

definition safe_message :: "safe_error \<Rightarrow> failure_message" where
  "safe_message e = (if sf_code e = MissingCapabilityCode \<and> sf_capability e = Some (lit ''transcription'')
     then MissingTranscriptionMessage else GenericFailureMessage)"

definition denied_status :: "int option \<Rightarrow> bool" where
  "denied_status s \<longleftrightarrow> s \<in> {Some 401, Some 403, Some 404}"

definition expected :: "safe_error \<Rightarrow> bool" where
  "expected e \<longleftrightarrow> sf_code e = MissingCapabilityCode
     \<or> (sf_provider_failure e \<and> denied_status (sf_http_status e))"

fun is_missing_credential :: "exc_class \<Rightarrow> bool" where
  "is_missing_credential (MissingCapabilityCredential ps) = True"
| "is_missing_credential _ = False"

fun is_provider_error :: "exc_class \<Rightarrow> bool" where
  "is_provider_error (ProviderErr s) = True"
| "is_provider_error _ = False"

text \<open>\<^verbatim>\<open>MissingCapabilityCredentialError\<close> is a subclass of \<^verbatim>\<open>IngestionError\<close>.\<close>

fun is_ingestion_error :: "exc_class \<Rightarrow> bool" where
  "is_ingestion_error IngestionErr = True"
| "is_ingestion_error (MissingCapabilityCredential ps) = True"
| "is_ingestion_error _ = False"

fun first_of :: "('a \<Rightarrow> 'b option) \<Rightarrow> 'a list \<Rightarrow> 'b option" where
  "first_of f [] = None"
| "first_of f (x # xs) = (case f x of Some y \<Rightarrow> Some y | None \<Rightarrow> first_of f xs)"

definition vetted :: "pystr list \<Rightarrow> pystr option \<Rightarrow> pystr option" where
  "vetted allowed v = (case v of Some x \<Rightarrow> if x \<in> set allowed then Some x else None | None \<Rightarrow> None)"

fun provider_of :: "exc \<Rightarrow> pystr option" where
  "provider_of e = vetted providers (case ex_class e of
     MissingCapabilityCredential (p # ps) \<Rightarrow> if ps = [] then Some p else None
   | _ \<Rightarrow> ex_provider e)"

fun extraction_stage_of :: "exc \<Rightarrow> pystr option" where
  "extraction_stage_of e = (case ex_class e of
     ExtractionErr s \<Rightarrow> vetted extraction_stages (Some s) | _ \<Rightarrow> None)"

fun response_status :: "exc \<Rightarrow> int option" where
  "response_status e = (case ex_class e of
     HttpStatusErr s \<Rightarrow> if 100 \<le> s \<and> s \<le> 599 then Some s else None | _ \<Rightarrow> None)"

fun provider_status :: "exc \<Rightarrow> int option" where
  "provider_status e = (case ex_class e of
     ProviderErr (Some s) \<Rightarrow> if 400 \<le> s \<and> s \<le> 599 then Some s else None | _ \<Rightarrow> None)"

definition error_status :: "exc list \<Rightarrow> int option" where
  "error_status chain = (case first_of response_status chain of
     Some s \<Rightarrow> Some s | None \<Rightarrow> first_of provider_status chain)"

definition error_code_of :: "exc list \<Rightarrow> error_code" where
  "error_code_of chain =
     (if (\<exists>e \<in> set chain. is_missing_credential (ex_class e))
         \<and> first_of (\<lambda>e. vetted capabilities (ex_capability e)) chain \<noteq> None then MissingCapabilityCode
      else if error_status chain \<noteq> None then HttpStatusCode
      else if \<exists>e \<in> set chain. ex_class e = HttpTimeoutErr then HttpTimeoutCode
      else if \<exists>e \<in> set chain. ex_class e = HttpConnectErr then HttpConnectCode
      else if \<exists>e \<in> set chain. is_provider_error (ex_class e) then ProviderErrorCode
      else if is_ingestion_error (ex_class (hd chain)) then IngestionErrorCode
      else ProcessingErrorCode)"

definition safe_attempt_error :: "raised \<Rightarrow> pystr \<Rightarrow> safe_error" where
  "safe_attempt_error r stage =
     (let chain = exc_chain r; code = error_code_of chain; st = error_status chain;
          provider_failure = (\<exists>e \<in> set chain. is_provider_error (ex_class e)) in
      \<lparr>sf_code = code, sf_stage = stage, sf_error_type = ex_type (hd chain),
       sf_cause_type = (if length chain > 1 then Some (ex_type (last chain)) else None),
       sf_http_status = st,
       sf_capability = (if code = MissingCapabilityCode
         then first_of (\<lambda>e. vetted capabilities (ex_capability e)) chain else None),
       sf_provider = first_of provider_of chain,
       sf_extraction_stage = first_of extraction_stage_of chain,
       sf_terminal = (code = MissingCapabilityCode \<or> (provider_failure \<and> denied_status st)),
       sf_provider_failure = provider_failure\<rparr>)"

lemma first_of_Some: "first_of f xs = Some y \<Longrightarrow> \<exists>x \<in> set xs. f x = Some y"
  by (induction xs) (auto split: option.splits)

lemma first_of_None: "first_of f xs = None \<longleftrightarrow> (\<forall>x \<in> set xs. f x = None)"
  by (induction xs) (auto split: option.splits)

lemma vetted_Some: "vetted allowed v = Some x \<Longrightarrow> x \<in> set allowed"
  by (auto simp: vetted_def split: option.splits if_splits)

lemma safe_fields_vetted:
  "set_option (sf_capability (safe_attempt_error r stage)) \<subseteq> set capabilities"
  "set_option (sf_provider (safe_attempt_error r stage)) \<subseteq> set providers"
  "set_option (sf_extraction_stage (safe_attempt_error r stage)) \<subseteq> set extraction_stages"
  by (auto simp: safe_attempt_error_def Let_def dest!: first_of_Some vetted_Some
      split: if_splits exc_class.splits)

lemma status_range:
  assumes "sf_http_status (safe_attempt_error r stage) = Some s"
  shows "100 \<le> s \<and> s \<le> 599"
  using assms
  by (auto simp: safe_attempt_error_def Let_def error_status_def dest!: first_of_Some
      split: option.splits exc_class.splits if_splits)

lemma terminal_iff_expected:
  "sf_terminal (safe_attempt_error r stage) = expected (safe_attempt_error r stage)"
  by (simp add: safe_attempt_error_def Let_def expected_def)

section \<open>Advisory lock keys\<close>

text \<open>The first eight bytes, without their top bit; workspace keys are shifted below zero.\<close>

definition high_bits :: "uuid \<Rightarrow> int" where
  "high_bits u = uint (drop_bit 64 u) mod 2 ^ 63"

definition source_lock_key :: "uuid \<Rightarrow> int" where
  "source_lock_key u = high_bits u"

definition workspace_lock_key :: "uuid \<Rightarrow> int" where
  "workspace_lock_key u = high_bits u - 2 ^ 63"

definition bigint_range :: "int \<Rightarrow> bool" where
  "bigint_range k \<longleftrightarrow> - (2 ^ 63) \<le> k \<and> k < 2 ^ 63"

lemma high_bits_range: "0 \<le> high_bits u \<and> high_bits u < 2 ^ 63"
  by (simp add: high_bits_def)

text \<open>The locks an attempt takes, in order: the source's, then its workspace's.\<close>

definition lock_sequence :: "uuid \<Rightarrow> uuid option \<Rightarrow> int list" where
  "lock_sequence source_id workspace_id = source_lock_key source_id
     # (case workspace_id of Some w \<Rightarrow> [workspace_lock_key w] | None \<Rightarrow> [])"

section \<open>Properties\<close>


text \<open>The lock keys of sources and workspaces are PostgreSQL bigints from disjoint ranges, and
  every attempt takes its source key before its workspace key.\<close>

theorem lock_keys_disjoint:
  "bigint_range (source_lock_key s) \<and> bigint_range (workspace_lock_key w)
    \<and> workspace_lock_key w < 0 \<and> 0 \<le> source_lock_key s
    \<and> distinct (lock_sequence s (Some w))
    \<and> takeWhile (\<lambda>k. 0 \<le> k) (lock_sequence s (Some w)) = [source_lock_key s]"
  using high_bits_range [of s] high_bits_range [of w]
  by (simp add: bigint_range_def source_lock_key_def workspace_lock_key_def lock_sequence_def)

end
