(* ===== verification/PgQueue.thy ===== *)
theory PgQueue
  imports Attempts
begin

text \<open>
  The PostgreSQL job queue (\<^verbatim>\<open>ingestion/infrastructure/pg_executor.py\<close> and
  \<^verbatim>\<open>pg_recovery.py\<close>). Every SQL statement is an atomic function on the job table at the
  transaction's \<^verbatim>\<open>now()\<close>; \<open>SKIP LOCKED\<close> is the set of rows other transactions hold. A claim
  hands out a token (source, owner, generation, attempts), and every later write of that
  claim is fenced by it. The queue as a whole is a step relation in which any number of
  executors act in any order, crash, or resume late; its invariant gives that stale claims
  are powerless, that one claim at most is live per source, and that the provider budget
  is bounded.
\<close>

section \<open>Statements\<close>

type_synonym jobs = "job_row list"

definition get_job :: "uuid \<Rightarrow> jobs \<Rightarrow> job_row option" where
  "get_job = row_get jb_source_id"

definition fresh_job :: "instant \<Rightarrow> uuid \<Rightarrow> processing_stage \<Rightarrow> job_row" where
  "fresh_job now source_id stage = \<lparr>jb_source_id = source_id, jb_status = JobPending, jb_stage = stage,
     jb_provider_attempts = 0, jb_claim_generation = 0, jb_lease_owner = None,
     jb_lease_expires_at = None, jb_next_run_at = now, jb_last_error = None, jb_created_at = now,
     jb_updated_at = now\<rparr>"

definition rearm_job :: "instant \<Rightarrow> processing_stage \<Rightarrow> job_row \<Rightarrow> job_row" where
  "rearm_job now stage j = j\<lparr>jb_status := JobPending, jb_stage := stage, jb_provider_attempts := 0,
     jb_claim_generation := jb_claim_generation j + 1, jb_lease_owner := None,
     jb_lease_expires_at := None, jb_next_run_at := now, jb_last_error := None, jb_updated_at := now\<rparr>"

definition rearmable :: "bool \<Rightarrow> job_row \<Rightarrow> bool" where
  "rearmable supersede j \<longleftrightarrow> jb_status j \<in> {JobCompleted, JobFailed, JobCancelled}
     \<or> (supersede \<and> jb_status j \<in> {JobPending, JobRunning})"

text \<open>\<^verbatim>\<open>INSERT ... ON CONFLICT (source_id) DO UPDATE ... WHERE\<close>.\<close>

definition enqueue_source ::
  "instant \<Rightarrow> uuid \<Rightarrow> processing_stage \<Rightarrow> bool \<Rightarrow> jobs \<Rightarrow> jobs" where
  "enqueue_source now source_id stage supersede jobs = (case get_job source_id jobs of
     None \<Rightarrow> row_add (fresh_job now source_id stage) jobs
   | Some j \<Rightarrow> if rearmable supersede j
       then row_upd jb_source_id source_id (rearm_job now stage) jobs else jobs)"

definition claimable :: "instant \<Rightarrow> job_row \<Rightarrow> bool" where
  "claimable now j \<longleftrightarrow> (jb_status j = JobPending \<and> jb_next_run_at j \<le> now)
     \<or> (jb_status j = JobRunning \<and> (case jb_lease_expires_at j of Some t \<Rightarrow> t \<le> now | None \<Rightarrow> False))"

definition claim_candidates :: "instant \<Rightarrow> uuid set \<Rightarrow> jobs \<Rightarrow> jobs" where
  "claim_candidates now locked jobs = sort_key (\<lambda>j. (jb_next_run_at j, jb_source_id j))
     (filter (\<lambda>j. claimable now j \<and> jb_source_id j \<notin> locked) jobs)"

definition take_lease :: "instant \<Rightarrow> uuid \<Rightarrow> int \<Rightarrow> job_row \<Rightarrow> job_row" where
  "take_lease now owner lease_seconds j = j\<lparr>jb_status := JobRunning, jb_lease_owner := Some owner,
     jb_lease_expires_at := Some (now + seconds lease_seconds),
     jb_claim_generation := jb_claim_generation j + 1, jb_updated_at := now\<rparr>"

record claim =
  ct_source_id :: uuid
  ct_owner :: uuid
  ct_generation :: int
  ct_attempts :: int

definition claim_job ::
  "instant \<Rightarrow> uuid set \<Rightarrow> uuid \<Rightarrow> int \<Rightarrow> jobs \<Rightarrow> claim option \<times> jobs" where
  "claim_job now locked owner lease_seconds jobs = (case claim_candidates now locked jobs of
     [] \<Rightarrow> (None, jobs)
   | j # _ \<Rightarrow>
       (Some \<lparr>ct_source_id = jb_source_id j, ct_owner = owner,
          ct_generation = jb_claim_generation j + 1, ct_attempts = jb_provider_attempts j\<rparr>,
        row_upd jb_source_id (jb_source_id j) (take_lease now owner lease_seconds) jobs))"

text \<open>The fence of every later write: still running, same owner, same generation, lease not over.\<close>

definition fenced :: "instant \<Rightarrow> claim \<Rightarrow> job_row \<Rightarrow> bool" where
  "fenced now c j \<longleftrightarrow> jb_source_id j = ct_source_id c \<and> jb_status j = JobRunning
     \<and> jb_lease_owner j = Some (ct_owner c) \<and> jb_claim_generation j = ct_generation c
     \<and> (case jb_lease_expires_at j of Some t \<Rightarrow> t > now | None \<Rightarrow> False)"

definition fenced_update ::
  "instant \<Rightarrow> claim \<Rightarrow> (job_row \<Rightarrow> job_row) \<Rightarrow> jobs \<Rightarrow> jobs \<times> bool" where
  "fenced_update now c assign jobs =
     (map (\<lambda>j. if fenced now c j then (assign j)\<lparr>jb_updated_at := now\<rparr> else j) jobs,
      length (filter (fenced now c) jobs) = 1)"

definition renew :: "instant \<Rightarrow> claim \<Rightarrow> int \<Rightarrow> jobs \<Rightarrow> jobs \<times> bool" where
  "renew now c lease_seconds = fenced_update now c
     (\<lambda>j. j\<lparr>jb_lease_expires_at := Some (now + seconds lease_seconds)\<rparr>)"

section \<open>Executing a claim\<close>

definition release :: "job_status \<Rightarrow> job_row \<Rightarrow> job_row" where
  "release st j = j\<lparr>jb_status := st, jb_lease_owner := None, jb_lease_expires_at := None\<rparr>"

text \<open>How one attempt ends: the processor returned (with an error or not), the database failed, or
  the executor was shut down.\<close>

datatype attempt_outcome = AttemptDone | AttemptFailed safe_error | AttemptDbError | AttemptCancelled

definition retry_delay :: "int \<Rightarrow> int" where
  "retry_delay attempts = min 300 (10 * 2 ^ nat attempts)"

fun error_code_value :: "error_code \<Rightarrow> pystr" where
  "error_code_value MissingCapabilityCode = lit ''missing_capability_credential''"
| "error_code_value HttpStatusCode = lit ''http_status''"
| "error_code_value HttpTimeoutCode = lit ''http_timeout''"
| "error_code_value HttpConnectCode = lit ''http_connect''"
| "error_code_value ProviderErrorCode = lit ''provider_error''"
| "error_code_value IngestionErrorCode = lit ''ingestion_error''"
| "error_code_value ProcessingErrorCode = lit ''processing_error''"
| "error_code_value RecoveredTerminalCode = lit ''recovered_terminal''"

fun settle :: "instant \<Rightarrow> claim \<Rightarrow> attempt_outcome \<Rightarrow> job_row \<Rightarrow> job_row" where
  "settle now c AttemptDone j = (release JobCompleted j)\<lparr>jb_last_error := None\<rparr>"
| "settle now c (AttemptFailed e) j =
     (if ct_attempts c \<ge> 3 \<or> sf_terminal e
      then (release JobFailed j)\<lparr>jb_provider_attempts := jb_provider_attempts j + 1,
        jb_last_error := Some (error_code_value (sf_code e))\<rparr>
      else (release JobPending j)\<lparr>jb_provider_attempts := jb_provider_attempts j + 1,
        jb_next_run_at := now + seconds (retry_delay (ct_attempts c)),
        jb_last_error := Some (error_code_value (sf_code e))\<rparr>)"
| "settle now c AttemptDbError j = (release JobPending j)\<lparr>jb_next_run_at := now + seconds 30\<rparr>"
| "settle now c AttemptCancelled j = (release JobPending j)\<lparr>jb_next_run_at := now\<rparr>"

text \<open>A recovered claim whose source already failed for good is closed without a fifth attempt.\<close>

definition close_recovered :: "job_row \<Rightarrow> job_row" where
  "close_recovered j = (release JobFailed j)\<lparr>jb_provider_attempts := jb_provider_attempts j + 1\<rparr>"

text \<open>\<open>run final\<close> is \<^verbatim>\<open>process_source_attempt(source_id, final_attempt=final)\<close>; \<open>None\<close> in the result
  means the processor was not called. \<open>now\<close> is the time of the settling write.\<close>

definition execute_claim ::
  "instant \<Rightarrow> claim \<Rightarrow> source_status option \<Rightarrow> (bool \<Rightarrow> attempt_outcome) \<Rightarrow> jobs
    \<Rightarrow> attempt_outcome option \<times> jobs \<times> bool" where
  "execute_claim now c source_st run jobs =
     (if ct_attempts c \<ge> 3 \<and> source_st = Some Failed
      then (None, fenced_update now c close_recovered jobs)
      else let outcome = run (ct_attempts c \<ge> 3) in
        (Some outcome, fenced_update now c (settle now c outcome) jobs))"

section \<open>Recovery at startup\<close>

definition missing_job :: "jobs \<Rightarrow> source_row \<Rightarrow> bool" where
  "missing_job jobs s \<longleftrightarrow> so_analysis_mode s = ServerMode
     \<and> so_status s \<in> {Queued, Processing, EnqueuePending}
     \<and> (so_kind s = DocumentKind
        \<or> (so_kind s = MeetingKind \<and> so_review_state s \<in> {Some RvConfirmed, Some RvTranscribing}))
     \<and> get_job (so_id s) jobs = None"

definition recover_missing_jobs :: "instant \<Rightarrow> source_row list \<Rightarrow> jobs \<Rightarrow> jobs \<times> nat" where
  "recover_missing_jobs now sources jobs =
     (let missing = filter (missing_job jobs) sources in
      (jobs @ map (\<lambda>s. fresh_job now (so_id s) (so_processing_stage s)) missing, length missing))"

section \<open>The lease interface\<close>

text \<open>A lease queue with fenced writes: generations only grow, a live claim has the current
  generation of its key, and a write by a claim that is not live changes nothing.\<close>

locale lease_queue =
  fixes step :: "'q \<Rightarrow> 'q \<Rightarrow> bool"
    and inv :: "'q \<Rightarrow> bool"
    and gen :: "'k \<Rightarrow> 'q \<Rightarrow> int option"
    and live :: "'c \<Rightarrow> 'q \<Rightarrow> bool"
    and key :: "'c \<Rightarrow> 'k"
    and claim_gen :: "'c \<Rightarrow> int"
    and write_job :: "'c \<Rightarrow> ('j \<Rightarrow> 'j) \<Rightarrow> 'q \<Rightarrow> 'q \<times> bool"
  assumes inv_step: "inv q \<Longrightarrow> step q q' \<Longrightarrow> inv q'"
    and gen_step: "inv q \<Longrightarrow> step q q' \<Longrightarrow> gen k q = Some g \<Longrightarrow> \<exists>g'. gen k q' = Some g' \<and> g \<le> g'"
    and live_gen: "inv q \<Longrightarrow> live c q \<Longrightarrow> gen (key c) q = Some (claim_gen c)"
    and write_stale: "\<not> live c q \<Longrightarrow> write_job c f q = (q, False)"
begin

lemma steps_gen:
  assumes "step\<^sup>*\<^sup>* q q'" "inv q" "gen k q = Some g"
  shows "inv q' \<and> (\<exists>g'. gen k q' = Some g' \<and> g \<le> g')"
  using assms
proof (induction rule: rtranclp_induct)
  case (step y z)
  then show ?case
    using inv_step gen_step by (meson order_trans)
qed auto

lemma superseded_claim_powerless:
  assumes "inv q" "gen (key c) q = Some g" "claim_gen c < g" "step\<^sup>*\<^sup>* q q'"
  shows "\<not> live c q' \<and> write_job c f q' = (q', False)"
proof -
  obtain g' where "inv q'" "gen (key c) q' = Some g'" "g \<le> g'"
    using steps_gen [OF assms(4,1,2)] by blast
  then have "\<not> live c q'"
    using live_gen assms(3) by fastforce
  then show ?thesis
    using write_stale by blast
qed

end

section \<open>The queue as a transition system\<close>

record queue =
  qu_now :: instant
  qu_jobs :: jobs
  qu_claims :: "claim list"

inductive qstep :: "queue \<Rightarrow> queue \<Rightarrow> bool" where
  tick: "qu_now q \<le> t \<Longrightarrow> qstep q (q\<lparr>qu_now := t\<rparr>)"
| enqueue: "qstep q (q\<lparr>qu_jobs := enqueue_source (qu_now q) src stage supersede (qu_jobs q)\<rparr>)"
| claim: "claim_job (qu_now q) locked owner secs (qu_jobs q) = (Some c, jobs') \<Longrightarrow>
    qstep q (q\<lparr>qu_jobs := jobs', qu_claims := c # qu_claims q\<rparr>)"
| renew: "c \<in> set (qu_claims q) \<Longrightarrow>
    qstep q (q\<lparr>qu_jobs := fst (renew (qu_now q) c secs (qu_jobs q))\<rparr>)"
| execute: "c \<in> set (qu_claims q) \<Longrightarrow>
    execute_claim (qu_now q) c st run (qu_jobs q) = (outcome, jobs', ok) \<Longrightarrow>
    qstep q (q\<lparr>qu_jobs := jobs'\<rparr>)"
| recover: "distinct (map so_id sources) \<Longrightarrow>
    qstep q (q\<lparr>qu_jobs := fst (recover_missing_jobs (qu_now q) sources (qu_jobs q))\<rparr>)"

inductive_cases qstepE: "qstep q q'"

text \<open>Each statement rewrites rows in place and may append rows for sources without one; a row
  keeps its source. \<open>evolves\<close> says how one row may change.\<close>

definition evolves :: "(job_row \<Rightarrow> job_row \<Rightarrow> bool) \<Rightarrow> jobs \<Rightarrow> jobs \<Rightarrow> bool" where
  "evolves R jobs jobs' \<longleftrightarrow> (\<exists>f added. jobs' = map f jobs @ added
     \<and> (\<forall>j \<in> set jobs. jb_source_id (f j) = jb_source_id j \<and> R j (f j))
     \<and> distinct (map jb_source_id added)
     \<and> jb_source_id ` set added \<inter> jb_source_id ` set jobs = {}
     \<and> (\<forall>j \<in> set added. jb_status j = JobPending \<and> jb_provider_attempts j = 0
          \<and> jb_claim_generation j = 0))"

lemma evolvesE:
  assumes "evolves R jobs jobs'"
  obtains f added where "jobs' = map f jobs @ added"
    "\<forall>j \<in> set jobs. jb_source_id (f j) = jb_source_id j \<and> R j (f j)"
    "distinct (map jb_source_id added)"
    "jb_source_id ` set added \<inter> jb_source_id ` set jobs = {}"
    "\<forall>j \<in> set added. jb_status j = JobPending \<and> jb_provider_attempts j = 0 \<and> jb_claim_generation j = 0"
  using assms unfolding evolves_def by (elim exE conjE) (rule that; assumption)

lemma evolvesI_map:
  "(\<And>j. j \<in> set jobs \<Longrightarrow> jb_source_id (f j) = jb_source_id j \<and> R j (f j)) \<Longrightarrow> evolves R jobs (map f jobs)"
  unfolding evolves_def by (intro exI [of _ f] exI [of _ "[]"]) auto

lemma evolves_unique:
  assumes "evolves R jobs jobs'" "keys_unique jb_source_id jobs"
  shows "keys_unique jb_source_id jobs'"
  using assms(1)
proof (rule evolvesE)
  fix f added
  assume jobs': "jobs' = map f jobs @ added"
    and f: "\<forall>j \<in> set jobs. jb_source_id (f j) = jb_source_id j \<and> R j (f j)"
    and added: "distinct (map jb_source_id added)"
      "jb_source_id ` set added \<inter> jb_source_id ` set jobs = {}"
  have "map jb_source_id (map f jobs) = map jb_source_id jobs"
    using f by simp
  then have "map jb_source_id jobs' = map jb_source_id jobs @ map jb_source_id added"
    by (simp add: jobs')
  then show ?thesis
    using added assms(2) by (auto simp: keys_unique_def)
qed

lemma evolves_row:
  assumes "evolves R jobs jobs'" "keys_unique jb_source_id jobs" "get_job k jobs = Some j"
  shows "\<exists>j'. get_job k jobs' = Some j' \<and> R j j'"
  using assms(1)
proof (rule evolvesE)
  fix f added
  assume jobs': "jobs' = map f jobs @ added"
    and f: "\<forall>j \<in> set jobs. jb_source_id (f j) = jb_source_id j \<and> R j (f j)"
  have j: "j \<in> set jobs" "jb_source_id j = k"
    using row_get_Some assms(3) unfolding get_job_def by fastforce+
  then have "f j \<in> set jobs'" "jb_source_id (f j) = k"
    using f jobs' by auto
  then have "get_job k jobs' = Some (f j)"
    using row_get_unique [OF evolves_unique [OF assms(1,2)]] unfolding get_job_def by metis
  then show ?thesis
    using f j by blast
qed

lemma evolves_member:
  assumes "evolves R jobs jobs'" "j' \<in> set jobs'"
  shows "(\<exists>j \<in> set jobs. jb_source_id j' = jb_source_id j \<and> R j j')
    \<or> (jb_status j' = JobPending \<and> jb_provider_attempts j' = 0 \<and> jb_claim_generation j' = 0
       \<and> jb_source_id j' \<notin> jb_source_id ` set jobs)"
  using assms(1)
proof (rule evolvesE)
  fix f added
  assume "jobs' = map f jobs @ added"
    "\<forall>j \<in> set jobs. jb_source_id (f j) = jb_source_id j \<and> R j (f j)"
    "jb_source_id ` set added \<inter> jb_source_id ` set jobs = {}"
    "\<forall>j \<in> set added. jb_status j = JobPending \<and> jb_provider_attempts j = 0 \<and> jb_claim_generation j = 0"
  then show ?thesis
    using assms(2) by (auto simp: disjoint_iff)
qed

lemma evolves_mono:
  assumes "evolves R jobs jobs'" "\<And>j j'. j \<in> set jobs \<Longrightarrow> R j j' \<Longrightarrow> S j j'"
  shows "evolves S jobs jobs'"
  using assms(1)
proof (rule evolvesE)
  fix f added
  assume "jobs' = map f jobs @ added"
    "\<forall>j \<in> set jobs. jb_source_id (f j) = jb_source_id j \<and> R j (f j)"
    "distinct (map jb_source_id added)"
    "jb_source_id ` set added \<inter> jb_source_id ` set jobs = {}"
    "\<forall>j \<in> set added. jb_status j = JobPending \<and> jb_provider_attempts j = 0 \<and> jb_claim_generation j = 0"
  then show ?thesis
    unfolding evolves_def using assms(2) by (intro exI [of _ f] exI [of _ added]) auto
qed

section \<open>The statements as evolutions\<close>

definition rearms :: "job_row \<Rightarrow> job_row \<Rightarrow> bool" where
  "rearms j j' \<longleftrightarrow> j' = j \<or> (\<exists>now stage. j' = rearm_job now stage j)"

lemma enqueue_evolves: "evolves rearms jobs (enqueue_source now src stage supersede jobs)"
proof (cases "get_job src jobs")
  case None
  then have "src \<notin> jb_source_id ` set jobs"
    by (auto simp: get_job_def row_get_None)
  then show ?thesis
    using None unfolding evolves_def
    by (intro exI [of _ id] exI [of _ "[fresh_job now src stage]"])
      (auto simp: enqueue_source_def row_add_def fresh_job_def rearms_def)
next
  case (Some j)
  have "evolves rearms jobs (map (\<lambda>r. if jb_source_id r = src then rearm_job now stage r else r) jobs)"
    by (rule evolvesI_map) (auto simp: rearms_def rearm_job_def)
  moreover have "evolves rearms jobs (map (\<lambda>r. r) jobs)"
    by (rule evolvesI_map) (simp add: rearms_def)
  ultimately show ?thesis
    using Some by (simp add: enqueue_source_def row_upd_def)
qed

definition leases :: "instant \<Rightarrow> claim \<Rightarrow> job_row \<Rightarrow> job_row \<Rightarrow> bool" where
  "leases now c j j' \<longleftrightarrow> (jb_source_id j \<noteq> ct_source_id c \<and> j' = j)
     \<or> (jb_source_id j = ct_source_id c \<and> (\<exists>secs. j' = take_lease now (ct_owner c) secs j))"

lemma claim_candidates_iff:
  "j \<in> set (claim_candidates now locked jobs) \<longleftrightarrow>
    j \<in> set jobs \<and> claimable now j \<and> jb_source_id j \<notin> locked"
  by (auto simp: claim_candidates_def)

lemma claim_job_Some:
  assumes "claim_job now locked owner secs jobs = (Some c, jobs')"
  obtains j where "j \<in> set jobs" "claimable now j" "jb_source_id j \<notin> locked"
    "ct_source_id c = jb_source_id j" "ct_owner c = owner"
    "ct_generation c = jb_claim_generation j + 1" "ct_attempts c = jb_provider_attempts j"
    "jobs' = row_upd jb_source_id (jb_source_id j) (take_lease now owner secs) jobs"
proof (cases "claim_candidates now locked jobs")
  case (Cons j js)
  then have "j \<in> set (claim_candidates now locked jobs)"
    by simp
  then show thesis
    using assms that [of j] Cons unfolding claim_candidates_iff by (auto simp: claim_job_def)
qed (use assms in \<open>simp add: claim_job_def\<close>)

lemma claim_evolves:
  assumes "claim_job now locked owner secs jobs = (Some c, jobs')"
  shows "evolves (leases now c) jobs jobs'"
  using assms
proof (rule claim_job_Some)
  fix j
  assume "ct_source_id c = jb_source_id j" "ct_owner c = owner"
    "jobs' = row_upd jb_source_id (jb_source_id j) (take_lease now owner secs) jobs"
  then show ?thesis
    unfolding row_upd_def
    by (auto intro!: evolvesI_map simp: leases_def take_lease_def)
qed

definition writes :: "instant \<Rightarrow> claim \<Rightarrow> (job_row \<Rightarrow> job_row) \<Rightarrow> job_row \<Rightarrow> job_row \<Rightarrow> bool" where
  "writes now c assign j j' \<longleftrightarrow> (if fenced now c j then j' = (assign j)\<lparr>jb_updated_at := now\<rparr> else j' = j)"

lemma fenced_update_evolves:
  assumes "\<And>j. jb_source_id (assign j) = jb_source_id j"
  shows "evolves (writes now c assign) jobs (fst (fenced_update now c assign jobs))"
  unfolding fenced_update_def fst_conv by (rule evolvesI_map) (auto simp: writes_def assms)

lemma settle_source [simp]: "jb_source_id (settle now c outcome j) = jb_source_id j"
  by (cases outcome) (simp_all add: release_def)

lemma execute_claim_jobs:
  assumes "execute_claim now c st run jobs = (outcome, jobs', ok)"
  shows "(ct_attempts c \<ge> 3 \<and> jobs' = fst (fenced_update now c close_recovered jobs))
    \<or> (\<exists>out. jobs' = fst (fenced_update now c (settle now c out) jobs))"
proof -
  have "jobs' = fst (snd (execute_claim now c st run jobs))"
    by (simp add: assms)
  then show ?thesis
    by (auto simp: execute_claim_def Let_def split: if_splits)
qed

lemma recover_evolves:
  assumes "distinct (map so_id sources)"
  shows "evolves (=) jobs (fst (recover_missing_jobs now sources jobs))"
proof -
  let ?added = "map (\<lambda>s. fresh_job now (so_id s) (so_processing_stage s)) (filter (missing_job jobs) sources)"
  have ids: "map jb_source_id ?added = map so_id (filter (missing_job jobs) sources)"
    by (simp add: fresh_job_def)
  have "distinct (map jb_source_id ?added)"
    using assms unfolding ids by (rule distinct_map_filter)
  moreover have "jb_source_id ` set ?added \<inter> jb_source_id ` set jobs = {}"
    by (auto simp: fresh_job_def missing_job_def get_job_def row_get_None)
  ultimately show ?thesis
    unfolding evolves_def
    by (intro exI [of _ id] exI [of _ ?added]) (auto simp: recover_missing_jobs_def Let_def fresh_job_def)
qed

section \<open>The invariant\<close>

definition budget_ok :: "job_row \<Rightarrow> bool" where
  "budget_ok j \<longleftrightarrow> 0 \<le> jb_provider_attempts j \<and> jb_provider_attempts j \<le> 4
     \<and> (jb_status j \<in> {JobPending, JobRunning} \<longrightarrow> jb_provider_attempts j \<le> 3)"

text \<open>A claim never is ahead of its row; at the row's own generation, while the row runs, it has
  the row's owner and attempts.\<close>

definition claim_fits :: "claim \<Rightarrow> job_row \<Rightarrow> bool" where
  "claim_fits c j \<longleftrightarrow> jb_source_id j = ct_source_id c \<longrightarrow> ct_generation c \<le> jb_claim_generation j
     \<and> (ct_generation c = jb_claim_generation j \<and> jb_status j = JobRunning \<longrightarrow>
          jb_lease_owner j = Some (ct_owner c) \<and> jb_provider_attempts j = ct_attempts c)"

definition claims_distinct :: "claim list \<Rightarrow> bool" where
  "claims_distinct cs \<longleftrightarrow> distinct (map (\<lambda>c. (ct_source_id c, ct_generation c)) cs)"

definition queue_inv :: "queue \<Rightarrow> bool" where
  "queue_inv q \<longleftrightarrow> keys_unique jb_source_id (qu_jobs q) \<and> (\<forall>j \<in> set (qu_jobs q). budget_ok j)
     \<and> (\<forall>c \<in> set (qu_claims q). \<forall>j \<in> set (qu_jobs q). claim_fits c j)
     \<and> (\<forall>c \<in> set (qu_claims q). \<exists>j \<in> set (qu_jobs q). jb_source_id j = ct_source_id c)
     \<and> claims_distinct (qu_claims q)"

lemma rearms_ok: "rearms j j' \<Longrightarrow> budget_ok j \<Longrightarrow> budget_ok j'"
  by (auto simp: rearms_def rearm_job_def budget_ok_def)

lemma rearms_fits: "rearms j j' \<Longrightarrow> claim_fits c j \<Longrightarrow> claim_fits c j'"
  by (auto simp: rearms_def rearm_job_def claim_fits_def)

lemma settle_ok:
  assumes "budget_ok j" "claim_fits c j" "fenced now c j"
  shows "budget_ok ((settle now c outcome j)\<lparr>jb_updated_at := now\<rparr>)"
  using assms
  by (cases outcome) (auto simp: budget_ok_def release_def fenced_def claim_fits_def)

lemma close_ok:
  assumes "budget_ok j" "fenced now c j"
  shows "budget_ok ((close_recovered j)\<lparr>jb_updated_at := now\<rparr>)"
  using assms by (auto simp: budget_ok_def release_def close_recovered_def fenced_def)

lemma settle_generation [simp]: "jb_claim_generation (settle now c outcome j) = jb_claim_generation j"
  by (cases outcome) (simp_all add: release_def)

lemma settle_not_running [simp]: "jb_status (settle now c outcome j) \<noteq> JobRunning"
  by (cases outcome) (simp_all add: release_def)

text \<open>One step keeps the invariant when it evolves the rows so that budgets and claims are kept, and
  a new claim is at a new generation of its row.\<close>

lemma queue_inv_evolve:
  assumes inv: "queue_inv q" and ev: "evolves R (qu_jobs q) jobs'"
    and budget: "\<And>j j'. j \<in> set (qu_jobs q) \<Longrightarrow> R j j' \<Longrightarrow> budget_ok j \<Longrightarrow> budget_ok j'"
    and fits: "\<And>c j j'. c \<in> set (qu_claims q) \<Longrightarrow> j \<in> set (qu_jobs q) \<Longrightarrow> jb_source_id j' = jb_source_id j
      \<Longrightarrow> R j j' \<Longrightarrow> claim_fits c j \<Longrightarrow> claim_fits c j'"
  shows "queue_inv (q\<lparr>qu_jobs := jobs'\<rparr>)"
proof -
  have u: "keys_unique jb_source_id (qu_jobs q)"
    using inv by (simp add: queue_inv_def)
  have "budget_ok j'" if "j' \<in> set jobs'" for j'
    using evolves_member [OF ev that]
  proof (elim disjE bexE conjE)
    fix j
    assume "j \<in> set (qu_jobs q)" "R j j'"
    then show ?thesis
      using budget inv by (simp add: queue_inv_def)
  qed (simp add: budget_ok_def)
  moreover have "claim_fits c j'" if c: "c \<in> set (qu_claims q)" and j': "j' \<in> set jobs'" for c j'
    using evolves_member [OF ev j']
  proof (elim disjE bexE conjE)
    fix j
    assume "j \<in> set (qu_jobs q)" "jb_source_id j' = jb_source_id j" "R j j'"
    then show ?thesis
      using fits c inv by (simp add: queue_inv_def)
  next
    assume "jb_source_id j' \<notin> jb_source_id ` set (qu_jobs q)"
    moreover have "ct_source_id c \<in> jb_source_id ` set (qu_jobs q)"
      using c inv by (force simp: queue_inv_def)
    ultimately show ?thesis
      by (auto simp: claim_fits_def)
  qed
  moreover have "\<exists>j' \<in> set jobs'. jb_source_id j' = ct_source_id c" if c: "c \<in> set (qu_claims q)" for c
  proof -
    obtain j where "j \<in> set (qu_jobs q)" "jb_source_id j = ct_source_id c"
      using inv c by (auto simp: queue_inv_def)
    then have "get_job (ct_source_id c) (qu_jobs q) = Some j"
      using row_get_unique [OF u] unfolding get_job_def by metis
    then obtain j' where "get_job (ct_source_id c) jobs' = Some j'"
      using evolves_row [OF ev u] by blast
    then show ?thesis
      using row_get_Some unfolding get_job_def by fastforce
  qed
  ultimately show ?thesis
    using inv evolves_unique [OF ev u] by (simp add: queue_inv_def)
qed

lemma queue_inv_claim:
  assumes inv: "queue_inv q"
    and step: "claim_job (qu_now q) locked owner secs (qu_jobs q) = (Some c, jobs')"
  shows "queue_inv (q\<lparr>qu_jobs := jobs', qu_claims := c # qu_claims q\<rparr>)"
  using step
proof (rule claim_job_Some)
  fix j0
  assume j0: "j0 \<in> set (qu_jobs q)" "claimable (qu_now q) j0" "ct_source_id c = jb_source_id j0"
    "ct_owner c = owner" "ct_generation c = jb_claim_generation j0 + 1"
    "ct_attempts c = jb_provider_attempts j0"
    and jobs': "jobs' = row_upd jb_source_id (jb_source_id j0) (take_lease (qu_now q) owner secs) (qu_jobs q)"
  have u: "keys_unique jb_source_id (qu_jobs q)"
    using inv by (simp add: queue_inv_def)
  have only: "j = j0" if "j \<in> set (qu_jobs q)" "jb_source_id j = jb_source_id j0" for j
    using row_get_unique [OF u] that j0(1) by (metis option.inject)
  have kept: "queue_inv (q\<lparr>qu_jobs := jobs'\<rparr>)"
  proof (rule queue_inv_evolve [OF inv claim_evolves [OF step]])
    fix j j'
    assume "j \<in> set (qu_jobs q)" "leases (qu_now q) c j j'" "budget_ok j"
    then show "budget_ok j'"
      using only j0(2,3) by (auto simp: leases_def take_lease_def budget_ok_def claimable_def)
  next
    fix d j j'
    assume "leases (qu_now q) c j j'" "claim_fits d j"
    then show "claim_fits d j'"
      by (auto simp: leases_def take_lease_def claim_fits_def)
  qed
  have "claim_fits c j'" if j': "j' \<in> set jobs'" for j'
  proof -
    obtain x where x: "x \<in> set (qu_jobs q)"
      "j' = (if jb_source_id x = jb_source_id j0 then take_lease (qu_now q) owner secs x else x)"
      using j' unfolding jobs' row_upd_def by auto
    show ?thesis
    proof (cases "jb_source_id x = jb_source_id j0")
      case True
      then have "x = j0"
        using only x(1) by blast
      then show ?thesis
        using x(2) j0(3-6) by (simp add: claim_fits_def take_lease_def)
    qed (use x(2) j0(3) in \<open>simp add: claim_fits_def\<close>)
  qed
  moreover have "\<exists>j' \<in> set jobs'. jb_source_id j' = ct_source_id c"
    using j0(1,3) unfolding jobs' row_upd_def
    by (intro bexI [of _ "take_lease (qu_now q) owner secs j0"]) (auto simp: take_lease_def)
  moreover have "ct_generation d \<le> jb_claim_generation j0"
    if "d \<in> set (qu_claims q)" "ct_source_id d = jb_source_id j0" for d
    using inv that j0(1) by (auto simp: queue_inv_def claim_fits_def)
  then have "(ct_source_id c, ct_generation c) \<notin> (\<lambda>d. (ct_source_id d, ct_generation d)) ` set (qu_claims q)"
    using j0(3,5) by force
  ultimately show ?thesis
    using kept by (simp add: queue_inv_def claims_distinct_def)
qed

lemma queue_inv_fenced:
  assumes inv: "queue_inv q" and "c \<in> set (qu_claims q)"
    and src: "\<And>j. jb_source_id (assign j) = jb_source_id j"
    and gen: "\<And>j. jb_claim_generation (assign j) = jb_claim_generation j"
    and keep: "\<And>j. jb_status (assign j) = JobRunning \<Longrightarrow> jb_status j = JobRunning
      \<and> jb_lease_owner (assign j) = jb_lease_owner j \<and> jb_provider_attempts (assign j) = jb_provider_attempts j"
    and budget: "\<And>j. budget_ok j \<Longrightarrow> claim_fits c j \<Longrightarrow> fenced (qu_now q) c j
      \<Longrightarrow> budget_ok ((assign j)\<lparr>jb_updated_at := qu_now q\<rparr>)"
  shows "queue_inv (q\<lparr>qu_jobs := fst (fenced_update (qu_now q) c assign (qu_jobs q))\<rparr>)"
proof (rule queue_inv_evolve [OF inv fenced_update_evolves [OF src]])
  fix j j'
  assume "j \<in> set (qu_jobs q)" "writes (qu_now q) c assign j j'" "budget_ok j"
  then show "budget_ok j'"
    using budget [of j] inv assms(2) by (auto simp: writes_def queue_inv_def split: if_splits)
next
  fix d j j'
  assume "writes (qu_now q) c assign j j'" "claim_fits d j"
  then show "claim_fits d j'"
    using keep [of j] by (auto simp: writes_def claim_fits_def src gen split: if_splits)
qed

lemma queue_inv_step: "qstep q q' \<Longrightarrow> queue_inv q \<Longrightarrow> queue_inv q'"
proof (induction rule: qstep.induct)
  case (tick q t)
  then show ?case
    by (simp add: queue_inv_def)
next
  case (enqueue q src stage supersede)
  show ?case
    by (rule queue_inv_evolve [OF enqueue.prems enqueue_evolves]) (auto intro: rearms_ok rearms_fits)
next
  case (claim q locked owner secs c jobs')
  then show ?case
    using queue_inv_claim by blast
next
  case (renew c q secs)
  show ?case
    unfolding renew_def
    by (rule queue_inv_fenced [OF renew.prems renew.hyps]) (auto simp: budget_ok_def)
next
  case (execute c q st run outcome jobs' ok)
  have closed: "queue_inv (q\<lparr>qu_jobs := fst (fenced_update (qu_now q) c close_recovered (qu_jobs q))\<rparr>)"
    by (rule queue_inv_fenced [OF execute.prems execute.hyps(1)])
      (auto simp: close_recovered_def release_def intro: close_ok [unfolded close_recovered_def release_def])
  have settled: "queue_inv (q\<lparr>qu_jobs := fst (fenced_update (qu_now q) c (settle (qu_now q) c out) (qu_jobs q))\<rparr>)"
    for out
    by (rule queue_inv_fenced [OF execute.prems execute.hyps(1)]) (auto intro: settle_ok)
  show ?case
    using execute_claim_jobs [OF execute.hyps(2)] closed settled by auto
next
  case (recover sources q)
  show ?case
    by (rule queue_inv_evolve [OF recover.prems recover_evolves [OF recover.hyps]]) auto
qed

section \<open>The queue as a lease queue\<close>

definition job_generation :: "uuid \<Rightarrow> queue \<Rightarrow> int option" where
  "job_generation k q = map_option jb_claim_generation (get_job k (qu_jobs q))"

definition claim_live :: "claim \<Rightarrow> queue \<Rightarrow> bool" where
  "claim_live c q \<longleftrightarrow> (\<exists>j \<in> set (qu_jobs q). fenced (qu_now q) c j)"

definition queue_write :: "claim \<Rightarrow> (job_row \<Rightarrow> job_row) \<Rightarrow> queue \<Rightarrow> queue \<times> bool" where
  "queue_write c assign q = (case fenced_update (qu_now q) c assign (qu_jobs q) of
     (jobs', ok) \<Rightarrow> (q\<lparr>qu_jobs := jobs'\<rparr>, ok))"

lemma fenced_update_stale:
  assumes "\<forall>j \<in> set jobs. \<not> fenced now c j"
  shows "fenced_update now c assign jobs = (jobs, False)"
  using assms by (auto simp: fenced_update_def filter_empty_conv intro!: map_idI)

definition generation_le :: "job_row \<Rightarrow> job_row \<Rightarrow> bool" where
  "generation_le j j' \<longleftrightarrow> jb_claim_generation j \<le> jb_claim_generation j'"

lemma qstep_evolves:
  assumes "qstep q q'"
  shows "evolves generation_le (qu_jobs q) (qu_jobs q')"
  using assms
proof cases
  case (tick t)
  have "evolves generation_le (qu_jobs q) (map (\<lambda>j. j) (qu_jobs q))"
    by (rule evolvesI_map) (simp add: generation_le_def)
  then show ?thesis
    using tick by simp
next
  case (enqueue src stage supersede)
  show ?thesis
    unfolding enqueue
    by (simp, rule evolves_mono [OF enqueue_evolves])
      (auto simp: rearms_def rearm_job_def generation_le_def)
next
  case (claim locked owner secs c jobs')
  then show ?thesis
    by (simp, intro evolves_mono [OF claim_evolves])
      (auto simp: leases_def take_lease_def generation_le_def)
next
  case (renew c secs)
  show ?thesis
    unfolding renew renew_def
    by (simp, rule evolves_mono [OF fenced_update_evolves])
      (auto simp: writes_def generation_le_def split: if_splits)
next
  case (execute c st run outcome jobs' ok)
  have closed: "evolves generation_le (qu_jobs q)
      (fst (fenced_update (qu_now q) c close_recovered (qu_jobs q)))"
    by (rule evolves_mono [OF fenced_update_evolves])
      (auto simp: writes_def generation_le_def close_recovered_def release_def split: if_splits)
  have settled: "evolves generation_le (qu_jobs q)
      (fst (fenced_update (qu_now q) c (settle (qu_now q) c out) (qu_jobs q)))" for out
    by (rule evolves_mono [OF fenced_update_evolves])
      (auto simp: writes_def generation_le_def split: if_splits)
  show ?thesis
    using execute_claim_jobs [OF execute(3)] closed settled execute(1) by auto
next
  case (recover sources)
  then show ?thesis
    by (simp, intro evolves_mono [OF recover_evolves]) (auto simp: generation_le_def)
qed

definition jobs_unique :: "queue \<Rightarrow> bool" where
  "jobs_unique q \<longleftrightarrow> keys_unique jb_source_id (qu_jobs q)"

interpretation pg_queue: lease_queue qstep jobs_unique job_generation claim_live ct_source_id
  ct_generation queue_write
proof unfold_locales
  fix q q'
  assume "jobs_unique q" "qstep q q'"
  then show "jobs_unique q'"
    using evolves_unique [OF qstep_evolves] by (simp add: jobs_unique_def)
next
  fix q q' k g
  assume u: "jobs_unique q" and step: "qstep q q'" and "job_generation k q = Some g"
  then obtain j where j: "get_job k (qu_jobs q) = Some j" "jb_claim_generation j = g"
    by (auto simp: job_generation_def)
  then obtain j' where "get_job k (qu_jobs q') = Some j'" "generation_le j j'"
    using evolves_row [OF qstep_evolves [OF step]] u by (auto simp: jobs_unique_def)
  then show "\<exists>g'. job_generation k q' = Some g' \<and> g \<le> g'"
    using j by (simp add: job_generation_def generation_le_def)
next
  fix q c
  assume u: "jobs_unique q" and "claim_live c q"
  then obtain j where "j \<in> set (qu_jobs q)" "jb_source_id j = ct_source_id c"
    "jb_claim_generation j = ct_generation c"
    by (auto simp: claim_live_def fenced_def)
  then show "job_generation (ct_source_id c) q = Some (ct_generation c)"
    using row_get_unique [of jb_source_id "qu_jobs q" j] u
    by (simp add: job_generation_def get_job_def jobs_unique_def)
next
  fix c q and assign :: "job_row \<Rightarrow> job_row"
  assume "\<not> claim_live c q"
  then show "queue_write c assign q = (q, False)"
    using fenced_update_stale [of "qu_jobs q" "qu_now q" c assign]
    by (auto simp: queue_write_def claim_live_def)
qed

section \<open>Reachable queues\<close>

definition initial_queue :: "queue \<Rightarrow> bool" where
  "initial_queue q \<longleftrightarrow> qu_jobs q = [] \<and> qu_claims q = []"

lemma initial_inv: "initial_queue q \<Longrightarrow> queue_inv q"
  by (simp add: initial_queue_def queue_inv_def keys_unique_def claims_distinct_def)

lemma reachable_inv: "qstep\<^sup>*\<^sup>* q q' \<Longrightarrow> queue_inv q \<Longrightarrow> queue_inv q'"
  by (induction rule: rtranclp_induct) (auto intro: queue_inv_step)

lemma live_claim_unique:
  assumes "queue_inv q" "c \<in> set (qu_claims q)" "c' \<in> set (qu_claims q)"
    and "ct_source_id c = ct_source_id c'" "claim_live c q" "claim_live c' q"
  shows "c = c'"
proof -
  have "jobs_unique q"
    using assms(1) by (simp add: queue_inv_def jobs_unique_def)
  then have "ct_generation c = ct_generation c'"
    using pg_queue.live_gen [of q c] pg_queue.live_gen [of q c'] assms(4-6) by simp
  then show ?thesis
    using assms(1-4) by (auto simp: queue_inv_def claims_distinct_def distinct_map inj_on_def)
qed

lemma claim_job_order:
  assumes "claim_job now locked owner secs jobs = (Some c, jobs')"
  shows "\<exists>j \<in> set jobs. jb_source_id j = ct_source_id c \<and> claimable now j
    \<and> (\<forall>i \<in> set jobs. claimable now i \<and> jb_source_id i \<notin> locked
        \<longrightarrow> (jb_next_run_at j, jb_source_id j) \<le> (jb_next_run_at i, jb_source_id i))"
proof (cases "claim_candidates now locked jobs")
  case (Cons j js)
  have "sorted (map (\<lambda>j. (jb_next_run_at j, jb_source_id j)) (claim_candidates now locked jobs))"
    by (simp add: claim_candidates_def)
  then have least: "(jb_next_run_at j, jb_source_id j) \<le> (jb_next_run_at i, jb_source_id i)"
    if "i \<in> set (claim_candidates now locked jobs)" for i
    using that Cons by auto
  have "j \<in> set jobs \<and> claimable now j \<and> jb_source_id j = ct_source_id c"
    using Cons assms claim_candidates_iff [of j now locked jobs] by (auto simp: claim_job_def)
  then show ?thesis
    using least unfolding claim_candidates_iff by blast
qed (use assms in \<open>simp add: claim_job_def\<close>)

lemma claim_job_None:
  "fst (claim_job now locked owner secs jobs) = None \<longleftrightarrow>
    (\<forall>j \<in> set jobs. claimable now j \<longrightarrow> jb_source_id j \<in> locked)"
proof -
  have "claim_candidates now locked jobs = [] \<longleftrightarrow> (\<forall>j \<in> set jobs. claimable now j \<longrightarrow> jb_source_id j \<in> locked)"
    by (metis (no_types) claim_candidates_iff empty_iff empty_set list.set_intros(1) neq_Nil_conv)
  then show ?thesis
    by (auto simp: claim_job_def split: list.splits)
qed

lemma recover_idem:
  assumes "recover_missing_jobs now sources jobs = (jobs', n)"
  shows "recover_missing_jobs now' sources jobs' = (jobs', 0)"
proof -
  have jobs': "jobs' = jobs @ map (\<lambda>s. fresh_job now (so_id s) (so_processing_stage s))
      (filter (missing_job jobs) sources)"
    using assms by (auto simp: recover_missing_jobs_def Let_def)
  have "\<not> missing_job jobs' s" if "s \<in> set sources" for s
  proof
    assume missing: "missing_job jobs' s"
    then have "missing_job jobs s"
      unfolding missing_job_def jobs' get_job_def row_get_None by auto
    then have "fresh_job now (so_id s) (so_processing_stage s) \<in> set jobs'"
      using that by (auto simp: jobs')
    then show False
      using missing unfolding missing_job_def get_job_def row_get_None by (force simp: fresh_job_def)
  qed
  then have "filter (missing_job jobs') sources = []"
    by (simp add: filter_empty_conv)
  then show ?thesis
    by (simp add: recover_missing_jobs_def)
qed

section \<open>Properties\<close>

text \<open>C10: In every reachable queue, whatever executors, enqueuers and recovery did in whatever order,
  at most one issued claim per source is live (its fenced writes succeed), and no source ever
  spends more than four provider attempts: at most three while it can still be claimed.\<close>

theorem queue_safety:
  assumes "initial_queue q0" and "qstep\<^sup>*\<^sup>* q0 q"
  shows "(\<forall>c \<in> set (qu_claims q). \<forall>c' \<in> set (qu_claims q). ct_source_id c = ct_source_id c'
        \<and> claim_live c q \<and> claim_live c' q \<longrightarrow> c = c')
    \<and> (\<forall>j \<in> set (qu_jobs q). 0 \<le> jb_provider_attempts j \<and> jb_provider_attempts j \<le> 4
        \<and> (jb_status j \<in> {JobPending, JobRunning} \<longrightarrow> jb_provider_attempts j \<le> 3))"
proof -
  have inv: "queue_inv q"
    by (rule reachable_inv [OF assms(2) initial_inv [OF assms(1)]])
  have "\<forall>j \<in> set (qu_jobs q). budget_ok j"
    using inv by (simp add: queue_inv_def)
  then show ?thesis
    using live_claim_unique [OF inv] unfolding budget_ok_def by blast
qed

definition sample_queue :: queue where
  "sample_queue = \<lparr>qu_now = 5, qu_jobs = [], qu_claims = []\<rparr>"

definition sample_claim :: claim where
  "sample_claim = \<lparr>ct_source_id = 1, ct_owner = 7, ct_generation = 1, ct_attempts = 0\<rparr>"

definition sample_claimed :: queue where
  "sample_claimed = \<lparr>qu_now = 5,
     qu_jobs = [take_lease 5 7 60 (fresh_job 5 1 Uploaded)], qu_claims = [sample_claim]\<rparr>"

lemma sample_reachable: "qstep\<^sup>*\<^sup>* sample_queue sample_claimed"
proof -
  have "qstep sample_queue (sample_queue\<lparr>qu_jobs := enqueue_source 5 1 Uploaded False []\<rparr>)"
    using qstep.enqueue [of sample_queue 1 Uploaded False] by (simp add: sample_queue_def)
  moreover have "claim_job 5 {} 7 60 (enqueue_source 5 1 Uploaded False [])
      = (Some sample_claim, qu_jobs sample_claimed)"
    by (simp add: claim_job_def claim_candidates_def enqueue_source_def get_job_def row_add_def
        claimable_def fresh_job_def sample_claim_def sample_claimed_def row_upd_def take_lease_def)
  then have "qstep (sample_queue\<lparr>qu_jobs := enqueue_source 5 1 Uploaded False []\<rparr>) sample_claimed"
    using qstep.claim [of "sample_queue\<lparr>qu_jobs := enqueue_source 5 1 Uploaded False []\<rparr>" "{}" 7 60
        sample_claim "qu_jobs sample_claimed"]
    by (simp add: sample_queue_def sample_claimed_def)
  ultimately show ?thesis
    by (meson converse_rtranclp_into_rtranclp r_into_rtranclp)
qed

theorem queue_safety_witness:
  "qu_claims sample_claimed = [sample_claim] \<and> claim_live sample_claim sample_claimed
    \<and> jb_provider_attempts (hd (qu_jobs sample_claimed)) \<le> 3"
proof -
  have "initial_queue sample_queue"
    by (simp add: initial_queue_def sample_queue_def)
  from queue_safety [OF this sample_reachable]
  have "jb_provider_attempts (hd (qu_jobs sample_claimed)) \<le> 3"
    by (simp add: sample_claimed_def take_lease_def)
  moreover have "claim_live sample_claim sample_claimed"
    by (simp add: claim_live_def sample_claimed_def fenced_def take_lease_def fresh_job_def
        sample_claim_def)
  ultimately show ?thesis
    by (simp add: sample_claimed_def)
qed

text \<open>C11: Once a source has moved past a claim's generation (it was claimed again, or rearmed), that
  claim is powerless forever: after any further steps its fenced writes change nothing and
  report failure.\<close>

theorem superseded_claim_is_fenced_off:
  assumes "jobs_unique q" and "job_generation (ct_source_id c) q = Some g" and "ct_generation c < g"
    and "qstep\<^sup>*\<^sup>* q q'"
  shows "\<not> claim_live c q' \<and> fenced_update (qu_now q') c assign (qu_jobs q') = (qu_jobs q', False)"
proof -
  have "\<not> claim_live c q'"
    using pg_queue.superseded_claim_powerless [OF assms] by blast
  then show ?thesis
    using fenced_update_stale [of "qu_jobs q'"] by (simp add: claim_live_def)
qed

theorem superseded_claim_is_fenced_off_witness:
  "fenced_update 5 (sample_claim\<lparr>ct_generation := 0\<rparr>) id (qu_jobs sample_claimed)
    = (qu_jobs sample_claimed, False)"
proof -
  have "jobs_unique sample_claimed" "job_generation 1 sample_claimed = Some 1"
    by (simp_all add: jobs_unique_def keys_unique_def job_generation_def get_job_def sample_claimed_def
        take_lease_def fresh_job_def)
  then have "fenced_update (qu_now sample_claimed) (sample_claim\<lparr>ct_generation := 0\<rparr>) id
      (qu_jobs sample_claimed) = (qu_jobs sample_claimed, False)"
    using superseded_claim_is_fenced_off [of sample_claimed "sample_claim\<lparr>ct_generation := 0\<rparr>" 1
        sample_claimed id] by (simp add: sample_claim_def)
  then show ?thesis
    by (simp add: sample_claimed_def)
qed

text \<open>The claim statement hands out the due unlocked job that comes first by (next run, source),
  and nothing only when no due job is free; the job it hands out is leased to the caller.\<close>

theorem claim_job_fair:
  "(case claim_job now locked owner secs jobs of
      (None, jobs') \<Rightarrow> jobs' = jobs \<and> (\<forall>j \<in> set jobs. claimable now j \<longrightarrow> jb_source_id j \<in> locked)
    | (Some c, jobs') \<Rightarrow> ct_owner c = owner \<and> (\<exists>j \<in> set jobs. jb_source_id j = ct_source_id c \<and> claimable now j
        \<and> jobs' = row_upd jb_source_id (ct_source_id c) (take_lease now owner secs) jobs
        \<and> (\<forall>i \<in> set jobs. claimable now i \<and> jb_source_id i \<notin> locked
             \<longrightarrow> (jb_next_run_at j, jb_source_id j) \<le> (jb_next_run_at i, jb_source_id i))))"
proof (cases "claim_job now locked owner secs jobs")
  case (Pair oc jobs')
  show ?thesis
  proof (cases oc)
    case None
    then have "jobs' = jobs"
      using Pair by (auto simp: claim_job_def split: list.splits)
    then show ?thesis
      using None Pair claim_job_None [of now locked owner secs jobs] by simp
  next
    case (Some c)
    then have claim: "claim_job now locked owner secs jobs = (Some c, jobs')"
      using Pair by simp
    have "ct_owner c = owner \<and> jobs' = row_upd jb_source_id (ct_source_id c) (take_lease now owner secs) jobs"
      by (rule claim_job_Some [OF claim]) simp
    then show ?thesis
      using claim_job_order [OF claim] Some Pair by auto
  qed
qed

theorem claim_job_fair_witness:
  "fst (claim_job 9 {} 7 60 [fresh_job 8 1 Uploaded, fresh_job 3 2 Analyzing])
    = Some \<lparr>ct_source_id = 2, ct_owner = 7, ct_generation = 1, ct_attempts = 0\<rparr>
    \<and> fst (claim_job 2 {} 7 60 [fresh_job 8 1 Uploaded, fresh_job 3 2 Analyzing]) = None"
proof -
  let ?jobs = "[fresh_job 8 1 Uploaded, fresh_job 3 2 Analyzing]"
  have cands: "claim_candidates 9 {} ?jobs = [fresh_job 3 2 Analyzing, fresh_job 8 1 Uploaded]"
    "claim_candidates 2 {} ?jobs = []"
    by (simp_all add: claim_candidates_def claimable_def fresh_job_def)
  have "jb_next_run_at (fresh_job 3 2 Analyzing) \<le> 9"
    by (simp add: fresh_job_def)
  moreover have "fst (claim_job 9 {} 7 60 ?jobs)
      = Some \<lparr>ct_source_id = 2, ct_owner = 7, ct_generation = 1, ct_attempts = 0\<rparr>"
    by (simp add: claim_job_def cands) (simp add: fresh_job_def)
  moreover have "fst (claim_job 2 {} 7 60 ?jobs) = None"
    using claim_job_fair [where now = 2 and locked = "{}" and owner = 7 and secs = 60 and jobs = ?jobs]
    by (auto simp: claim_job_def cands split: option.splits)
  ultimately show ?thesis
    by simp
qed

text \<open>A failed attempt that is not terminal is retried after 10, 20 and 40 seconds and the fourth
  one closes the job, as a terminal failure does at once; a database failure or a shutdown costs
  no attempt. Each of these writes gives the lease back.\<close>

theorem settle_schedule:
  "(ct_attempts c \<in> {0, 1, 2} \<and> \<not> sf_terminal e \<longrightarrow>
      jb_status (settle now c (AttemptFailed e) j) = JobPending
      \<and> jb_next_run_at (settle now c (AttemptFailed e) j) = now + seconds (10 * 2 ^ nat (ct_attempts c)))
    \<and> (ct_attempts c \<ge> 3 \<or> sf_terminal e \<longrightarrow> jb_status (settle now c (AttemptFailed e) j) = JobFailed)
    \<and> jb_provider_attempts (settle now c (AttemptFailed e) j) = jb_provider_attempts j + 1
    \<and> (\<forall>outcome. jb_lease_owner (settle now c outcome j) = None
        \<and> jb_lease_expires_at (settle now c outcome j) = None
        \<and> jb_claim_generation (settle now c outcome j) = jb_claim_generation j
        \<and> (jb_provider_attempts (settle now c outcome j) \<noteq> jb_provider_attempts j
            \<longrightarrow> (\<exists>e'. outcome = AttemptFailed e')))"
proof (intro conjI allI)
  fix outcome
  show "jb_lease_owner (settle now c outcome j) = None"
    "jb_lease_expires_at (settle now c outcome j) = None"
    "jb_claim_generation (settle now c outcome j) = jb_claim_generation j"
    by (cases outcome; simp add: release_def)+
  show "jb_provider_attempts (settle now c outcome j) \<noteq> jb_provider_attempts j
      \<longrightarrow> (\<exists>e'. outcome = AttemptFailed e')"
    by (cases outcome) (simp_all add: release_def)
qed (auto simp: release_def retry_delay_def)

definition sample_error :: safe_error where
  "sample_error = \<lparr>sf_code = HttpTimeoutCode, sf_stage = lit ''extraction'', sf_error_type = lit ''ReadTimeout'',
     sf_cause_type = None, sf_http_status = None, sf_capability = None, sf_provider = None,
     sf_extraction_stage = None, sf_terminal = False, sf_provider_failure = True\<rparr>"

theorem settle_schedule_witness:
  "jb_next_run_at (settle 100 (sample_claim\<lparr>ct_attempts := 2\<rparr>)
      (AttemptFailed sample_error)
      (fresh_job 5 1 Uploaded)) = 40000100"
  using settle_schedule [of "sample_claim\<lparr>ct_attempts := 2\<rparr>"
      sample_error 100
      "fresh_job 5 1 Uploaded"]
  by (simp add: seconds_def sample_error_def sample_claim_def)

text \<open>Startup recovery leaves every existing job as it is, schedules exactly the waiting server
  sources without a job that are not behind the review gate, keeps one job per source, and run
  a second time it adds nothing.\<close>

theorem recovery_only_adds_missing:
  assumes "recover_missing_jobs now sources jobs = (jobs', n)" and "distinct (map so_id sources)"
  shows "(\<exists>added. jobs' = jobs @ added \<and> length added = n \<and> (\<forall>j \<in> set added. \<exists>s \<in> set sources.
        j = fresh_job now (so_id s) (so_processing_stage s) \<and> so_analysis_mode s = ServerMode
        \<and> so_status s \<in> {Queued, Processing, EnqueuePending}
        \<and> (so_kind s = MeetingKind \<longrightarrow> so_review_state s \<noteq> Some RvAwaitingReview)
        \<and> get_job (so_id s) jobs = None))
    \<and> (\<forall>s \<in> set sources. missing_job jobs s \<longrightarrow>
        get_job (so_id s) jobs' = Some (fresh_job now (so_id s) (so_processing_stage s)))
    \<and> (keys_unique jb_source_id jobs \<longrightarrow> keys_unique jb_source_id jobs')
    \<and> recover_missing_jobs now' sources jobs' = (jobs', 0)"
proof -
  define added where "added = map (\<lambda>s. fresh_job now (so_id s) (so_processing_stage s))
    (filter (missing_job jobs) sources)"
  have jobs': "jobs' = jobs @ added" and n: "length added = n"
    using assms(1) by (auto simp: recover_missing_jobs_def added_def Let_def)
  have old: "\<forall>j \<in> set added. \<exists>s \<in> set sources.
      j = fresh_job now (so_id s) (so_processing_stage s) \<and> missing_job jobs s"
    by (auto simp: added_def)
  have "distinct (map jb_source_id added)"
    using assms(2) by (auto simp: added_def fresh_job_def distinct_map inj_on_def)
  moreover have disjoint: "jb_source_id ` set added \<inter> jb_source_id ` set jobs = {}"
    by (auto simp: added_def fresh_job_def missing_job_def get_job_def row_get_None)
  ultimately have unique: "keys_unique jb_source_id jobs'" if "keys_unique jb_source_id jobs"
    using that by (simp add: keys_unique_def jobs' Int_commute)
  have new: "get_job (so_id s) jobs' = Some (fresh_job now (so_id s) (so_processing_stage s))"
    if "s \<in> set sources" "missing_job jobs s" for s
  proof -
    let ?j = "fresh_job now (so_id s) (so_processing_stage s)"
    have "?j \<in> set added"
      using that by (simp add: added_def)
    moreover have "jb_source_id ?j = so_id s"
      by (simp add: fresh_job_def)
    ultimately have "row_get jb_source_id (so_id s) added = Some ?j"
      using row_get_unique [of jb_source_id added ?j] \<open>distinct (map jb_source_id added)\<close>
      by (simp add: keys_unique_def)
    moreover have "row_get jb_source_id (so_id s) jobs = None"
      using that by (simp add: missing_job_def get_job_def)
    ultimately show ?thesis
      by (simp add: get_job_def jobs' row_get_append)
  qed
  have "\<exists>s \<in> set sources. j = fresh_job now (so_id s) (so_processing_stage s)
      \<and> so_analysis_mode s = ServerMode \<and> so_status s \<in> {Queued, Processing, EnqueuePending}
      \<and> (so_kind s = MeetingKind \<longrightarrow> so_review_state s \<noteq> Some RvAwaitingReview)
      \<and> get_job (so_id s) jobs = None" if "j \<in> set added" for j
  proof -
    have "so_analysis_mode s = ServerMode \<and> so_status s \<in> {Queued, Processing, EnqueuePending}
        \<and> (so_kind s = MeetingKind \<longrightarrow> so_review_state s \<noteq> Some RvAwaitingReview)
        \<and> get_job (so_id s) jobs = None" if "missing_job jobs s" for s
      using that unfolding missing_job_def by auto
    then show ?thesis
      using old \<open>j \<in> set added\<close> by blast
  qed
  then show ?thesis
    using recover_idem [OF assms(1)] jobs' n new unique by auto
qed

theorem recovery_only_adds_missing_witness:
  "get_job 9 (fst (recover_missing_jobs 50 [example_source] [fresh_job 5 1 Uploaded]))
    = Some (fresh_job 50 9 Uploaded)"
proof -
  have run: "recover_missing_jobs 50 [example_source] [fresh_job 5 1 Uploaded]
      = ([fresh_job 5 1 Uploaded, fresh_job 50 9 Uploaded], 1)"
    and missing: "missing_job [fresh_job 5 1 Uploaded] example_source"
    and id: "so_id example_source = 9" "so_processing_stage example_source = Uploaded"
    by (simp_all add: recover_missing_jobs_def missing_job_def example_source_def get_job_def fresh_job_def)
  show ?thesis
    using recovery_only_adds_missing [OF run, of 60] missing by (simp add: run id)
qed

end
