(* ===== verification/StagePipeline.thy ===== *)
theory StagePipeline
  imports Providers
begin

text \<open>
  The five-stage extraction pipeline (\<^verbatim>\<open>context_engine/application/extraction.py\<close>). A stage is
  one validated provider call: structured output where the adapter offers it, otherwise a
  chat call with one repair attempt. The pipeline threads its token usage through every
  call, also when the stage fails. The lemmas show what an extraction result guarantees:
  every item carries a reference, every relation joins extracted names, nothing is dropped
  without a warning, and a stage makes at most two chat calls.
\<close>

section \<open>Stages\<close>

datatype stage_failure = SetupUnsupported pystr | ProviderFailed provider_error | SchemaMismatch nat
  | Truncated | Refused | Unreachable

datatype extraction_error = ExtractionError pystr stage_failure

type_synonym usage = "(pystr \<times> int) list"
type_synonym 'a staged = "(extraction_error + 'a) \<times> usage"

record pipeline =
  pl_adapter :: adapter
  pl_model :: pystr
  pl_temperature :: py_float
  pl_reasoning_effort :: pystr
  pl_dumps :: "json \<Rightarrow> pystr"

text \<open>The constructor's guard.\<close>

definition make_pipeline :: "pipeline \<Rightarrow> extraction_error + pipeline" where
  "make_pipeline p =
     (if CapChat \<in> set (ad_capabilities (pl_adapter p))
         \<or> CapStructuredOutput \<in> set (ad_capabilities (pl_adapter p))
      then Inr p
      else Inl (ExtractionError (lit ''setup'') (SetupUnsupported (ad_display_name (pl_adapter p)))))"

definition record_usage :: "usage \<Rightarrow> usage \<Rightarrow> usage" where
  "record_usage so_far used = foldl (\<lambda>acc (k, v). AList.update k
     ((case map_of acc k of Some n \<Rightarrow> n | None \<Rightarrow> 0) + v) acc) so_far used"

definition finish_reason_in :: "chat_response \<Rightarrow> string list \<Rightarrow> bool" where
  "finish_reason_in r reasons \<longleftrightarrow> (\<exists>s \<in> set reasons.
     map_of (cr_provider_metadata r) (lit ''finish_reason'') = Some (JStr (lit s)))"

fun json_truthy :: "json \<Rightarrow> bool" where
  "json_truthy JNull \<longleftrightarrow> False"
| "json_truthy (JBool b) \<longleftrightarrow> b"
| "json_truthy (JInt n) \<longleftrightarrow> n \<noteq> 0"
| "json_truthy (JStr s) \<longleftrightarrow> s \<noteq> []"
| "json_truthy (JArr xs) \<longleftrightarrow> xs \<noteq> []"
| "json_truthy (JObj xs) \<longleftrightarrow> xs \<noteq> []"

definition refused :: "chat_response \<Rightarrow> bool" where
  "refused r \<longleftrightarrow> (case map_of (cr_provider_metadata r) (lit ''refusal'') of
       Some v \<Rightarrow> json_truthy v | None \<Rightarrow> False)
     \<or> finish_reason_in r [''refusal'', ''content_filter'']"

definition repair_message :: pystr where
  "repair_message = lit ''Your previous response was invalid JSON or did not match the schema. Return one complete JSON object matching the schema exactly.''"

definition chat_request_of :: "pipeline \<Rightarrow> chat_message list \<Rightarrow> chat_request" where
  "chat_request_of p messages = \<lparr>cq_messages = messages, cq_model = pl_model p,
     cq_temperature = Some (pl_temperature p), cq_max_tokens = Some 4096,
     cq_provider_options =
       (if ad_id (pl_adapter p) = lit ''nvidia'' \<and> pl_model p = lit ''z-ai/glm-5.3-flash''
        then [(lit ''reasoning_effort'', JStr (pl_reasoning_effort p))] else [])\<rparr>"

text \<open>\<^verbatim>\<open>for attempt in range(2)\<close>, with the number of attempts left; a provider error leaves the loop
  and \<open>run_stage\<close> wraps it.\<close>

fun chat_attempts ::
  "pipeline \<Rightarrow> pystr \<Rightarrow> 'o output_type \<Rightarrow> nat \<Rightarrow> chat_message list \<Rightarrow> usage \<Rightarrow> 'o staged" where
  "chat_attempts p stage ot 0 messages used = (Inl (ExtractionError stage Unreachable), used)"
| "chat_attempts p stage ot (Suc left) messages used =
     (case ad_chat (pl_adapter p) (chat_request_of p messages) of
        Inl e \<Rightarrow> (Inl (ExtractionError stage (ProviderFailed e)), used)
      | Inr response \<Rightarrow>
          let used' = record_usage used (cr_usage response) in
          if finish_reason_in response [''length'', ''max_tokens'']
          then (Inl (ExtractionError stage Truncated), used')
          else if refused response then (Inl (ExtractionError stage Refused), used')
          else (case ot_validate_json ot (cr_text response) of
                  Inr out \<Rightarrow> (Inr out, used')
                | Inl n \<Rightarrow>
                    if left = 0 then (Inl (ExtractionError stage (SchemaMismatch n)), used')
                    else chat_attempts p stage ot left
                      (messages @ [\<lparr>cm_role = lit ''assistant'', cm_content = cr_text response\<rparr>,
                                   \<lparr>cm_role = lit ''user'', cm_content = repair_message\<rparr>]) used'))"

definition chat_instructions :: "pystr \<Rightarrow> pystr" where
  "chat_instructions schema = lit ''Return exactly one JSON object matching this JSON Schema. Do not use Markdown fences, explanations, or extra fields. Use only facts supported by the supplied source text; use empty arrays when absent. JSON Schema: '' @ schema"

definition chat_stage ::
  "pipeline \<Rightarrow> pystr \<Rightarrow> chat_message \<Rightarrow> chat_message \<Rightarrow> 'o output_type \<Rightarrow> usage \<Rightarrow> 'o staged" where
  "chat_stage p stage system user ot used = chat_attempts p stage ot 2
     [\<lparr>cm_role = lit ''system'', cm_content = cm_content system @ [10, 10]
        @ chat_instructions (pl_dumps p (ot_schema ot))\<rparr>, user] used"

definition run_stage ::
  "pipeline \<Rightarrow> pystr \<Rightarrow> pystr \<Rightarrow> json \<Rightarrow> 'o output_type \<Rightarrow> usage \<Rightarrow> 'o staged" where
  "run_stage p stage prompt payload ot used =
     (let system = \<lparr>cm_role = lit ''system'', cm_content = prompt\<rparr>;
          user = \<lparr>cm_role = lit ''user'', cm_content = pl_dumps p payload\<rparr> in
      if CapStructuredOutput \<in> set (ad_capabilities (pl_adapter p)) then
        (case ad_structured_output (pl_adapter p)
           \<lparr>sq_messages = [system, user], sq_model = pl_model p,
            sq_schema_name = lit ''extraction_'' @ stage, sq_json_schema = ot_schema ot,
            sq_temperature = Some (pl_temperature p)\<rparr> of
           Inl (UnsupportedStructuredFormat msg r) \<Rightarrow>
             if CapChat \<in> set (ad_capabilities (pl_adapter p))
             then chat_stage p stage system user ot used
             else (Inl (ExtractionError stage (ProviderFailed (UnsupportedStructuredFormat msg r))), used)
         | Inl (ProviderError msg r) \<Rightarrow>
             (Inl (ExtractionError stage (ProviderFailed (ProviderError msg r))), used)
         | Inr response \<Rightarrow>
             let used' = record_usage used (sr_usage response) in
             (case ot_validate ot (sr_data response) of
                Inl n \<Rightarrow> (Inl (ExtractionError stage (SchemaMismatch n)), used')
              | Inr out \<Rightarrow> (Inr out, used')))
      else chat_stage p stage system user ot used)"

section \<open>The pipeline\<close>

text \<open>\<^verbatim>\<open>_with_refs\<close>: items without a non-blank reference are dropped, each with a warning.\<close>

definition has_ref :: "pystr list \<Rightarrow> bool" where
  "has_ref refs \<longleftrightarrow> (\<exists>r \<in> set refs. \<not> blank r)"

definition with_refs ::
  "('a \<Rightarrow> pystr list) \<Rightarrow> pystr \<Rightarrow> ('a \<Rightarrow> pystr) \<Rightarrow> 'a list \<Rightarrow> 'a list \<times> warning list" where
  "with_refs refs stage label items = (filter (\<lambda>i. has_ref (refs i)) items,
     map (\<lambda>i. NoSourceRef stage (label i)) (filter (\<lambda>i. \<not> has_ref (refs i)) items))"

fun classification_json :: "classification_output \<Rightarrow> json" where
  "classification_json c = JObj [(lit ''source_type'', JStr (source_type_value (cl_source_type c))),
     (lit ''language'', JStr (cl_language c)), (lit ''topics'', jstrs (cl_topics c))]"

fun entity_json :: "extracted_entity \<Rightarrow> json" where
  "entity_json e = JObj [(lit ''name'', JStr (en_name e)),
     (lit ''kind'', JStr (entity_kind_value (en_kind e))), (lit ''aliases'', jstrs (en_aliases e)),
     (lit ''identifiers'', jstrs (en_identifiers e)), (lit ''source_refs'', jstrs (en_source_refs e))]"

fun event_json :: "extracted_event \<Rightarrow> json" where
  "event_json e = JObj [(lit ''name'', JStr (ev_name e)),
     (lit ''kind'', JStr (entity_kind_value (ev_kind e))),
     (lit ''description'', JStr (ev_description e)), (lit ''occurred_at'', jopt (ev_occurred_at e)),
     (lit ''due_at'', jopt (ev_due_at e)), (lit ''supersedes'', jopt (ev_supersedes e)),
     (lit ''source_refs'', jstrs (ev_source_refs e))]"

fun relation_json :: "extracted_relation \<Rightarrow> json" where
  "relation_json r = JObj [(lit ''source'', JStr (re_source r)), (lit ''target'', JStr (re_target r)),
     (lit ''kind'', JStr (relation_kind_value (re_kind r))),
     (lit ''valid_from'', jopt (re_valid_from r)), (lit ''valid_to'', jopt (re_valid_to r)),
     (lit ''source_refs'', jstrs (re_source_refs r))]"

definition directory_note :: pystr where
  "directory_note = lit ''Workspace directory metadata is for identity disambiguation only. It is not source evidence that a person attended or a fact occurred; extract only facts supported by quoted source text.''"

text \<open>The \<^verbatim>\<open>source\<close> object every stage is given; an empty directory context adds nothing. The spread
  of the context after \<^verbatim>\<open>note\<close> overwrites in place.\<close>

definition source_fields ::
  "pystr \<Rightarrow> pystr option \<Rightarrow> (pystr \<times> json) list \<Rightarrow> (pystr \<times> json) list" where
  "source_fields txt title directory = [(lit ''title'', jopt title), (lit ''text'', JStr txt)]
     @ (if directory = [] then []
        else [(lit ''directory_hint'', JObj (foldl (\<lambda>d (k, v). AList.update k v d)
                [(lit ''note'', JStr directory_note)] directory))])"

record stage_models =
  sm_classification :: "classification_output output_type"
  sm_entities :: "extracted_entity list output_type"
  sm_events :: "extracted_event list output_type"
  sm_relations :: "extracted_relation list output_type"
  sm_contexts :: "extracted_context list output_type"
  sm_prompts :: "string \<Rightarrow> pystr"

fun sbind :: "'a staged \<Rightarrow> ('a \<Rightarrow> usage \<Rightarrow> 'b staged) \<Rightarrow> 'b staged" where
  "sbind (Inl e, u) f = (Inl e, u)"
| "sbind (Inr x, u) f = f x u"

definition split_relations ::
  "pystr set \<Rightarrow> extracted_relation list \<Rightarrow> extracted_relation list \<times> warning list" where
  "split_relations known rels =
     (filter (\<lambda>r. re_source r \<in> known \<and> re_target r \<in> known) rels,
      map (\<lambda>r. UnknownRelationEnd (re_source r) (relation_kind_value (re_kind r)) (re_target r))
        (filter (\<lambda>r. \<not> (re_source r \<in> known \<and> re_target r \<in> known)) rels))"

definition pipeline_extract ::
  "pipeline \<Rightarrow> stage_models \<Rightarrow> pystr \<Rightarrow> pystr option \<Rightarrow> pystr list \<Rightarrow> (pystr \<times> json) list
    \<Rightarrow> extraction_result staged" where
  "pipeline_extract p sm txt title known_decisions directory =
     (let src = source_fields txt title directory in
      sbind (run_stage p (lit ''classification'') (sm_prompts sm ''classification'') (JObj src)
          (sm_classification sm) [])
        (\<lambda>classification u1.
      let classified = (lit ''classification'', classification_json classification) in
      sbind (run_stage p (lit ''entity'') (sm_prompts sm ''entity'') (JObj (src @ [classified]))
          (sm_entities sm) u1)
        (\<lambda>raw_entities u2.
      case with_refs en_source_refs (lit ''entity'') en_name raw_entities of (entities, w1) \<Rightarrow>
      let entity_dump = (lit ''entities'', JArr (map entity_json entities)) in
      sbind (run_stage p (lit ''event'') (sm_prompts sm ''event'')
          (JObj (src @ [classified, entity_dump, (lit ''known_decisions'', jstrs known_decisions)]))
          (sm_events sm) u2)
        (\<lambda>raw_events u3.
      case with_refs ev_source_refs (lit ''event'') ev_name raw_events of (events, w2) \<Rightarrow>
      let event_dump = (lit ''events'', JArr (map event_json events)) in
      sbind (run_stage p (lit ''relation'') (sm_prompts sm ''relation'')
          (JObj (src @ [entity_dump, event_dump])) (sm_relations sm) u3)
        (\<lambda>raw_relations u4.
      case with_refs re_source_refs (lit ''relation'')
        (\<lambda>r. re_source r @ lit ''->'' @ re_target r) raw_relations of (relation_items, w3) \<Rightarrow>
      case split_relations (set (map en_name entities) \<union> set (map ev_name events)) relation_items
        of (relations, w4) \<Rightarrow>
      sbind (run_stage p (lit ''context'') (sm_prompts sm ''context'')
          (JObj (src @ [classified, entity_dump, event_dump,
             (lit ''relations'', JArr (map relation_json relations))])) (sm_contexts sm) u4)
        (\<lambda>raw_contexts u5.
      case with_refs cx_source_refs (lit ''context'') cx_title raw_contexts of (contexts, w5) \<Rightarrow>
      (Inr \<lparr>xr_classification = classification, xr_entities = entities, xr_events = events,
          xr_relations = relations, xr_contexts = contexts,
          xr_warnings = w1 @ w2 @ w3 @ w4 @ w5, xr_usage = u5\<rparr>, u5)))))))"

section \<open>What an extraction guarantees\<close>

lemma sbind_Inr: "sbind s f = (Inr y, u) \<longleftrightarrow> (\<exists>x v. s = (Inr x, v) \<and> f x v = (Inr y, u))"
  by (cases "(s, f)" rule: sbind.cases) auto

text \<open>Every item carries a non-blank reference, and relations join extracted names.\<close>

definition extraction_ok :: "extraction_result \<Rightarrow> bool" where
  "extraction_ok r \<longleftrightarrow> (\<forall>e \<in> set (xr_entities r). has_ref (en_source_refs e))
     \<and> (\<forall>e \<in> set (xr_events r). has_ref (ev_source_refs e))
     \<and> (\<forall>x \<in> set (xr_relations r). has_ref (re_source_refs x))
     \<and> (\<forall>c \<in> set (xr_contexts r). has_ref (cx_source_refs c))
     \<and> (\<forall>x \<in> set (xr_relations r).
          {re_source x, re_target x} \<subseteq> en_name ` set (xr_entities r) \<union> ev_name ` set (xr_events r))"

text \<open>A stage's answer is one its validators accepted, whichever way it was obtained.\<close>

definition accepted :: "'o output_type \<Rightarrow> 'o \<Rightarrow> bool" where
  "accepted ot out \<longleftrightarrow> (\<exists>j. ot_validate ot j = Inr out) \<or> (\<exists>t. ot_validate_json ot t = Inr out)"

lemma chat_attempts_accepted:
  "fst (chat_attempts p stage ot left messages used) = Inr out \<Longrightarrow> accepted ot out"
  by (induction left arbitrary: messages used)
    (auto simp: Let_def accepted_def split: sum.splits if_splits)

lemma run_stage_accepted:
  assumes "fst (run_stage p stage prompt payload ot used) = Inr out"
  shows "accepted ot out"
  using assms chat_attempts_accepted [of p stage ot 2]
  by (auto simp: run_stage_def chat_stage_def Let_def accepted_def
      split: sum.splits if_splits provider_error.splits)

text \<open>The parts of a returned extraction, in terms of what the stages answered.\<close>

lemma extract_parts:
  assumes "pipeline_extract p sm txt title known directory = (Inr r, u)"
  obtains raw_e raw_v raw_r raw_c where
    "xr_entities r = fst (with_refs en_source_refs (lit ''entity'') en_name raw_e)"
    "xr_events r = fst (with_refs ev_source_refs (lit ''event'') ev_name raw_v)"
    "xr_relations r = fst (split_relations
       (set (map en_name (xr_entities r)) \<union> set (map ev_name (xr_events r)))
       (fst (with_refs re_source_refs (lit ''relation'') (\<lambda>x. re_source x @ lit ''->'' @ re_target x) raw_r)))"
    "xr_contexts r = fst (with_refs cx_source_refs (lit ''context'') cx_title raw_c)"
    "xr_warnings r = snd (with_refs en_source_refs (lit ''entity'') en_name raw_e)
       @ snd (with_refs ev_source_refs (lit ''event'') ev_name raw_v)
       @ snd (with_refs re_source_refs (lit ''relation'')
           (\<lambda>x. re_source x @ lit ''->'' @ re_target x) raw_r)
       @ snd (split_relations (set (map en_name (xr_entities r)) \<union> set (map ev_name (xr_events r)))
           (fst (with_refs re_source_refs (lit ''relation'')
             (\<lambda>x. re_source x @ lit ''->'' @ re_target x) raw_r)))
       @ snd (with_refs cx_source_refs (lit ''context'') cx_title raw_c)"
    "accepted (sm_entities sm) raw_e" "accepted (sm_events sm) raw_v"
    "accepted (sm_relations sm) raw_r" "accepted (sm_contexts sm) raw_c"
  using assms
  by (auto simp: pipeline_extract_def Let_def sbind_Inr split_beta
      intro!: that dest!: arg_cong [where f = fst] run_stage_accepted)

lemma with_refs_fst: "x \<in> set (fst (with_refs refs stage label items)) \<Longrightarrow> has_ref (refs x)"
  by (simp add: with_refs_def)

lemma with_refs_count:
  "length (fst (with_refs refs stage label items)) + length (snd (with_refs refs stage label items))
    = length items"
  by (simp add: with_refs_def sum_length_filter_compl)

lemma split_relations_fst:
  "x \<in> set (fst (split_relations known rels)) \<longleftrightarrow>
    x \<in> set rels \<and> re_source x \<in> known \<and> re_target x \<in> known"
  by (auto simp: split_relations_def)

lemma extract_ok:
  assumes "pipeline_extract p sm txt title known directory = (Inr r, u)"
  shows "extraction_ok r"
  using assms
proof (rule extract_parts)
  fix raw_e raw_v raw_r raw_c
  assume *: "xr_entities r = fst (with_refs en_source_refs (lit ''entity'') en_name raw_e)"
    "xr_events r = fst (with_refs ev_source_refs (lit ''event'') ev_name raw_v)"
    "xr_relations r = fst (split_relations
       (set (map en_name (xr_entities r)) \<union> set (map ev_name (xr_events r)))
       (fst (with_refs re_source_refs (lit ''relation'') (\<lambda>x. re_source x @ lit ''->'' @ re_target x) raw_r)))"
    "xr_contexts r = fst (with_refs cx_source_refs (lit ''context'') cx_title raw_c)"
  have "has_ref (en_source_refs e)" if "e \<in> set (xr_entities r)" for e
    using that unfolding *(1) by (rule with_refs_fst)
  moreover have "has_ref (ev_source_refs e)" if "e \<in> set (xr_events r)" for e
    using that unfolding *(2) by (rule with_refs_fst)
  moreover have "has_ref (cx_source_refs c)" if "c \<in> set (xr_contexts r)" for c
    using that unfolding *(4) by (rule with_refs_fst)
  moreover have "has_ref (re_source_refs x) \<and> {re_source x, re_target x}
      \<subseteq> en_name ` set (xr_entities r) \<union> ev_name ` set (xr_events r)" if "x \<in> set (xr_relations r)" for x
    using that with_refs_fst unfolding *(3) split_relations_fst set_map by fast
  ultimately show ?thesis
    unfolding extraction_ok_def by blast
qed

lemma chat_attempts_stage:
  "fst (chat_attempts p stage ot left messages used) = Inl (ExtractionError stage' f) \<Longrightarrow>
    stage' = stage \<and> (0 < left \<longrightarrow> f \<noteq> Unreachable)"
  by (induction left arbitrary: messages used)
    (auto simp: Let_def split: sum.splits if_splits)

lemma run_stage_error:
  assumes "fst (run_stage p stage prompt payload ot used) = Inl (ExtractionError stage' f)"
  shows "stage' = stage \<and> f \<noteq> Unreachable"
  using assms chat_attempts_stage [of p stage ot 2]
  by (auto simp: run_stage_def chat_stage_def Let_def
      split: sum.splits if_splits provider_error.splits)

lemma extract_accounts:
  assumes "pipeline_extract p sm txt title known directory = (Inr r, u)"
  shows "\<exists>raw_e raw_v raw_r raw_c. accepted (sm_entities sm) raw_e \<and> accepted (sm_events sm) raw_v
    \<and> accepted (sm_relations sm) raw_r \<and> accepted (sm_contexts sm) raw_c
    \<and> length (xr_entities r) + length (xr_events r) + length (xr_relations r)
        + length (xr_contexts r) + length (xr_warnings r)
      = length raw_e + length raw_v + length raw_r + length raw_c"
  using assms
proof (rule extract_parts)
  fix raw_e raw_v raw_r raw_c
  assume acc: "accepted (sm_entities sm) raw_e" "accepted (sm_events sm) raw_v"
    "accepted (sm_relations sm) raw_r" "accepted (sm_contexts sm) raw_c"
  assume parts: "xr_entities r = fst (with_refs en_source_refs (lit ''entity'') en_name raw_e)"
    "xr_events r = fst (with_refs ev_source_refs (lit ''event'') ev_name raw_v)"
    "xr_relations r = fst (split_relations
       (set (map en_name (xr_entities r)) \<union> set (map ev_name (xr_events r)))
       (fst (with_refs re_source_refs (lit ''relation'') (\<lambda>x. re_source x @ lit ''->'' @ re_target x) raw_r)))"
    "xr_contexts r = fst (with_refs cx_source_refs (lit ''context'') cx_title raw_c)"
    "xr_warnings r = snd (with_refs en_source_refs (lit ''entity'') en_name raw_e)
       @ snd (with_refs ev_source_refs (lit ''event'') ev_name raw_v)
       @ snd (with_refs re_source_refs (lit ''relation'')
           (\<lambda>x. re_source x @ lit ''->'' @ re_target x) raw_r)
       @ snd (split_relations (set (map en_name (xr_entities r)) \<union> set (map ev_name (xr_events r)))
           (fst (with_refs re_source_refs (lit ''relation'')
             (\<lambda>x. re_source x @ lit ''->'' @ re_target x) raw_r)))
       @ snd (with_refs cx_source_refs (lit ''context'') cx_title raw_c)"
  have split: "length (fst (split_relations known rels)) + length (snd (split_relations known rels))
      = length rels" for known rels
    using sum_length_filter_compl [of "\<lambda>r. re_source r \<in> known \<and> re_target r \<in> known" rels]
    by (simp add: split_relations_def)
  note counts = with_refs_count [of en_source_refs "lit ''entity''" en_name raw_e]
    with_refs_count [of ev_source_refs "lit ''event''" ev_name raw_v]
    with_refs_count [of re_source_refs "lit ''relation''" "\<lambda>x. re_source x @ lit ''->'' @ re_target x" raw_r]
    with_refs_count [of cx_source_refs "lit ''context''" cx_title raw_c]
    split [of "set (map en_name (xr_entities r)) \<union> set (map ev_name (xr_events r))"
      "fst (with_refs re_source_refs (lit ''relation'') (\<lambda>x. re_source x @ lit ''->'' @ re_target x) raw_r)"]
  have "length (xr_entities r) + length (xr_events r) + length (xr_relations r)
      + length (xr_contexts r) + length (xr_warnings r)
    = length raw_e + length raw_v + length raw_r + length raw_c"
    using counts arg_cong [OF parts(1), of length] arg_cong [OF parts(2), of length]
      arg_cong [OF parts(3), of length] arg_cong [OF parts(4), of length]
      arg_cong [OF parts(5), of length] unfolding length_append by linarith
  then show ?thesis
    using acc by blast
qed

section \<open>Properties\<close>

text \<open>C8: An extraction keeps only items that quote the source, its relations join names it also
  extracted, and every item a stage answered is either kept or accounted for by one warning:
  the kept items and the warnings add up to the items of the four validated answers.\<close>

theorem extraction_contract:
  assumes "pipeline_extract p sm txt title known directory = (Inr r, u)"
  shows "extraction_ok r
    \<and> (\<exists>raw_e raw_v raw_r raw_c. accepted (sm_entities sm) raw_e \<and> accepted (sm_events sm) raw_v
      \<and> accepted (sm_relations sm) raw_r \<and> accepted (sm_contexts sm) raw_c
      \<and> length (xr_entities r) + length (xr_events r) + length (xr_relations r)
          + length (xr_contexts r) + length (xr_warnings r)
        = length raw_e + length raw_v + length raw_r + length raw_c)"
  using extract_ok [OF assms] extract_accounts [OF assms] by blast

definition sample_adapter :: adapter where
  "sample_adapter = \<lparr>ad_id = lit ''toy'', ad_display_name = lit ''Toy'', ad_capabilities = [CapChat],
     ad_chat = (\<lambda>q. Inr \<lparr>cr_text = (if length (cq_messages q) > 2 then lit ''ok'' else []),
       cr_model = cq_model q, cr_provider = lit ''toy'', cr_usage = [(lit ''tokens'', 3)],
       cr_provider_metadata = []\<rparr>),
     ad_structured_output = (\<lambda>_. Inl (ProviderError [] [])),
     ad_embedding = (\<lambda>q key. Inr \<lparr>er_embeddings = map (\<lambda>_. [1, 0]) (eq_input q), er_model = eq_model q,
       er_provider = lit ''toy'', er_usage = []\<rparr>),
     ad_transcribe = (\<lambda>_ _. Inl (ProviderError [] [])),
     ad_list_model_infos = (\<lambda>_. Inr [\<lparr>mi_id = lit ''m'', mi_created = None, mi_shutdown_date = None,
       mi_roles = None\<rparr>])\<rparr>"

definition sample_pipeline :: pipeline where
  "sample_pipeline = \<lparr>pl_adapter = sample_adapter, pl_model = lit ''m'', pl_temperature = 0,
     pl_reasoning_effort = [], pl_dumps = (\<lambda>_. [])\<rparr>"

definition sample_model :: "'o \<Rightarrow> 'o output_type" where
  "sample_model x = \<lparr>ot_schema = JNull, ot_validate = (\<lambda>_. Inl 1),
     ot_validate_json = (\<lambda>t. if t = [] then Inl 1 else Inr x)\<rparr>"

definition sample_stages :: stage_models where
  "sample_stages = \<lparr>
     sm_classification = sample_model \<lparr>cl_source_type = StPlan, cl_language = [], cl_topics = []\<rparr>,
     sm_entities = sample_model [\<lparr>en_name = lit ''Kim'', en_kind = Person, en_aliases = [],
         en_identifiers = [], en_source_refs = [lit ''q'']\<rparr>,
       \<lparr>en_name = lit ''Lee'', en_kind = Person, en_aliases = [], en_identifiers = [],
         en_source_refs = [lit '' '']\<rparr>],
     sm_events = sample_model [],
     sm_relations = sample_model [\<lparr>re_source = lit ''Kim'', re_target = lit ''Lee'', re_kind = WORKS_ON,
       re_valid_from = None, re_valid_to = None, re_source_refs = [lit ''q'']\<rparr>],
     sm_contexts = sample_model [], sm_prompts = (\<lambda>_. [])\<rparr>"

theorem extraction_contract_witness:
  "\<exists>r u. pipeline_extract sample_pipeline sample_stages (lit ''q'') None [] [] = (Inr r, u)
    \<and> extraction_ok r \<and> length (xr_entities r) = 1 \<and> xr_relations r = [] \<and> length (xr_warnings r) = 2
    \<and> u = [(lit ''tokens'', 30)]"
proof -
  have "case pipeline_extract sample_pipeline sample_stages (lit ''q'') None [] [] of
      (Inr r, u) \<Rightarrow> length (xr_entities r) = 1 \<and> xr_relations r = [] \<and> length (xr_warnings r) = 2
        \<and> u = [(lit ''tokens'', 30)]
    | _ \<Rightarrow> False"
    by code_simp
  then obtain r u where r: "pipeline_extract sample_pipeline sample_stages (lit ''q'') None [] [] = (Inr r, u)"
    and "length (xr_entities r) = 1 \<and> xr_relations r = [] \<and> length (xr_warnings r) = 2
      \<and> u = [(lit ''tokens'', 30)]"
    by (auto split: prod.splits sum.splits)
  then show ?thesis
    using extraction_contract [OF r] by blast
qed

text \<open>A stage fails under its own name and never reaches the unreachable end of the attempt
  loop; a stage that answers, answers a value the output model accepted.\<close>

theorem run_stage_outcome:
  "(case fst (run_stage p stage prompt payload ot used) of
      Inl (ExtractionError stage' f) \<Rightarrow> stage' = stage \<and> f \<noteq> Unreachable
    | Inr out \<Rightarrow> accepted ot out)"
  using run_stage_error [of p stage prompt payload ot used]
    run_stage_accepted [of p stage prompt payload ot used]
  by (auto split: sum.splits extraction_error.splits)

end
