(* ===== verification/Analysis.thy ===== *)
theory Analysis
  imports StagePipeline
begin

text \<open>
  The planner-facing analyses (\<^verbatim>\<open>context_engine/application/analysis.py\<close>): projections of an
  extraction into meeting and document analyses, and the check that quoted references
  occur in the source. The lemmas show that exactly the unfound quotes are flagged, and
  where participants and assignees come from.
\<close>

section \<open>Quotes\<close>

definition squash :: "pystr \<Rightarrow> pystr" where
  "squash s = squash_spaces s"

definition unverified_refs :: "pystr \<Rightarrow> (pystr \<times> pystr list) list \<Rightarrow> warning list" where
  "unverified_refs txt groups =
     (let haystack = squash txt in
      concat (map (\<lambda>(label, refs). map (\<lambda>_. UnverifiedRef label)
        (filter (\<lambda>r. squash r \<noteq> [] \<and> \<not> contains (squash r) haystack) refs)) groups))"

section \<open>Projections of an extraction\<close>

definition events_of :: "extraction_result \<Rightarrow> entity_kind \<Rightarrow> extracted_event list" where
  "events_of result kind = filter (\<lambda>e. ev_kind e = kind) (xr_events result)"

fun first_summary :: "extracted_context list \<Rightarrow> pystr" where
  "first_summary [] = []"
| "first_summary (c # cs) = (if cx_kind c = CtxSummary then cx_body c else first_summary cs)"

definition summary_of :: "extraction_result \<Rightarrow> pystr" where
  "summary_of result = first_summary (xr_contexts result)"

definition people_of :: "extraction_result \<Rightarrow> pystr list" where
  "people_of result = map en_name (filter (\<lambda>e. en_kind e = Person) (xr_entities result))"

fun find_assignee :: "pystr set \<Rightarrow> pystr \<Rightarrow> extracted_relation list \<Rightarrow> pystr option" where
  "find_assignee people task [] = None"
| "find_assignee people task (r # rs) =
     (if re_kind r \<noteq> ASSIGNED_TO then find_assignee people task rs
      else if re_source r = task \<and> re_target r \<in> people then Some (re_target r)
      else if re_target r = task \<and> re_source r \<in> people then Some (re_source r)
      else find_assignee people task rs)"

definition assignee_of :: "extraction_result \<Rightarrow> pystr \<Rightarrow> pystr option" where
  "assignee_of result task = find_assignee (set (people_of result)) task (xr_relations result)"

definition decisions_of :: "extraction_result \<Rightarrow> decision_item list" where
  "decisions_of result = map (\<lambda>e. \<lparr>ai_title = ev_name e, ai_description = ev_description e,
     ai_source_refs = ev_source_refs e, di_decided_at = ev_occurred_at e,
     di_supersedes = ev_supersedes e\<rparr>) (events_of result Decision)"

definition tasks_of :: "extraction_result \<Rightarrow> action_item list" where
  "tasks_of result = map (\<lambda>e. \<lparr>ai_title = ev_name e, ai_description = ev_description e,
     ai_source_refs = ev_source_refs e, ac_assignee = assignee_of result (ev_name e),
     ac_due_at = ev_due_at e\<rparr>) (events_of result Task)"

definition issues_of :: "extraction_result \<Rightarrow> analysis_item list" where
  "issues_of result = map (\<lambda>e. \<lparr>ai_title = ev_name e, ai_description = ev_description e,
     ai_source_refs = ev_source_refs e\<rparr>) (events_of result Issue)"

definition source_ref_groups ::
  "extraction_result \<Rightarrow> (pystr \<times> pystr list) list \<Rightarrow> (pystr \<times> pystr list) list" where
  "source_ref_groups result extra =
     map (\<lambda>e. (en_name e, en_source_refs e)) (xr_entities result)
     @ map (\<lambda>e. (ev_name e, ev_source_refs e)) (xr_events result)
     @ map (\<lambda>c. (cx_title c, cx_source_refs c)) (xr_contexts result) @ extra"

section \<open>Meetings\<close>

definition meeting_attendees :: "extraction_result \<Rightarrow> pystr list" where
  "meeting_attendees result = (case events_of result Meeting of
     [] \<Rightarrow> []
   | meeting # _ \<Rightarrow> map re_source (filter (\<lambda>r. re_kind r = PARTICIPATED_IN
       \<and> re_target r = ev_name meeting \<and> re_source r \<in> set (people_of result)) (xr_relations result)))"

definition meeting_analysis_of ::
  "pystr \<Rightarrow> pystr option \<Rightarrow> extraction_result \<Rightarrow> meeting_analysis" where
  "meeting_analysis_of transcript title result =
     (let type_warning = (if cl_source_type (xr_classification result) \<noteq> StMeeting
            then [NotAMeeting (source_type_value (cl_source_type (xr_classification result)))] else []);
          attendees = meeting_attendees result in
      \<lparr>ma_schema_version = schema_version,
       ma_meeting_title = (case events_of result Meeting of m # _ \<Rightarrow> Some (ev_name m) | [] \<Rightarrow> title),
       ma_occurred_at = (case events_of result Meeting of m # _ \<Rightarrow> ev_occurred_at m | [] \<Rightarrow> None),
       ma_participants = fromkeys (if attendees \<noteq> [] then attendees else people_of result),
       ma_summary = summary_of result, ma_decisions = decisions_of result,
       ma_action_items = tasks_of result, ma_issues = issues_of result,
       ma_warnings = xr_warnings result @ type_warning
         @ unverified_refs transcript (source_ref_groups result []),
       ma_usage = xr_usage result\<rparr>)"

definition analyze_meeting ::
  "pipeline \<Rightarrow> stage_models \<Rightarrow> pystr \<Rightarrow> pystr option \<Rightarrow> pystr list \<Rightarrow> meeting_analysis staged" where
  "analyze_meeting p sm transcript title known_decisions =
     sbind (pipeline_extract p sm transcript title known_decisions [])
       (\<lambda>result u. (Inr (meeting_analysis_of transcript title result), u))"

section \<open>Documents\<close>

definition document_analysis_of ::
  "pystr \<Rightarrow> pystr option \<Rightarrow> extraction_result \<Rightarrow> planning_brief option \<Rightarrow> warning list
    \<Rightarrow> (pystr \<times> pystr list) list \<Rightarrow> usage \<Rightarrow> document_analysis" where
  "document_analysis_of txt title result planning planning_warnings extra used =
     \<lparr>da_schema_version = schema_version, da_title = title,
      da_source_type = cl_source_type (xr_classification result), da_summary = summary_of result,
      da_projects = map en_name (filter (\<lambda>e. en_kind e = Project) (xr_entities result)),
      da_entities = map (\<lambda>e. \<lparr>ne_name = en_name e, ne_kind = entity_kind_value (en_kind e),
          ne_source_refs = en_source_refs e\<rparr>)
        (filter (\<lambda>e. en_kind e \<notin> set event_stage_kinds \<and> en_kind e \<noteq> Project) (xr_entities result)),
      da_issues = issues_of result, da_tasks = tasks_of result, da_decisions = decisions_of result,
      da_planning = planning,
      da_warnings = xr_warnings result @ planning_warnings
        @ unverified_refs txt (source_ref_groups result extra),
      da_usage = used\<rparr>"

definition analyze_document ::
  "pipeline \<Rightarrow> stage_models \<Rightarrow> planning_brief output_type \<Rightarrow> pystr \<Rightarrow> pystr option \<Rightarrow> pystr list
    \<Rightarrow> document_analysis staged" where
  "analyze_document p sm planning_model txt title known_decisions =
     sbind (pipeline_extract p sm txt title known_decisions []) (\<lambda>result u.
       if cl_source_type (xr_classification result) = StPlan then
         sbind (run_stage p (lit ''planning'') (sm_prompts sm ''planning'')
             (JObj [(lit ''title'', jopt title), (lit ''text'', JStr txt)]) planning_model u)
           (\<lambda>brief u'.
             if has_ref (pb_source_refs brief)
             then (Inr (document_analysis_of txt title result (Some brief) []
               [(lit ''planning'', pb_source_refs brief)] u'), u')
             else (Inr (document_analysis_of txt title result None [PlanningWithoutRef] [] u'), u'))
       else (Inr (document_analysis_of txt title result None [] [] u), u))"

section \<open>Facts\<close>

text \<open>A reference is quoted when its squashed text occurs in the squashed source; a blank one
  counts as quoted here.\<close>

definition quoted :: "pystr \<Rightarrow> pystr \<Rightarrow> bool" where
  "quoted txt r \<longleftrightarrow> contains (squash r) (squash txt)"

lemma quoted_blank: "squash r = [] \<Longrightarrow> quoted txt r"
  by (simp add: quoted_def)

lemma squash_Nil_iff: "squash r = [] \<longleftrightarrow> blank r"
  by (auto simp: squash_def squash_spaces_def blank_def strip_Nil_iff filter_empty_conv)

lemma contains_squash: "contains a b \<Longrightarrow> contains (squash a) (squash b)"
  unfolding contains_def squash_def squash_spaces_def sublist_def
  by (metis filter_append)

lemma unverified_refs_iff:
  "w \<in> set (unverified_refs txt groups) \<longleftrightarrow>
    (\<exists>label refs r. w = UnverifiedRef label \<and> (label, refs) \<in> set groups \<and> r \<in> set refs
      \<and> \<not> quoted txt r)"
  (is "?L \<longleftrightarrow> ?R")
proof
  assume ?L
  then obtain label refs r where "(label, refs) \<in> set groups" "r \<in> set refs" "w = UnverifiedRef label"
    "\<not> contains (squash r) (squash txt)"
    unfolding unverified_refs_def Let_def by auto
  then show ?R
    unfolding quoted_def by blast
next
  assume ?R
  then obtain label refs r where r: "(label, refs) \<in> set groups" "r \<in> set refs" "w = UnverifiedRef label"
    "\<not> quoted txt r"
    by blast
  then have "w \<in> set (map (\<lambda>_. UnverifiedRef label)
      (filter (\<lambda>r. squash r \<noteq> [] \<and> \<not> contains (squash r) (squash txt)) refs))"
    using quoted_blank unfolding quoted_def by fastforce
  then show ?L
    using r(1) unfolding unverified_refs_def Let_def by fastforce
qed

lemma find_assignee_Some:
  assumes "find_assignee people task rs = Some a"
  shows "a \<in> people \<and> (\<exists>r \<in> set rs. re_kind r = ASSIGNED_TO
    \<and> {re_source r, re_target r} = {task, a})"
  using assms by (induction rs) (auto split: if_splits)

lemma find_assignee_None:
  assumes "find_assignee people task rs = None" "r \<in> set rs" "re_kind r = ASSIGNED_TO"
  shows "\<not> (re_source r = task \<and> re_target r \<in> people) \<and> \<not> (re_target r = task \<and> re_source r \<in> people)"
  using assms by (induction rs) (auto split: if_splits)

lemma meeting_attendees_people: "set (meeting_attendees result) \<subseteq> set (people_of result)"
  by (auto simp: meeting_attendees_def split: list.splits)

lemma meeting_analysis_people:
  "distinct (ma_participants (meeting_analysis_of t title result))
    \<and> set (ma_participants (meeting_analysis_of t title result)) \<subseteq> set (people_of result)"
  using meeting_attendees_people by (auto simp: meeting_analysis_of_def Let_def)

section \<open>Properties\<close>


definition sample_meeting :: extraction_result where
  "sample_meeting = \<lparr>
     xr_classification = \<lparr>cl_source_type = StMeeting, cl_language = [], cl_topics = []\<rparr>,
     xr_entities = [\<lparr>en_name = lit ''Kim'', en_kind = Person, en_aliases = [], en_identifiers = [],
       en_source_refs = [lit ''K im'']\<rparr>],
     xr_events = [\<lparr>ev_name = lit ''ship'', ev_kind = Task, ev_description = [], ev_occurred_at = None,
       ev_due_at = None, ev_supersedes = None, ev_source_refs = [lit ''lost'']\<rparr>],
     xr_relations = [\<lparr>re_source = lit ''ship'', re_target = lit ''Kim'', re_kind = ASSIGNED_TO,
       re_valid_from = None, re_valid_to = None, re_source_refs = []\<rparr>],
     xr_contexts = [], xr_warnings = [], xr_usage = []\<rparr>"


end
