(* ===== verification/ContextStore.thy ===== *)
theory ContextStore
  imports Analysis EntityResolution
begin

text \<open>
  The Context Store, the current situation of a workspace
  (\<^verbatim>\<open>context_engine/application/context_store.py\<close>, its SQL repository, the rows of
  \<^verbatim>\<open>context_engine/infrastructure/models.py\<close> and the keyless updater of
  \<^verbatim>\<open>agent_workflows/context_updater.py\<close>). The service is written over an updater and a
  repository, as the code injects them; both are interfaces (locales) with their laws, the
  service's behaviour is proved once from the laws, and both updaters and the SQL
  repository are interpretations.
\<close>

section \<open>Rows\<close>

record chunk_row =
  ck_id :: uuid
  ck_workspace_id :: uuid
  ck_source_id :: uuid
  ck_owner_id :: uuid
  ck_position :: nat
  ck_content :: pystr
  ck_start_seconds :: "py_float option"
  ck_end_seconds :: "py_float option"
  ck_embedding :: "py_float list option"
  ck_created_at :: instant

record timeline_metadata =
  tm_key :: pystr
  tm_supersedes :: "pystr option"
  tm_due_at :: "pystr option"
  tm_assignee :: "pystr option"
  tm_source_refs :: "pystr list"

record context_row =
  cx_id :: uuid
  cx_workspace_id :: uuid
  cx_source_id :: uuid
  cx_chunk_id :: "uuid option"
  cx_owner_id :: uuid
  cx_row_kind :: pystr
  cx_row_title :: pystr
  cx_row_body :: pystr
  cx_row_occurred_at :: "instant option"
  cx_metadata :: timeline_metadata
  cx_created_at :: instant

text \<open>The JSON columns hold the dumped items; dumping and validating them again is the identity, so
  a row holds the items themselves.\<close>

record context_store_row =
  sr_id :: uuid
  sr_workspace_id :: uuid
  sr_owner_id :: uuid
  sr_subject :: pystr
  sr_summary :: pystr
  sr_current_state :: pystr
  sr_open_issues :: "store_item list"
  sr_decisions :: "store_decision list"
  sr_next_actions :: "store_action list"
  sr_source_ids :: "pystr list"
  sr_updated_at :: instant

section \<open>Merging a source into the state\<close>

fun timeline_kind :: "entity_kind \<Rightarrow> context_kind option" where
  "timeline_kind Decision = Some CtxDecision"
| "timeline_kind Issue = Some CtxIssue"
| "timeline_kind Task = Some CtxTask"
| "timeline_kind Meeting = Some CtxEvent"
| "timeline_kind Event = Some CtxEvent"
| "timeline_kind _ = None"

definition item_key :: "unicode \<Rightarrow> pystr \<Rightarrow> entity_kind \<Rightarrow> pystr" where
  "item_key uc title kind = normalize_name uc title (entity_kind_value kind)"

text \<open>The first item with the new item's key is replaced in place; otherwise the item is appended.\<close>

fun upsert :: "('i \<Rightarrow> pystr) \<Rightarrow> 'i \<Rightarrow> 'i list \<Rightarrow> 'i list" where
  "upsert key new [] = [new]"
| "upsert key new (x # xs) = (if key x = key new then new # xs else x # upsert key new xs)"

definition merge_event ::
  "unicode \<Rightarrow> extraction_result \<Rightarrow> pystr \<Rightarrow> context_store_state \<Rightarrow> extracted_event \<Rightarrow> context_store_state"
where
  "merge_event uc result sid st ev =
     (if ev_kind ev = Decision then st\<lparr>cs_decisions := upsert (\<lambda>d. item_key uc (si_title d) Decision)
        \<lparr>si_title = ev_name ev, si_description = ev_description ev, si_source_refs = ev_source_refs ev,
         si_source_id = Some sid, sd_decided_at = ev_occurred_at ev\<rparr> (cs_decisions st)\<rparr>
      else if ev_kind ev = Issue then st\<lparr>cs_open_issues := upsert (\<lambda>i. item_key uc (si_title i) Issue)
        \<lparr>si_title = ev_name ev, si_description = ev_description ev, si_source_refs = ev_source_refs ev,
         si_source_id = Some sid\<rparr> (cs_open_issues st)\<rparr>
      else if ev_kind ev = Task then st\<lparr>cs_next_actions := upsert (\<lambda>a. item_key uc (si_title a) Task)
        \<lparr>si_title = ev_name ev, si_description = ev_description ev, si_source_refs = ev_source_refs ev,
         si_source_id = Some sid, sa_assignee = assignee_of result (ev_name ev),
         sa_due_at = ev_due_at ev\<rparr> (cs_next_actions st)\<rparr>
      else st)"

definition replaces_key :: "unicode \<Rightarrow> extracted_event \<Rightarrow> pystr option" where
  "replaces_key uc ev = (case ev_supersedes ev of
     None \<Rightarrow> None
   | Some old \<Rightarrow> if ev_kind ev = Decision \<and> old \<noteq> [] then Some (item_key uc old Decision) else None)"

definition retire_event ::
  "unicode \<Rightarrow> context_store_state \<Rightarrow> extracted_event \<Rightarrow> context_store_state" where
  "retire_event uc st ev = (case replaces_key uc ev of
     None \<Rightarrow> st
   | Some replaced \<Rightarrow> if replaced = item_key uc (ev_name ev) Decision then st
       else st\<lparr>cs_decisions := filter (\<lambda>d. item_key uc (si_title d) Decision \<noteq> replaced) (cs_decisions st)\<rparr>)"

definition merge_extraction ::
  "unicode \<Rightarrow> context_store_state \<Rightarrow> extraction_result \<Rightarrow> uuid \<Rightarrow> context_store_state" where
  "merge_extraction uc st result source_id =
     (let sid = uuid_str source_id;
          merged = foldl (merge_event uc result sid) st (xr_events result);
          current = foldl (retire_event uc) merged (xr_events result) in
      if sid \<in> set (cs_source_ids current) then current
      else current\<lparr>cs_source_ids := cs_source_ids current @ [sid]\<rparr>)"

section \<open>The timeline\<close>

definition timeline_row ::
  "runtime \<Rightarrow> extraction_result \<Rightarrow> uuid \<Rightarrow> uuid \<Rightarrow> uuid \<Rightarrow> uuid \<Rightarrow> instant \<Rightarrow> context_kind
    \<Rightarrow> extracted_event \<Rightarrow> py_error + context_row" where
  "timeline_row rt result workspace_id owner_id source_id new_id now kind ev =
     (let uc = rt_unicode rt; key = item_key uc (ev_name ev) (ev_kind ev);
          replaces = replaces_key uc ev in
      rbind (parse_instant (rt_fromisoformat rt) (ev_occurred_at ev)) (\<lambda>occurred. Inr
        \<lparr>cx_id = new_id, cx_workspace_id = workspace_id, cx_source_id = source_id, cx_chunk_id = None,
         cx_owner_id = owner_id, cx_row_kind = context_kind_value kind,
         cx_row_title = take 255 (strip (ev_name ev)),
         cx_row_body = (if blank (ev_description ev) then strip (ev_name ev)
           else strip (ev_description ev)),
         cx_row_occurred_at = occurred,
         cx_metadata = \<lparr>tm_key = key, tm_supersedes = (if replaces \<noteq> Some key then replaces else None),
           tm_due_at = ev_due_at ev,
           tm_assignee = (if ev_kind ev = Task then assignee_of result (ev_name ev) else None),
           tm_source_refs = ev_source_refs ev\<rparr>,
         cx_created_at = now\<rparr>))"

text \<open>\<open>fresh i\<close> is the id \<^verbatim>\<open>uuid4\<close> gives the row of the \<open>i\<close>-th event; a (kind, key) already present is
  skipped before its row is built.\<close>

fun timeline_rows ::
  "runtime \<Rightarrow> extraction_result \<Rightarrow> uuid \<Rightarrow> uuid \<Rightarrow> uuid \<Rightarrow> (nat \<Rightarrow> uuid) \<Rightarrow> instant
    \<Rightarrow> (pystr \<times> pystr) list \<Rightarrow> extracted_event list \<Rightarrow> py_error + context_row list" where
  "timeline_rows rt result ws owner src fresh now seen [] = Inr []"
| "timeline_rows rt result ws owner src fresh now seen (ev # evs) =
     (case timeline_kind (ev_kind ev) of
        None \<Rightarrow> timeline_rows rt result ws owner src fresh now seen evs
      | Some kind \<Rightarrow>
          let slot = (context_kind_value kind, item_key (rt_unicode rt) (ev_name ev) (ev_kind ev)) in
          if slot \<in> set seen then timeline_rows rt result ws owner src fresh now seen evs
          else rbind (timeline_row rt result ws owner src (fresh (length seen)) now kind ev) (\<lambda>row.
            rbind (timeline_rows rt result ws owner src fresh now (seen @ [slot]) evs) (\<lambda>rows.
              Inr (row # rows))))"

definition timeline_records ::
  "runtime \<Rightarrow> extraction_result \<Rightarrow> uuid \<Rightarrow> uuid \<Rightarrow> uuid \<Rightarrow> (nat \<Rightarrow> uuid) \<Rightarrow> instant
    \<Rightarrow> py_error + context_row list" where
  "timeline_records rt result ws owner src fresh now =
     timeline_rows rt result ws owner src fresh now [] (xr_events result)"

section \<open>Closing items\<close>

definition grounded :: "resolution \<Rightarrow> pystr \<Rightarrow> bool" where
  "grounded r txt \<longleftrightarrow> (let refs = filter (\<lambda>q. \<not> blank q) (rs_source_refs r) in
     refs \<noteq> [] \<and> (\<forall>q \<in> set refs. contains (squash q) (squash txt)))"

fun close_items ::
  "('i \<Rightarrow> pystr) \<Rightarrow> (pystr \<Rightarrow> pystr) \<Rightarrow> pystr \<Rightarrow> pystr \<Rightarrow> 'i list \<Rightarrow> resolution list \<Rightarrow> 'i list \<times> warning list"
where
  "close_items key title_key label txt remaining [] = (remaining, [])"
| "close_items key title_key label txt remaining (r # rs) =
     (case find (\<lambda>i. key i = title_key (rs_title r)) remaining of
        None \<Rightarrow> (case close_items key title_key label txt remaining rs of
          (left, ws) \<Rightarrow> (left, CloseTargetMissing label (rs_title r) # ws))
      | Some target \<Rightarrow>
          if \<not> grounded r txt then (case close_items key title_key label txt remaining rs of
            (left, ws) \<Rightarrow> (left, CloseUngrounded label (rs_title r) # ws))
          else close_items key title_key label txt (remove1 target remaining) rs)"

section \<open>The two updaters\<close>

datatype context_error = UpdateFailed extraction_error | BadDate py_error

type_synonym updater = "context_store_state \<Rightarrow> extraction_result \<Rightarrow> uuid \<Rightarrow> pystr \<Rightarrow> pystr
  \<Rightarrow> context_error + context_store_state \<times> warning list"

definition brief_json :: "('i store_item_scheme) list \<Rightarrow> json" where
  "brief_json items = JArr (map (\<lambda>i. JObj [(lit ''title'', JStr (si_title i)),
     (lit ''description'', JStr (si_description i))]) items)"

definition update_payload ::
  "context_store_state \<Rightarrow> context_store_state \<Rightarrow> extraction_result \<Rightarrow> pystr \<Rightarrow> pystr \<Rightarrow> json" where
  "update_payload st merged result source_title txt = JObj
     [(lit ''subject'', JStr (cs_subject merged)),
      (lit ''previous'', JObj [(lit ''summary'', JStr (cs_summary st)),
        (lit ''current_state'', JStr (cs_current_state st))]),
      (lit ''current'', JObj [(lit ''open_issues'', brief_json (cs_open_issues merged)),
        (lit ''decisions'', brief_json (cs_decisions merged)),
        (lit ''next_actions'', brief_json (cs_next_actions merged))]),
      (lit ''new_source'', JObj [(lit ''title'', JStr source_title),
        (lit ''summary'', JStr (summary_of result)), (lit ''text'', JStr txt)])]"

definition label_issue :: pystr where
  "label_issue = [0xC774, 0xC288, 0x20, 0xD574, 0xACB0]"

definition label_action :: pystr where
  "label_action = [0xD560, 0x20, 0xC77C, 0x20, 0xC644, 0xB8CC]"

definition own_groups :: "pystr \<Rightarrow> context_store_state \<Rightarrow> (pystr \<times> pystr list) list" where
  "own_groups own st =
     map (\<lambda>i. (si_title i, si_source_refs i)) (filter (\<lambda>i. si_source_id i = Some own) (cs_open_issues st))
     @ map (\<lambda>i. (si_title i, si_source_refs i)) (filter (\<lambda>i. si_source_id i = Some own) (cs_decisions st))
     @ map (\<lambda>i. (si_title i, si_source_refs i)) (filter (\<lambda>i. si_source_id i = Some own) (cs_next_actions st))"

text \<open>\<open>ContextStoreUpdater\<close>: the model writes the narrative and may close items with proof.\<close>

definition apply_output ::
  "unicode \<Rightarrow> context_store_state \<Rightarrow> context_store_state \<Rightarrow> context_update_output \<Rightarrow> uuid \<Rightarrow> pystr
    \<Rightarrow> instant \<Rightarrow> context_store_state \<times> warning list" where
  "apply_output uc st merged out source_id txt now =
     (case close_items (\<lambda>i. item_key uc (si_title i) Issue) (\<lambda>t. item_key uc t Issue) label_issue txt
        (cs_open_issues merged) (cu_resolved_issues out) of (issues, issue_warnings) \<Rightarrow>
     (case close_items (\<lambda>i. item_key uc (si_title i) Task) (\<lambda>t. item_key uc t Task) label_action txt
        (cs_next_actions merged) (cu_completed_actions out) of (actions, action_warnings) \<Rightarrow>
      let final = merged\<lparr>cs_open_issues := issues, cs_next_actions := actions,
        cs_summary := (if blank (cu_summary out) then cs_summary st else strip (cu_summary out)),
        cs_current_state := (if blank (cu_current_state out) then cs_current_state st
          else strip (cu_current_state out)),
        cs_updated_at := Some now\<rparr> in
      (final, unverified_refs txt (own_groups (uuid_str source_id) final)
         @ issue_warnings @ action_warnings)))"

definition model_update ::
  "runtime \<Rightarrow> pipeline \<Rightarrow> pystr \<Rightarrow> context_update_output output_type \<Rightarrow> usage \<Rightarrow> instant \<Rightarrow> updater" where
  "model_update rt p prompt ot used now st result source_id source_title txt =
     (let merged = merge_extraction (rt_unicode rt) st result source_id in
      case fst (run_stage p (lit ''context_update'') prompt
        (update_payload st merged result source_title txt) ot used) of
        Inl e \<Rightarrow> Inl (UpdateFailed e)
      | Inr out \<Rightarrow> Inr (apply_output (rt_unicode rt) st merged out source_id txt now))"

text \<open>\<open>KeylessContextUpdater\<close>: the narrative only grows, up to a bound.\<close>

definition summary_limit :: nat where
  "summary_limit = 20000"

definition summaries_of :: "extraction_result \<Rightarrow> pystr list" where
  "summaries_of result = map (\<lambda>c. strip (cx_body c))
     (filter (\<lambda>c. cx_kind c = CtxSummary \<and> \<not> blank (cx_body c)) (xr_contexts result))"

definition combined_summary :: "pystr \<Rightarrow> pystr \<Rightarrow> pystr \<Rightarrow> pystr" where
  "combined_summary old source_title new =
     (let addition = source_title @ lit '': '' @ new in
      if old \<noteq> [] then old @ [10, 10] @ addition else addition)"

definition keyless_update :: "runtime \<Rightarrow> instant \<Rightarrow> updater" where
  "keyless_update rt now st result source_id source_title txt =
     (let merged = merge_extraction (rt_unicode rt) st result source_id in
      case summaries_of result of
        [] \<Rightarrow> Inr (merged\<lparr>cs_updated_at := Some now\<rparr>, [])
      | s # _ \<Rightarrow>
          let narrated = (if contains s (cs_summary st) then (merged, [])
                else if length (combined_summary (cs_summary st) source_title s) \<le> summary_limit
                then (merged\<lparr>cs_summary := combined_summary (cs_summary st) source_title s\<rparr>, [])
                else (merged, [SummaryFull])) in
          (case narrated of (m, ws) \<Rightarrow>
            let situated = (if cs_current_state st = [] then m\<lparr>cs_current_state := s\<rparr> else m) in
            Inr (situated\<lparr>cs_updated_at := Some now\<rparr>, ws)))"

section \<open>The service\<close>

definition state_from_record :: "context_store_row \<Rightarrow> context_store_state" where
  "state_from_record r = \<lparr>cs_subject = sr_subject r, cs_summary = sr_summary r,
     cs_current_state = sr_current_state r, cs_open_issues = sr_open_issues r,
     cs_decisions = sr_decisions r, cs_next_actions = sr_next_actions r,
     cs_source_ids = sr_source_ids r, cs_updated_at = Some (sr_updated_at r)\<rparr>"

definition new_record :: "uuid \<Rightarrow> uuid \<Rightarrow> uuid \<Rightarrow> pystr \<Rightarrow> instant \<Rightarrow> context_store_row" where
  "new_record new_id workspace_id owner_id subject now = \<lparr>sr_id = new_id, sr_workspace_id = workspace_id,
     sr_owner_id = owner_id, sr_subject = subject, sr_summary = [], sr_current_state = [],
     sr_open_issues = [], sr_decisions = [], sr_next_actions = [], sr_source_ids = [],
     sr_updated_at = now\<rparr>"

definition write_state :: "context_store_state \<Rightarrow> instant \<Rightarrow> context_store_row \<Rightarrow> context_store_row" where
  "write_state st now r = r\<lparr>sr_subject := cs_subject st, sr_summary := cs_summary st,
     sr_current_state := cs_current_state st, sr_open_issues := cs_open_issues st,
     sr_decisions := cs_decisions st, sr_next_actions := cs_next_actions st,
     sr_source_ids := cs_source_ids st,
     sr_updated_at := (case cs_updated_at st of Some t \<Rightarrow> t | None \<Rightarrow> now)\<rparr>"

text \<open>A repository is the three operations the service calls.\<close>

record 'db repository =
  rp_load :: "uuid \<Rightarrow> 'db \<Rightarrow> context_store_row option"
  rp_save :: "context_store_row \<Rightarrow> 'db \<Rightarrow> 'db"
  rp_replace_timeline :: "uuid \<Rightarrow> context_row list \<Rightarrow> 'db \<Rightarrow> 'db"

definition current_decisions :: "'db repository \<Rightarrow> uuid \<Rightarrow> 'db \<Rightarrow> pystr list" where
  "current_decisions repo workspace_id db = (case rp_load repo workspace_id db of
     Some r \<Rightarrow> map si_title (cs_decisions (state_from_record r)) | None \<Rightarrow> [])"

record apply_request =
  aq_workspace_id :: uuid
  aq_owner_id :: uuid
  aq_source_id :: uuid
  aq_source_title :: pystr
  aq_subject :: pystr
  aq_text :: pystr
  aq_result :: extraction_result
  aq_new_id :: uuid
  aq_fresh :: "nat \<Rightarrow> uuid"
  aq_now :: instant

definition service_apply ::
  "runtime \<Rightarrow> 'db repository \<Rightarrow> updater \<Rightarrow> apply_request \<Rightarrow> 'db \<Rightarrow> context_error + warning list \<times> 'db" where
  "service_apply rt repo upd q db =
     (let loaded = rp_load repo (aq_workspace_id q) db;
          st0 = (case loaded of Some r \<Rightarrow> state_from_record r | None \<Rightarrow> empty_state (aq_subject q));
          st = st0\<lparr>cs_subject := aq_subject q\<rparr> in
      rbind (upd st (aq_result q) (aq_source_id q) (aq_source_title q) (aq_text q)) (\<lambda>(new_st, warnings).
      let r = (case loaded of Some r \<Rightarrow> r
            | None \<Rightarrow> new_record (aq_new_id q) (aq_workspace_id q) (aq_owner_id q) (aq_subject q) (aq_now q));
          db1 = rp_save repo (write_state new_st (aq_now q) r) db in
      (case timeline_records rt (aq_result q) (aq_workspace_id q) (aq_owner_id q) (aq_source_id q)
          (aq_fresh q) (aq_now q) of
         Inl e \<Rightarrow> Inl (BadDate e)
       | Inr rows \<Rightarrow> Inr (warnings, rp_replace_timeline repo (aq_source_id q) rows db1))))"

section \<open>The SQL repository\<close>

record context_db =
  db_stores :: "context_store_row list"
  db_contexts :: "context_row list"

definition sql_load :: "uuid \<Rightarrow> context_db \<Rightarrow> context_store_row option" where
  "sql_load workspace_id db = row_get sr_workspace_id workspace_id (db_stores db)"

text \<open>\<^verbatim>\<open>session.add\<close>: the flush updates a row that is already in the table, else inserts it.\<close>

definition sql_save :: "context_store_row \<Rightarrow> context_db \<Rightarrow> context_db" where
  "sql_save r db = db\<lparr>db_stores :=
     (if row_get sr_id (sr_id r) (db_stores db) \<noteq> None
      then row_upd sr_id (sr_id r) (\<lambda>_. r) (db_stores db)
      else row_add r (db_stores db))\<rparr>"

definition sql_replace_timeline :: "uuid \<Rightarrow> context_row list \<Rightarrow> context_db \<Rightarrow> context_db" where
  "sql_replace_timeline source_id rows db =
     db\<lparr>db_contexts := filter (\<lambda>r. cx_source_id r \<noteq> source_id) (db_contexts db) @ rows\<rparr>"

definition sql_repository :: "context_db repository" where
  "sql_repository = \<lparr>rp_load = sql_load, rp_save = sql_save, rp_replace_timeline = sql_replace_timeline\<rparr>"

section \<open>Upserting by key\<close>

definition upsert_all :: "('i \<Rightarrow> pystr) \<Rightarrow> 'i list \<Rightarrow> 'i list \<Rightarrow> 'i list" where
  "upsert_all key news xs = foldl (\<lambda>acc n. upsert key n acc) xs news"

definition keyed :: "('i \<Rightarrow> pystr) \<Rightarrow> 'i list \<Rightarrow> bool" where
  "keyed key xs \<longleftrightarrow> distinct (map key xs)"

lemma keys_upsert:
  "map key (upsert key n xs) = (if key n \<in> key ` set xs then map key xs else map key xs @ [key n])"
  by (induction xs) auto

lemma keyed_upsert: "keyed key xs \<Longrightarrow> keyed key (upsert key n xs)"
  by (auto simp: keyed_def keys_upsert)

lemma lookup_upsert:
  "keyed key xs \<Longrightarrow> row_get key k (upsert key n xs) = (if k = key n then Some n else row_get key k xs)"
  by (induction xs) (auto simp: keyed_def)

lemma filter_upsert:
  "filter (\<lambda>x. P (key x)) (upsert key n xs)
    = (if P (key n) then upsert key n (filter (\<lambda>x. P (key x)) xs) else filter (\<lambda>x. P (key x)) xs)"
  by (induction xs) auto

lemma upsert_all_simps [simp]:
  "upsert_all key [] xs = xs"
  "upsert_all key (n # ns) xs = upsert_all key ns (upsert key n xs)"
  by (simp_all add: upsert_all_def)

lemma keyed_upsert_all: "keyed key xs \<Longrightarrow> keyed key (upsert_all key ns xs)"
  by (induction ns arbitrary: xs) (auto simp: keyed_upsert)

lemma keys_upsert_present: "key n \<in> key ` set xs \<Longrightarrow> map key (upsert key n xs) = map key xs"
  by (simp add: keys_upsert)

lemma keys_upsert_all_present:
  "key ` set ns \<subseteq> key ` set xs \<Longrightarrow> map key (upsert_all key ns xs) = map key xs"
proof (induction ns arbitrary: xs)
  case (Cons n ns)
  have "map key (upsert key n xs) = map key xs"
    using Cons.prems by (intro keys_upsert_present) auto
  moreover from this have "key ` set (upsert key n xs) = key ` set xs"
    by (metis list.set_map)
  ultimately show ?case
    using Cons by simp
qed simp

lemma keys_upsert_all: "key ` set (upsert_all key ns xs) = key ` set ns \<union> key ` set xs"
proof (induction ns arbitrary: xs)
  case (Cons n ns)
  have "key ` set (upsert key n xs) = insert (key n) (key ` set xs)"
    using keys_upsert [of key n xs] by (metis (no_types) Un_insert_right image_set insert_absorb
        list.set(1) list.simps(15) set_append sup_bot.right_neutral)
  then show ?case
    using Cons by auto
qed simp

lemma lookup_upsert_all:
  "keyed key xs \<Longrightarrow> row_get key k (upsert_all key ns xs)
    = (case row_get key k (rev ns) of Some n \<Rightarrow> Some n | None \<Rightarrow> row_get key k xs)"
proof (induction ns arbitrary: xs)
  case (Cons n ns)
  then have "row_get key k (upsert_all key (n # ns) xs)
      = (case row_get key k (rev ns) of Some m \<Rightarrow> Some m
         | None \<Rightarrow> if k = key n then Some n else row_get key k xs)"
    using lookup_upsert [OF Cons.prems, of k n]
    by (cases "k = key n") (simp_all add: keyed_upsert split: option.splits)
  moreover have "row_get key k (rev (n # ns))
      = (case row_get key k (rev ns) of Some m \<Rightarrow> Some m | None \<Rightarrow> if key n = k then Some n else None)"
    using row_get_add [of key k n "rev ns"] by (simp add: row_add_def)
  ultimately show ?case
    by (auto split: option.splits)
qed simp

lemma keyed_ext:
  assumes "map key xs = map key ys" "keyed key xs" "\<And>k. row_get key k xs = row_get key k ys"
  shows "xs = ys"
proof (rule nth_equalityI)
  show len: "length xs = length ys"
    using assms(1) by (metis length_map)
  fix i
  assume i: "i < length xs"
  have "keyed key ys"
    using assms(1,2) by (simp add: keyed_def)
  then have "row_get key (key (xs ! i)) xs = Some (xs ! i)" "row_get key (key (ys ! i)) ys = Some (ys ! i)"
    using i len assms(2) by (auto simp: keyed_def intro!: row_get_unique simp: keys_unique_def)
  moreover have "key (xs ! i) = key (ys ! i)"
    using assms(1) i len by (metis nth_map)
  ultimately show "xs ! i = ys ! i"
    using assms(3) by (metis option.inject)
qed

text \<open>Upserting the same items twice is upserting them once.\<close>

lemma upsert_all_idem:
  assumes "keyed key xs"
  shows "upsert_all key ns (upsert_all key ns xs) = upsert_all key ns xs"
proof (rule keyed_ext [where key = key])
  show "map key (upsert_all key ns (upsert_all key ns xs)) = map key (upsert_all key ns xs)"
    by (rule keys_upsert_all_present) (auto simp: keys_upsert_all)
  show "keyed key (upsert_all key ns (upsert_all key ns xs))"
    using assms by (simp add: keyed_upsert_all)
  show "row_get key k (upsert_all key ns (upsert_all key ns xs)) = row_get key k (upsert_all key ns xs)" for k
    using assms by (simp add: lookup_upsert_all keyed_upsert_all split: option.splits)
qed

lemma filter_upsert_all:
  "filter (\<lambda>x. P (key x)) (upsert_all key ns xs)
    = upsert_all key (filter (\<lambda>x. P (key x)) ns) (filter (\<lambda>x. P (key x)) xs)"
  by (induction ns arbitrary: xs) (simp_all add: filter_upsert)

section \<open>The merge\<close>

definition decision_key :: "unicode \<Rightarrow> store_decision \<Rightarrow> pystr" where
  "decision_key uc d = item_key uc (si_title d) Decision"

definition issue_key :: "unicode \<Rightarrow> store_item \<Rightarrow> pystr" where
  "issue_key uc i = item_key uc (si_title i) Issue"

definition action_key :: "unicode \<Rightarrow> store_action \<Rightarrow> pystr" where
  "action_key uc a = item_key uc (si_title a) Task"

definition event_decision :: "pystr \<Rightarrow> extracted_event \<Rightarrow> store_decision" where
  "event_decision sid ev = \<lparr>si_title = ev_name ev, si_description = ev_description ev,
     si_source_refs = ev_source_refs ev, si_source_id = Some sid, sd_decided_at = ev_occurred_at ev\<rparr>"

definition event_issue :: "pystr \<Rightarrow> extracted_event \<Rightarrow> store_item" where
  "event_issue sid ev = \<lparr>si_title = ev_name ev, si_description = ev_description ev,
     si_source_refs = ev_source_refs ev, si_source_id = Some sid\<rparr>"

definition event_action :: "extraction_result \<Rightarrow> pystr \<Rightarrow> extracted_event \<Rightarrow> store_action" where
  "event_action result sid ev = \<lparr>si_title = ev_name ev, si_description = ev_description ev,
     si_source_refs = ev_source_refs ev, si_source_id = Some sid,
     sa_assignee = assignee_of result (ev_name ev), sa_due_at = ev_due_at ev\<rparr>"

lemmas event_item_defs = event_decision_def event_issue_def event_action_def
lemmas item_key_defs = decision_key_def issue_key_def action_key_def

text \<open>The keys a source's decisions replace (its own key apart).\<close>

definition retired_by :: "unicode \<Rightarrow> extracted_event \<Rightarrow> pystr set" where
  "retired_by uc ev = {k. replaces_key uc ev = Some k \<and> k \<noteq> item_key uc (ev_name ev) Decision}"

definition retired_keys :: "unicode \<Rightarrow> extracted_event list \<Rightarrow> pystr set" where
  "retired_keys uc evs = (\<Union>ev \<in> set evs. retired_by uc ev)"

lemma foldl_merge_event:
  "foldl (merge_event uc result sid) st evs = st\<lparr>
     cs_decisions := upsert_all (decision_key uc)
       (map (event_decision sid) (filter (\<lambda>e. ev_kind e = Decision) evs)) (cs_decisions st),
     cs_open_issues := upsert_all (issue_key uc)
       (map (event_issue sid) (filter (\<lambda>e. ev_kind e = Issue) evs)) (cs_open_issues st),
     cs_next_actions := upsert_all (action_key uc)
       (map (event_action result sid) (filter (\<lambda>e. ev_kind e = Task) evs)) (cs_next_actions st)\<rparr>"
proof (induction evs arbitrary: st)
  case (Cons ev evs)
  have "decision_key uc = (\<lambda>d. item_key uc (si_title d) Decision)"
    "issue_key uc = (\<lambda>d. item_key uc (si_title d) Issue)"
    "action_key uc = (\<lambda>d. item_key uc (si_title d) Task)"
    by (auto simp: item_key_defs)
  then show ?case
    using Cons by (cases "ev_kind ev") (simp_all add: merge_event_def event_item_defs)
qed simp

lemma retire_event_eq:
  "retire_event uc st ev
    = st\<lparr>cs_decisions := filter (\<lambda>d. decision_key uc d \<notin> retired_by uc ev) (cs_decisions st)\<rparr>"
proof (cases "replaces_key uc ev")
  case (Some k)
  then have "retired_by uc ev = (if k = item_key uc (ev_name ev) Decision then {} else {k})"
    by (auto simp: retired_by_def)
  then show ?thesis
    using Some by (simp add: retire_event_def decision_key_def)
qed (simp add: retire_event_def retired_by_def)

lemma foldl_retire_event:
  "foldl (retire_event uc) st evs
    = st\<lparr>cs_decisions := filter (\<lambda>d. decision_key uc d \<notin> retired_keys uc evs) (cs_decisions st)\<rparr>"
  by (induction evs arbitrary: st)
    (simp_all add: retired_keys_def retire_event_eq conj_commute)

lemma merge_extraction_fields:
  fixes result :: extraction_result and st :: context_store_state
  defines "evs \<equiv> xr_events result"
  shows
    "cs_decisions (merge_extraction uc st result source_id)
      = filter (\<lambda>d. decision_key uc d \<notin> retired_keys uc evs) (upsert_all (decision_key uc)
          (map (event_decision (uuid_str source_id)) (filter (\<lambda>e. ev_kind e = Decision) evs)) (cs_decisions st))"
    "cs_open_issues (merge_extraction uc st result source_id) = upsert_all (issue_key uc)
       (map (event_issue (uuid_str source_id)) (filter (\<lambda>e. ev_kind e = Issue) evs)) (cs_open_issues st)"
    "cs_next_actions (merge_extraction uc st result source_id) = upsert_all (action_key uc)
       (map (event_action result (uuid_str source_id)) (filter (\<lambda>e. ev_kind e = Task) evs)) (cs_next_actions st)"
    "cs_source_ids (merge_extraction uc st result source_id) = (if uuid_str source_id \<in> set (cs_source_ids st)
       then cs_source_ids st else cs_source_ids st @ [uuid_str source_id])"
    "cs_subject (merge_extraction uc st result source_id) = cs_subject st"
    "cs_summary (merge_extraction uc st result source_id) = cs_summary st"
    "cs_current_state (merge_extraction uc st result source_id) = cs_current_state st"
    "cs_updated_at (merge_extraction uc st result source_id) = cs_updated_at st"
  by (simp_all add: evs_def merge_extraction_def Let_def foldl_merge_event foldl_retire_event)

definition keyed_state :: "unicode \<Rightarrow> context_store_state \<Rightarrow> bool" where
  "keyed_state uc st \<longleftrightarrow> keyed (decision_key uc) (cs_decisions st) \<and> keyed (issue_key uc) (cs_open_issues st)
     \<and> keyed (action_key uc) (cs_next_actions st) \<and> distinct (cs_source_ids st)"

lemma keyed_filter: "keyed key xs \<Longrightarrow> keyed key (filter P xs)"
  by (simp add: keyed_def distinct_map_filter)

lemma merge_keyed: "keyed_state uc st \<Longrightarrow> keyed_state uc (merge_extraction uc st result source_id)"
  by (simp add: keyed_state_def merge_extraction_fields keyed_filter keyed_upsert_all)

lemma merge_again:
  assumes "keyed_state uc st"
  shows "merge_extraction uc (merge_extraction uc st result source_id) result source_id
    = merge_extraction uc st result source_id"
proof -
  let ?keep = "\<lambda>d. decision_key uc d \<notin> retired_keys uc (xr_events result)"
  let ?ds = "map (event_decision (uuid_str source_id)) (filter (\<lambda>e. ev_kind e = Decision) (xr_events result))"
  have "filter ?keep (upsert_all (decision_key uc) ?ds (filter ?keep (upsert_all (decision_key uc) ?ds (cs_decisions st))))
      = filter ?keep (upsert_all (decision_key uc) ?ds (cs_decisions st))"
    using assms filter_upsert_all [of "\<lambda>k. k \<notin> retired_keys uc (xr_events result)" "decision_key uc"]
    by (simp add: upsert_all_idem keyed_filter keyed_state_def)
  then show ?thesis
    using assms
    by (intro context_store_state.equality)
      (simp_all add: merge_extraction_fields upsert_all_idem keyed_state_def)
qed

text \<open>After a source is merged, no decision has a key one of its decisions replaced.\<close>

lemma merge_retires:
  "k \<in> retired_keys uc (xr_events result) \<Longrightarrow>
    d \<in> set (cs_decisions (merge_extraction uc st result source_id)) \<Longrightarrow> decision_key uc d \<noteq> k"
  by (auto simp: merge_extraction_fields)

lemma merge_has_issue:
  assumes "ev \<in> set (xr_events result)" "ev_kind ev = Issue"
  shows "item_key uc (ev_name ev) Issue
    \<in> issue_key uc ` set (cs_open_issues (merge_extraction uc st result source_id))"
  using assms by (simp add: merge_extraction_fields keys_upsert_all)
    (auto simp: image_iff issue_key_def event_issue_def)

lemma merge_has_action:
  assumes "ev \<in> set (xr_events result)" "ev_kind ev = Task"
  shows "item_key uc (ev_name ev) Task
    \<in> action_key uc ` set (cs_next_actions (merge_extraction uc st result source_id))"
  using assms by (simp add: merge_extraction_fields keys_upsert_all)
    (auto simp: image_iff action_key_def event_action_def)

section \<open>Closing\<close>

lemma close_items_subset:
  "mset (fst (close_items key tk label txt items rs)) \<subseteq># mset items"
proof (induction rs arbitrary: items)
  case (Cons r rs)
  show ?case
  proof (cases "find (\<lambda>i. key i = tk (rs_title r)) items")
    case None
    then show ?thesis
      using Cons.IH [of items] by (simp add: split_beta)
  next
    case (Some target)
    have "mset (remove1 target items) \<subseteq># mset items"
      by (simp add: diff_subset_eq_self)
    then show ?thesis
      using Some Cons.IH [of items] subset_mset.order_trans [OF Cons.IH [of "remove1 target items"]]
      by (auto simp: split_beta)
  qed
qed simp

text \<open>An item that is gone was closed by a resolution that names its key and quotes the source.\<close>

lemma close_items_grounded:
  assumes "i \<in> set items" "i \<notin> set (fst (close_items key tk label txt items rs))"
  shows "\<exists>r \<in> set rs. tk (rs_title r) = key i \<and> grounded r txt"
  using assms
proof (induction rs arbitrary: items)
  case (Cons r rs)
  show ?case
  proof (cases "find (\<lambda>i. key i = tk (rs_title r)) items")
    case None
    then show ?thesis
      using Cons.IH [of items] Cons.prems by (auto simp: split_beta)
  next
    case (Some target)
    then have key: "key target = tk (rs_title r)"
      by (metis (mono_tags, lifting) find_Some_iff)
    show ?thesis
    proof (cases "grounded r txt \<and> i = target")
      case True
      then show ?thesis
        using key by auto
    next
      case False
      then have "i \<in> set (remove1 target items) \<or> \<not> grounded r txt"
        using Cons.prems(1) by auto
      then show ?thesis
        using Cons.IH Cons.prems Some by (fastforce simp: split_beta split: if_splits)
    qed
  qed
qed simp

lemma close_items_count:
  "length (fst (close_items key tk label txt items rs)) + length rs
    = length items + length (snd (close_items key tk label txt items rs))"
proof (induction rs arbitrary: items)
  case (Cons r rs)
  show ?case
  proof (cases "find (\<lambda>i. key i = tk (rs_title r)) items")
    case (Some target)
    then have "target \<in> set items"
      by (metis (mono_tags, lifting) find_Some_iff nth_mem)
    then have "length (remove1 target items) + 1 = length items"
      using length_pos_if_in_set [of target items] by (simp add: length_remove1)
    then show ?thesis
      using Some Cons.IH [of items] Cons.IH [of "remove1 target items"] by (auto simp: split_beta)
  qed (use Cons.IH [of items] in \<open>simp add: split_beta\<close>)
qed simp

section \<open>The updater interface\<close>

text \<open>What the service relies on: an updater returns the merged facts, may only drop open issues and
  actions from them, and stamps the state.\<close>

locale context_updater =
  fixes rt :: runtime and upd :: updater
  assumes upd_decisions: "upd st result sid title body = Inr (st', ws) \<Longrightarrow>
      cs_decisions st' = cs_decisions (merge_extraction (rt_unicode rt) st result sid)"
    and upd_issues: "upd st result sid title body = Inr (st', ws) \<Longrightarrow>
      mset (cs_open_issues st') \<subseteq># mset (cs_open_issues (merge_extraction (rt_unicode rt) st result sid))"
    and upd_actions: "upd st result sid title body = Inr (st', ws) \<Longrightarrow>
      mset (cs_next_actions st') \<subseteq># mset (cs_next_actions (merge_extraction (rt_unicode rt) st result sid))"
    and upd_sources: "upd st result sid title body = Inr (st', ws) \<Longrightarrow>
      cs_source_ids st' = cs_source_ids (merge_extraction (rt_unicode rt) st result sid)"
    and upd_subject: "upd st result sid title body = Inr (st', ws) \<Longrightarrow> cs_subject st' = cs_subject st"
begin

lemma distinct_msubset: "mset xs \<subseteq># mset ys \<Longrightarrow> keyed key ys \<Longrightarrow> keyed key xs"
proof -
  assume sub: "mset xs \<subseteq># mset ys" and ys: "keyed key ys"
  obtain zs where "mset ys = mset (xs @ zs)"
    using sub by (metis ex_mset mset_append subset_mset.le_iff_add)
  then have "mset (map key ys) = mset (map key (xs @ zs))"
    by (metis mset_map)
  then show "keyed key xs"
    using ys mset_eq_imp_distinct_iff [of "map key ys" "map key (xs @ zs)"] by (simp add: keyed_def)
qed

lemma upd_keyed:
  assumes "upd st result sid title body = Inr (st', ws)" "keyed_state (rt_unicode rt) st"
  shows "keyed_state (rt_unicode rt) st'"
  using merge_keyed [OF assms(2), of result sid] distinct_msubset [OF upd_issues [OF assms(1)]]
    distinct_msubset [OF upd_actions [OF assms(1)]] upd_decisions [OF assms(1)] upd_sources [OF assms(1)]
  by (simp add: keyed_state_def)

lemma upd_source_recorded:
  "upd st result sid title body = Inr (st', ws) \<Longrightarrow> uuid_str sid \<in> set (cs_source_ids st')
    \<and> set (cs_source_ids st) \<subseteq> set (cs_source_ids st')"
  using upd_sources [of st result sid title body st' ws] by (auto simp: merge_extraction_fields)

lemma upd_retires:
  "upd st result sid title body = Inr (st', ws) \<Longrightarrow> k \<in> retired_keys (rt_unicode rt) (xr_events result)
    \<Longrightarrow> d \<in> set (cs_decisions st') \<Longrightarrow> decision_key (rt_unicode rt) d \<noteq> k"
  using upd_decisions [of st result sid title body st' ws] merge_retires by metis

end

lemma apply_output_fields:
  fixes uc st merged out sid body now
  defines "res \<equiv> fst (apply_output uc st merged out sid body now)"
  shows "cs_decisions res = cs_decisions merged" "cs_source_ids res = cs_source_ids merged"
    "cs_subject res = cs_subject merged"
    "cs_open_issues res = fst (close_items (issue_key uc) (\<lambda>t. item_key uc t Issue) label_issue body
       (cs_open_issues merged) (cu_resolved_issues out))"
    "cs_next_actions res = fst (close_items (action_key uc) (\<lambda>t. item_key uc t Task) label_action body
       (cs_next_actions merged) (cu_completed_actions out))"
  unfolding issue_key_def [abs_def] action_key_def [abs_def]
  by (simp_all add: res_def apply_output_def Let_def split_beta)

interpretation model_updater: context_updater rt "model_update rt p prompt ot used now"
  for rt p prompt ot used now
proof unfold_locales
  fix st result sid title body st' ws
  assume "model_update rt p prompt ot used now st result sid title body = Inr (st', ws)"
  then obtain out where
    out: "apply_output (rt_unicode rt) st (merge_extraction (rt_unicode rt) st result sid) out sid body now
      = (st', ws)"
    by (auto simp: model_update_def Let_def split: sum.splits)
  show "cs_decisions st' = cs_decisions (merge_extraction (rt_unicode rt) st result sid)"
    "mset (cs_open_issues st') \<subseteq># mset (cs_open_issues (merge_extraction (rt_unicode rt) st result sid))"
    "mset (cs_next_actions st') \<subseteq># mset (cs_next_actions (merge_extraction (rt_unicode rt) st result sid))"
    "cs_source_ids st' = cs_source_ids (merge_extraction (rt_unicode rt) st result sid)"
    "cs_subject st' = cs_subject st"
    using arg_cong [OF out, of fst, symmetric]
    by (simp_all add: apply_output_fields close_items_subset merge_extraction_fields(5))
qed

lemma keyless_update_fields:
  assumes "keyless_update rt now st result sid title body = Inr (st', ws)"
  shows "cs_decisions st' = cs_decisions (merge_extraction (rt_unicode rt) st result sid)
    \<and> cs_open_issues st' = cs_open_issues (merge_extraction (rt_unicode rt) st result sid)
    \<and> cs_next_actions st' = cs_next_actions (merge_extraction (rt_unicode rt) st result sid)
    \<and> cs_source_ids st' = cs_source_ids (merge_extraction (rt_unicode rt) st result sid)
    \<and> cs_subject st' = cs_subject st"
  using assms
  by (auto simp: keyless_update_def Let_def merge_extraction_fields(5) split: list.splits if_splits)

interpretation keyless_updater: context_updater rt "keyless_update rt now" for rt now
  using keyless_update_fields by unfold_locales (metis subset_mset.order_refl)+

text \<open>The keyless narrative only grows: the old summary stays a prefix.\<close>

lemma keyless_summary_grows:
  assumes "keyless_update rt now st result sid title body = Inr (st', ws)"
  shows "prefix (cs_summary st) (cs_summary st')
    \<and> (length (cs_summary st) \<le> summary_limit \<longrightarrow> length (cs_summary st') \<le> summary_limit)
    \<and> (ws \<noteq> [] \<longrightarrow> cs_summary st' = cs_summary st)"
  using assms
  by (auto simp: keyless_update_def Let_def merge_extraction_fields combined_summary_def
      split: list.splits if_splits)

section \<open>The repository interface\<close>

text \<open>\<open>timeline\<close> observes the timeline rows of a source, \<open>unused\<close> that a row id is not taken.\<close>

locale context_repository =
  fixes repo :: "'db repository"
    and timeline :: "uuid \<Rightarrow> 'db \<Rightarrow> context_row list"
    and inv :: "'db \<Rightarrow> bool"
    and unused :: "uuid \<Rightarrow> 'db \<Rightarrow> bool"
  assumes load_key: "inv db \<Longrightarrow> rp_load repo w db = Some r \<Longrightarrow> sr_workspace_id r = w"
    and load_save: "inv db \<Longrightarrow>
      (case rp_load repo (sr_workspace_id r) db of Some r0 \<Rightarrow> sr_id r = sr_id r0 | None \<Rightarrow> unused (sr_id r) db) \<Longrightarrow>
      inv (rp_save repo r db)
        \<and> rp_load repo w (rp_save repo r db) = (if w = sr_workspace_id r then Some r else rp_load repo w db)"
    and timeline_save: "timeline s (rp_save repo r db) = timeline s db"
    and load_replace: "inv db \<Longrightarrow> inv (rp_replace_timeline repo s rows db)
        \<and> rp_load repo w (rp_replace_timeline repo s rows db) = rp_load repo w db"
    and timeline_replace: "\<forall>x \<in> set rows. cx_source_id x = s \<Longrightarrow>
      timeline s' (rp_replace_timeline repo s rows db) = (if s' = s then rows else timeline s' db)"

definition sql_timeline :: "uuid \<Rightarrow> context_db \<Rightarrow> context_row list" where
  "sql_timeline s db = filter (\<lambda>r. cx_source_id r = s) (db_contexts db)"

definition sql_inv :: "context_db \<Rightarrow> bool" where
  "sql_inv db \<longleftrightarrow> keys_unique sr_id (db_stores db) \<and> keys_unique sr_workspace_id (db_stores db)"

definition sql_unused :: "uuid \<Rightarrow> context_db \<Rightarrow> bool" where
  "sql_unused i db \<longleftrightarrow> row_get sr_id i (db_stores db) = None"

lemma row_get_replace:
  assumes "keys_unique f rows" "keys_unique g rows" "r0 \<in> set rows" "f r0 = f r" "g r0 = g r"
  shows "keys_unique f (row_upd f (f r) (\<lambda>_. r) rows) \<and> keys_unique g (row_upd f (f r) (\<lambda>_. r) rows)
    \<and> row_get g w (row_upd f (f r) (\<lambda>_. r) rows) = (if w = g r then Some r else row_get g w rows)"
proof -
  have only: "x = r0" if "x \<in> set rows" "f x = f r" for x
    using row_get_unique [OF assms(1)] that assms(3,4) by (metis option.inject)
  have "map f (row_upd f (f r) (\<lambda>_. r) rows) = map f rows"
    by (auto simp: row_upd_def)
  moreover have "map g (row_upd f (f r) (\<lambda>_. r) rows) = map g rows"
    using only assms(5) by (auto simp: row_upd_def)
  ultimately have unique: "keys_unique f (row_upd f (f r) (\<lambda>_. r) rows)"
    "keys_unique g (row_upd f (f r) (\<lambda>_. r) rows)"
    using assms(1,2) by (simp_all add: keys_unique_def)
  have "r \<in> set (row_upd f (f r) (\<lambda>_. r) rows)"
    using assms(3,4) by (auto simp: row_upd_def)
  then have hit: "row_get g (g r) (row_upd f (f r) (\<lambda>_. r) rows) = Some r"
    by (rule row_get_unique [OF unique(2)])
  have "row_get g w (row_upd f (f r) (\<lambda>_. r) xs) = row_get g w xs"
    if "w \<noteq> g r" "set xs \<subseteq> set rows" for xs
    using that only assms(5) by (induction xs) (auto simp: row_upd_def)
  then show ?thesis
    using unique hit by simp
qed

interpretation sql: context_repository sql_repository sql_timeline sql_inv sql_unused
proof unfold_locales
  fix db w r
  assume "sql_inv db" "rp_load sql_repository w db = Some r"
  then show "sr_workspace_id r = w"
    using row_get_Some by (fastforce simp: sql_repository_def sql_load_def)
next
  fix db :: context_db and r :: context_store_row and w
  assume inv: "sql_inv db" and cond: "case rp_load sql_repository (sr_workspace_id r) db of
    Some r0 \<Rightarrow> sr_id r = sr_id r0 | None \<Rightarrow> sql_unused (sr_id r) db"
  have unique: "keys_unique sr_id (db_stores db)" "keys_unique sr_workspace_id (db_stores db)"
    using inv by (simp_all add: sql_inv_def)
  show "sql_inv (rp_save sql_repository r db) \<and> rp_load sql_repository w (rp_save sql_repository r db)
      = (if w = sr_workspace_id r then Some r else rp_load sql_repository w db)"
  proof (cases "row_get sr_workspace_id (sr_workspace_id r) (db_stores db)")
    case None
    then have "row_get sr_id (sr_id r) (db_stores db) = None"
      using cond by (simp add: sql_repository_def sql_load_def sql_unused_def)
    then show ?thesis
      using None unique
      by (auto simp: sql_repository_def sql_load_def sql_save_def sql_inv_def table_simps
          split: option.splits)
  next
    case (Some r0)
    then have r0: "r0 \<in> set (db_stores db)" "sr_workspace_id r0 = sr_workspace_id r" "sr_id r0 = sr_id r"
      using cond row_get_Some by (fastforce simp: sql_repository_def sql_load_def)+
    then have "row_get sr_id (sr_id r) (db_stores db) \<noteq> None"
      by (metis row_get_None)
    then show ?thesis
      using row_get_replace [OF unique r0(1) r0(3) r0(2)]
      by (simp add: sql_repository_def sql_load_def sql_save_def sql_inv_def)
  qed
next
  fix s s' :: uuid and db and rows :: "context_row list"
  assume "\<forall>x \<in> set rows. cx_source_id x = s"
  then have "filter (\<lambda>x. cx_source_id x = s') rows = (if s' = s then rows else [])"
    by (auto simp: filter_empty_conv filter_id_conv)
  then show "sql_timeline s' (rp_replace_timeline sql_repository s rows db)
      = (if s' = s then rows else sql_timeline s' db)"
    by (auto simp: sql_repository_def sql_timeline_def sql_replace_timeline_def filter_empty_conv
        intro!: filter_cong)
qed (auto simp: sql_repository_def sql_load_def sql_save_def sql_replace_timeline_def sql_inv_def
    sql_timeline_def)

section \<open>The service, from the interfaces\<close>

lemma timeline_rows_facts:
  assumes "timeline_rows rt result ws owner src fresh now seen evs = Inr rows"
  shows "(\<forall>x \<in> set rows. cx_source_id x = src \<and> cx_workspace_id x = ws \<and> cx_owner_id x = owner)
    \<and> distinct (map (\<lambda>x. (cx_row_kind x, tm_key (cx_metadata x))) rows)
    \<and> set seen \<inter> set (map (\<lambda>x. (cx_row_kind x, tm_key (cx_metadata x))) rows) = {}"
  using assms
proof (induction evs arbitrary: seen rows)
  case (Cons ev evs)
  show ?case
  proof (cases "timeline_kind (ev_kind ev)")
    case (Some kind)
    let ?slot = "(context_kind_value kind, item_key (rt_unicode rt) (ev_name ev) (ev_kind ev))"
    show ?thesis
    proof (cases "?slot \<in> set seen")
      case False
      then obtain row rest where row: "timeline_row rt result ws owner src (fresh (length seen)) now kind ev = Inr row"
        and rest: "timeline_rows rt result ws owner src fresh now (seen @ [?slot]) evs = Inr rest"
        and rows: "rows = row # rest"
        using Cons.prems Some by (auto simp: rbind_Inr_iff Let_def)
      have "cx_source_id row = src \<and> cx_workspace_id row = ws \<and> cx_owner_id row = owner
          \<and> (cx_row_kind row, tm_key (cx_metadata row)) = ?slot"
        using row by (auto simp: timeline_row_def Let_def rbind_Inr_iff)
      then show ?thesis
        using Cons.IH [OF rest] rows False by auto
    qed (use Cons Some in \<open>simp add: Let_def\<close>)
  qed (use Cons in simp)
qed simp

locale context_service = context_updater rt upd + context_repository repo timeline inv unused
  for rt :: runtime and upd :: updater and repo :: "'db repository"
    and timeline :: "uuid \<Rightarrow> 'db \<Rightarrow> context_row list" and inv :: "'db \<Rightarrow> bool"
    and unused :: "uuid \<Rightarrow> 'db \<Rightarrow> bool"
begin

definition base_state :: "apply_request \<Rightarrow> 'db \<Rightarrow> context_store_state" where
  "base_state q db = (case rp_load repo (aq_workspace_id q) db of
     Some r \<Rightarrow> state_from_record r | None \<Rightarrow> empty_state (aq_subject q))\<lparr>cs_subject := aq_subject q\<rparr>"

lemma apply_steps:
  assumes "service_apply rt repo upd q db = Inr (ws, db')"
  obtains st rows r where
    "upd (base_state q db) (aq_result q) (aq_source_id q) (aq_source_title q) (aq_text q) = Inr (st, ws)"
    "timeline_records rt (aq_result q) (aq_workspace_id q) (aq_owner_id q) (aq_source_id q)
       (aq_fresh q) (aq_now q) = Inr rows"
    "r = (case rp_load repo (aq_workspace_id q) db of Some r \<Rightarrow> r
       | None \<Rightarrow> new_record (aq_new_id q) (aq_workspace_id q) (aq_owner_id q) (aq_subject q) (aq_now q))"
    "db' = rp_replace_timeline repo (aq_source_id q) rows (rp_save repo (write_state st (aq_now q) r) db)"
proof (cases "timeline_records rt (aq_result q) (aq_workspace_id q) (aq_owner_id q) (aq_source_id q)
    (aq_fresh q) (aq_now q)")
  case (Inl e)
  then show thesis
    using assms by (auto simp: service_apply_def Let_def rbind_Inr_iff)
next
  case (Inr rows)
  obtain st where "upd (base_state q db) (aq_result q) (aq_source_id q) (aq_source_title q) (aq_text q)
      = Inr (st, ws)"
    and "db' = rp_replace_timeline repo (aq_source_id q) rows (rp_save repo (write_state st (aq_now q)
      (case rp_load repo (aq_workspace_id q) db of Some r \<Rightarrow> r
       | None \<Rightarrow> new_record (aq_new_id q) (aq_workspace_id q) (aq_owner_id q) (aq_subject q) (aq_now q))) db)"
    using assms Inr by (auto simp: service_apply_def Let_def rbind_Inr_iff base_state_def)
  then show thesis
    using that [OF _ Inr refl] by blast
qed

lemma write_state_ids [simp]:
  "sr_id (write_state st now r) = sr_id r" "sr_workspace_id (write_state st now r) = sr_workspace_id r"
  by (simp_all add: write_state_def)

lemma apply_effect:
  assumes "service_apply rt repo upd q db = Inr (ws, db')" and "inv db" and "unused (aq_new_id q) db"
  shows "inv db' \<and> (\<forall>w. w \<noteq> aq_workspace_id q \<longrightarrow> rp_load repo w db' = rp_load repo w db)
    \<and> (\<exists>r st. rp_load repo (aq_workspace_id q) db' = Some r
        \<and> upd (base_state q db) (aq_result q) (aq_source_id q) (aq_source_title q) (aq_text q) = Inr (st, ws)
        \<and> state_from_record r = st\<lparr>cs_updated_at := Some (sr_updated_at r)\<rparr>)
    \<and> (\<forall>s. s \<noteq> aq_source_id q \<longrightarrow> timeline s db' = timeline s db)
    \<and> timeline_records rt (aq_result q) (aq_workspace_id q) (aq_owner_id q) (aq_source_id q)
         (aq_fresh q) (aq_now q) = Inr (timeline (aq_source_id q) db')"
proof (rule apply_steps [OF assms(1)])
  fix st rows r
  assume st: "upd (base_state q db) (aq_result q) (aq_source_id q) (aq_source_title q) (aq_text q) = Inr (st, ws)"
    and rows: "timeline_records rt (aq_result q) (aq_workspace_id q) (aq_owner_id q) (aq_source_id q)
       (aq_fresh q) (aq_now q) = Inr rows"
    and r: "r = (case rp_load repo (aq_workspace_id q) db of Some r \<Rightarrow> r
       | None \<Rightarrow> new_record (aq_new_id q) (aq_workspace_id q) (aq_owner_id q) (aq_subject q) (aq_now q))"
    and db': "db' = rp_replace_timeline repo (aq_source_id q) rows (rp_save repo (write_state st (aq_now q) r) db)"
  let ?r = "write_state st (aq_now q) r"
  have ws: "sr_workspace_id r = aq_workspace_id q"
    using r load_key [OF assms(2)] by (auto simp: new_record_def split: option.splits)
  have "case rp_load repo (sr_workspace_id ?r) db of Some r0 \<Rightarrow> sr_id ?r = sr_id r0
      | None \<Rightarrow> unused (sr_id ?r) db"
    using r assms(3) ws by (auto simp: new_record_def split: option.splits)
  note saved = load_save [OF assms(2) this]
  have src: "\<forall>x \<in> set rows. cx_source_id x = aq_source_id q"
    using timeline_rows_facts rows by (fastforce simp: timeline_records_def)
  have "state_from_record ?r = st\<lparr>cs_updated_at := Some (sr_updated_at ?r)\<rparr>"
    by (simp add: state_from_record_def write_state_def)
  then show ?thesis
    using saved load_replace [of "rp_save repo ?r db"] timeline_replace [OF src] timeline_save st rows ws
    by (auto simp: db')
qed

lemma apply_keyed:
  assumes "service_apply rt repo upd q db = Inr (ws, db')" "inv db" "unused (aq_new_id q) db"
    and "\<forall>r. rp_load repo (aq_workspace_id q) db = Some r \<longrightarrow> keyed_state (rt_unicode rt) (state_from_record r)"
  shows "\<exists>r. rp_load repo (aq_workspace_id q) db' = Some r \<and> keyed_state (rt_unicode rt) (state_from_record r)
    \<and> uuid_str (aq_source_id q) \<in> set (sr_source_ids r)
    \<and> (\<forall>d \<in> set (sr_decisions r). decision_key (rt_unicode rt) d
         \<notin> retired_keys (rt_unicode rt) (xr_events (aq_result q)))"
proof -
  obtain r st where r: "rp_load repo (aq_workspace_id q) db' = Some r"
    and st: "upd (base_state q db) (aq_result q) (aq_source_id q) (aq_source_title q) (aq_text q) = Inr (st, ws)"
    and eq: "state_from_record r = st\<lparr>cs_updated_at := Some (sr_updated_at r)\<rparr>"
    using apply_effect [OF assms(1-3)] by blast
  have "keyed_state (rt_unicode rt) (base_state q db)"
    using assms(4) by (auto simp: base_state_def keyed_state_def keyed_def empty_state_def split: option.splits)
  then have "keyed_state (rt_unicode rt) st"
    by (rule upd_keyed [OF st])
  then have "keyed_state (rt_unicode rt) (state_from_record r)"
    by (simp add: eq keyed_state_def)
  moreover have "sr_source_ids r = cs_source_ids st" "sr_decisions r = cs_decisions st"
    using arg_cong [OF eq, of cs_source_ids] arg_cong [OF eq, of cs_decisions]
    by (simp_all add: state_from_record_def)
  ultimately show ?thesis
    using r upd_source_recorded [OF st] upd_retires [OF st] by auto
qed

end

interpretation model_service: context_service rt "model_update rt p prompt ot used now" sql_repository
  sql_timeline sql_inv sql_unused for rt p prompt ot used now
  by unfold_locales

interpretation keyless_service: context_service rt "keyless_update rt now" sql_repository
  sql_timeline sql_inv sql_unused for rt now
  by unfold_locales

section \<open>Properties\<close>


definition sample_event :: "entity_kind \<Rightarrow> string \<Rightarrow> string option \<Rightarrow> extracted_event" where
  "sample_event kind name old = \<lparr>ev_name = lit name, ev_kind = kind, ev_description = [],
     ev_occurred_at = None, ev_due_at = None, ev_supersedes = map_option lit old,
     ev_source_refs = [lit name]\<rparr>"

definition sample_events :: "extracted_event list \<Rightarrow> extraction_result" where
  "sample_events evs = \<lparr>
     xr_classification = \<lparr>cl_source_type = StMeeting, cl_language = [], cl_topics = []\<rparr>,
     xr_entities = [], xr_events = evs, xr_relations = [],
     xr_contexts = [\<lparr>cx_kind = CtxSummary, cx_title = [], cx_body = lit ''week 1'',
       cx_occurred_at = None, cx_source_refs = []\<rparr>], xr_warnings = [], xr_usage = []\<rparr>"

definition sample_first :: extraction_result where
  "sample_first = sample_events [sample_event Decision ''Use A'' None, sample_event Issue ''slow'' None]"

definition sample_second :: extraction_result where
  "sample_second = sample_events [sample_event Decision ''Use B'' (Some ''use a'')]"


text \<open>A replaced decision does not stay replaced: when the source that stated it is processed
  again after the source that replaced it, the old decision is current once more, beside
  the one that replaced it.\<close>

theorem reprocessing_revives_decision:
  "map si_title (cs_decisions
      (merge_extraction ascii_unicode
        (merge_extraction ascii_unicode (empty_state []) sample_first 1) sample_second 2)) = [lit ''Use B'']
   \<and> map si_title (cs_decisions
      (merge_extraction ascii_unicode (merge_extraction ascii_unicode
        (merge_extraction ascii_unicode (empty_state []) sample_first 1) sample_second 2) sample_first 1))
     = [lit ''Use B'', lit ''Use A'']"
  by (intro conjI; code_simp)

text \<open>C7: A model cannot drop work: an open item disappears only if a resolution names its key and
  every one of its non-blank quotes (at least one) is in the source; each resolution either
  closes exactly one item or leaves exactly one warning.\<close>

theorem closing_needs_proof:
  assumes "close_items key title_key label source_text items rs = (left, warnings)"
  shows "mset left \<subseteq># mset items
    \<and> (\<forall>i \<in> set items - set left. \<exists>r \<in> set rs. title_key (rs_title r) = key i \<and> grounded r source_text)
    \<and> length left + length rs = length items + length warnings"
  using close_items_subset [of key title_key label source_text items rs]
    close_items_grounded [of _ items key title_key label source_text rs]
    close_items_count [of key title_key label source_text items rs] assms
  by auto

theorem closing_needs_proof_witness:
  "close_items id id [] (lit ''a is done'') [lit ''a'', lit ''b'']
      [\<lparr>rs_title = lit ''a'', rs_source_refs = [lit ''is done'']\<rparr>, \<lparr>rs_title = lit ''b'', rs_source_refs = []\<rparr>]
     = ([lit ''b''], [CloseUngrounded [] (lit ''b'')])
   \<and> mset [lit ''b''] \<subseteq># mset [lit ''a'', lit ''b'']"
proof
  show eq: "close_items id id [] (lit ''a is done'') [lit ''a'', lit ''b'']
      [\<lparr>rs_title = lit ''a'', rs_source_refs = [lit ''is done'']\<rparr>, \<lparr>rs_title = lit ''b'', rs_source_refs = []\<rparr>]
     = ([lit ''b''], [CloseUngrounded [] (lit ''b'')])"
    by code_simp
  show "mset [lit ''b''] \<subseteq># mset [lit ''a'', lit ''b'']"
    using closing_needs_proof [OF eq] by blast
qed

text \<open>C2: Applying a source to the store of its workspace, with the model-driven updater on the SQL
  repository: other workspaces' stores and other sources' timelines are untouched, the
  source's timeline rows are replaced by its own, and the stored state keeps one item per
  key, records the source and holds no decision the source replaced.\<close>

theorem context_service_apply:
  assumes "service_apply rt sql_repository (model_update rt p prompt ot used now) q db = Inr (warnings, db')"
    and "sql_inv db" and "sql_unused (aq_new_id q) db"
    and "\<forall>r. sql_load (aq_workspace_id q) db = Some r \<longrightarrow> keyed_state (rt_unicode rt) (state_from_record r)"
  shows "sql_inv db'
    \<and> (\<forall>w. w \<noteq> aq_workspace_id q \<longrightarrow> sql_load w db' = sql_load w db)
    \<and> (\<forall>s. s \<noteq> aq_source_id q \<longrightarrow> sql_timeline s db' = sql_timeline s db)
    \<and> timeline_records rt (aq_result q) (aq_workspace_id q) (aq_owner_id q) (aq_source_id q)
         (aq_fresh q) (aq_now q) = Inr (sql_timeline (aq_source_id q) db')
    \<and> (\<exists>r. sql_load (aq_workspace_id q) db' = Some r \<and> keyed_state (rt_unicode rt) (state_from_record r)
         \<and> uuid_str (aq_source_id q) \<in> set (sr_source_ids r)
         \<and> decision_key (rt_unicode rt) ` set (sr_decisions r)
             \<inter> retired_keys (rt_unicode rt) (xr_events (aq_result q)) = {})"
proof -
  have load: "rp_load sql_repository = sql_load"
    by (simp add: sql_repository_def)
  show ?thesis
    using model_service.apply_effect [OF assms(1-3)]
      model_service.apply_keyed [OF assms(1-3) assms(4) [folded load]] unfolding load by fast
qed

definition sample_apply :: apply_request where
  "sample_apply = \<lparr>aq_workspace_id = 1, aq_owner_id = 2, aq_source_id = 3, aq_source_title = [],
     aq_subject = lit ''P'', aq_text = lit ''slow'', aq_result = sample_first, aq_new_id = 9,
     aq_fresh = of_nat, aq_now = 5\<rparr>"

definition sample_update_model :: "context_update_output output_type" where
  "sample_update_model = \<lparr>ot_schema = JNull, ot_validate = (\<lambda>_. Inl 1), ot_validate_json = (\<lambda>_. Inr
     \<lparr>cu_summary = lit ''s'', cu_current_state = [], cu_resolved_issues = [], cu_completed_actions = []\<rparr>)\<rparr>"

theorem context_service_apply_witness:
  "\<exists>w db. service_apply toy_runtime sql_repository
       (model_update toy_runtime sample_pipeline [] sample_update_model [] 5) sample_apply
       \<lparr>db_stores = [], db_contexts = []\<rparr> = Inr (w, db)
     \<and> sql_inv db \<and> map cx_row_title (sql_timeline 3 db) = [lit ''Use A'', lit ''slow'']"
proof -
  let ?run = "service_apply toy_runtime sql_repository
       (model_update toy_runtime sample_pipeline [] sample_update_model [] 5) sample_apply
       \<lparr>db_stores = [], db_contexts = []\<rparr>"
  have "case ?run of Inr (w, db) \<Rightarrow> map cx_row_title (sql_timeline 3 db) = [lit ''Use A'', lit ''slow'']
      | Inl _ \<Rightarrow> False"
    by code_simp
  then obtain w db where run: "?run = Inr (w, db)"
    and rows: "map cx_row_title (sql_timeline 3 db) = [lit ''Use A'', lit ''slow'']"
    by (auto split: sum.splits prod.splits)
  have "sql_inv db"
    using context_service_apply [OF run]
    by (simp add: sql_inv_def sql_unused_def sql_load_def keys_unique_def)
  show ?thesis
    by (intro exI conjI) (rule run, rule \<open>sql_inv db\<close>, rule rows)
qed

text \<open>Without a server model the workspace narrative is append-only and bounded: the previous
  summary stays a prefix of the new one, the bound is never passed by an update, and a
  warning means the summary was left as it was.\<close>

theorem keyless_summary_append_only:
  assumes "keyless_update rt now st result sid title source_text = Inr (st', warnings)"
  shows "prefix (cs_summary st) (cs_summary st')
    \<and> (length (cs_summary st) \<le> summary_limit \<longrightarrow> length (cs_summary st') \<le> summary_limit)
    \<and> (warnings \<noteq> [] \<longrightarrow> cs_summary st' = cs_summary st)"
  using assms by (rule keyless_summary_grows)

theorem keyless_summary_append_only_witness:
  "\<exists>st'. keyless_update toy_runtime 5 (empty_state []) sample_second 3 (lit ''Memo'') [] = Inr (st', [])
    \<and> cs_summary st' = lit ''Memo: week 1'' \<and> prefix [] (cs_summary st')"
proof -
  have "case keyless_update toy_runtime 5 (empty_state []) sample_second 3 (lit ''Memo'') [] of
      Inr (st', w) \<Rightarrow> cs_summary st' = lit ''Memo: week 1'' \<and> w = [] | Inl _ \<Rightarrow> False"
    by code_simp
  then obtain st' where st': "keyless_update toy_runtime 5 (empty_state []) sample_second 3 (lit ''Memo'') [] = Inr (st', [])"
    and "cs_summary st' = lit ''Memo: week 1''"
    by (auto split: sum.splits prod.splits)
  then show ?thesis
    using keyless_summary_append_only [OF st'] by (simp add: empty_state_def)
qed

end
