(* ===== verification/ModelRoles.thy ===== *)
theory ModelRoles
  imports Rows StagePipeline
begin

text \<open>
  Which models a key can use for which job (\<^verbatim>\<open>context_engine/application/model_roles.py\<close> and
  \<^verbatim>\<open>model_catalog.py\<close>): the roles, the classification of a model by its name, the options of a
  workspace in order of recommendation, and the stored selections. The regular expressions are
  spelled out over code points.
\<close>

section \<open>Roles\<close>

datatype model_role = RoleAnswer | RoleExtraction | RoleEmbedding | RoleTranscription

fun model_role_value :: "model_role \<Rightarrow> pystr" where
  "model_role_value RoleAnswer = lit ''answer''"
| "model_role_value RoleExtraction = lit ''extraction''"
| "model_role_value RoleEmbedding = lit ''embedding''"
| "model_role_value RoleTranscription = lit ''transcription''"

definition role_order :: "model_role list" where
  "role_order = [RoleAnswer, RoleExtraction, RoleEmbedding, RoleTranscription]"

fun role_capability :: "model_role \<Rightarrow> capability" where
  "role_capability RoleAnswer = CapChat"
| "role_capability RoleExtraction = CapChat"
| "role_capability RoleEmbedding = CapEmbedding"
| "role_capability RoleTranscription = CapTranscription"

definition parse_role :: "pystr \<Rightarrow> model_role option" where
  "parse_role name = find (\<lambda>r. model_role_value r = name) role_order"

lemma set_role_order [simp]: "set role_order = UNIV"
  using model_role.exhaust by (auto simp: role_order_def)

lemma model_role_value_inj: "model_role_value a = model_role_value b \<longleftrightarrow> a = b"
  by (cases a; cases b) (simp_all add: lit_def)

lemma parse_role_value [simp]: "parse_role (model_role_value r) = Some r"
  by (cases r) (simp_all add: parse_role_def role_order_def lit_def)

lemma parse_role_Some: "parse_role name = Some r \<longleftrightarrow> name = model_role_value r"
  using find_SomeD [of "\<lambda>r. model_role_value r = name" role_order r] by (auto simp: parse_role_def [symmetric])

section \<open>Names\<close>

definition search_any :: "string list \<Rightarrow> pystr \<Rightarrow> bool" where
  "search_any words s \<longleftrightarrow> (\<exists>w \<in> set words. contains (lit w) s)"

definition not_chat :: "pystr \<Rightarrow> bool" where
  "not_chat = search_any [''embed'', ''whisper'', ''transcribe'', ''tts'', ''dall-e'', ''image'',
     ''moderation'', ''realtime'', ''audio'', ''babbage'', ''davinci'', ''search'']"

definition light :: "pystr \<Rightarrow> bool" where
  "light = search_any [''mini'', ''nano'', ''small'', ''haiku'', ''flash'', ''lite'']"

text \<open>\<^verbatim>\<open>-(\d{4}-\d{2}-\d{2}|\d{8}|\d{4})$\<close>, where \<^verbatim>\<open>$\<close> also matches before a final newline.\<close>

definition digits :: "unicode \<Rightarrow> nat \<Rightarrow> pystr \<Rightarrow> bool" where
  "digits uc n s \<longleftrightarrow> length s = n \<and> (\<forall>c \<in> set s. uc_decimal uc c \<noteq> None)"

definition date_form :: "unicode \<Rightarrow> pystr \<Rightarrow> bool" where
  "date_form uc s \<longleftrightarrow> digits uc 4 s \<or> digits uc 8 s
     \<or> (length s = 10 \<and> digits uc 4 (take 4 s) \<and> s ! 4 = 45 \<and> digits uc 2 (take 2 (drop 5 s))
        \<and> s ! 7 = 45 \<and> digits uc 2 (drop 8 s))"

definition dated_end :: "unicode \<Rightarrow> pystr \<Rightarrow> bool" where
  "dated_end uc s \<longleftrightarrow> (\<exists>n \<in> {4, 8, 10}. n < length s \<and> s ! (length s - n - 1) = 45
     \<and> date_form uc (drop (length s - n) s))"

definition dated :: "unicode \<Rightarrow> pystr \<Rightarrow> bool" where
  "dated uc s \<longleftrightarrow> dated_end uc s \<or> (s \<noteq> [] \<and> last s = 10 \<and> dated_end uc (butlast s))"

definition roles_for_model :: "unicode \<Rightarrow> pystr \<Rightarrow> capability list \<Rightarrow> model_role set" where
  "roles_for_model uc model_id capabilities =
     (let name = uc_lower uc model_id;
          roles = (if contains (lit ''embed'') name then {RoleEmbedding}
            else if contains (lit ''whisper'') name \<or> contains (lit ''transcribe'') name
              then {RoleTranscription}
            else if \<not> not_chat name then {RoleAnswer, RoleExtraction} else {})
      in {role \<in> roles. role_capability role \<in> set capabilities})"

definition recommendation_rank :: "unicode \<Rightarrow> pystr \<Rightarrow> bool \<times> bool \<times> pystr" where
  "recommendation_rank uc model_id = (\<not> light (uc_lower uc model_id), dated uc model_id, model_id)"

section \<open>Options\<close>

record model_option =
  mo_provider :: pystr
  mo_model :: pystr
  mo_credential_id :: "uuid option"

type_synonym role_options = "model_role \<Rightarrow> model_option list"
type_synonym price_map = "(pystr \<times> pystr) \<rightharpoonup> py_float"
type_synonym model_defaults = "pystr \<Rightarrow> pystr \<rightharpoonup> pystr"

definition not_retired :: "int \<Rightarrow> model_info \<Rightarrow> bool" where
  "not_retired today i \<longleftrightarrow> (case mi_shutdown_date i of None \<Rightarrow> True | Some d \<Rightarrow> today < d)"

text \<open>\<^verbatim>\<open>{i.id: i for i in infos if ...}\<close>: first position, last value.\<close>

definition live_models :: "int \<Rightarrow> model_info list \<Rightarrow> (pystr \<times> model_info) list" where
  "live_models today infos = foldl (\<lambda>d i. AList.update (mi_id i) i d) []
     (filter (not_retired today) infos)"

definition serves :: "unicode \<Rightarrow> adapter \<Rightarrow> model_role \<Rightarrow> pystr \<times> model_info \<Rightarrow> bool" where
  "serves uc adapter role = (\<lambda>(model, info). (case mi_roles info of
     Some roles \<Rightarrow> model_role_value role \<in> set roles
       \<and> role_capability role \<in> set (ad_capabilities adapter)
   | None \<Rightarrow> role \<in> roles_for_model uc model (ad_capabilities adapter)))"

text \<open>The sort key. An unknown price counts as infinite, but only meets other unknown prices, since
  the component before it already separates known from unknown.\<close>

definition offer_key ::
  "unicode \<Rightarrow> price_map option \<Rightarrow> model_defaults \<Rightarrow> adapter \<Rightarrow> model_role \<Rightarrow> model_option
    \<Rightarrow> bool \<times> bool \<times> py_float \<times> bool \<times> bool \<times> pystr" where
  "offer_key uc prices defaults adapter role option =
     (defaults (ad_id adapter) (model_role_value role) \<noteq> Some (mo_model option),
      (case prices of None \<Rightarrow> False | Some p \<Rightarrow> p (ad_id adapter, mo_model option) = None),
      (case prices of None \<Rightarrow> 0 | Some p \<Rightarrow> (case p (ad_id adapter, mo_model option) of
         Some c \<Rightarrow> c | None \<Rightarrow> 0)),
      recommendation_rank uc (mo_model option))"

definition offered ::
  "unicode \<Rightarrow> price_map option \<Rightarrow> model_defaults \<Rightarrow> int \<Rightarrow> model_role
    \<Rightarrow> adapter \<times> model_info list \<times> uuid option \<Rightarrow> model_option list" where
  "offered uc prices defaults today role = (\<lambda>(adapter, infos, credential_id).
     sort_key (offer_key uc prices defaults adapter role)
       (map (\<lambda>(model, _). \<lparr>mo_provider = ad_id adapter, mo_model = model,
           mo_credential_id = credential_id\<rparr>)
         (filter (serves uc adapter role) (live_models today infos))))"

text \<open>\<^verbatim>\<open>prices\<close> is \<open>None\<close> for an empty or missing price map, which the code treats alike.\<close>

definition extend_new :: "'a list \<Rightarrow> 'a list \<Rightarrow> 'a list" where
  "extend_new xs ys = foldl (\<lambda>acc y. if y \<in> set acc then acc else acc @ [y]) xs ys"

definition options_by_role ::
  "unicode \<Rightarrow> (adapter \<times> model_info list \<times> uuid option) list \<Rightarrow> price_map option \<Rightarrow> model_defaults
    \<Rightarrow> int \<Rightarrow> role_options" where
  "options_by_role uc listings prices defaults today = (\<lambda>role.
     foldl (\<lambda>acc l. extend_new acc (offered uc prices defaults today role l)) [] listings)"

section \<open>Selections\<close>

fun jfield :: "json \<Rightarrow> pystr \<Rightarrow> json option" where
  "jfield (JObj kvs) k = map_of kvs k"
| "jfield _ k = None"

fun jstr :: "json option \<Rightarrow> pystr option" where
  "jstr (Some (JStr s)) = Some s"
| "jstr _ = None"

text \<open>\<^verbatim>\<open>ModelOption.model_validate\<close> of an object; \<^verbatim>\<open>credentialId\<close> is an optional UUID that may also
  come under its field name.\<close>

definition validate_credential_id :: "(pystr \<Rightarrow> uuid option) \<Rightarrow> json \<Rightarrow> uuid option option" where
  "validate_credential_id parse raw =
     (case (case jfield raw (lit ''credentialId'') of Some v \<Rightarrow> Some v
        | None \<Rightarrow> jfield raw (lit ''credential_id'')) of
        None \<Rightarrow> Some None
      | Some JNull \<Rightarrow> Some None
      | Some (JStr s) \<Rightarrow> (case parse s of Some u \<Rightarrow> Some (Some u) | None \<Rightarrow> None)
      | Some _ \<Rightarrow> None)"

definition validate_option :: "(pystr \<Rightarrow> uuid option) \<Rightarrow> json \<Rightarrow> model_option option" where
  "validate_option parse raw =
     (case (jstr (jfield raw (lit ''provider'')), jstr (jfield raw (lit ''model'')),
        validate_credential_id parse raw) of
        (Some p, Some m, Some c) \<Rightarrow> Some \<lparr>mo_provider = p, mo_model = m, mo_credential_id = c\<rparr>
      | _ \<Rightarrow> None)"

definition selection_of ::
  "(pystr \<Rightarrow> uuid option) \<Rightarrow> (pystr \<times> json) list option \<Rightarrow> model_role \<Rightarrow> model_option option" where
  "selection_of parse model_settings role =
     (case map_of (case model_settings of Some s \<Rightarrow> s | None \<Rightarrow> []) (model_role_value role) of
        Some (JObj kvs) \<Rightarrow> validate_option parse (JObj kvs)
      | _ \<Rightarrow> None)"

text \<open>\<^verbatim>\<open>model_dump(mode="json", by_alias=True)\<close>: the credential is left out where it is missing.\<close>

definition dump_option :: "model_option \<Rightarrow> json" where
  "dump_option opt = JObj ([(lit ''provider'', JStr (mo_provider opt)), (lit ''model'', JStr (mo_model opt))]
     @ (case mo_credential_id opt of None \<Rightarrow> [] | Some u \<Rightarrow> [(lit ''credentialId'', JStr (uuid_str u))]))"

datatype selection_problem = UnknownRole pystr | NotOffered pystr pystr pystr

definition acceptable :: "model_option \<Rightarrow> model_option list \<Rightarrow> bool" where
  "acceptable choice options \<longleftrightarrow> choice \<in> set options
     \<or> (mo_credential_id choice = None \<and> (\<exists>option \<in> set options.
          mo_provider option = mo_provider choice \<and> mo_model option = mo_model choice))"

fun invalid_selections :: "(pystr \<times> model_option) list \<Rightarrow> role_options \<Rightarrow> selection_problem list" where
  "invalid_selections [] options = []"
| "invalid_selections ((name, choice) # rest) options = (case parse_role name of
     None \<Rightarrow> UnknownRole name # invalid_selections rest options
   | Some role \<Rightarrow> if acceptable choice (options role) then invalid_selections rest options
       else NotOffered (mo_provider choice) (mo_model choice) name # invalid_selections rest options)"

definition recommended_selections :: "role_options \<Rightarrow> (pystr \<times> json) list" where
  "recommended_selections options = concat (map (\<lambda>role. (case options role of
     [] \<Rightarrow> [] | item # _ \<Rightarrow> [(model_role_value role, dump_option item)])) role_order)"

text \<open>\<^verbatim>\<open>{**recommended, **chosen}\<close>.\<close>

definition with_recommended_defaults ::
  "(pystr \<times> json) list \<Rightarrow> role_options \<Rightarrow> (pystr \<times> json) list" where
  "with_recommended_defaults chosen options =
     foldl (\<lambda>d (k, v). AList.update k v d) (recommended_selections options) chosen"


section \<open>What the options are\<close>

lemma extend_new_snoc: "extend_new acc (ys @ [y]) = (if y \<in> set (extend_new acc ys)
    then extend_new acc ys else extend_new acc ys @ [y])"
  by (simp add: extend_new_def)

lemma set_extend_new [simp]: "set (extend_new acc ys) = set acc \<union> set ys"
  by (induction ys rule: rev_induct) (auto simp: extend_new_snoc, auto simp: extend_new_def)

lemma distinct_extend_new: "distinct acc \<Longrightarrow> distinct (extend_new acc ys)"
  by (induction ys rule: rev_induct) (simp_all add: extend_new_snoc, simp add: extend_new_def)

lemma prefix_extend_new: "prefix acc (extend_new acc ys)"
  by (induction ys rule: rev_induct) (auto simp: extend_new_snoc prefix_def, simp add: extend_new_def)

lemma options_by_role_snoc:
  "options_by_role uc (ls @ [l]) prices defaults today role =
    extend_new (options_by_role uc ls prices defaults today role) (offered uc prices defaults today role l)"
  by (simp add: options_by_role_def)

lemma options_by_role_Nil [simp]: "options_by_role uc [] prices defaults today role = []"
  by (simp add: options_by_role_def)

lemma set_options_by_role:
  "set (options_by_role uc ls prices defaults today role)
    = (\<Union>l \<in> set ls. set (offered uc prices defaults today role l))"
  by (induction ls rule: rev_induct) (simp_all add: options_by_role_snoc Un_commute)

lemma distinct_options_by_role: "distinct (options_by_role uc ls prices defaults today role)"
  by (induction ls rule: rev_induct) (simp_all add: options_by_role_snoc distinct_extend_new)

lemma live_models_facts:
  "(m, i) \<in> set (live_models today infos) \<Longrightarrow> i \<in> set infos \<and> mi_id i = m \<and> not_retired today i"
proof -
  have "\<forall>(m, i) \<in> set (foldl (\<lambda>d i. AList.update (mi_id i) i d) d is).
      (m, i) \<in> set d \<or> (i \<in> set is \<and> mi_id i = m)" for d :: "(pystr \<times> model_info) list" and "is"
  proof (induction "is" arbitrary: d)
    case (Cons x xs)
    have "set (AList.update k v d) \<subseteq> insert (k, v) (set d)" for k v and d :: "(pystr \<times> model_info) list"
      by (induction d) auto
    then show ?case
      using Cons.IH [of "AList.update (mi_id x) x d"] by fastforce
  qed auto
  from this [of "[]" "filter (not_retired today) infos"]
  show "(m, i) \<in> set (live_models today infos) \<Longrightarrow> i \<in> set infos \<and> mi_id i = m \<and> not_retired today i"
    by (auto simp: live_models_def)
qed

lemma serves_capability:
  "serves uc a role (m, i) \<Longrightarrow> role_capability role \<in> set (ad_capabilities a)"
  by (auto simp: serves_def roles_for_model_def Let_def split: option.splits)

lemma set_offered:
  assumes "x \<in> set (offered uc prices defaults today role (a, infos, cid))"
  shows "mo_provider x = ad_id a \<and> mo_credential_id x = cid \<and> role_capability role \<in> set (ad_capabilities a)
    \<and> (\<exists>i \<in> set infos. mi_id i = mo_model x \<and> not_retired today i)"
  using assms by (auto simp: offered_def dest!: live_models_facts serves_capability)

section \<open>Stored selections\<close>

lemma selection_of_dump:
  assumes "\<And>u. parse (uuid_str u) = Some u" "map_of settings (model_role_value role) = Some (dump_option x)"
  shows "selection_of parse (Some settings) role = Some x"
proof -
  have "validate_option parse (dump_option x) = Some x"
    using assms(1) by (cases "mo_credential_id x")
      (auto simp: dump_option_def validate_option_def validate_credential_id_def lit_def)
  then show ?thesis
    using assms(2) by (simp add: selection_of_def dump_option_def)
qed

lemma map_of_updates:
  "distinct (map fst kvs) \<Longrightarrow> map_of (foldl (\<lambda>d (k, v). AList.update k v d) d kvs) = map_of d ++ map_of kvs"
proof (induction kvs arbitrary: d)
  case (Cons kv kvs)
  then have "map_of kvs (fst kv) = None"
    by (simp add: map_of_eq_None_iff)
  then show ?case
    using Cons by (auto simp: split_beta update_conv' map_add_def fun_eq_iff split: option.splits)
qed simp

lemma map_of_firsts:
  assumes "inj v"
  shows "map_of (concat (map (\<lambda>r. case f r of [] \<Rightarrow> [] | x # _ \<Rightarrow> [(v r, g x)]) rs)) (v r)
    = (if r \<in> set rs then case f r of [] \<Rightarrow> None | x # _ \<Rightarrow> Some (g x) else None)"
  using assms by (induction rs) (auto simp: map_add_def inj_eq split: list.splits option.splits)

lemma map_of_recommended:
  "map_of (recommended_selections options) (model_role_value role)
    = (case options role of [] \<Rightarrow> None | x # _ \<Rightarrow> Some (dump_option x))"
  using map_of_firsts [where v = model_role_value and f = options and g = dump_option and rs = role_order and r = role]
  by (simp add: recommended_selections_def inj_def model_role_value_inj)

section \<open>Properties\<close>

text \<open>An option offered for a role comes from a listed key whose provider has the capability, and
  names a model that key lists and that is not retired; no option is offered twice, and every
  key's options stand behind those of the keys before it.\<close>

lemma options_offered:
  "(\<forall>x \<in> set (options_by_role uc ls prices defaults today role). \<exists>(a, infos, cid) \<in> set ls.
      mo_provider x = ad_id a \<and> mo_credential_id x = cid \<and> role_capability role \<in> set (ad_capabilities a)
      \<and> (\<exists>i \<in> set infos. mi_id i = mo_model x \<and> not_retired today i))
    \<and> distinct (options_by_role uc ls prices defaults today role)
    \<and> prefix (options_by_role uc ls prices defaults today role)
        (options_by_role uc (ls @ [l]) prices defaults today role)"
proof (intro conjI ballI)
  fix x
  assume "x \<in> set (options_by_role uc ls prices defaults today role)"
  then obtain a infos cid where "(a, infos, cid) \<in> set ls"
    "x \<in> set (offered uc prices defaults today role (a, infos, cid))"
    by (auto simp: set_options_by_role)
  then show "\<exists>(a, infos, cid) \<in> set ls. mo_provider x = ad_id a \<and> mo_credential_id x = cid
      \<and> role_capability role \<in> set (ad_capabilities a)
      \<and> (\<exists>i \<in> set infos. mi_id i = mo_model x \<and> not_retired today i)"
    using set_offered by fastforce
qed (simp_all add: distinct_options_by_role options_by_role_snoc prefix_extend_new)

text \<open>Storing the defaults and reading them back: every role the user chose keeps the user's
  choice, and every other role reads as its first recommended option.\<close>

theorem recommended_defaults_roundtrip:
  assumes "\<forall>u. parse (uuid_str u) = Some u" and "distinct (map fst chosen)"
  shows "selection_of parse (Some (with_recommended_defaults chosen options)) role =
    (if model_role_value role \<in> fst ` set chosen then selection_of parse (Some chosen) role
     else case options role of [] \<Rightarrow> None | x # _ \<Rightarrow> Some x)"
proof -
  have lookup: "map_of (with_recommended_defaults chosen options) (model_role_value role)
      = (case map_of chosen (model_role_value role) of Some v \<Rightarrow> Some v
         | None \<Rightarrow> map_of (recommended_selections options) (model_role_value role))"
    using map_of_updates [OF assms(2)] by (simp add: with_recommended_defaults_def map_add_def)
  show ?thesis
  proof (cases "model_role_value role \<in> fst ` set chosen")
    case True
    then have "map_of (with_recommended_defaults chosen options) (model_role_value role)
        = map_of chosen (model_role_value role)"
      using lookup by (auto simp: map_of_eq_None_iff split: option.splits)
    then show ?thesis
      using True by (simp add: selection_of_def)
  next
    case False
    then have absent: "map_of chosen (model_role_value role) = None"
      by (simp add: map_of_eq_None_iff)
    show ?thesis
    proof (cases "options role")
      case Nil
      then show ?thesis
        using False lookup absent map_of_recommended [of options role] by (simp add: selection_of_def)
    next
      case (Cons x xs)
      then have "map_of (with_recommended_defaults chosen options) (model_role_value role) = Some (dump_option x)"
        using lookup absent map_of_recommended [of options role] by simp
      then show ?thesis
        using selection_of_dump assms(1) False Cons by simp
    qed
  qed
qed

definition inverse_uuid_str :: "pystr \<Rightarrow> uuid option" where
  "inverse_uuid_str s = (if length s = 36 then Some (inv uuid_str s) else None)"

theorem recommended_defaults_roundtrip_witness:
  "selection_of inverse_uuid_str (Some (with_recommended_defaults [(lit ''answer'', JNull)]
      (\<lambda>_. [\<lparr>mo_provider = lit ''openai'', mo_model = lit ''m'', mo_credential_id = Some 7\<rparr>]))) RoleEmbedding
    = Some \<lparr>mo_provider = lit ''openai'', mo_model = lit ''m'', mo_credential_id = Some 7\<rparr>"
proof -
  have "inj uuid_str"
    by (simp add: inj_def uuid_str_inj)
  then have "\<forall>u. inverse_uuid_str (uuid_str u) = Some u"
    by (simp add: inverse_uuid_str_def)
  from recommended_defaults_roundtrip [OF this, of "[(lit ''answer'', JNull)]"] show ?thesis
    by (simp add: lit_def)
qed

end
