(* ===== verification/Database.thy ===== *)
theory Database
  imports ContextStore Attempts ModelRoles
begin

text \<open>
  The application database as one record of tables, the audit log
  (\<^verbatim>\<open>workspaces/application/audit.py\<close>) and transactions: a request or a processing attempt changes
  its session's view of the tables and makes it durable at its commits. A crash, or an
  exception, loses what came after the last commit, so the list of committed states is part
  of what such a run returns.
\<close>

record app_db =
  ab_workspaces :: "workspace_row list"
  ab_members :: "member_row list"
  ab_people :: "person_row list"
  ab_projects :: "project_row list"
  ab_project_members :: "project_member_row list"
  ab_source_projects :: "source_project_row list"
  ab_source_people :: "source_person_row list"
  ab_credentials :: "credential_row list"
  ab_sources :: "source_row list"
  ab_jobs :: "job_row list"
  ab_chunks :: "chunk_row list"
  ab_context :: context_db
  ab_audit :: "audit_row list"

definition empty_db :: app_db where
  "empty_db = \<lparr>ab_workspaces = [], ab_members = [], ab_people = [], ab_projects = [],
     ab_project_members = [], ab_source_projects = [], ab_source_people = [], ab_credentials = [],
     ab_sources = [], ab_jobs = [], ab_chunks = [], ab_context = \<lparr>db_stores = [], db_contexts = []\<rparr>,
     ab_audit = []\<rparr>"

text \<open>What defaults of the tables take from outside: new identifiers, the clock, and the correlation
  identifier of the request.\<close>

record stamp =
  st_fresh :: "nat \<Rightarrow> uuid"
  st_now :: instant
  st_correlation :: "pystr option"

definition example_stamp :: stamp where
  "example_stamp = \<lparr>st_fresh = (\<lambda>n. 1000 + of_nat n), st_now = 77, st_correlation = None\<rparr>"

section \<open>The audit log\<close>

record auth_user =
  us_id :: uuid
  us_email :: "pystr option"

record audit_event =
  ae_workspace_id :: uuid
  ae_actor :: auth_user
  ae_action :: pystr
  ae_target_type :: pystr
  ae_target_id :: "pystr option"
  ae_origin :: pystr
  ae_details :: "(pystr \<times> json) list"
  ae_request_id :: "pystr option"

definition add_audit_event :: "stamp \<Rightarrow> audit_event \<Rightarrow> app_db \<Rightarrow> app_db" where
  "add_audit_event st e db = db\<lparr>ab_audit := ab_audit db @
     [\<lparr>au_id = st_fresh st (length (ab_audit db)), au_workspace_id = ae_workspace_id e,
       au_actor_id = us_id (ae_actor e), au_actor_email = us_email (ae_actor e),
       au_action = ae_action e, au_target_type = ae_target_type e, au_target_id = ae_target_id e,
       au_origin = ae_origin e, au_details = ae_details e,
       au_request_id = (case ae_request_id e of
          Some r \<Rightarrow> if r = [] then st_correlation st else Some r | None \<Rightarrow> st_correlation st),
       au_created_at = st_now st\<rparr>]\<rparr>"

definition system_event :: "source_row \<Rightarrow> string \<Rightarrow> (pystr \<times> json) list \<Rightarrow> audit_event" where
  "system_event s action details = \<lparr>ae_workspace_id = so_workspace_id s,
     ae_actor = \<lparr>us_id = so_owner_id s, us_email = None\<rparr>, ae_action = lit action,
     ae_target_type = lit ''source'', ae_target_id = Some (uuid_str (so_id s)),
     ae_origin = lit ''system'', ae_details = details, ae_request_id = None\<rparr>"

section \<open>Rows of one source\<close>

definition get_source :: "uuid \<Rightarrow> app_db \<Rightarrow> source_row option" where
  "get_source i db = row_get so_id i (ab_sources db)"

definition put_source :: "source_row \<Rightarrow> app_db \<Rightarrow> app_db" where
  "put_source s db = db\<lparr>ab_sources := row_upd so_id (so_id s) (\<lambda>_. s) (ab_sources db)\<rparr>"

definition source_chunks :: "uuid \<Rightarrow> app_db \<Rightarrow> chunk_row list" where
  "source_chunks i db = filter (\<lambda>k. ck_source_id k = i) (ab_chunks db)"

lemma get_source_put [table_simps]:
  "get_source i (put_source s db) = (if i = so_id s \<and> get_source i db \<noteq> None then Some s else get_source i db)"
  by (auto simp: get_source_def put_source_def table_simps split: option.splits)

lemma put_source_fields [simp]:
  "ab_chunks (put_source s db) = ab_chunks db" "ab_audit (put_source s db) = ab_audit db"
  "ab_context (put_source s db) = ab_context db" "ab_credentials (put_source s db) = ab_credentials db"
  "ab_workspaces (put_source s db) = ab_workspaces db" "ab_jobs (put_source s db) = ab_jobs db"
  "ab_members (put_source s db) = ab_members db" "ab_people (put_source s db) = ab_people db"
  "ab_projects (put_source s db) = ab_projects db"
  by (simp_all add: put_source_def)

lemma add_audit_fields [simp]:
  "ab_sources (add_audit_event st e db) = ab_sources db" "ab_chunks (add_audit_event st e db) = ab_chunks db"
  "ab_context (add_audit_event st e db) = ab_context db"
  "ab_credentials (add_audit_event st e db) = ab_credentials db"
  "ab_workspaces (add_audit_event st e db) = ab_workspaces db"
  "ab_jobs (add_audit_event st e db) = ab_jobs db" "ab_members (add_audit_event st e db) = ab_members db"
  "ab_people (add_audit_event st e db) = ab_people db"
  "ab_projects (add_audit_event st e db) = ab_projects db"
  by (simp_all add: add_audit_event_def)

lemma get_source_audit [simp]: "get_source i (add_audit_event st e db) = get_source i db"
  by (simp add: get_source_def)

lemma get_source_id: "get_source i db = Some s \<Longrightarrow> so_id s = i"
  using row_get_Some by (fastforce simp: get_source_def)

end
