(* ===== verification/Sessions.thy ===== *)
theory Sessions
  imports Database
begin

text \<open>
  A processing attempt as a computation over a database session: a view of the tables with
  pending changes, the graph store (which has no transactions), and the log of durable states,
  one for every commit and every graph write. A raise abandons what is pending; a crash may
  happen between any two entries of the log. The second half is a small calculus: a relation
  that every two neighbours of the log satisfy, established once per operation.
\<close>

section \<open>Sessions\<close>

record 'g sess =
  ss_db :: app_db
  ss_graph :: 'g
  ss_log :: "(app_db \<times> 'g) list"

type_synonym ('g, 'e, 'a) run = "'g sess \<Rightarrow> ('e + 'a) \<times> 'g sess"

type_synonym ('g, 'a) proc = "('g, raised, 'a) run"

definition open_session :: "app_db \<times> 'g \<Rightarrow> 'g sess" where
  "open_session d = \<lparr>ss_db = fst d, ss_graph = snd d, ss_log = [d]\<rparr>"

definition durable :: "'g sess \<Rightarrow> app_db \<times> 'g" where
  "durable s = last (ss_log s)"

definition preturn :: "'a \<Rightarrow> ('g, 'e, 'a) run" where
  "preturn x s = (Inr x, s)"

definition praise :: "'e \<Rightarrow> ('g, 'e, 'a) run" where
  "praise e s = (Inl e, s)"

definition pbind :: "('g, 'e, 'a) run \<Rightarrow> ('a \<Rightarrow> ('g, 'e, 'b) run) \<Rightarrow> ('g, 'e, 'b) run" where
  "pbind m f s = (case m s of (Inl e, s') \<Rightarrow> (Inl e, s') | (Inr x, s') \<Rightarrow> f x s')"

definition plift :: "'e + 'a \<Rightarrow> ('g, 'e, 'a) run" where
  "plift r = (case r of Inl e \<Rightarrow> praise e | Inr x \<Rightarrow> preturn x)"

definition pget :: "('g, 'e, app_db) run" where
  "pget s = (Inr (ss_db s), s)"

definition pmodify :: "(app_db \<Rightarrow> app_db) \<Rightarrow> ('g, 'e, unit) run" where
  "pmodify f s = (Inr (), s\<lparr>ss_db := f (ss_db s)\<rparr>)"

definition pcommit :: "('g, 'e, unit) run" where
  "pcommit s = (Inr (), s\<lparr>ss_log := ss_log s @ [(ss_db s, ss_graph s)]\<rparr>)"

definition pgraph :: "('g \<Rightarrow> ('e + 'a) \<times> 'g) \<Rightarrow> ('g, 'e, 'a) run" where
  "pgraph f s = (case f (ss_graph s) of (r, g) \<Rightarrow>
     (r, s\<lparr>ss_graph := g, ss_log := ss_log s @ [(fst (durable s), g)]\<rparr>))"

definition pseq :: "('g, 'e, 'a) run \<Rightarrow> ('g, 'e, 'b) run \<Rightarrow> ('g, 'e, 'b) run" where
  "pseq m n = pbind m (\<lambda>_. n)"

definition commit_source :: "source_row \<Rightarrow> ('g, 'e, unit) run" where
  "commit_source s = pseq (pmodify (put_source s)) pcommit"

section \<open>Relations along the log\<close>

text \<open>\<open>along R P m Q\<close>: run from a session whose durable state and view satisfy \<open>P\<close>, the computation
  extends the log by states each related by \<open>R\<close> to the one before, however it ends, and where it
  returns, \<open>Q\<close> holds of the returned value, the durable state and the view.\<close>

type_synonym 'g state_rel = "app_db \<times> 'g \<Rightarrow> app_db \<times> 'g \<Rightarrow> bool"

definition settled :: "'g state_rel \<Rightarrow> 'g sess \<Rightarrow> bool" where
  "settled R s \<longleftrightarrow> ss_log s \<noteq> [] \<and> successively R (ss_log s) \<and> snd (durable s) = ss_graph s"

definition along :: "'g state_rel \<Rightarrow> 'g state_rel \<Rightarrow> ('g, 'e, 'a) run \<Rightarrow> ('a \<Rightarrow> 'g state_rel) \<Rightarrow> bool" where
  "along R P m Q \<longleftrightarrow> (\<forall>s. settled R s \<and> P (durable s) (ss_db s, ss_graph s) \<longrightarrow> (case m s of (r, s') \<Rightarrow>
     settled R s' \<and> prefix (ss_log s) (ss_log s')
     \<and> (\<forall>x. r = Inr x \<longrightarrow> Q x (durable s') (ss_db s', ss_graph s'))))"

lemma alongI:
  assumes "\<And>s r s'. settled R s \<Longrightarrow> P (durable s) (ss_db s, ss_graph s) \<Longrightarrow> m s = (r, s') \<Longrightarrow>
    settled R s' \<and> prefix (ss_log s) (ss_log s')
    \<and> (\<forall>x. r = Inr x \<longrightarrow> Q x (durable s') (ss_db s', ss_graph s'))"
  shows "along R P m Q"
  using assms by (auto simp: along_def split: prod.splits)

lemma alongD:
  assumes "along R P m Q" "settled R s" "P (durable s) (ss_db s, ss_graph s)" "m s = (r, s')"
  shows "settled R s' \<and> prefix (ss_log s) (ss_log s')
    \<and> (\<forall>x. r = Inr x \<longrightarrow> Q x (durable s') (ss_db s', ss_graph s'))"
  using assms by (fastforce simp: along_def)

lemma along_mono:
  assumes "along R P m Q" "\<And>d v. P' d v \<Longrightarrow> P d v" "\<And>x d v. Q x d v \<Longrightarrow> Q' x d v"
  shows "along R P' m Q'"
proof (rule alongI)
  fix s r s'
  assume s: "settled R s" "P' (durable s) (ss_db s, ss_graph s)" and run: "m s = (r, s')"
  from alongD [OF assms(1) s(1) assms(2) [OF s(2)] run]
  show "settled R s' \<and> prefix (ss_log s) (ss_log s')
      \<and> (\<forall>x. r = Inr x \<longrightarrow> Q' x (durable s') (ss_db s', ss_graph s'))"
    using assms(3) by blast
qed

lemma along_return: "(\<And>d v. P d v \<Longrightarrow> Q x d v) \<Longrightarrow> along R P (preturn x) Q"
  by (auto simp: along_def preturn_def)

lemma along_raise: "along R P (praise e) Q"
  by (auto simp: along_def praise_def)

lemma along_lift: "(\<And>x d v. r = Inr x \<Longrightarrow> P d v \<Longrightarrow> Q x d v) \<Longrightarrow> along R P (plift r) Q"
  by (cases r) (auto simp: plift_def intro: along_return along_raise)

lemma along_bind:
  assumes "along R P m Q" "\<And>x. along R (Q x) (f x) Q'"
  shows "along R P (pbind m f) Q'"
proof (rule alongI)
  fix s r s'
  assume s: "settled R s" "P (durable s) (ss_db s, ss_graph s)" and run: "pbind m f s = (r, s')"
  obtain r1 s1 where m: "m s = (r1, s1)"
    by fastforce
  note first = alongD [OF assms(1) s m]
  show "settled R s' \<and> prefix (ss_log s) (ss_log s')
      \<and> (\<forall>x. r = Inr x \<longrightarrow> Q' x (durable s') (ss_db s', ss_graph s'))"
  proof (cases r1)
    case (Inl e)
    then show ?thesis
      using first run m by (auto simp: pbind_def)
  next
    case (Inr x)
    then have step: "f x s1 = (r, s')"
      using run m by (simp add: pbind_def)
    have "settled R s1" "Q x (durable s1) (ss_db s1, ss_graph s1)"
      using first Inr by auto
    from alongD [OF assms(2) this step] show ?thesis
      using first prefix_order.trans by blast
  qed
qed

lemma along_seq: "along R P m (\<lambda>_. Q) \<Longrightarrow> along R Q n Q' \<Longrightarrow> along R P (pseq m n) Q'"
  unfolding pseq_def by (rule along_bind)

lemma along_get: "along R P pget (\<lambda>db d v. db = fst v \<and> P d v)"
  by (auto simp: along_def pget_def)

lemma along_modify:
  assumes "\<And>d db g. P d (db, g) \<Longrightarrow> Q d (f db, g)"
  shows "along R P (pmodify f) (\<lambda>_. Q)"
  using assms by (auto simp: along_def pmodify_def settled_def durable_def)

text \<open>A commit is where the relation must hold; afterwards the view is what is durable.\<close>

lemma along_commit:
  assumes "\<And>d v. P d v \<Longrightarrow> snd d = snd v \<Longrightarrow> R d v" "\<And>d v. P d v \<Longrightarrow> Q v v"
  shows "along R P pcommit (\<lambda>_. Q)"
proof (rule alongI)
  fix s r s'
  assume s: "settled R s" "P (durable s) (ss_db s, ss_graph s)" and "pcommit s = (r, s')"
  then have "s' = s\<lparr>ss_log := ss_log s @ [(ss_db s, ss_graph s)]\<rparr>"
    by (simp add: pcommit_def)
  then show "settled R s' \<and> prefix (ss_log s) (ss_log s')
      \<and> (\<forall>x. r = Inr x \<longrightarrow> Q (durable s') (ss_db s', ss_graph s'))"
    using s assms(1) [OF s(2)] assms(2) [OF s(2)]
    by (simp add: settled_def durable_def successively_append_iff)
qed

lemma along_graph:
  assumes "\<And>d g db. P d (db, g) \<Longrightarrow> R d (fst d, snd (f g))"
    and "\<And>d g db x. P d (db, g) \<Longrightarrow> fst (f g) = Inr x \<Longrightarrow> Q x (fst d, snd (f g)) (db, snd (f g))"
  shows "along R P (pgraph f) Q"
proof (rule alongI)
  fix s r s'
  assume s: "settled R s" "P (durable s) (ss_db s, ss_graph s)" and run: "pgraph f s = (r, s')"
  obtain r1 g where f: "f (ss_graph s) = (r1, g)"
    by fastforce
  then have s': "r = r1" "s' = s\<lparr>ss_graph := g, ss_log := ss_log s @ [(fst (durable s), g)]\<rparr>"
    using run by (auto simp: pgraph_def)
  have "R (durable s) (fst (durable s), g)"
    using assms(1) [OF s(2)] f by simp
  then show "settled R s' \<and> prefix (ss_log s) (ss_log s')
      \<and> (\<forall>x. r = Inr x \<longrightarrow> Q x (durable s') (ss_db s', ss_graph s'))"
    using s assms(2) [OF s(2)] f
    by (auto simp: s' settled_def durable_def successively_append_iff)
qed

lemma along_if: "(c \<Longrightarrow> along R P m Q) \<Longrightarrow> (\<not> c \<Longrightarrow> along R P n Q) \<Longrightarrow> along R P (if c then m else n) Q"
  by simp

text \<open>A whole attempt starts a session of its own from the durable state.\<close>

lemma along_open:
  assumes "along R P m Q" "P d d" "m (open_session d) = (r, s')"
  shows "successively R (ss_log s') \<and> ss_log s' \<noteq> [] \<and> hd (ss_log s') = d
    \<and> (\<forall>x. r = Inr x \<longrightarrow> Q x (durable s') (ss_db s', ss_graph s'))"
proof -
  have "settled R (open_session d)" "P (durable (open_session d)) (ss_db (open_session d), ss_graph (open_session d))"
    using assms(2) by (simp_all add: settled_def open_session_def durable_def)
  from alongD [OF assms(1) this assms(3)] show ?thesis
    by (auto simp: settled_def open_session_def prefix_def)
qed

lemma successively_rtranclp:
  "successively R xs \<Longrightarrow> y \<in> set xs \<Longrightarrow> R\<^sup>*\<^sup>* (hd xs) y"
proof (induction xs rule: induct_list012)
  case (3 a b xs)
  then show ?case
    by (metis converse_rtranclp_into_rtranclp list.sel(1) rtranclp.rtrancl_refl set_ConsD successively.simps(3))
qed auto

end
