(* ===== verification/Chunking.thy ===== *)
theory Chunking
  imports Rows
begin

text \<open>
  From parsed text and utterances to chunks: the values of \<^verbatim>\<open>ingestion/domain/models.py\<close> with their
  validators, the normalizers of \<^verbatim>\<open>application/normalization.py\<close> and the character chunker of
  \<^verbatim>\<open>application/chunking.py\<close>. The chunker's loop is a function on the start index; its
  termination is that the index grows. \<^verbatim>\<open>uuid5\<close> is a parameter.
\<close>

section \<open>Segments and their validators\<close>

type_synonym metadata = "(pystr \<times> json) list"

record document_section =
  ds_text :: pystr
  ds_page :: "int option"
  ds_heading :: "pystr option"
  ds_timestamp :: "py_datetime option"
  ds_author :: "pystr option"
  ds_metadata :: metadata

record transcript_segment =
  tg_text :: pystr
  tg_start_seconds :: py_float
  tg_end_seconds :: py_float
  tg_speaker :: "pystr option"
  tg_timestamp :: "py_datetime option"
  tg_metadata :: metadata

record normalized_segment =
  ns_id :: uuid
  ns_position :: nat
  ns_source :: pystr
  ns_type :: pystr
  ns_timestamp :: "py_datetime option"
  ns_author :: "pystr option"
  ns_content :: pystr
  ns_page :: "int option"
  ns_heading :: "pystr option"
  ns_speaker :: "pystr option"
  ns_start_seconds :: "py_float option"
  ns_end_seconds :: "py_float option"
  ns_metadata :: metadata

record normalized_source =
  nz_source_id :: uuid
  nz_workspace_id :: uuid
  nz_kind :: pystr
  nz_title :: pystr
  nz_language :: "pystr option"
  nz_segments :: "normalized_segment list"
  nz_metadata :: metadata

text \<open>Constructing a model runs its field constraints, then its validators; each failure is a
  \<^verbatim>\<open>ValueError\<close>.\<close>

definition reject_blank_text :: "pystr \<Rightarrow> py_error + pystr" where
  "reject_blank_text s = (let t = strip s in if t = [] then Inl ValueError else Inr t)"

definition at_least :: "'a::linorder \<Rightarrow> 'a option \<Rightarrow> bool" where
  "at_least lo x \<longleftrightarrow> (case x of None \<Rightarrow> True | Some v \<Rightarrow> lo \<le> v)"

definition make_section :: "document_section \<Rightarrow> py_error + document_section" where
  "make_section d =
     rbind (guard (ds_text d \<noteq> [] \<and> at_least 1 (ds_page d)) ValueError) (\<lambda>_.
     rbind (reject_blank_text (ds_text d)) (\<lambda>t. Inr (d\<lparr>ds_text := t\<rparr>)))"

definition make_segment :: "transcript_segment \<Rightarrow> py_error + transcript_segment" where
  "make_segment g =
     rbind (guard (tg_text g \<noteq> [] \<and> 0 \<le> tg_start_seconds g \<and> 0 \<le> tg_end_seconds g) ValueError) (\<lambda>_.
     rbind (reject_blank_text (tg_text g)) (\<lambda>t.
     rbind (guard (tg_start_seconds g \<le> tg_end_seconds g) ValueError) (\<lambda>_.
       Inr (g\<lparr>tg_text := t\<rparr>))))"

definition make_normalized_segment :: "normalized_segment \<Rightarrow> py_error + normalized_segment" where
  "make_normalized_segment n = rbind (guard (ns_source n \<noteq> [] \<and> ns_type n \<noteq> [] \<and> ns_content n \<noteq> []
       \<and> at_least 1 (ns_page n) \<and> at_least 0 (ns_start_seconds n) \<and> at_least 0 (ns_end_seconds n))
     ValueError) (\<lambda>_. Inr n)"

definition make_normalized_source :: "normalized_source \<Rightarrow> py_error + normalized_source" where
  "make_normalized_source n =
     rbind (guard (nz_kind n \<noteq> [] \<and> nz_title n \<noteq> []) ValueError) (\<lambda>_.
     rbind (reject_blank_text (nz_title n)) (\<lambda>t.
     rbind (guard (map ns_position (nz_segments n) = [0..<length (nz_segments n)]) ValueError) (\<lambda>_.
       Inr (n\<lparr>nz_title := t\<rparr>))))"

section \<open>Normalization\<close>

type_synonym uuid5_fn = "uuid \<Rightarrow> pystr \<Rightarrow> uuid"

definition segment_id :: "uuid5_fn \<Rightarrow> uuid \<Rightarrow> nat \<Rightarrow> uuid" where
  "segment_id uuid5 source_id position = uuid5 source_id (lit ''segment:'' @ nat_str position)"

definition source_label :: "pystr option \<Rightarrow> uuid \<Rightarrow> pystr" where
  "source_label source source_id =
     (case source of Some s \<Rightarrow> if s = [] then uuid_str source_id else s | None \<Rightarrow> uuid_str source_id)"

definition document_segment ::
  "uuid5_fn \<Rightarrow> uuid \<Rightarrow> pystr option \<Rightarrow> nat \<times> document_section \<Rightarrow> normalized_segment" where
  "document_segment uuid5 source_id source = (\<lambda>(position, d).
     \<lparr>ns_id = segment_id uuid5 source_id position, ns_position = position,
      ns_source = source_label source source_id, ns_type = lit ''document'',
      ns_timestamp = ds_timestamp d, ns_author = ds_author d, ns_content = ds_text d,
      ns_page = ds_page d, ns_heading = ds_heading d, ns_speaker = None, ns_start_seconds = None,
      ns_end_seconds = None, ns_metadata = ds_metadata d\<rparr>)"

definition transcript_normalized ::
  "uuid5_fn \<Rightarrow> uuid \<Rightarrow> pystr option \<Rightarrow> nat \<times> transcript_segment \<Rightarrow> normalized_segment" where
  "transcript_normalized uuid5 source_id source = (\<lambda>(position, g).
     \<lparr>ns_id = segment_id uuid5 source_id position, ns_position = position,
      ns_source = source_label source source_id, ns_type = lit ''meeting'',
      ns_timestamp = tg_timestamp g, ns_author = tg_speaker g, ns_content = tg_text g,
      ns_page = None, ns_heading = None, ns_speaker = tg_speaker g,
      ns_start_seconds = Some (tg_start_seconds g), ns_end_seconds = Some (tg_end_seconds g),
      ns_metadata = tg_metadata g\<rparr>)"

text \<open>The arguments of \<^verbatim>\<open>normalize\<close> other than the segments.\<close>

record normalize_args =
  na_source_id :: uuid
  na_workspace_id :: uuid
  na_title :: pystr
  na_source :: "pystr option"
  na_language :: "pystr option"
  na_metadata :: metadata

definition normalized_of ::
  "normalize_args \<Rightarrow> pystr \<Rightarrow> normalized_segment list \<Rightarrow> py_error + normalized_source" where
  "normalized_of a kind segments =
     rbind (traverse make_normalized_segment segments) (\<lambda>checked.
       make_normalized_source \<lparr>nz_source_id = na_source_id a, nz_workspace_id = na_workspace_id a,
         nz_kind = kind, nz_title = na_title a, nz_language = na_language a,
         nz_segments = checked, nz_metadata = na_metadata a\<rparr>)"

definition normalize_document ::
  "uuid5_fn \<Rightarrow> normalize_args \<Rightarrow> document_section list \<Rightarrow> py_error + normalized_source" where
  "normalize_document uuid5 a sections = normalized_of a (lit ''document'')
     (map (document_segment uuid5 (na_source_id a) (na_source a)) (enumerate 0 sections))"

definition segment_time :: "transcript_segment \<Rightarrow> py_float \<times> py_float" where
  "segment_time g = (tg_start_seconds g, tg_end_seconds g)"

definition normalize_transcript ::
  "uuid5_fn \<Rightarrow> normalize_args \<Rightarrow> transcript_segment list \<Rightarrow> py_error + normalized_source" where
  "normalize_transcript uuid5 a segments = normalized_of a (lit ''meeting'')
     (map (transcript_normalized uuid5 (na_source_id a) (na_source a))
       (enumerate 0 (sort_key segment_time segments)))"

text \<open>The service routes by kind; segments of the other kind do not have the fields its normalizer
  reads.\<close>

datatype raw_segments = Sections "document_section list" | Spoken "transcript_segment list"

definition normalize_service ::
  "uuid5_fn \<Rightarrow> pystr \<Rightarrow> normalize_args \<Rightarrow> raw_segments \<Rightarrow> py_error + normalized_source" where
  "normalize_service uuid5 kind a raw =
     (if kind = lit ''document'' then
        (case raw of Sections ds \<Rightarrow> normalize_document uuid5 a ds
         | Spoken gs \<Rightarrow> if gs = [] then normalize_document uuid5 a [] else Inl AttributeError)
      else if kind = lit ''meeting'' then
        (case raw of Spoken gs \<Rightarrow> normalize_transcript uuid5 a gs
         | Sections ds \<Rightarrow> if ds = [] then normalize_transcript uuid5 a [] else Inl AttributeError)
      else Inl ValueError)"

section \<open>The chunker\<close>

record chunker =
  ch_size :: nat
  ch_overlap :: nat

definition make_chunker :: "int \<Rightarrow> int \<Rightarrow> py_error + chunker" where
  "make_chunker width overlap = (if width < 1 \<or> overlap < 0 \<or> overlap \<ge> width then Inl ValueError
     else Inr \<lparr>ch_size = nat width, ch_overlap = nat overlap\<rparr>)"

record source_chunk =
  sc_source_id :: uuid
  sc_position :: nat
  sc_content :: pystr
  sc_start_seconds :: "py_float option"
  sc_end_seconds :: "py_float option"

text \<open>\<^verbatim>\<open>s[i:j]\<close> for \<open>i \<le> j\<close>, and \<^verbatim>\<open>s.rfind(" ", lo, hi)\<close> with \<open>None\<close> for -1.\<close>

definition py_slice :: "pystr \<Rightarrow> nat \<Rightarrow> nat \<Rightarrow> pystr" where
  "py_slice s i j = take (j - i) (drop i s)"

definition rfind_space :: "pystr \<Rightarrow> nat \<Rightarrow> nat \<Rightarrow> nat option" where
  "rfind_space s lo hi = find (\<lambda>i. s ! i = 32) (rev [lo..<min hi (length s)])"

definition chunk_end :: "chunker \<Rightarrow> pystr \<Rightarrow> nat \<Rightarrow> nat" where
  "chunk_end c s start = (let stop = min (start + ch_size c) (length s) in
     if stop < length s then
       (case rfind_space s (start + ch_size c div 2) stop of
          Some boundary \<Rightarrow> if boundary > start then boundary else stop
        | None \<Rightarrow> stop)
     else stop)"

function split_from :: "chunker \<Rightarrow> pystr \<Rightarrow> nat \<Rightarrow> pystr list" where
  "split_from c s start = (if start < length s then
     let stop = chunk_end c s start;
         part = strip (py_slice s start stop);
         parts = (if stop \<ge> length s then []
           else split_from c s (max (stop - ch_overlap c) (start + 1)))
     in (if part = [] then parts else part # parts)
   else [])"
  by pat_completeness auto

termination by (relation "measure (\<lambda>(c, s, start). length s - start)") auto

declare split_from.simps [simp del]

definition split_content :: "chunker \<Rightarrow> pystr \<Rightarrow> pystr list" where
  "split_content c content = (let s = strip content in if s = [] then [] else split_from c s 0)"

definition chunk :: "chunker \<Rightarrow> normalized_source \<Rightarrow> source_chunk list" where
  "chunk c source = foldl (\<lambda>chunks segment. foldl (\<lambda>chunks content.
       chunks @ [\<lparr>sc_source_id = nz_source_id source, sc_position = length chunks,
         sc_content = content, sc_start_seconds = ns_start_seconds segment,
         sc_end_seconds = ns_end_seconds segment\<rparr>])
     chunks (split_content c (ns_content segment))) [] (nz_segments source)"

section \<open>Windows\<close>

text \<open>The windows \<open>[start, end)\<close> the loop visits.\<close>

function windows :: "chunker \<Rightarrow> pystr \<Rightarrow> nat \<Rightarrow> (nat \<times> nat) list" where
  "windows c s start = (if start < length s then
     (start, chunk_end c s start) # (if chunk_end c s start \<ge> length s then []
       else windows c s (max (chunk_end c s start - ch_overlap c) (start + 1)))
   else [])"
  by pat_completeness auto

termination by (relation "measure (\<lambda>(c, s, start). length s - start)") auto

declare windows.simps [simp del]

lemma split_from_windows:
  "split_from c s start = filter (\<lambda>p. p \<noteq> []) (map (\<lambda>(i, j). strip (py_slice s i j)) (windows c s start))"
proof (induction c s start rule: windows.induct)
  case (1 c s start)
  show ?case
  proof (cases "start < length s \<and> chunk_end c s start < length s")
    case True
    then have "split_from c s (max (chunk_end c s start - ch_overlap c) (start + 1)) =
        filter (\<lambda>p. p \<noteq> []) (map (\<lambda>(i, j). strip (py_slice s i j))
          (windows c s (max (chunk_end c s start - ch_overlap c) (start + 1))))"
      by (intro "1.IH") auto
    then show ?thesis
      using True by (subst split_from.simps, subst windows.simps) (simp add: Let_def)
  next
    case False
    then show ?thesis
      by (subst split_from.simps, subst windows.simps) (auto simp: Let_def)
  qed
qed

lemma rfind_space_Some:
  "rfind_space s lo hi = Some b \<Longrightarrow> lo \<le> b \<and> b < hi \<and> b < length s \<and> s ! b = 32"
  unfolding rfind_space_def by (drule find_SomeD) auto

lemma chunk_end_bounds:
  assumes "start < length s" "1 \<le> ch_size c"
  shows "start < chunk_end c s start" and "chunk_end c s start \<le> length s"
    and "chunk_end c s start \<le> start + ch_size c"
    and "chunk_end c s start = length s \<or> start + ch_size c div 2 \<le> chunk_end c s start"
  using assms by (auto simp: chunk_end_def Let_def split: option.splits dest!: rfind_space_Some)

lemma windows_step:
  assumes "start < length s"
  shows "windows c s start = (start, chunk_end c s start) # (if chunk_end c s start \<ge> length s then []
    else windows c s (max (chunk_end c s start - ch_overlap c) (start + 1)))"
  using assms by (subst windows.simps) simp

lemma windows_end [simp]: "length s \<le> start \<Longrightarrow> windows c s start = []"
  by (subst windows.simps) simp

lemma windows_bounds:
  assumes "1 \<le> ch_size c" "(i, j) \<in> set (windows c s start)"
  shows "start \<le> i \<and> i < j \<and> j \<le> length s \<and> j - i \<le> ch_size c"
  using assms
proof (induction c s start rule: windows.induct)
  case (1 c s start)
  let ?e = "chunk_end c s start"
  have lt: "start < length s"
    using "1.prems" by (cases "start < length s") auto
  note bounds = chunk_end_bounds [OF lt "1.prems"(1)]
  from "1.prems"(2) consider "(i, j) = (start, ?e)"
    | "?e < length s" "(i, j) \<in> set (windows c s (max (?e - ch_overlap c) (start + 1)))"
    unfolding windows_step [OF lt] by (auto split: if_splits)
  then show ?case
  proof cases
    case 1
    then show ?thesis
      using bounds by auto
  next
    case 2
    then have "max (?e - ch_overlap c) (start + 1) \<le> i \<and> i < j \<and> j \<le> length s \<and> j - i \<le> ch_size c"
      using lt "1.prems"(1) by (intro "1.IH") auto
    then show ?thesis
      by simp
  qed
qed

text \<open>No gap is longer than the overlap allows: a stretch of at most \<open>overlap + 1\<close> characters, and
  at most half the size, lies in one window.\<close>

definition kept_whole :: "chunker \<Rightarrow> nat" where
  "kept_whole c = max 1 (min (ch_overlap c + 1) (ch_size c div 2))"

lemma windows_cover:
  assumes "1 \<le> ch_size c" "start \<le> k" "0 < n" "k + n \<le> length s" "n \<le> kept_whole c"
  shows "\<exists>(i, j) \<in> set (windows c s start). i \<le> k \<and> k + n \<le> j"
  using assms
proof (induction c s start rule: windows.induct)
  case (1 c s start)
  let ?e = "chunk_end c s start"
  let ?next = "max (?e - ch_overlap c) (start + 1)"
  have lt: "start < length s"
    using "1.prems" by simp
  note bounds = chunk_end_bounds [OF lt "1.prems"(1)]
  show ?case
  proof (cases "k + n \<le> ?e")
    case True
    then show ?thesis
      unfolding windows_step [OF lt] using "1.prems"(2) by auto
  next
    case False
    then have notlast: "?e < length s"
      using "1.prems" by simp
    have "?next \<le> k"
      using False bounds "1.prems"(2,3,5) notlast by (auto simp: kept_whole_def)
    then have "\<exists>(i, j) \<in> set (windows c s ?next). i \<le> k \<and> k + n \<le> j"
      using notlast lt "1.prems" by (intro "1.IH") auto
    then show ?thesis
      unfolding windows_step [OF lt] using notlast by auto
  qed
qed

section \<open>Chunks\<close>

lemma contains_slice: "contains (py_slice s i j) s"
  unfolding contains_def py_slice_def
  by (meson sublist_drop sublist_order.order_trans sublist_take)

lemma length_slice: "length (py_slice s i j) \<le> j - i"
  by (simp add: py_slice_def)

lemma lstrip_keeps:
  "q \<noteq> [] \<Longrightarrow> \<not> py_isspace (hd q) \<Longrightarrow> \<exists>x. lstrip (a @ q @ b) = x @ q @ b"
proof (induction a)
  case Nil
  then show ?case
    by (cases q) (auto simp: lstrip_def)
next
  case (Cons y a)
  then show ?case
    by (cases "py_isspace y") (auto simp: lstrip_def intro: exI [of _ "y # a"])
qed

lemma rstrip_keeps:
  assumes "q \<noteq> []" "\<not> py_isspace (last q)"
  shows "\<exists>y. rstrip (a @ q @ b) = a @ q @ y"
proof -
  obtain x where "lstrip (rev b @ rev q @ rev a) = x @ rev q @ rev a"
    using lstrip_keeps [of "rev q" "rev b" "rev a"] assms by (auto simp: hd_rev)
  then have "rstrip (a @ q @ b) = a @ q @ rev x"
    by (simp add: rstrip_def lstrip_def)
  then show ?thesis
    by blast
qed

lemma strip_ends:
  assumes "strip q = q" "q \<noteq> []"
  shows "\<not> py_isspace (hd q) \<and> \<not> py_isspace (last q)"
proof -
  have "lstrip q = q"
  proof -
    have "length (lstrip q) = length q"
      using assms(1) length_dropWhile_le [of py_isspace q] length_dropWhile_le [of py_isspace "rev (lstrip q)"]
      by (simp add: strip_def rstrip_def lstrip_def) (metis le_antisym length_rev)
    then show ?thesis
      unfolding lstrip_def by (metis add_cancel_left_left append_Nil length_0_conv length_append takeWhile_dropWhile_id)
  qed
  moreover from this have "rstrip q = q"
    using assms(1) by (simp add: strip_def)
  ultimately show ?thesis
    using assms(2) unfolding lstrip_def rstrip_def
    by (metis hd_dropWhile hd_rev rev_is_Nil_conv rev_swap)
qed

lemma strip_keeps:
  assumes "strip q = q" "q \<noteq> []" "contains q s"
  shows "contains q (strip s)"
proof -
  obtain a b where s: "s = a @ q @ b"
    using assms(3) by (auto simp: contains_def sublist_def)
  obtain x where "lstrip s = x @ q @ b"
    using lstrip_keeps [of q a b] strip_ends [OF assms(1,2)] assms(2) s by auto
  moreover obtain y where "rstrip (x @ q @ b) = x @ q @ y"
    using rstrip_keeps [of q x b] strip_ends [OF assms(1,2)] assms(2) by auto
  ultimately show ?thesis
    by (auto simp: strip_def contains_def sublist_def)
qed

lemma split_content_windows:
  "split_content c content = filter (\<lambda>p. p \<noteq> [])
    (map (\<lambda>(i, j). strip (py_slice (strip content) i j)) (windows c (strip content) 0))"
  by (simp add: split_content_def split_from_windows Let_def)

lemma split_content_part:
  assumes "1 \<le> ch_size c" "p \<in> set (split_content c content)"
  shows "p \<noteq> [] \<and> strip p = p \<and> length p \<le> ch_size c \<and> contains p content"
proof -
  obtain i j where w: "(i, j) \<in> set (windows c (strip content) 0)" "p \<noteq> []"
    "p = strip (py_slice (strip content) i j)"
    using assms(2) by (auto simp: split_content_windows)
  have "length p \<le> ch_size c"
    using windows_bounds [OF assms(1) w(1)] length_strip [of "py_slice (strip content) i j"]
      length_slice [of "strip content" i j] w(3) by simp
  moreover have "contains p content"
    using w(3) by (metis contains_slice contains_strip contains_trans)
  ultimately show ?thesis
    using w(2,3) by simp
qed

lemma split_content_quote:
  assumes "1 \<le> ch_size c" "contains q content" "strip q = q" "q \<noteq> []" "length q \<le> kept_whole c"
  shows "\<exists>p \<in> set (split_content c content). contains q p"
proof -
  let ?s = "strip content"
  obtain a b where s: "?s = a @ q @ b"
    using strip_keeps [OF assms(3,4,2)] by (auto simp: contains_def sublist_def)
  obtain i j where w: "(i, j) \<in> set (windows c ?s 0)" "i \<le> length a" "length a + length q \<le> j"
    using windows_cover [OF assms(1), of 0 "length a" "length q" ?s] assms(4,5) s by auto
  have "contains q (py_slice ?s i j)"
    unfolding contains_def sublist_def
  proof (intro exI)
    show "py_slice ?s i j = drop i a @ q @ take (j - length a - length q) b"
      using w(2,3) by (simp add: s py_slice_def)
  qed
  then have q: "contains q (strip (py_slice ?s i j))"
    by (rule strip_keeps [OF assms(3,4)])
  then have "strip (py_slice ?s i j) \<noteq> []"
    using assms(4) by (auto simp: contains_def)
  then show ?thesis
    using q w(1) by (auto simp: split_content_windows intro!: bexI [of _ "(i, j)"] image_eqI [of _ _ "(i, j)"])
qed


text \<open>The chunks are the parts of the segments in order, numbered.\<close>

definition segment_parts :: "chunker \<Rightarrow> normalized_source \<Rightarrow> (normalized_segment \<times> pystr) list" where
  "segment_parts c source =
     concat (map (\<lambda>g. map (Pair g) (split_content c (ns_content g))) (nz_segments source))"

definition chunk_of :: "normalized_source \<Rightarrow> nat \<times> normalized_segment \<times> pystr \<Rightarrow> source_chunk" where
  "chunk_of source = (\<lambda>(n, g, p). \<lparr>sc_source_id = nz_source_id source, sc_position = n, sc_content = p,
     sc_start_seconds = ns_start_seconds g, sc_end_seconds = ns_end_seconds g\<rparr>)"

lemma chunk_parts: "chunk c source = map (chunk_of source) (enumerate 0 (segment_parts c source))"
proof -
  have inner: "foldl (\<lambda>chunks content. chunks @ [\<lparr>sc_source_id = nz_source_id source,
        sc_position = length chunks, sc_content = content, sc_start_seconds = ns_start_seconds g,
        sc_end_seconds = ns_end_seconds g\<rparr>]) (map (chunk_of source) (enumerate 0 done)) parts
      = map (chunk_of source) (enumerate 0 (done @ map (Pair g) parts))" for g parts "done"
    by (induction parts rule: rev_induct)
      (simp_all add: chunk_of_def enumerate_snoc flip: append_assoc)
  have "foldl (\<lambda>chunks segment. foldl (\<lambda>chunks content. chunks @ [\<lparr>sc_source_id = nz_source_id source,
        sc_position = length chunks, sc_content = content, sc_start_seconds = ns_start_seconds segment,
        sc_end_seconds = ns_end_seconds segment\<rparr>]) chunks (split_content c (ns_content segment))) [] segs
      = map (chunk_of source) (enumerate 0 (concat (map (\<lambda>g. map (Pair g) (split_content c (ns_content g))) segs)))"
    for segs
  proof (induction segs rule: rev_induct)
    case (snoc g segs)
    then show ?case
      by (simp add: inner)
  qed simp
  then show ?thesis
    by (simp add: chunk_def segment_parts_def)
qed

lemma chunk_positions: "map sc_position (chunk c source) = [0..<length (chunk c source)]"
proof -
  have "sc_position \<circ> chunk_of source = fst"
    by (auto simp: chunk_of_def)
  then have "map sc_position (chunk c source) = map fst (enumerate 0 (segment_parts c source))"
    by (simp add: chunk_parts)
  then show ?thesis
    by (simp add: chunk_parts)
qed

lemma chunk_iff:
  "k \<in> set (chunk c source) \<Longrightarrow> sc_source_id k = nz_source_id source \<and> (\<exists>g \<in> set (nz_segments source).
     sc_content k \<in> set (split_content c (ns_content g))
     \<and> sc_start_seconds k = ns_start_seconds g \<and> sc_end_seconds k = ns_end_seconds g)"
  unfolding chunk_parts chunk_of_def segment_parts_def by (fastforce dest!: in_enumerateD)

lemma part_chunked:
  assumes "g \<in> set (nz_segments source)" "p \<in> set (split_content c (ns_content g))"
  shows "\<exists>k \<in> set (chunk c source). sc_content k = p \<and> sc_start_seconds k = ns_start_seconds g
    \<and> sc_end_seconds k = ns_end_seconds g"
proof -
  have "(g, p) \<in> set (segment_parts c source)"
    using assms by (auto simp: segment_parts_def)
  then obtain n where "(n, g, p) \<in> set (enumerate 0 (segment_parts c source))"
    using in_enumerateI [of "(g, p)" "segment_parts c source" 0] by auto
  then show ?thesis
    unfolding chunk_parts by (force simp: chunk_of_def)
qed


section \<open>Normalized sources\<close>

definition spoken_line :: "transcript_segment \<Rightarrow> pystr \<times> pystr option \<times> py_float option \<times> py_float option" where
  "spoken_line g = (tg_text g, tg_speaker g, Some (tg_start_seconds g), Some (tg_end_seconds g))"

definition normalized_line :: "normalized_segment \<Rightarrow> pystr \<times> pystr option \<times> py_float option \<times> py_float option" where
  "normalized_line n = (ns_content n, ns_speaker n, ns_start_seconds n, ns_end_seconds n)"

definition segment_valid :: "transcript_segment \<Rightarrow> bool" where
  "segment_valid g \<longleftrightarrow> make_segment g = Inr g"

definition section_valid :: "document_section \<Rightarrow> bool" where
  "section_valid d \<longleftrightarrow> make_section d = Inr d"

lemma segment_validD:
  "segment_valid g \<Longrightarrow> tg_text g \<noteq> [] \<and> 0 \<le> tg_start_seconds g \<and> tg_start_seconds g \<le> tg_end_seconds g"
  by (auto simp: segment_valid_def make_segment_def result_simps)

lemma section_validD: "section_valid d \<Longrightarrow> ds_text d \<noteq> [] \<and> at_least 1 (ds_page d)"
  by (auto simp: section_valid_def make_section_def result_simps)

lemma source_label_nonempty: "source_label source source_id \<noteq> []"
proof -
  have "uuid_str source_id \<noteq> []"
    by (metis length_uuid_str list.size(3) zero_neq_numeral)
  then show ?thesis
    by (simp add: source_label_def split: option.splits)
qed

lemma normalized_of_total:
  assumes "\<And>n. n \<in> set ns \<Longrightarrow> make_normalized_segment n = Inr n"
    and "map ns_position ns = [0..<length ns]" and "\<not> blank (na_title a)" and "kind \<noteq> []"
  shows "normalized_of a kind ns = Inr \<lparr>nz_source_id = na_source_id a, nz_workspace_id = na_workspace_id a,
     nz_kind = kind, nz_title = strip (na_title a), nz_language = na_language a, nz_segments = ns,
     nz_metadata = na_metadata a\<rparr>"
proof -
  have "traverse make_normalized_segment ns = Inr ns"
    using traverse_total [of ns make_normalized_segment id] assms(1) by simp
  moreover have "na_title a \<noteq> []"
    using assms(3) by (auto simp: blank_def)
  ultimately show ?thesis
    using assms(2-4) by (simp add: normalized_of_def make_normalized_source_def guard_def
        reject_blank_text_def Let_def blank_def)
qed

lemma map_enumerate:
  "map (f \<circ> fst) (enumerate n xs) = map f [n..<n + length xs]"
  "map (g \<circ> snd) (enumerate n xs) = map g xs"
  by (metis map_fst_enumerate map_map, metis map_snd_enumerate map_map)

lemma enumerated_fields:
  "map ns_position (map (transcript_normalized u s l) (enumerate 0 gs)) = [0..<length gs]"
  "map ns_id (map (transcript_normalized u s l) (enumerate 0 gs)) = map (segment_id u s) [0..<length gs]"
  "map normalized_line (map (transcript_normalized u s l) (enumerate 0 gs)) = map spoken_line gs"
  "map ns_position (map (document_segment u s l) (enumerate 0 ds)) = [0..<length ds]"
proof -
  have "ns_position \<circ> transcript_normalized u s l = fst" "ns_position \<circ> document_segment u s l = fst"
    "ns_id \<circ> transcript_normalized u s l = segment_id u s \<circ> fst"
    "normalized_line \<circ> transcript_normalized u s l = spoken_line \<circ> snd"
    by (auto simp: transcript_normalized_def document_segment_def normalized_line_def spoken_line_def)
  then show "map ns_position (map (transcript_normalized u s l) (enumerate 0 gs)) = [0..<length gs]"
    "map ns_id (map (transcript_normalized u s l) (enumerate 0 gs)) = map (segment_id u s) [0..<length gs]"
    "map normalized_line (map (transcript_normalized u s l) (enumerate 0 gs)) = map spoken_line gs"
    "map ns_position (map (document_segment u s l) (enumerate 0 ds)) = [0..<length ds]"
    unfolding map_map by (simp_all add: map_enumerate)
qed

lemma normalize_transcript_total:
  assumes "\<forall>g \<in> set segments. segment_valid g" "\<not> blank (na_title a)"
  shows "normalize_transcript uuid5 a segments = Inr \<lparr>nz_source_id = na_source_id a,
     nz_workspace_id = na_workspace_id a, nz_kind = lit ''meeting'', nz_title = strip (na_title a),
     nz_language = na_language a,
     nz_segments = map (transcript_normalized uuid5 (na_source_id a) (na_source a))
       (enumerate 0 (sort_key segment_time segments)), nz_metadata = na_metadata a\<rparr>"
  unfolding normalize_transcript_def
proof (rule normalized_of_total)
  fix n
  assume "n \<in> set (map (transcript_normalized uuid5 (na_source_id a) (na_source a))
      (enumerate 0 (sort_key segment_time segments)))"
  then obtain k g where n: "n = transcript_normalized uuid5 (na_source_id a) (na_source a) (k, g)"
    and "(k, g) \<in> set (enumerate 0 (sort_key segment_time segments))"
    by auto
  then have "segment_valid g"
    using assms(1) in_enumerateD by fastforce
  then show "make_normalized_segment n = Inr n"
    using segment_validD source_label_nonempty
    by (auto simp: n transcript_normalized_def make_normalized_segment_def guard_def at_least_def lit_def
        dest: order_trans)
qed (use assms(2) in \<open>simp_all only: enumerated_fields length_sort length_map length_enumerate lit_def list.map\<close>, simp_all)

section \<open>Properties\<close>

text \<open>Normalizing validated utterances under a title that is not blank returns a source that keeps
  exactly those utterances, ordered by (start, end), numbered from zero, with the identifier
  each position always gets, distinct when uuid5 is.\<close>

theorem normalize_transcript_keeps:
  assumes "\<forall>g \<in> set segments. segment_valid g" and "\<not> blank (na_title a)"
  shows "\<exists>source. normalize_service uuid5 (lit ''meeting'') a (Spoken segments) = Inr source
    \<and> mset (map normalized_line (nz_segments source)) = mset (map spoken_line segments)
    \<and> sorted (map (\<lambda>n. (the (ns_start_seconds n), the (ns_end_seconds n))) (nz_segments source))
    \<and> map ns_position (nz_segments source) = [0..<length segments]
    \<and> map ns_id (nz_segments source) = map (segment_id uuid5 (na_source_id a)) [0..<length segments]
    \<and> nz_title source = strip (na_title a)"
proof -
  have "(\<lambda>n. (the (ns_start_seconds n), the (ns_end_seconds n)))
      \<circ> transcript_normalized uuid5 (na_source_id a) (na_source a) = segment_time \<circ> snd"
    by (auto simp: transcript_normalized_def segment_time_def)
  then have "map (\<lambda>n. (the (ns_start_seconds n), the (ns_end_seconds n)))
      (map (transcript_normalized uuid5 (na_source_id a) (na_source a))
        (enumerate 0 (sort_key segment_time segments)))
      = map segment_time (sort_key segment_time segments)"
    unfolding map_map by (simp add: map_enumerate)
  moreover have lines: "mset (map normalized_line (map (transcript_normalized uuid5 (na_source_id a)
      (na_source a)) (enumerate 0 (sort_key segment_time segments)))) = mset (map spoken_line segments)"
    unfolding enumerated_fields by simp
  moreover have "normalize_service uuid5 (lit ''meeting'') a (Spoken segments)
      = normalize_transcript uuid5 a segments"
    by (simp add: normalize_service_def lit_def)
  ultimately show ?thesis
    unfolding normalize_transcript_total [OF assms]
    using lines by (auto simp only: enumerated_fields normalized_source.select_convs length_sort
        intro!: exI) simp_all
qed

definition example_segment :: "nat \<Rightarrow> string \<Rightarrow> transcript_segment" where
  "example_segment t s = \<lparr>tg_text = lit s, tg_start_seconds = of_nat t, tg_end_seconds = of_nat (t + 1),
     tg_speaker = Some (lit ''kim''), tg_timestamp = None, tg_metadata = []\<rparr>"

definition example_args :: normalize_args where
  "example_args = \<lparr>na_source_id = 9, na_workspace_id = 1, na_title = lit '' weekly '', na_source = None,
     na_language = None, na_metadata = []\<rparr>"

theorem normalize_transcript_keeps_witness:
  "\<exists>source. normalize_service (\<lambda>_. toy_uuid5) (lit ''meeting'') example_args
      (Spoken [example_segment 4 ''then'', example_segment 1 ''first'']) = Inr source
    \<and> map ns_position (nz_segments source) = [0, 1] \<and> nz_title source = lit ''weekly''"
proof -
  have "\<forall>g \<in> set [example_segment 4 ''then'', example_segment 1 ''first'']. segment_valid g"
    "\<not> blank (na_title example_args)" "strip (na_title example_args) = lit ''weekly''"
    by code_simp+
  then show ?thesis
    using normalize_transcript_keeps
      [of "[example_segment 4 ''then'', example_segment 1 ''first'']" example_args "\<lambda>_. toy_uuid5"]
    by (auto simp: upt_rec)
qed

text \<open>C12: A chunker the constructor accepts cuts a source into chunks numbered from zero, each a
  stripped non-empty piece of one segment, no longer than the size and with that segment's times;
  and every quote of at most \<open>kept_whole\<close> characters of a segment (201 for the default 1200/200)
  stands whole in a chunk, so evidence is not cut at a boundary.\<close>

theorem chunks_preserve_evidence:
  assumes "make_chunker width overlap = Inr c"
  shows "map sc_position (chunk c source) = [0..<length (chunk c source)]
    \<and> (\<forall>k \<in> set (chunk c source). sc_source_id k = nz_source_id source
        \<and> sc_content k \<noteq> [] \<and> strip (sc_content k) = sc_content k \<and> int (length (sc_content k)) \<le> width
        \<and> (\<exists>g \<in> set (nz_segments source). contains (sc_content k) (ns_content g)
            \<and> sc_start_seconds k = ns_start_seconds g \<and> sc_end_seconds k = ns_end_seconds g))
    \<and> (\<forall>g \<in> set (nz_segments source). \<forall>q. contains q (ns_content g) \<and> strip q = q \<and> q \<noteq> []
        \<and> int (length q) \<le> max 1 (min (overlap + 1) (width div 2)) \<longrightarrow>
          (\<exists>k \<in> set (chunk c source). contains q (sc_content k)
            \<and> sc_start_seconds k = ns_start_seconds g \<and> sc_end_seconds k = ns_end_seconds g))"
proof -
  have c: "1 \<le> ch_size c" "int (ch_size c) = width" "int (ch_overlap c) = overlap"
    using assms by (auto simp: make_chunker_def split: if_splits)
  then have whole: "int (kept_whole c) = max 1 (min (overlap + 1) (width div 2))"
    by (auto simp: kept_whole_def of_nat_max of_nat_min zdiv_int)
  have "\<exists>k \<in> set (chunk c source). contains q (sc_content k)
      \<and> sc_start_seconds k = ns_start_seconds g \<and> sc_end_seconds k = ns_end_seconds g"
    if "g \<in> set (nz_segments source)" "contains q (ns_content g)" "strip q = q" "q \<noteq> []"
      "int (length q) \<le> max 1 (min (overlap + 1) (width div 2))" for g q
  proof -
    have "length q \<le> kept_whole c"
      using that(5) unfolding whole [symmetric] by simp
    from split_content_quote [OF c(1) that(2-4) this] show ?thesis
      using part_chunked [OF that(1)] by metis
  qed
  moreover have "sc_content k \<noteq> [] \<and> strip (sc_content k) = sc_content k
      \<and> int (length (sc_content k)) \<le> width \<and> sc_source_id k = nz_source_id source
      \<and> (\<exists>g \<in> set (nz_segments source). contains (sc_content k) (ns_content g)
          \<and> sc_start_seconds k = ns_start_seconds g \<and> sc_end_seconds k = ns_end_seconds g)"
    if "k \<in> set (chunk c source)" for k
  proof -
    obtain g where "g \<in> set (nz_segments source)" "sc_content k \<in> set (split_content c (ns_content g))"
      "sc_start_seconds k = ns_start_seconds g" "sc_end_seconds k = ns_end_seconds g"
      using chunk_iff [OF \<open>k \<in> set (chunk c source)\<close>] by blast
    with split_content_part [OF c(1)] chunk_iff [OF that] c(2) show ?thesis
      by fastforce
  qed
  ultimately show ?thesis
    using chunk_positions by blast
qed

definition example_normalized :: normalized_source where
  "example_normalized = \<lparr>nz_source_id = 9, nz_workspace_id = 1, nz_kind = lit ''document'', nz_title = lit ''t'',
     nz_language = None, nz_segments = [\<lparr>ns_id = 5, ns_position = 0, ns_source = lit ''s'',
       ns_type = lit ''document'', ns_timestamp = None, ns_author = None,
       ns_content = lit ''alpha beta gamma delta'', ns_page = None, ns_heading = None,
       ns_speaker = None, ns_start_seconds = None, ns_end_seconds = None, ns_metadata = []\<rparr>],
     nz_metadata = []\<rparr>"

theorem chunks_preserve_evidence_witness:
  "map sc_content (chunk \<lparr>ch_size = 12, ch_overlap = 4\<rparr> example_normalized)
      = [lit ''alpha beta'', lit ''beta gamma'', lit ''amma delta'']
    \<and> (\<exists>k \<in> set (chunk \<lparr>ch_size = 12, ch_overlap = 4\<rparr> example_normalized).
        contains (lit ''gamma'') (sc_content k))"
proof -
  have chunker: "make_chunker 12 4 = Inr \<lparr>ch_size = 12, ch_overlap = 4\<rparr>"
    by (simp add: make_chunker_def)
  have "map sc_content (chunk \<lparr>ch_size = 12, ch_overlap = 4\<rparr> example_normalized)
      = [lit ''alpha beta'', lit ''beta gamma'', lit ''amma delta'']"
    by code_simp
  moreover have "contains (lit ''gamma'') (lit ''alpha beta gamma delta'')" "strip (lit ''gamma'') = lit ''gamma''"
    "lit ''gamma'' \<noteq> []" "int (length (lit ''gamma'')) \<le> max 1 (min (4 + 1) (12 div 2))"
    unfolding contains_def by code_simp+
  then have "\<exists>k \<in> set (chunk \<lparr>ch_size = 12, ch_overlap = 4\<rparr> example_normalized).
      contains (lit ''gamma'') (sc_content k)"
    using chunks_preserve_evidence [OF chunker, of example_normalized]
    by (auto simp: example_normalized_def)
  ultimately show ?thesis
    by blast
qed

end
