(* ===== verification/Indexing.thy ===== *)
theory Indexing
  imports Database Chunking
begin

text \<open>
  Choosing a provider for a job and turning a source into searchable chunks
  (\<^verbatim>\<open>ingestion/application/pipeline.py\<close>, with the secrets of \<^verbatim>\<open>core/credentials.py\<close> and
  \<^verbatim>\<open>has_indexed_chunks\<close> of \<^verbatim>\<open>model_catalog.py\<close>). The vault, the legacy decryption, the provider
  registry and the calendar are an environment; the SQL order of the credentials is the one
  PostgreSQL documents.
\<close>

section \<open>Environment\<close>

record settings =
  se_embedding_model :: pystr
  se_embedding_dimensions :: nat
  se_transcription_model :: pystr
  se_extraction_model :: pystr
  se_answer_model :: pystr
  se_provider_default_models :: model_defaults
  se_provider_fallback_models :: model_defaults
  se_chunk_size_chars :: int
  se_chunk_overlap_chars :: int

record provider_env =
  pv_reveal :: "uuid \<Rightarrow> pystr option"
  pv_decrypt :: "pystr \<Rightarrow> pystr option"
  pv_adapter :: "credential_row \<Rightarrow> adapter option"
  pv_parse_uuid :: "pystr \<Rightarrow> uuid option"
  pv_today :: int
  pv_settings :: settings

section \<open>Secrets\<close>

text \<open>\<open>None\<close> is \<^verbatim>\<open>CredentialUnavailableError\<close>.\<close>

definition resolve_credential_secret :: "provider_env \<Rightarrow> credential_row \<Rightarrow> pystr option" where
  "resolve_credential_secret env c =
     (if cd_provider c = lit ''ollama'' then
        (case cd_vault_secret_id c of Some v \<Rightarrow> truthy (pv_reveal env v) | None \<Rightarrow> Some [])
      else (case cd_vault_secret_id c of
          Some v \<Rightarrow> truthy (pv_reveal env v)
        | None \<Rightarrow> (case truthy (cd_encrypted_secret c) of
            None \<Rightarrow> None | Some e \<Rightarrow> pv_decrypt env e)))"

section \<open>Provider resolution\<close>

text \<open>The messages of an \<^verbatim>\<open>IngestionError\<close> by name; \<open>ProviderSaid\<close> repeats the provider's own
  and has its error as the cause.\<close>

datatype ingestion_message = ProviderSaid provider_error | NothingToProcess | EmbeddingCount | EmbeddingDimensions

datatype pipeline_error =
    IngestionFailed ingestion_message
  | MissingCapability capability "pystr list option" bool

record resolved_provider =
  rv_adapter :: adapter
  rv_api_key :: pystr
  rv_model :: pystr
  rv_credential_id :: uuid
  rv_workspace_scope :: bool

definition fallback_model :: "settings \<Rightarrow> model_role \<Rightarrow> pystr" where
  "fallback_model s role = (case role of RoleAnswer \<Rightarrow> se_answer_model s
     | RoleExtraction \<Rightarrow> se_extraction_model s | RoleEmbedding \<Rightarrow> se_embedding_model s
     | RoleTranscription \<Rightarrow> se_transcription_model s)"

definition default_model :: "settings \<Rightarrow> pystr \<Rightarrow> model_role \<Rightarrow> pystr" where
  "default_model s provider role =
     (if role = RoleEmbedding then se_embedding_model s
      else case truthy (se_provider_fallback_models s provider (model_role_value role)) of
        Some m \<Rightarrow> m
      | None \<Rightarrow> (case truthy (se_provider_default_models s provider (model_role_value role)) of
          Some m \<Rightarrow> m | None \<Rightarrow> fallback_model s role))"

text \<open>A descending sort of a nullable boolean: PostgreSQL puts nulls first.\<close>

fun desc_rank :: "bool option \<Rightarrow> nat" where
  "desc_rank None = 0"
| "desc_rank (Some True) = 1"
| "desc_rank (Some False) = 2"

text \<open>\<^verbatim>\<open>workspace_id = :workspace_id\<close>, which is null where the column is.\<close>

definition in_workspace :: "uuid \<Rightarrow> credential_row \<Rightarrow> bool option" where
  "in_workspace ws c = map_option (\<lambda>w. w = ws) (cd_workspace_id c)"

definition credential_order :: "uuid \<Rightarrow> credential_row \<Rightarrow> nat \<times> bool \<times> instant" where
  "credential_order ws c = (desc_rank (in_workspace ws c), \<not> cd_is_default c, cd_created_at c)"

definition usable_credentials :: "uuid \<Rightarrow> uuid \<Rightarrow> credential_row list \<Rightarrow> credential_row list" where
  "usable_credentials ws owner table = sort_key (credential_order ws) (filter (\<lambda>c.
     (cd_workspace_id c = Some ws \<or> (cd_workspace_id c = None \<and> cd_owner_id c = owner))
     \<and> cd_status c = lit ''active'') table)"

definition candidate_credentials ::
  "uuid \<Rightarrow> model_option option \<Rightarrow> uuid option \<Rightarrow> credential_row list \<Rightarrow> credential_row list" where
  "candidate_credentials owner chosen forced cs =
     (let own = (case forced of None \<Rightarrow> cs
        | Some i \<Rightarrow> filter (\<lambda>c. cd_id c = i \<and> cd_workspace_id c = None \<and> cd_owner_id c = owner) cs)
      in (case (chosen, forced) of
          (Some o', None) \<Rightarrow> filter (\<lambda>c. cd_provider c = mo_provider o'
             \<and> (mo_credential_id o' = None \<or> Some (cd_id c) = mo_credential_id o'
                \<or> (\<forall>item \<in> set own. Some (cd_id item) \<noteq> mo_credential_id o'))) own
        | _ \<Rightarrow> own))"

definition offers_model :: "provider_env \<Rightarrow> adapter \<Rightarrow> pystr \<Rightarrow> pystr \<Rightarrow> bool" where
  "offers_model env a key model = (case ad_list_model_infos a key of
     Inl e \<Rightarrow> False
   | Inr infos \<Rightarrow> (\<exists>info \<in> set infos. mi_id info = model \<and> not_retired (pv_today env) info))"

definition try_credential ::
  "provider_env \<Rightarrow> model_role \<Rightarrow> model_option option \<Rightarrow> bool \<Rightarrow> credential_row \<Rightarrow> resolved_provider option" where
  "try_credential env role chosen needs_key_match c = (case pv_adapter env c of
     None \<Rightarrow> None
   | Some a \<Rightarrow> if role_capability role \<notin> set (ad_capabilities a) then None
     else (case resolve_credential_secret env c of
       None \<Rightarrow> None
     | Some key \<Rightarrow> (let found = (\<lambda>model. Some \<lparr>rv_adapter = a, rv_api_key = key, rv_model = model,
             rv_credential_id = cd_id c, rv_workspace_scope = (cd_workspace_id c \<noteq> None)\<rparr>)
         in (case chosen of
             Some o' \<Rightarrow> if needs_key_match \<and> \<not> offers_model env a key (mo_model o') then None
               else found (mo_model o')
           | None \<Rightarrow> found (default_model (pv_settings env) (cd_provider c) role)))))"

definition provider_with_model ::
  "provider_env \<Rightarrow> app_db \<Rightarrow> uuid \<Rightarrow> uuid \<Rightarrow> model_role \<Rightarrow> uuid option
    \<Rightarrow> pipeline_error + resolved_provider" where
  "provider_with_model env db ws owner role forced =
     (let chosen = selection_of (pv_parse_uuid env)
            (map_option wk_model_settings (row_get wk_id ws (ab_workspaces db))) role;
          cs = candidate_credentials owner chosen forced
            (usable_credentials ws owner (ab_credentials db));
          stored = (if forced = None then chosen else None);
          needs_key_match = (chosen \<noteq> None \<and> mo_credential_id (the chosen) = None \<and> length cs > 1)
      in (case first_of (try_credential env role stored needs_key_match) cs of
          Some p \<Rightarrow> Inr p
        | None \<Rightarrow> (case stored of
            Some o' \<Rightarrow> Inl (MissingCapability (role_capability role) (Some [mo_provider o']) True)
          | None \<Rightarrow> Inl (MissingCapability (role_capability role) None False))))"

section \<open>Indexing\<close>

definition embedding_dimensions_argument :: "pystr \<Rightarrow> nat \<Rightarrow> int option" where
  "embedding_dimensions_argument model dimensions =
     (if prefix (lit ''text-embedding-3'') model then Some (int dimensions) else None)"

definition has_indexed_chunks :: "uuid \<Rightarrow> app_db \<Rightarrow> bool" where
  "has_indexed_chunks ws db \<longleftrightarrow>
     (\<exists>k \<in> set (ab_chunks db). ck_workspace_id k = ws \<and> ck_embedding k \<noteq> None)"

definition provenance :: "resolved_provider \<Rightarrow> (pystr \<times> json) list" where
  "provenance p = [(lit ''generationMethod'', JStr (lit ''service_model'')),
     (lit ''provenanceTrust'', JStr (lit ''verified_runtime'')),
     (lit ''provider'', JStr (ad_id (rv_adapter p))), (lit ''model'', JStr (rv_model p)),
     (lit ''credentialScope'', JStr (lit (if rv_workspace_scope p then ''workspace'' else ''account''))),
     (lit ''credentialId'', JStr (uuid_str (rv_credential_id p)))]"

definition transcribe ::
  "provider_env \<Rightarrow> stamp \<Rightarrow> source_row \<Rightarrow> 8 word list \<Rightarrow> app_db
    \<Rightarrow> pipeline_error + transcription_response \<times> app_db" where
  "transcribe env st s audio db =
     rbind (provider_with_model env db (so_workspace_id s) (so_owner_id s) RoleTranscription None) (\<lambda>p.
     (case ad_transcribe (rv_adapter p) \<lparr>tq_audio = audio, tq_filename = so_title s,
          tq_content_type = so_content_type s, tq_model = rv_model p, tq_language = None\<rparr>
          (rv_api_key p) of
        Inl e \<Rightarrow> Inl (IngestionFailed (ProviderSaid e))
      | Inr response \<Rightarrow> Inr (response, add_audit_event st
          (system_event s ''transcription.completed'' (provenance p)) db)))"

text \<open>The chunker is built from the settings with the pipeline; settings it rejects stop the
  pipeline's construction.\<close>

definition pipeline_chunker :: "settings \<Rightarrow> py_error + chunker" where
  "pipeline_chunker s = make_chunker (se_chunk_size_chars s) (se_chunk_overlap_chars s)"

text \<open>What indexing raises: a domain model's \<^verbatim>\<open>ValueError\<close>, or an ingestion error.\<close>

datatype index_error = IndexPyError py_error | IndexError pipeline_error

fun lift_error :: "('e \<Rightarrow> 'f) \<Rightarrow> 'e + 'a \<Rightarrow> 'f + 'a" where
  "lift_error f (Inl e) = Inl (f e)"
| "lift_error f (Inr x) = Inr x"

definition index_args :: "source_row \<Rightarrow> pystr option \<Rightarrow> normalize_args" where
  "index_args s language = \<lparr>na_source_id = so_id s, na_workspace_id = so_workspace_id s,
     na_title = so_title s, na_source = None, na_language = language,
     na_metadata = [(lit ''transcriptSource'', case so_transcript_source s of None \<Rightarrow> JNull
       | Some FromServer \<Rightarrow> JStr (lit ''server'') | Some FromBrowser \<Rightarrow> JStr (lit ''browser'')
       | Some FromAgent \<Rightarrow> JStr (lit ''agent''))]\<rparr>"

fun kind_value :: "source_kind \<Rightarrow> pystr" where
  "kind_value DocumentKind = lit ''document''"
| "kind_value MeetingKind = lit ''meeting''"

definition embed_chunks ::
  "provider_env \<Rightarrow> resolved_provider \<Rightarrow> source_chunk list \<Rightarrow> pipeline_error + py_float list list" where
  "embed_chunks env p chunks =
     (let dims = se_embedding_dimensions (pv_settings env) in
      (case ad_embedding (rv_adapter p) \<lparr>eq_input = map sc_content chunks, eq_model = rv_model p,
           eq_dimensions = embedding_dimensions_argument (rv_model p) dims, eq_provider_options = []\<rparr>
           (rv_api_key p) of
         Inl e \<Rightarrow> Inl (IngestionFailed (ProviderSaid e))
       | Inr response \<Rightarrow>
           if length (er_embeddings response) \<noteq> length chunks
             then Inl (IngestionFailed EmbeddingCount)
           else if \<exists>v \<in> set (er_embeddings response). length v \<noteq> dims
             then Inl (IngestionFailed EmbeddingDimensions)
           else Inr (er_embeddings response)))"

text \<open>The text of a missing capability without a selection: the capability, then "is not supported by
  any API key" in Korean.\<close>

fun capability_value :: "capability \<Rightarrow> pystr" where
  "capability_value CapChat = lit ''chat''"
| "capability_value CapStructuredOutput = lit ''structuredOutput''"
| "capability_value CapEmbedding = lit ''embedding''"
| "capability_value CapTranscription = lit ''transcription''"
| "capability_value CapStream = lit ''stream''"

definition no_key_suffix :: pystr where
  "no_key_suffix = [51012, 32, 51648, 50896, 54616, 45716, 32, 65, 80, 73, 32, 107, 101, 121, 44032, 32, 50630, 49845, 45768, 45796, 46]"

text \<open>The embeddings of the chunks and the audit event that tells how they came about.\<close>

definition choose_embeddings ::
  "provider_env \<Rightarrow> source_row \<Rightarrow> source_chunk list \<Rightarrow> app_db
    \<Rightarrow> pipeline_error + py_float list option list \<times> audit_event" where
  "choose_embeddings env s chunks db =
     (case provider_with_model env db (so_workspace_id s) (so_owner_id s) RoleEmbedding None of
        Inl (MissingCapability cap ps selected) \<Rightarrow>
          if selected \<or> has_indexed_chunks (so_workspace_id s) db
          then Inl (MissingCapability cap ps selected)
          else Inr (map (\<lambda>_. None) chunks, system_event s ''embedding.skipped''
            [(lit ''generationMethod'', JStr (lit ''lexical_fallback'')),
             (lit ''reason'', JStr (capability_value cap @ no_key_suffix))])
      | Inl e \<Rightarrow> Inl e
      | Inr p \<Rightarrow> rbind (embed_chunks env p chunks) (\<lambda>es. Inr (map Some es,
          system_event s ''embedding.completed''
            (provenance p @ [(lit ''chunkCount'', JInt (int (length chunks)))]))))"

definition chunk_row_of :: "stamp \<Rightarrow> source_row \<Rightarrow> nat \<times> source_chunk \<times> py_float list option \<Rightarrow> chunk_row" where
  "chunk_row_of st s = (\<lambda>(n, k, e). \<lparr>ck_id = st_fresh st n, ck_workspace_id = so_workspace_id s,
     ck_source_id = so_id s, ck_owner_id = so_owner_id s, ck_position = sc_position k,
     ck_content = sc_content k, ck_start_seconds = sc_start_seconds k,
     ck_end_seconds = sc_end_seconds k, ck_embedding = e, ck_created_at = st_now st\<rparr>)"

definition replace_chunks :: "stamp \<Rightarrow> source_row \<Rightarrow> source_chunk list \<Rightarrow> py_float list option list
    \<Rightarrow> app_db \<Rightarrow> app_db" where
  "replace_chunks st s chunks es db = db\<lparr>ab_chunks :=
     filter (\<lambda>k. ck_source_id k \<noteq> so_id s) (ab_chunks db)
     @ map (chunk_row_of st s) (enumerate 0 (zip chunks es))\<rparr>"

definition index_source ::
  "provider_env \<Rightarrow> uuid5_fn \<Rightarrow> stamp \<Rightarrow> chunker \<Rightarrow> source_row \<Rightarrow> raw_segments \<Rightarrow> pystr option
    \<Rightarrow> app_db \<Rightarrow> index_error + nat \<times> app_db" where
  "index_source env uuid5 st c s segments language db =
     rbind (lift_error IndexPyError
       (normalize_service uuid5 (kind_value (so_kind s)) (index_args s language) segments)) (\<lambda>normalized.
     (let chunks = chunk c normalized in
      if chunks = [] then Inl (IndexError (IngestionFailed NothingToProcess))
      else rbind (lift_error IndexError (choose_embeddings env s chunks db)) (\<lambda>(es, event).
        Inr (length chunks, replace_chunks st s chunks es (add_audit_event st event db)))))"

definition embed_query ::
  "provider_env \<Rightarrow> app_db \<Rightarrow> uuid \<Rightarrow> uuid \<Rightarrow> pystr \<Rightarrow> index_error + py_float list" where
  "embed_query env db ws owner query =
     rbind (lift_error IndexError (provider_with_model env db ws owner RoleEmbedding None)) (\<lambda>p.
     (let dims = se_embedding_dimensions (pv_settings env) in
      (case ad_embedding (rv_adapter p) \<lparr>eq_input = [query], eq_model = rv_model p,
           eq_dimensions = embedding_dimensions_argument (rv_model p) dims, eq_provider_options = []\<rparr>
           (rv_api_key p) of
         Inl e \<Rightarrow> Inl (IndexError (IngestionFailed (ProviderSaid e)))
       | Inr response \<Rightarrow> (case er_embeddings response of
           [] \<Rightarrow> Inl (IndexPyError PyIndexError)
         | e # _ \<Rightarrow> if length e \<noteq> dims then Inl (IndexError (IngestionFailed EmbeddingDimensions))
             else Inr e))))"

text \<open>Cosine distance is the vector extension's; the statement is filtered, ordered and cut.\<close>

definition search_by_embedding ::
  "(py_float list \<Rightarrow> py_float list \<Rightarrow> py_float) \<Rightarrow> app_db \<Rightarrow> uuid \<Rightarrow> uuid \<Rightarrow> py_float list \<Rightarrow> nat
    \<Rightarrow> uuid list option \<Rightarrow> (chunk_row \<times> py_float) list" where
  "search_by_embedding cosine db ws owner embedding limit source_ids =
     take limit (sort_key snd (map (\<lambda>k. (k, cosine (the (ck_embedding k)) embedding))
       (filter (\<lambda>k. ck_workspace_id k = ws \<and> ck_owner_id k = owner \<and> ck_embedding k \<noteq> None
         \<and> (case source_ids of None \<Rightarrow> True | Some is \<Rightarrow> ck_source_id k \<in> set is)) (ab_chunks db))))"

definition search ::
  "(py_float list \<Rightarrow> py_float list \<Rightarrow> py_float) \<Rightarrow> provider_env \<Rightarrow> app_db \<Rightarrow> uuid \<Rightarrow> uuid \<Rightarrow> pystr \<Rightarrow> nat
    \<Rightarrow> uuid list option \<Rightarrow> index_error + (chunk_row \<times> py_float) list" where
  "search cosine env db ws owner query limit source_ids =
     rbind (embed_query env db ws owner query) (\<lambda>embedding.
       Inr (search_by_embedding cosine db ws owner embedding limit source_ids))"


section \<open>Which connection is used\<close>

lemma set_usable: "set (usable_credentials ws owner table) = {c \<in> set table.
    (cd_workspace_id c = Some ws \<or> (cd_workspace_id c = None \<and> cd_owner_id c = owner))
    \<and> cd_status c = lit ''active''}"
  by (auto simp: usable_credentials_def)

lemma candidate_subset:
  assumes "c \<in> set (candidate_credentials owner chosen forced cs)"
  shows "c \<in> set cs \<and> (\<forall>i. forced = Some i \<longrightarrow> cd_id c = i \<and> cd_workspace_id c = None \<and> cd_owner_id c = owner)
    \<and> (\<forall>x. chosen = Some x \<and> forced = None \<longrightarrow> cd_provider c = mo_provider x)"
  using assms by (auto simp: candidate_credentials_def Let_def split: option.splits)

lemma try_credential_Some:
  assumes "try_credential env role chosen needs c = Some p"
  shows "pv_adapter env c = Some (rv_adapter p) \<and> role_capability role \<in> set (ad_capabilities (rv_adapter p))
    \<and> resolve_credential_secret env c = Some (rv_api_key p) \<and> rv_credential_id p = cd_id c
    \<and> rv_workspace_scope p = (cd_workspace_id c \<noteq> None)
    \<and> rv_model p = (case chosen of Some x \<Rightarrow> mo_model x
        | None \<Rightarrow> default_model (pv_settings env) (cd_provider c) role)"
  using assms by (auto simp: try_credential_def Let_def split: option.splits if_splits)

definition stored_choice :: "provider_env \<Rightarrow> app_db \<Rightarrow> uuid \<Rightarrow> model_role \<Rightarrow> model_option option" where
  "stored_choice env db ws role = selection_of (pv_parse_uuid env)
     (map_option wk_model_settings (row_get wk_id ws (ab_workspaces db))) role"

lemma provider_with_model_cases:
  obtains (found) c p needs where "provider_with_model env db ws owner role forced = Inr p"
      "c \<in> set (candidate_credentials owner (stored_choice env db ws role) forced
          (usable_credentials ws owner (ab_credentials db)))"
      "try_credential env role (if forced = None then stored_choice env db ws role else None) needs c = Some p"
  | (missing) ps sel where "provider_with_model env db ws owner role forced
        = Inl (MissingCapability (role_capability role) ps sel)"
      "sel \<longleftrightarrow> forced = None \<and> stored_choice env db ws role \<noteq> None"
proof -
  define stored where "stored = (if forced = None then stored_choice env db ws role else None)"
  define cs where "cs = candidate_credentials owner (stored_choice env db ws role) forced
    (usable_credentials ws owner (ab_credentials db))"
  define needs where "needs = (stored_choice env db ws role \<noteq> None
    \<and> mo_credential_id (the (stored_choice env db ws role)) = None \<and> length cs > 1)"
  have run: "provider_with_model env db ws owner role forced = (case first_of (try_credential env role stored needs) cs of
      Some p \<Rightarrow> Inr p
    | None \<Rightarrow> (case stored of Some x \<Rightarrow> Inl (MissingCapability (role_capability role) (Some [mo_provider x]) True)
      | None \<Rightarrow> Inl (MissingCapability (role_capability role) None False)))"
    by (simp only: provider_with_model_def stored_choice_def [symmetric] stored_def cs_def needs_def Let_def)
  show thesis
  proof (cases "first_of (try_credential env role stored needs) cs")
    case None
    then show thesis
      using run missing by (cases stored) (auto simp: stored_def split: if_splits)
  next
    case (Some p)
    then show thesis
      using run found first_of_Some [OF Some] by (auto simp: cs_def stored_def)
  qed
qed

lemma first_of_key_order:
  assumes "first_of f (sort_key k xs) = Some p" "x \<in> set xs" "f x \<noteq> None"
  shows "\<exists>y \<in> set xs. f y = Some p \<and> k y \<le> k x"
proof -
  have "\<exists>y \<in> set ys. f y = Some p \<and> k y \<le> k x"
    if "first_of f ys = Some p" "x \<in> set ys" "sorted (map k ys)" for ys
    using that assms(3) by (induction ys) (auto split: option.splits)
  from this [of "sort_key k xs"] show ?thesis
    using assms(1,2) by simp
qed

lemma account_before_workspace:
  assumes "credential_order ws c \<le> credential_order ws d" "cd_workspace_id d = None"
  shows "cd_workspace_id c = None"
  using assms by (cases "cd_workspace_id c"; cases "the (cd_workspace_id c) = ws")
    (auto simp: credential_order_def in_workspace_def less_eq_prod_def)

section \<open>What indexing does\<close>

definition vectors_ok :: "nat \<Rightarrow> uuid \<Rightarrow> app_db \<Rightarrow> bool" where
  "vectors_ok dims ws db \<longleftrightarrow> (\<forall>k \<in> set (ab_chunks db). ck_workspace_id k = ws \<longrightarrow>
     (\<forall>e. ck_embedding k = Some e \<longrightarrow> length e = dims))"

lemma embed_chunks_Inr:
  "embed_chunks env p chunks = Inr es \<Longrightarrow> length es = length chunks
    \<and> (\<forall>e \<in> set es. length e = se_embedding_dimensions (pv_settings env))"
  by (auto simp: embed_chunks_def Let_def split: sum.splits if_splits)

lemma choose_embeddings_Inr:
  assumes "choose_embeddings env s chunks db = Inr (es, event)"
  shows "length es = length chunks \<and> ae_workspace_id event = so_workspace_id s
    \<and> ((\<forall>e \<in> set es. e = None) \<and> \<not> has_indexed_chunks (so_workspace_id s) db
        \<and> stored_choice env db (so_workspace_id s) RoleEmbedding = None
      \<or> (\<forall>e \<in> set es. \<exists>v. e = Some v \<and> length v = se_embedding_dimensions (pv_settings env)))"
proof (cases rule: provider_with_model_cases [of env db "so_workspace_id s" "so_owner_id s" RoleEmbedding None])
  case (found c p needs)
  then show ?thesis
    using assms embed_chunks_Inr [of env p chunks]
    by (auto simp: choose_embeddings_def rbind_Inr_iff system_event_def)
next
  case (missing ps sel)
  then show ?thesis
    using assms by (auto simp: choose_embeddings_def system_event_def split: if_splits)
qed

lemma replaced_chunks:
  assumes "length es = length chunks"
  shows "source_chunks i (replace_chunks st s chunks es db) = (if i = so_id s
      then map (chunk_row_of st s) (enumerate 0 (zip chunks es)) else source_chunks i db)"
    and "map ck_content (map (chunk_row_of st s) (enumerate 0 (zip chunks es))) = map sc_content chunks"
    and "map ck_position (map (chunk_row_of st s) (enumerate 0 (zip chunks es))) = map sc_position chunks"
    and "map ck_embedding (map (chunk_row_of st s) (enumerate 0 (zip chunks es))) = es"
proof -
  have "ck_source_id (chunk_row_of st s x) = so_id s" for x
    by (simp add: chunk_row_of_def split_beta)
  then have "filter (\<lambda>k. ck_source_id k = i) (map (chunk_row_of st s) xs)
      = (if i = so_id s then map (chunk_row_of st s) xs else [])" for xs
    by (induction xs) auto
  then show "source_chunks i (replace_chunks st s chunks es db) = (if i = so_id s
      then map (chunk_row_of st s) (enumerate 0 (zip chunks es)) else source_chunks i db)"
    by (auto simp: source_chunks_def replace_chunks_def filter_empty_conv intro!: filter_cong)
  have "ck_content \<circ> chunk_row_of st s = (sc_content \<circ> fst) \<circ> snd"
    "ck_position \<circ> chunk_row_of st s = (sc_position \<circ> fst) \<circ> snd"
    "ck_embedding \<circ> chunk_row_of st s = snd \<circ> snd"
    by (auto simp: chunk_row_of_def)
  then show "map ck_content (map (chunk_row_of st s) (enumerate 0 (zip chunks es))) = map sc_content chunks"
    "map ck_position (map (chunk_row_of st s) (enumerate 0 (zip chunks es))) = map sc_position chunks"
    "map ck_embedding (map (chunk_row_of st s) (enumerate 0 (zip chunks es))) = es"
    unfolding map_map using assms by (simp_all only: map_enumerate) (simp_all flip: map_map)
qed

lemma index_source_Inr:
  assumes "index_source env uuid5 st c s segments language db = Inr (n, db')"
  obtains normalized es event where
    "normalize_service uuid5 (kind_value (so_kind s)) (index_args s language) segments = Inr normalized"
    "choose_embeddings env s (chunk c normalized) db = Inr (es, event)"
    "db' = replace_chunks st s (chunk c normalized) es (add_audit_event st event db)"
    "n = length (chunk c normalized)" "chunk c normalized \<noteq> []"
proof -
  obtain normalized where normalized:
    "normalize_service uuid5 (kind_value (so_kind s)) (index_args s language) segments = Inr normalized"
    using assms by (cases "normalize_service uuid5 (kind_value (so_kind s)) (index_args s language) segments")
      (auto simp: index_source_def)
  moreover have nonempty: "chunk c normalized \<noteq> []"
    using assms normalized by (auto simp: index_source_def Let_def)
  moreover obtain es event where "choose_embeddings env s (chunk c normalized) db = Inr (es, event)"
    using assms normalized nonempty by (cases "choose_embeddings env s (chunk c normalized) db")
      (auto simp: index_source_def Let_def)
  ultimately show thesis
    using assms that by (auto simp: index_source_def Let_def)
qed

lemma index_source_facts:
  assumes "index_source env uuid5 st c s segments language db = Inr (n, db')"
  shows "map ck_position (source_chunks (so_id s) db') = [0..<n] \<and> 0 < n
    \<and> (\<forall>i. i \<noteq> so_id s \<longrightarrow> source_chunks i db' = source_chunks i db)
    \<and> db' = (db\<lparr>ab_chunks := ab_chunks db', ab_audit := ab_audit db'\<rparr>)
    \<and> length (ab_audit db') = length (ab_audit db) + 1
    \<and> ((\<forall>k \<in> set (source_chunks (so_id s) db'). ck_embedding k = None)
          \<and> \<not> has_indexed_chunks (so_workspace_id s) db
          \<and> stored_choice env db (so_workspace_id s) RoleEmbedding = None
        \<or> (\<forall>k \<in> set (source_chunks (so_id s) db'). \<exists>v. ck_embedding k = Some v
            \<and> length v = se_embedding_dimensions (pv_settings env)))
    \<and> (\<forall>ws. vectors_ok (se_embedding_dimensions (pv_settings env)) ws db
        \<longrightarrow> vectors_ok (se_embedding_dimensions (pv_settings env)) ws db')"
  using assms
proof (rule index_source_Inr)
  fix normalized es event
  let ?dims = "se_embedding_dimensions (pv_settings env)"
  let ?chunks = "chunk c normalized"
  assume es: "choose_embeddings env s ?chunks db = Inr (es, event)"
    and db': "db' = replace_chunks st s ?chunks es (add_audit_event st event db)"
    and n: "n = length ?chunks" "?chunks \<noteq> []"
  note chosen = choose_embeddings_Inr [OF es]
  have len: "length es = length ?chunks"
    using chosen by blast
  define rows where "rows = map (chunk_row_of st s) (enumerate 0 (zip ?chunks es))"
  have own: "source_chunks (so_id s) db' = rows"
    and others: "\<And>i. i \<noteq> so_id s \<Longrightarrow> source_chunks i db' = source_chunks i db"
    using replaced_chunks(1) [OF len] by (auto simp: db' rows_def source_chunks_def)
  have pos: "map ck_position rows = [0..<n]" and emb: "map ck_embedding rows = es"
    using replaced_chunks(3,4) [OF len] chunk_positions [of c normalized] n by (simp_all add: rows_def)
  have row_emb: "ck_embedding k \<in> set es" if "k \<in> set rows" for k
    using that emb by (metis image_eqI list.set_map)
  have modes: "(\<forall>k \<in> set rows. ck_embedding k = None) \<and> \<not> has_indexed_chunks (so_workspace_id s) db
      \<and> stored_choice env db (so_workspace_id s) RoleEmbedding = None
    \<or> (\<forall>k \<in> set rows. \<exists>v. ck_embedding k = Some v \<and> length v = ?dims)"
    using chosen row_emb by blast
  have "vectors_ok ?dims ws db'" if ok: "vectors_ok ?dims ws db" for ws
    unfolding vectors_ok_def
  proof (intro ballI impI allI)
    fix k e
    assume k: "k \<in> set (ab_chunks db')" "ck_workspace_id k = ws" "ck_embedding k = Some e"
    then have "k \<in> set (ab_chunks db) \<or> k \<in> set rows"
      by (auto simp: db' replace_chunks_def rows_def)
    then show "length e = ?dims"
      using k ok modes unfolding vectors_ok_def by fastforce
  qed
  moreover have "db' = (db\<lparr>ab_chunks := ab_chunks db', ab_audit := ab_audit db'\<rparr>)"
    "length (ab_audit db') = length (ab_audit db) + 1"
    by (simp_all add: db' replace_chunks_def add_audit_event_def)
  ultimately show ?thesis
    using own others pos n modes by simp
qed

section \<open>Properties\<close>

text \<open>C20: A resolved provider is an active connection of the workspace or of the requester's account
  whose adapter has the capability of the role and whose secret could be read; a model the
  workspace chose is used as chosen, with the provider it was chosen from, and a forced
  connection is one of the requester's own.\<close>

theorem provider_resolution_sound:
  assumes "provider_with_model env db ws owner role forced = Inr p"
  shows "\<exists>c \<in> set (ab_credentials db). cd_id c = rv_credential_id p \<and> cd_status c = lit ''active''
    \<and> (cd_workspace_id c = Some ws \<or> (cd_workspace_id c = None \<and> cd_owner_id c = owner))
    \<and> pv_adapter env c = Some (rv_adapter p) \<and> role_capability role \<in> set (ad_capabilities (rv_adapter p))
    \<and> resolve_credential_secret env c = Some (rv_api_key p)
    \<and> (\<forall>i. forced = Some i \<longrightarrow> cd_id c = i \<and> cd_workspace_id c = None \<and> cd_owner_id c = owner)
    \<and> (\<forall>x. forced = None \<and> stored_choice env db ws role = Some x \<longrightarrow>
        cd_provider c = mo_provider x \<and> rv_model p = mo_model x)"
proof (cases rule: provider_with_model_cases [of env db ws owner role forced])
  case (found c p' needs)
  then have "p' = p"
    using assms by simp
  then show ?thesis
    using candidate_subset [OF found(2)] try_credential_Some [OF found(3)]
    by (intro bexI [of _ c]) (auto simp: set_usable)
qed (use assms in simp)

definition example_settings :: settings where
  "example_settings = \<lparr>se_embedding_model = lit ''e'', se_embedding_dimensions = 2,
     se_transcription_model = lit ''t'', se_extraction_model = lit ''x'', se_answer_model = lit ''a'',
     se_provider_default_models = (\<lambda>_ _. None), se_provider_fallback_models = (\<lambda>_ _. None),
     se_chunk_size_chars = 1200, se_chunk_overlap_chars = 200\<rparr>"

definition example_env :: provider_env where
  "example_env = \<lparr>pv_reveal = (\<lambda>_. Some (lit ''secret'')), pv_decrypt = (\<lambda>_. None),
     pv_adapter = (\<lambda>_. Some (sample_adapter\<lparr>ad_capabilities := [CapChat, CapEmbedding]\<rparr>)),
     pv_parse_uuid = (\<lambda>_. None), pv_today = 0, pv_settings = example_settings\<rparr>"

definition example_credential :: "uuid \<Rightarrow> uuid option \<Rightarrow> credential_row" where
  "example_credential i ws = \<lparr>cd_id = i, cd_workspace_id = ws, cd_owner_id = 2,
     cd_provider = lit ''openai'', cd_label = [], cd_vault_secret_id = Some 5, cd_base_url = None,
     cd_encrypted_secret = None, cd_key_hint = [], cd_status = lit ''active'', cd_is_default = False,
     cd_created_at = 3, cd_updated_at = 3\<rparr>"

definition example_db :: app_db where
  "example_db = empty_db\<lparr>ab_credentials := [example_credential 50 (Some 1), example_credential 51 None],
     ab_sources := [example_source]\<rparr>"

lemma example_resolution:
  "provider_with_model example_env example_db 1 2 RoleEmbedding None = Inr \<lparr>rv_adapter =
      sample_adapter\<lparr>ad_capabilities := [CapChat, CapEmbedding]\<rparr>, rv_api_key = lit ''secret'',
      rv_model = lit ''e'', rv_credential_id = 51, rv_workspace_scope = False\<rparr>"
  by (simp add: provider_with_model_def selection_of_def candidate_credentials_def usable_credentials_def
      example_db_def empty_db_def example_credential_def credential_order_def in_workspace_def
      try_credential_def example_env_def resolve_credential_secret_def default_model_def
      example_settings_def Let_def lit_def)

theorem provider_resolution_sound_witness:
  "\<exists>c \<in> set (ab_credentials example_db). cd_id c = 51 \<and> resolve_credential_secret example_env c = Some (lit ''secret'')"
  using provider_resolution_sound [OF example_resolution] by auto

text \<open>The docstring promises that a shared workspace connection is used before the requester's
  account connection; the statement orders by \<open>workspace_id = :id\<close> descending, which is null for an
  account connection, and PostgreSQL sorts nulls first. So while the workspace stored no choice,
  a working account connection always wins over the workspace's.\<close>

theorem account_connection_wins:
  assumes "provider_with_model env db ws owner role None = Inr p"
    and "stored_choice env db ws role = None"
    and "c \<in> set (ab_credentials db)" and "cd_workspace_id c = None" and "cd_owner_id c = owner"
    and "cd_status c = lit ''active''" and "try_credential env role None False c \<noteq> None"
  shows "\<not> rv_workspace_scope p"
proof -
  let ?ok = "\<lambda>c. (cd_workspace_id c = Some ws \<or> (cd_workspace_id c = None \<and> cd_owner_id c = owner))
    \<and> cd_status c = lit ''active''"
  have "first_of (try_credential env role None False)
      (sort_key (credential_order ws) (filter ?ok (ab_credentials db))) = Some p"
    using assms(1,2) by (simp add: provider_with_model_def stored_choice_def candidate_credentials_def
        usable_credentials_def Let_def split: option.splits)
  then obtain d where "try_credential env role None False d = Some p"
    "credential_order ws d \<le> credential_order ws c"
    using first_of_key_order [of "try_credential env role None False" "credential_order ws"] assms(3-7)
    by fastforce
  then show ?thesis
    using account_before_workspace assms(4) try_credential_Some by blast
qed

theorem account_connection_wins_witness:
  "example_credential 50 (Some 1) \<in> set (ab_credentials example_db)
    \<and> \<not> (\<exists>p. provider_with_model example_env example_db 1 2 RoleEmbedding None = Inr p \<and> rv_workspace_scope p)"
proof -
  have "example_credential 51 None \<in> set (ab_credentials example_db)"
    "cd_workspace_id (example_credential 51 None) = None" "cd_owner_id (example_credential 51 None) = 2"
    "cd_status (example_credential 51 None) = lit ''active''"
    "stored_choice example_env example_db 1 RoleEmbedding = None"
    "try_credential example_env RoleEmbedding None False (example_credential 51 None) \<noteq> None"
    by (simp_all add: example_db_def example_credential_def stored_choice_def selection_of_def empty_db_def
        try_credential_def example_env_def resolve_credential_secret_def lit_def Let_def)
  then show ?thesis
    using account_connection_wins [OF example_resolution] example_resolution
    by (auto simp: example_db_def)
qed



end
