(* ===== verification/DirectoryResolution.thy ===== *)
theory DirectoryResolution
  imports Rows EntityResolution
begin

text \<open>
  Attaching directory identities to extracted people and projects
  (\<^verbatim>\<open>context_engine/application/directory_resolution.py\<close>): an entity takes the name and the
  identifier of a directory entry only where the source quotes it and exactly one entry
  matches. The identifiers of that namespace are reserved: a model cannot assert one.
\<close>

section \<open>Directory entries\<close>

record dir_entry =
  de_id :: uuid
  de_name :: pystr
  de_aliases :: "pystr list"
  de_email :: "pystr option"

definition person_entry :: "snapshot_person \<Rightarrow> dir_entry" where
  "person_entry p = \<lparr>de_id = dp_id p, de_name = dp_name p, de_aliases = dp_aliases p, de_email = dp_email p\<rparr>"

definition project_entry :: "snapshot_project \<Rightarrow> dir_entry" where
  "project_entry p = \<lparr>de_id = dj_id p, de_name = dj_name p, de_aliases = [], de_email = None\<rparr>"

definition snapshot_people :: "directory_snapshot \<Rightarrow> dir_entry list" where
  "snapshot_people d = map person_entry (dy_people d @ dy_roster d)"

definition snapshot_projects :: "directory_snapshot \<Rightarrow> dir_entry list" where
  "snapshot_projects d = map project_entry (if dy_projects d \<noteq> [] then dy_projects d
     else case dy_project d of Some p \<Rightarrow> [p] | None \<Rightarrow> [])"

definition entries_of :: "directory_snapshot \<Rightarrow> entity_kind \<Rightarrow> dir_entry list" where
  "entries_of d kind = (if kind = Person then snapshot_people d
     else if kind = Project then snapshot_projects d else [])"

text \<open>\<^verbatim>\<open>names\<close>, read at one key: a person counts under its name and its aliases, a project under its
  name.\<close>

definition named_entries :: "unicode \<Rightarrow> directory_snapshot \<Rightarrow> entity_kind \<Rightarrow> pystr \<Rightarrow> dir_entry list" where
  "named_entries uc d kind key =
     (if kind = Person then concat (map (\<lambda>p. map (\<lambda>_. p) (filter (\<lambda>n. \<not> blank n
          \<and> normalize_name uc n (entity_kind_value kind) = key) (de_name p # de_aliases p))) (snapshot_people d))
      else if kind = Project then filter (\<lambda>p. normalize_name uc (de_name p) (entity_kind_value kind) = key) (snapshot_projects d)
      else [])"

text \<open>\<^verbatim>\<open>{str(item["id"]): item for item in items}\<close>.\<close>

definition by_id :: "dir_entry list \<Rightarrow> (uuid \<times> dir_entry) list" where
  "by_id items = foldl (\<lambda>d e. AList.update (de_id e) e d) [] items"

section \<open>One entity\<close>

definition quoted_in :: "pystr \<Rightarrow> pystr \<Rightarrow> bool" where
  "quoted_in txt ref \<longleftrightarrow> strip ref \<noteq> [] \<and> contains (strip ref) txt"

definition by_email :: "unicode \<Rightarrow> directory_snapshot \<Rightarrow> extracted_entity \<Rightarrow> (uuid \<times> dir_entry) list" where
  "by_email uc d e = by_id (filter (\<lambda>p. case de_email p of
       None \<Rightarrow> False
     | Some mail \<Rightarrow> normalize_identifier uc mail \<in> normalize_identifier uc ` set (en_identifiers e)
         \<and> (\<exists>ref \<in> set (en_source_refs e). contains (uc_casefold uc mail) (uc_casefold uc ref)))
     (snapshot_people d))"

definition candidates :: "unicode \<Rightarrow> directory_snapshot \<Rightarrow> extracted_entity \<Rightarrow> (uuid \<times> dir_entry) list \<times> bool" where
  "candidates uc d e =
     (let named = by_id (named_entries uc d (en_kind e) (normalize_name uc (en_name e) (entity_kind_value (en_kind e)))) in
      if en_kind e = Person then
        (if length (by_email uc d e) = 1 then (by_email uc d e, True)
         else if length named > 1 then ([], False) else (named, False))
      else (named, False))"

fun directory_kind :: "entity_kind \<Rightarrow> pystr" where
  "directory_kind Person = lit ''person''"
| "directory_kind _ = lit ''project''"

definition directory_prefix :: pystr where
  "directory_prefix = lit ''directory:''"

definition directory_identifier :: "entity_kind \<Rightarrow> uuid \<Rightarrow> pystr" where
  "directory_identifier kind i = directory_prefix @ directory_kind kind @ lit '':'' @ uuid_str i"

text \<open>The entry an entity is identified with, if any.\<close>

definition directory_match ::
  "unicode \<Rightarrow> directory_snapshot \<Rightarrow> pystr \<Rightarrow> pystr set \<Rightarrow> extracted_entity \<Rightarrow> dir_entry option" where
  "directory_match uc d txt event_names e =
     (if en_kind e \<notin> {Person, Project} \<or> en_name e \<in> event_names
         \<or> \<not> (\<exists>ref \<in> set (en_source_refs e). quoted_in txt ref) then None
      else (case candidates uc d e of (cs, matched_email) \<Rightarrow> (case cs of
          [(_, match)] \<Rightarrow>
            if matched_email \<or> (\<exists>label \<in> set (de_name match # de_aliases match). label \<noteq> []
                \<and> (\<exists>ref \<in> set (en_source_refs e). contains label ref \<and> contains (strip ref) txt))
            then Some match else None
        | _ \<Rightarrow> None)))"

definition adopt :: "dir_entry \<Rightarrow> extracted_entity \<Rightarrow> extracted_entity" where
  "adopt match e = (let i = directory_identifier (en_kind e) (de_id match) in
     e\<lparr>en_name := de_name match, en_identifiers := (if i \<in> set (en_identifiers e) then en_identifiers e
        else en_identifiers e @ [i])\<rparr>)"

definition unreserved :: "unicode \<Rightarrow> extracted_entity \<Rightarrow> extracted_entity" where
  "unreserved uc e = e\<lparr>en_identifiers := filter (\<lambda>v. \<not> prefix directory_prefix (normalize_identifier uc v))
     (en_identifiers e)\<rparr>"

section \<open>The whole result\<close>

record canonicalization =
  cn_entities :: "extracted_entity list"
  cn_trusted :: "pystr set"
  cn_renamed :: "(pystr \<times> pystr) list"

definition canonicalize_step ::
  "unicode \<Rightarrow> directory_snapshot \<Rightarrow> pystr \<Rightarrow> pystr set \<Rightarrow> canonicalization \<Rightarrow> extracted_entity \<Rightarrow> canonicalization" where
  "canonicalize_step uc d txt event_names c e = (case directory_match uc d txt event_names e of
     None \<Rightarrow> c\<lparr>cn_entities := cn_entities c @ [e]\<rparr>
   | Some match \<Rightarrow> \<lparr>cn_entities = cn_entities c @ [adopt match e],
       cn_trusted = insert (directory_identifier (en_kind e) (de_id match)) (cn_trusted c),
       cn_renamed = AList.update (en_name e) (de_name match) (cn_renamed c)\<rparr>)"

definition rename_ends :: "(pystr \<times> pystr) list \<Rightarrow> extracted_relation \<Rightarrow> extracted_relation" where
  "rename_ends renamed r = r\<lparr>
     re_source := (case map_of renamed (re_source r) of Some n \<Rightarrow> n | None \<Rightarrow> re_source r),
     re_target := (case map_of renamed (re_target r) of Some n \<Rightarrow> n | None \<Rightarrow> re_target r)\<rparr>"

definition canonicalize_directory_entities ::
  "unicode \<Rightarrow> extraction_result \<Rightarrow> directory_snapshot option \<Rightarrow> pystr \<Rightarrow> extraction_result \<times> pystr set" where
  "canonicalize_directory_entities uc result snapshot txt =
     (let entities = map (unreserved uc) (xr_entities result) in
      case snapshot of
        None \<Rightarrow> (result\<lparr>xr_entities := entities\<rparr>, {})
      | Some d \<Rightarrow>
          let c = foldl (canonicalize_step uc d txt (set (map ev_name (xr_events result))))
            \<lparr>cn_entities = [], cn_trusted = {}, cn_renamed = []\<rparr> entities in
          (result\<lparr>xr_entities := cn_entities c,
             xr_relations := map (rename_ends (cn_renamed c)) (xr_relations result)\<rparr>, cn_trusted c))"

section \<open>What an attached identity rests on\<close>

lemma set_by_id: "x \<in> set (by_id items) \<Longrightarrow> snd x \<in> set items \<and> fst x = de_id (snd x)"
proof -
  have "\<forall>x \<in> set (foldl (\<lambda>d e. AList.update (de_id e) e d) d items).
      x \<in> set d \<or> (snd x \<in> set items \<and> fst x = de_id (snd x))" for d :: "(uuid \<times> dir_entry) list"
  proof (induction items arbitrary: d)
    case (Cons e items)
    have "set (AList.update k v d) \<subseteq> insert (k, v) (set d)" for k v and d :: "(uuid \<times> dir_entry) list"
      by (induction d) auto
    then show ?case
      using Cons.IH [of "AList.update (de_id e) e d"] by fastforce
  qed auto
  from this [of "[]"] show "x \<in> set (by_id items) \<Longrightarrow> snd x \<in> set items \<and> fst x = de_id (snd x)"
    by (auto simp: by_id_def)
qed

lemma named_entries_subset: "p \<in> set (named_entries uc d kind key) \<Longrightarrow> p \<in> set (entries_of d kind)"
  by (auto simp: named_entries_def entries_of_def split: if_splits)

lemma by_email_subset: "x \<in> set (by_email uc d e) \<Longrightarrow> snd x \<in> set (snapshot_people d)"
  unfolding by_email_def by (drule set_by_id) simp

lemma named_subset:
  "x \<in> set (by_id (named_entries uc d kind key)) \<Longrightarrow> snd x \<in> set (entries_of d kind)"
  using set_by_id named_entries_subset by blast

lemma candidates_subset:
  assumes "x \<in> set (fst (candidates uc d e))"
  shows "snd x \<in> set (entries_of d (en_kind e))"
proof (cases "en_kind e = Person")
  case True
  then show ?thesis
    using assms by_email_subset [of x uc d e] named_subset [of x uc d Person]
    unfolding candidates_def Let_def entries_of_def by (simp split: if_splits)
next
  case False
  then show ?thesis
    using assms named_subset [of x uc d "en_kind e"] unfolding candidates_def Let_def by simp
qed

lemma directory_match_Some:
  assumes "directory_match uc d txt event_names e = Some match"
  shows "match \<in> set (entries_of d (en_kind e)) \<and> en_kind e \<in> {Person, Project}
    \<and> en_name e \<notin> event_names \<and> (\<exists>ref \<in> set (en_source_refs e). quoted_in txt ref)"
proof -
  have guard: "\<not> (en_kind e \<notin> {Person, Project} \<or> en_name e \<in> event_names
      \<or> \<not> (\<exists>ref \<in> set (en_source_refs e). quoted_in txt ref))"
    using assms unfolding directory_match_def by (rule contrapos_pn) simp
  obtain cs m where cs: "candidates uc d e = (cs, m)"
    by fastforce
  have "directory_match uc d txt event_names e = (case cs of [(_, match)] \<Rightarrow>
      if m \<or> (\<exists>label \<in> set (de_name match # de_aliases match). label \<noteq> []
        \<and> (\<exists>ref \<in> set (en_source_refs e). contains label ref \<and> contains (strip ref) txt))
      then Some match else None | _ \<Rightarrow> None)"
    unfolding directory_match_def if_not_P [OF guard] cs by simp
  then obtain i where "cs = [(i, match)]"
    using assms by (cases cs rule: list.exhaust) (auto split: list.splits if_splits)
  then have "match \<in> set (entries_of d (en_kind e))"
    using candidates_subset [of "(i, match)" uc d e] cs by simp
  then show ?thesis
    using guard by blast
qed

text \<open>An identifier of the reserved namespace, and the evidence it must have.\<close>

definition reserved :: "unicode \<Rightarrow> pystr \<Rightarrow> bool" where
  "reserved uc v \<longleftrightarrow> prefix directory_prefix (normalize_identifier uc v)"

definition vouched :: "directory_snapshot \<Rightarrow> pystr \<Rightarrow> extracted_entity \<Rightarrow> pystr \<Rightarrow> bool" where
  "vouched d txt e v \<longleftrightarrow> en_kind e \<in> {Person, Project} \<and> (\<exists>match \<in> set (entries_of d (en_kind e)).
     v = directory_identifier (en_kind e) (de_id match) \<and> en_name e = de_name match)
     \<and> (\<exists>ref \<in> set (en_source_refs e). quoted_in txt ref)"

definition canon_inv :: "unicode \<Rightarrow> directory_snapshot \<Rightarrow> pystr \<Rightarrow> canonicalization \<Rightarrow> bool" where
  "canon_inv uc d txt c \<longleftrightarrow> (\<forall>e \<in> set (cn_entities c). \<forall>v \<in> set (en_identifiers e).
      reserved uc v \<longrightarrow> v \<in> cn_trusted c \<and> vouched d txt e v)
    \<and> (\<forall>v \<in> cn_trusted c. \<exists>e \<in> set (cn_entities c). v \<in> set (en_identifiers e) \<and> vouched d txt e v)"

lemma vouched_adopt:
  assumes "directory_match uc d txt event_names e = Some match"
  shows "vouched d txt (adopt match e) (directory_identifier (en_kind e) (de_id match))"
  using directory_match_Some [OF assms] by (auto simp: vouched_def adopt_def Let_def)

lemma canonicalize_step_inv:
  assumes "canon_inv uc d txt c" "\<forall>v \<in> set (en_identifiers e). \<not> reserved uc v"
  shows "canon_inv uc d txt (canonicalize_step uc d txt event_names c e)"
proof (cases "directory_match uc d txt event_names e")
  case None
  then show ?thesis
    using assms unfolding canon_inv_def canonicalize_step_def by fastforce
next
  case (Some match)
  let ?i = "directory_identifier (en_kind e) (de_id match)"
  have own: "set (en_identifiers (adopt match e)) = insert ?i (set (en_identifiers e))"
    by (auto simp: adopt_def Let_def)
  have "vouched d txt (adopt match e) ?i"
    by (rule vouched_adopt [OF Some])
  then show ?thesis
    using assms Some own unfolding canon_inv_def canonicalize_step_def by fastforce
qed

lemma foldl_canonicalize_inv:
  assumes "canon_inv uc d txt c" "\<forall>e \<in> set es. \<forall>v \<in> set (en_identifiers e). \<not> reserved uc v"
  shows "canon_inv uc d txt (foldl (canonicalize_step uc d txt event_names) c es)"
  using assms by (induction es arbitrary: c) (simp_all add: canonicalize_step_inv)

section \<open>Properties\<close>


definition example_snapshot :: directory_snapshot where
  "example_snapshot = \<lparr>dy_project = None, dy_projects = [],
     dy_people = [\<lparr>dp_id = 7, dp_name = lit ''kim'', dp_role = None, dp_email = None, dp_aliases = []\<rparr>],
     dy_roster = []\<rparr>"

definition example_extraction :: extraction_result where
  "example_extraction = \<lparr>xr_classification = \<lparr>cl_source_type = StOther, cl_language = [], cl_topics = []\<rparr>,
     xr_entities = [\<lparr>en_name = lit ''Kim'', en_kind = Person, en_aliases = [],
       en_identifiers = [lit ''directory:person:9''], en_source_refs = [lit ''kim said'']\<rparr>],
     xr_events = [], xr_relations = [], xr_contexts = [], xr_warnings = [], xr_usage = []\<rparr>"


end
