(* ===== verification/SourceAnalysis.thy ===== *)
theory SourceAnalysis
  imports Sessions Indexing DirectoryResolution
begin

text \<open>
  One analysis of a source (\<^verbatim>\<open>ingestion/application/source_analysis.py\<close>): a single extraction read
  three ways, with a checkpoint that is committed after the extraction, after the Context Store
  and after the graph, so an interrupted analysis resumes where it stopped. Providers, the
  hash, JSON text and the graph store are an environment.
\<close>

section \<open>Environment\<close>

record 'g analysis_env =
  an_provider :: provider_env
  an_runtime :: runtime
  an_models :: stage_models
  an_update_prompt :: pystr
  an_update_model :: "context_update_output output_type"
  an_reasoning_effort :: pystr
  an_dumps :: "json \<Rightarrow> pystr"
  an_dumps_sorted :: "json \<Rightarrow> pystr"
  an_date_iso :: "int \<Rightarrow> pystr"
  an_sha256 :: "pystr \<Rightarrow> pystr"
  an_stamp :: stamp
  an_graph :: "(resolved_graph \<Rightarrow> 'g \<Rightarrow> (raised + warning list) \<times> 'g) option"

section \<open>Exceptions\<close>

definition plain_exc :: "exc_class \<Rightarrow> string \<Rightarrow> exc" where
  "plain_exc c name = \<lparr>ex_class = c, ex_type = lit name, ex_capability = None, ex_provider = None\<rparr>"

fun raise_pipeline :: "pipeline_error \<Rightarrow> raised" where
  "raise_pipeline (IngestionFailed (ProviderSaid e)) = plain_exc IngestionErr ''IngestionError'' # provider_raised e"
| "raise_pipeline (IngestionFailed m) = [plain_exc IngestionErr ''IngestionError'']"
| "raise_pipeline (MissingCapability cap ps selected) =
     [\<lparr>ex_class = MissingCapabilityCredential (case ps of Some p \<Rightarrow> p | None \<Rightarrow> []),
       ex_type = lit ''MissingCapabilityCredentialError'', ex_capability = Some (capability_value cap),
       ex_provider = None\<rparr>]"

fun raise_extraction :: "extraction_error \<Rightarrow> raised" where
  "raise_extraction (ExtractionError stage (ProviderFailed e)) =
     plain_exc (ExtractionErr stage) ''ExtractionError'' # provider_raised e"
| "raise_extraction (ExtractionError stage (SchemaMismatch n)) =
     [plain_exc (ExtractionErr stage) ''ExtractionError'', plain_exc OtherErr ''ValidationError'']"
| "raise_extraction (ExtractionError stage f) = [plain_exc (ExtractionErr stage) ''ExtractionError'']"

fun raise_py :: "py_error \<Rightarrow> raised" where
  "raise_py ValueError = [plain_exc OtherErr ''ValueError'']"
| "raise_py OverflowError = [plain_exc OtherErr ''OverflowError'']"
| "raise_py KeyError = [plain_exc OtherErr ''KeyError'']"
| "raise_py AttributeError = [plain_exc OtherErr ''AttributeError'']"
| "raise_py PyIndexError = [plain_exc OtherErr ''IndexError'']"

fun raise_context :: "context_error \<Rightarrow> raised" where
  "raise_context (UpdateFailed e) = raise_extraction e"
| "raise_context (BadDate e) = raise_py e"

section \<open>Fingerprints and hints\<close>

text \<open>Both texts in Korean: "the transcript is not confirmed yet" and "no API key offers the selected
  model".\<close>

definition unconfirmed_reason :: pystr where
  "unconfirmed_reason = [45824, 48376, 32, 54869, 51064, 51060, 32, 45149, 45208, 51648, 32, 50506, 50520, 49845, 45768, 45796, 46]"

definition selected_reason :: pystr where
  "selected_reason = [49440, 53469, 54620, 32, 47784, 45944, 51012, 32, 51228, 44277, 54616, 45716, 32, 65, 80, 73, 32, 107, 101, 121, 44032, 32, 50630, 49845, 45768, 45796, 46]"

fun missing_text :: "pipeline_error \<Rightarrow> pystr" where
  "missing_text (MissingCapability cap ps True) = selected_reason"
| "missing_text (MissingCapability cap ps False) = capability_value cap @ no_key_suffix"
| "missing_text (IngestionFailed (ProviderSaid e)) = provider_message e"
| "missing_text (IngestionFailed m) = []"

definition decision_fingerprint :: "'g analysis_env \<Rightarrow> pystr list \<Rightarrow> pystr" where
  "decision_fingerprint env decisions = an_sha256 env (an_dumps env (jstrs (sort decisions)))"

definition person_json :: "snapshot_person \<Rightarrow> json" where
  "person_json p = JObj [(lit ''id'', JStr (uuid_str (dp_id p))), (lit ''name'', JStr (dp_name p)),
     (lit ''role'', jopt (dp_role p)), (lit ''email'', jopt (dp_email p)),
     (lit ''aliases'', jstrs (dp_aliases p))]"

definition project_json :: "(int \<Rightarrow> pystr) \<Rightarrow> snapshot_project \<Rightarrow> json" where
  "project_json date_text p = JObj [(lit ''id'', JStr (uuid_str (dj_id p))), (lit ''name'', JStr (dj_name p)),
     (lit ''goal'', jopt (dj_goal p)), (lit ''description'', jopt (dj_description p)),
     (lit ''ownerPersonId'', jopt (map_option uuid_str (dj_owner_person_id p))),
     (lit ''ownerName'', jopt (dj_owner_name p)), (lit ''ownerRole'', jopt (dj_owner_role p)),
     (lit ''startsOn'', jopt (map_option date_text (dj_starts_on p))),
     (lit ''endsOn'', jopt (map_option date_text (dj_ends_on p)))]"

definition snapshot_json :: "(int \<Rightarrow> pystr) \<Rightarrow> directory_snapshot \<Rightarrow> json" where
  "snapshot_json date_text d = JObj [
     (lit ''project'', case dy_project d of None \<Rightarrow> JNull | Some p \<Rightarrow> project_json date_text p),
     (lit ''projects'', JArr (map (project_json date_text) (dy_projects d))),
     (lit ''people'', JArr (map person_json (dy_people d))),
     (lit ''roster'', JArr (map person_json (dy_roster d)))]"

definition source_fingerprint :: "'g analysis_env \<Rightarrow> source_row \<Rightarrow> pystr \<Rightarrow> pystr" where
  "source_fingerprint env s txt = an_sha256 env (an_dumps_sorted env (JArr [JStr (so_title s), JStr txt,
     JInt (so_review_revision s),
     case so_confirmed_snapshot s of None \<Rightarrow> JNull | Some d \<Rightarrow> snapshot_json (an_date_iso env) d]))"

definition hint_person :: "snapshot_person \<Rightarrow> json" where
  "hint_person p = JObj [(lit ''name'', JStr (dp_name p)), (lit ''role'', jopt (dp_role p)),
     (lit ''email'', jopt (dp_email p)), (lit ''aliases'', jstrs (dp_aliases p))]"

definition hint_project :: "snapshot_project option \<Rightarrow> json" where
  "hint_project p = JObj [(lit ''name'', jopt (map_option dj_name p)),
     (lit ''goal'', jopt (Option.bind p dj_goal)), (lit ''description'', jopt (Option.bind p dj_description)),
     (lit ''ownerName'', jopt (Option.bind p dj_owner_name)),
     (lit ''ownerRole'', jopt (Option.bind p dj_owner_role))]"

definition directory_hint :: "directory_snapshot \<Rightarrow> (pystr \<times> json) list" where
  "directory_hint d = [(lit ''people'', JArr (map hint_person (dy_people d))),
     (lit ''roster'', JArr (map hint_person (dy_roster d))),
     (lit ''project'', hint_project (dy_project d)),
     (lit ''projects'', JArr (map (\<lambda>p. hint_project (Some p)) (if dy_projects d \<noteq> [] then dy_projects d
       else case dy_project d of Some p \<Rightarrow> [p] | None \<Rightarrow> [])))]"

section \<open>One analysis\<close>

record analysis_input =
  ai_workspace_id :: uuid
  ai_owner_id :: uuid
  ai_source_id :: uuid
  ai_title :: pystr
  ai_subject :: pystr
  ai_text :: pystr
  ai_snapshot :: "directory_snapshot option"

definition known_decisions :: "uuid \<Rightarrow> app_db \<Rightarrow> pystr list" where
  "known_decisions ws db = current_decisions sql_repository ws (ab_context db)"

definition make_extraction_pipeline :: "'g analysis_env \<Rightarrow> resolved_provider \<Rightarrow> raised + pipeline" where
  "make_extraction_pipeline env p = lift_error raise_extraction (make_pipeline
     \<lparr>pl_adapter = rv_adapter p, pl_model = rv_model p, pl_temperature = 0,
       pl_reasoning_effort = an_reasoning_effort env, pl_dumps = an_dumps env\<rparr>)"

text \<open>The extraction to read, with the fingerprint of the decisions it was made against and the tokens
  used, where it was made now.\<close>

definition obtain_extraction ::
  "'g analysis_env \<Rightarrow> pipeline option \<Rightarrow> analysis_input \<Rightarrow> extraction_result option
    \<Rightarrow> ('g, extraction_result \<times> pystr option \<times> usage) proc" where
  "obtain_extraction env adapter a given = (case given of
     Some r \<Rightarrow> preturn (r, None, [])
   | None \<Rightarrow> (case adapter of
     None \<Rightarrow> praise [plain_exc OtherErr ''ValueError'']
   | Some pl \<Rightarrow> pbind pget (\<lambda>db.
       let known = known_decisions (ai_workspace_id a) db in
       (case pipeline_extract pl (an_models env) (ai_text a) (Some (ai_title a)) known
          (case ai_snapshot a of Some d \<Rightarrow> directory_hint d | None \<Rightarrow> []) of
          (Inl e, u) \<Rightarrow> praise (raise_extraction e)
        | (Inr r, u) \<Rightarrow> preturn (r, Some (decision_fingerprint env known), u)))))"

definition context_request :: "'g analysis_env \<Rightarrow> analysis_input \<Rightarrow> extraction_result \<Rightarrow> apply_request" where
  "context_request env a r = \<lparr>aq_workspace_id = ai_workspace_id a, aq_owner_id = ai_owner_id a,
     aq_source_id = ai_source_id a, aq_source_title = ai_title a, aq_subject = ai_subject a,
     aq_text = ai_text a, aq_result = r, aq_new_id = st_fresh (an_stamp env) 0,
     aq_fresh = (\<lambda>n. st_fresh (an_stamp env) (n + 1)), aq_now = st_now (an_stamp env)\<rparr>"

definition apply_context ::
  "'g analysis_env \<Rightarrow> updater \<Rightarrow> analysis_input \<Rightarrow> extraction_result \<Rightarrow> ('g, warning list) proc" where
  "apply_context env upd a r = pbind pget (\<lambda>db.
     (case service_apply (an_runtime env) sql_repository upd (context_request env a r) (ab_context db) of
        Inl e \<Rightarrow> praise (raise_context e)
      | Inr (warnings, ctx) \<Rightarrow> pseq (pmodify (\<lambda>db. db\<lparr>ab_context := ctx\<rparr>)) (preturn warnings)))"

definition write_graph ::
  "'g analysis_env \<Rightarrow> resolved_graph \<Rightarrow> warning list \<Rightarrow> ('g, warning list) proc" where
  "write_graph env graph warnings = (case an_graph env of
     None \<Rightarrow> preturn (warnings @ [GraphNotConfigured])
   | Some store \<Rightarrow> pbind (pgraph (store graph)) (\<lambda>ws. preturn (warnings @ rg_warnings graph @ ws)))"

definition analyze_source ::
  "'g analysis_env \<Rightarrow> pipeline option \<Rightarrow> (usage \<Rightarrow> updater) \<Rightarrow> analysis_input
    \<Rightarrow> extraction_result option \<Rightarrow> resolved_graph option \<Rightarrow> bool \<Rightarrow> warning list
    \<Rightarrow> (extraction_result \<Rightarrow> resolved_graph \<Rightarrow> pystr \<Rightarrow> ('g, unit) proc)
    \<Rightarrow> (warning list \<Rightarrow> ('g, unit) proc) \<Rightarrow> ('g, warning list) proc" where
  "analyze_source env pl upd a given_result given_graph context_applied context_warnings
      on_extracted on_context_applied =
     pbind (obtain_extraction env pl a given_result) (\<lambda>(r0, fp, used).
     (case canonicalize_directory_entities (rt_unicode (an_runtime env)) r0 (ai_snapshot a) (ai_text a) of
       (r, trusted) \<Rightarrow>
     pbind (case given_graph of
         Some g \<Rightarrow> preturn g
       | None \<Rightarrow> plift (lift_error raise_py (resolve_extraction (an_runtime env) r (ai_workspace_id a)
           (ai_source_id a) None None trusted))) (\<lambda>graph.
     pbind pget (\<lambda>db.
     pseq (if given_graph = None then on_extracted r graph (case fp of Some f \<Rightarrow> f
           | None \<Rightarrow> decision_fingerprint env (known_decisions (ai_workspace_id a) db))
         else preturn ())
     (pbind (if context_applied then preturn [] else pbind (apply_context env (upd used) a r)
           (\<lambda>applied. pseq (on_context_applied applied) (preturn applied))) (\<lambda>applied.
       write_graph env graph (xr_warnings r @ context_warnings @ applied)))))))"

section \<open>The checkpointed service\<close>

definition with_checkpoint :: "source_row \<Rightarrow> analysis_checkpoint option \<Rightarrow> source_row" where
  "with_checkpoint s cp = s\<lparr>so_analysis_checkpoint := cp\<rparr>"

definition complete_analysis ::
  "'g analysis_env \<Rightarrow> source_row \<Rightarrow> analysis_checkpoint \<Rightarrow> (pystr \<times> json) list \<Rightarrow> warning list
    \<Rightarrow> ('g, warning list) proc" where
  "complete_analysis env s cp details warnings =
     pseq (pmodify (put_source (with_checkpoint s
         (Some (cp\<lparr>cp_phase := AnalysisDone, cp_warnings := warnings\<rparr>)))))
     (pseq (pmodify (add_audit_event (an_stamp env) (system_event s ''analysis.completed'' details)))
     (pseq pcommit (preturn warnings)))"

definition replay_details :: "analysis_checkpoint \<Rightarrow> (pystr \<times> json) list" where
  "replay_details cp = foldl (\<lambda>d (k, v). AList.update k v d)
     [(lit ''generationMethod'', JStr (lit ''service_model'')),
      (lit ''provenanceTrust'', JStr (lit ''verified_runtime''))] (cp_provenance cp)"

text \<open>The checkpoint after the context was applied needs no provider: the stored graph is written.\<close>

definition replay_graph :: "'g analysis_env \<Rightarrow> source_row \<Rightarrow> analysis_checkpoint \<Rightarrow> ('g, warning list) proc" where
  "replay_graph env s cp =
     pbind (write_graph env (cp_graph cp) (xr_warnings (cp_result cp) @ cp_context_warnings cp))
       (complete_analysis env s cp (replay_details cp))"

definition saved_extraction ::
  "pystr \<Rightarrow> resolved_provider \<Rightarrow> extraction_result \<Rightarrow> resolved_graph \<Rightarrow> pystr \<Rightarrow> analysis_checkpoint" where
  "saved_extraction fingerprint p r graph fp = \<lparr>cp_fingerprint = fingerprint,
     cp_decision_fingerprint = Some fp, cp_phase = Extracted, cp_result = r, cp_graph = graph,
     cp_provenance = provenance p, cp_context_warnings = [], cp_warnings = [], cp_agent = None\<rparr>"

definition saved_context :: "source_row \<Rightarrow> warning list \<Rightarrow> source_row" where
  "saved_context s applied = s\<lparr>so_analysis_checkpoint := map_option (\<lambda>cp.
     cp\<lparr>cp_phase := ContextApplied, cp_context_warnings := applied\<rparr>) (so_analysis_checkpoint s)\<rparr>"

definition update_row :: "uuid \<Rightarrow> (source_row \<Rightarrow> source_row) \<Rightarrow> app_db \<Rightarrow> app_db" where
  "update_row i f db = db\<lparr>ab_sources := row_upd so_id i f (ab_sources db)\<rparr>"

definition save_extraction ::
  "source_row \<Rightarrow> pystr \<Rightarrow> resolved_provider \<Rightarrow> extraction_result \<Rightarrow> resolved_graph \<Rightarrow> pystr \<Rightarrow> ('g, unit) proc" where
  "save_extraction s fingerprint p r graph fp =
     pseq (pmodify (update_row (so_id s) (\<lambda>s. with_checkpoint s (Some (saved_extraction fingerprint p r graph fp)))))
       pcommit"

definition save_context :: "source_row \<Rightarrow> warning list \<Rightarrow> ('g, unit) proc" where
  "save_context s applied = pseq (pmodify (update_row (so_id s) (\<lambda>s. saved_context s applied))) pcommit"

definition analyze_input :: "source_row \<Rightarrow> pystr \<Rightarrow> app_db \<Rightarrow> analysis_input" where
  "analyze_input s txt db = \<lparr>ai_workspace_id = so_workspace_id s, ai_owner_id = so_owner_id s,
     ai_source_id = so_id s, ai_title = so_title s,
     ai_subject = (case row_get wk_id (so_workspace_id s) (ab_workspaces db) of
       Some w \<Rightarrow> wk_name w | None \<Rightarrow> so_title s),
     ai_text = txt, ai_snapshot = so_confirmed_snapshot s\<rparr>"

text \<open>The extraction is redone where the decisions it was made against have changed since: then the
  checkpoint is dropped, and the drop committed, before anything is extracted.\<close>

definition fresh_checkpoint ::
  "'g analysis_env \<Rightarrow> source_row \<Rightarrow> ('g, analysis_checkpoint option) proc" where
  "fresh_checkpoint env s = (case so_analysis_checkpoint s of
     None \<Rightarrow> preturn None
   | Some cp \<Rightarrow> pbind pget (\<lambda>db.
       if cp_phase cp = Extracted
         \<and> cp_decision_fingerprint cp \<noteq> Some (decision_fingerprint env (known_decisions (so_workspace_id s) db))
       then pseq (commit_source (with_checkpoint s None)) (preturn None)
       else preturn (Some cp)))"

definition run_extraction ::
  "'g analysis_env \<Rightarrow> source_row \<Rightarrow> pystr \<Rightarrow> pystr \<Rightarrow> resolved_provider \<Rightarrow> ('g, warning list) proc" where
  "run_extraction env s txt fingerprint p =
     pbind (plift (make_extraction_pipeline env p)) (\<lambda>pl.
     pbind (fresh_checkpoint env s) (\<lambda>checkpoint.
     pbind pget (\<lambda>db.
     pbind (analyze_source env (Some pl)
         (\<lambda>used. model_update (an_runtime env) pl (an_update_prompt env) (an_update_model env) used
           (st_now (an_stamp env)))
         (analyze_input s txt db) (map_option cp_result checkpoint) (map_option cp_graph checkpoint)
         (checkpoint \<noteq> None \<and> cp_phase (the checkpoint) = ContextApplied)
         (case checkpoint of Some cp \<Rightarrow> cp_context_warnings cp | None \<Rightarrow> [])
         (save_extraction s fingerprint p) (save_context s)) (\<lambda>warnings.
     pbind pget (\<lambda>db.
     (case get_source (so_id s) db of
        None \<Rightarrow> praise [plain_exc OtherErr ''TypeError'']
      | Some s' \<Rightarrow> (case so_analysis_checkpoint s' of
          None \<Rightarrow> praise [plain_exc OtherErr ''TypeError'']
        | Some cp \<Rightarrow> complete_analysis env s' cp (provenance p) warnings)))))))"

definition run_analysis :: "'g analysis_env \<Rightarrow> source_row \<Rightarrow> pystr \<Rightarrow> ('g, warning list) proc" where
  "run_analysis env s txt =
     (if so_kind s = MeetingKind \<and> so_review_state s \<in> {Some RvTranscribing, Some RvAwaitingReview}
      then preturn [AnalysisSkipped unconfirmed_reason]
      else let fingerprint = source_fingerprint env s txt in
      (case so_analysis_checkpoint s of
         Some cp \<Rightarrow>
           if cp_fingerprint cp \<noteq> fingerprint then praise [plain_exc OtherErr ''RuntimeError'']
           else if cp_phase cp = AnalysisDone then preturn (cp_warnings cp)
           else if cp_phase cp = ContextApplied then replay_graph env s cp
           else pbind pget (\<lambda>db.
             (case provider_with_model (an_provider env) db (so_workspace_id s) (so_owner_id s) RoleExtraction None of
                Inl e \<Rightarrow> praise (raise_pipeline e)
              | Inr p \<Rightarrow> run_extraction env s txt fingerprint p))
       | None \<Rightarrow> pbind pget (\<lambda>db.
           (case provider_with_model (an_provider env) db (so_workspace_id s) (so_owner_id s) RoleExtraction None of
              Inl e \<Rightarrow> preturn [AnalysisSkipped (missing_text e)]
            | Inr p \<Rightarrow> run_extraction env s txt fingerprint p))))"

end
