(* ===== verification/SourceProcessing.thy ===== *)
theory SourceProcessing
  imports SourceAnalysis
begin

text \<open>
  Processing a source from upload to analysis (the second half of
  \<^verbatim>\<open>ingestion/infrastructure/source_processor.py\<close>, \<^verbatim>\<open>application/document_parser.py\<close> and the Celery
  adapter \<^verbatim>\<open>infrastructure/tasks.py\<close>). The download, the office converter and text decoding are
  parameters. The step from one durable state to the next is the relation \<open>durable_step\<close>; the
  theorems say what no crash, retry or interleaving of attempts can break.
\<close>

section \<open>Reading a document\<close>

fun split_on :: "nat \<Rightarrow> pystr \<Rightarrow> pystr list" where
  "split_on c [] = [[]]"
| "split_on c (x # xs) = (if x = c then [] # split_on c xs
     else (case split_on c xs of p # ps \<Rightarrow> (x # p) # ps | [] \<Rightarrow> [[x]]))"

text \<open>\<^verbatim>\<open>Path(s).name\<close> and \<^verbatim>\<open>Path(s).suffix\<close>.\<close>

definition path_name :: "pystr \<Rightarrow> pystr" where
  "path_name s = (case rev (filter (\<lambda>p. p \<noteq> [] \<and> p \<noteq> [46]) (split_on 47 s)) of p # _ \<Rightarrow> p | [] \<Rightarrow> [])"

definition path_suffix :: "pystr \<Rightarrow> pystr" where
  "path_suffix s = (let n = path_name s in
     case find (\<lambda>i. n ! i = 46) (rev [0..<length n]) of
       None \<Rightarrow> []
     | Some i \<Rightarrow> if 0 < i \<and> i < length n - 1 then drop i n else [])"

record parser_env =
  pr_unicode :: unicode
  pr_decode_sig :: "8 word list \<Rightarrow> pystr option"
  pr_convert :: "8 word list \<Rightarrow> pystr \<Rightarrow> raised + pystr option"

definition text_extensions :: "pystr list" where
  "text_extensions = map lit [''.txt'', ''.md'', ''.markdown'']"

definition supported_extensions :: "pystr list" where
  "supported_extensions = map lit [''.pdf'', ''.docx'', ''.txt'', ''.md'', ''.markdown'']"

definition parse_document :: "parser_env \<Rightarrow> 8 word list \<Rightarrow> pystr \<Rightarrow> raised + pystr" where
  "parse_document env content filename =
     (let extension = uc_lower (pr_unicode env) (path_suffix filename) in
      if extension \<notin> set supported_extensions then Inl [plain_exc OtherErr ''UnsupportedDocumentError'']
      else rbind (if extension \<in> set text_extensions
          then (case pr_decode_sig env content of
              None \<Rightarrow> Inl [plain_exc OtherErr ''UnicodeDecodeError''] | Some t \<Rightarrow> Inr (strip t))
          else rbind (pr_convert env content extension) (\<lambda>m.
            Inr (strip (case m of Some t \<Rightarrow> t | None \<Rightarrow> []))))
        (\<lambda>t. if t = [] then Inl [plain_exc OtherErr ''ValueError''] else Inr t))"

section \<open>Environment and helpers\<close>

record 'g process_env =
  pc_analysis :: "'g analysis_env"
  pc_parser :: parser_env
  pc_uuid5 :: uuid5_fn
  pc_download :: "source_row \<Rightarrow> raised + 8 word list"

fun raise_index :: "index_error \<Rightarrow> raised" where
  "raise_index (IndexPyError e) = raise_py e"
| "raise_index (IndexError e) = raise_pipeline e"

definition with_source :: "uuid \<Rightarrow> (source_row \<Rightarrow> ('g, 'a) proc) \<Rightarrow> ('g, 'a) proc" where
  "with_source i f = pbind pget (\<lambda>db. case get_source i db of
     None \<Rightarrow> praise [plain_exc OtherErr ''ValueError''] | Some s \<Rightarrow> f s)"

definition edit :: "uuid \<Rightarrow> (source_row \<Rightarrow> source_row) \<Rightarrow> ('g, unit) proc" where
  "edit i f = pmodify (update_row i f)"

definition edit_commit :: "uuid \<Rightarrow> (source_row \<Rightarrow> source_row) \<Rightarrow> ('g, unit) proc" where
  "edit_commit i f = pseq (edit i f) pcommit"

definition at_stage :: "processing_stage \<Rightarrow> py_float \<Rightarrow> source_row \<Rightarrow> source_row" where
  "at_stage stage progress s = s\<lparr>so_processing_stage := stage, so_progress := progress\<rparr>"

definition started :: "source_row \<Rightarrow> source_row" where
  "started s = s\<lparr>so_status := Processing, so_error_message := None\<rparr>"

definition succeeded :: "source_row \<Rightarrow> source_row" where
  "succeeded s = at_stage Completed 1 (s\<lparr>so_status := Succeeded\<rparr>)"

fun text_or_empty :: "pystr option \<Rightarrow> pystr" where
  "text_or_empty (Some t) = t"
| "text_or_empty None = []"

text \<open>"Speaker 1" in Korean.\<close>

definition default_speaker :: pystr where
  "default_speaker = [54868, 51088, 32, 49]"

definition server_utterance :: "nat \<times> transcription_segment \<Rightarrow> utterance" where
  "server_utterance = (\<lambda>(n, t). \<lparr>ut_id = lit ''server-'' @ nat_str n, ut_person_id = None,
     ut_speaker_name = (case truthy (ts_speaker t) of Some s \<Rightarrow> s | None \<Rightarrow> default_speaker),
     ut_text = ts_text t, ut_start_seconds = Some (ts_start_seconds t),
     ut_end_seconds = Some (ts_end_seconds t)\<rparr>)"

definition whole_utterance :: "transcription_response \<Rightarrow> utterance" where
  "whole_utterance r = \<lparr>ut_id = lit ''server-0'', ut_person_id = None, ut_speaker_name = default_speaker,
     ut_text = tr_text r, ut_start_seconds = Some 0,
     ut_end_seconds = Some (case tr_duration_seconds r of Some d \<Rightarrow> d | None \<Rightarrow> 0)\<rparr>"

definition server_utterances :: "transcription_response \<Rightarrow> utterance list" where
  "server_utterances r = (if tr_segments r = [] then [whole_utterance r]
     else map server_utterance (enumerate 0 (tr_segments r)))"

definition transcribed :: "transcription_response \<Rightarrow> source_row \<Rightarrow> source_row" where
  "transcribed r s = at_stage StAwaitingReview (45 / 100) (s\<lparr>so_raw_transcript_text := Some (tr_text r),
     so_duration_seconds := tr_duration_seconds r, so_raw_utterances := server_utterances r,
     so_review_utterances := (if so_review_utterances s = [] then server_utterances r
       else so_review_utterances s),
     so_review_state := Some RvAwaitingReview, so_status := AwaitingReview\<rparr>)"

text \<open>\<^verbatim>\<open>a or b\<close> for an optional number: zero is false.\<close>

fun nonzero :: "py_float option \<Rightarrow> py_float option" where
  "nonzero (Some x) = (if x = 0 then None else Some x)"
| "nonzero None = None"

definition spoken_segment :: "utterance \<Rightarrow> transcript_segment" where
  "spoken_segment u = \<lparr>tg_text = ut_text u,
     tg_start_seconds = (case nonzero (ut_start_seconds u) of Some x \<Rightarrow> x | None \<Rightarrow> 0),
     tg_end_seconds = (case nonzero (ut_end_seconds u) of Some x \<Rightarrow> x
       | None \<Rightarrow> (case nonzero (ut_start_seconds u) of Some x \<Rightarrow> x | None \<Rightarrow> 0)),
     tg_speaker = Some (ut_speaker_name u), tg_timestamp = None, tg_metadata = []\<rparr>"

definition review_segments :: "source_row \<Rightarrow> py_error + transcript_segment list" where
  "review_segments s = traverse (\<lambda>u. make_segment (spoken_segment u))
     (filter (\<lambda>u. \<not> blank (ut_text u)) (so_review_utterances s))"

definition text_section :: "pystr \<Rightarrow> py_error + document_section" where
  "text_section t = make_section \<lparr>ds_text = t, ds_page = None, ds_heading = None, ds_timestamp = None,
     ds_author = None, ds_metadata = []\<rparr>"

section \<open>Processing\<close>

definition index_step ::
  "'g process_env \<Rightarrow> chunker \<Rightarrow> uuid \<Rightarrow> raw_segments \<Rightarrow> ('g, unit) proc" where
  "index_step env c i segments = with_source i (\<lambda>s. pbind pget (\<lambda>db.
     (case index_source (an_provider (pc_analysis env)) (pc_uuid5 env) (an_stamp (pc_analysis env)) c s
          segments None db of
        Inl e \<Rightarrow> praise (raise_index e)
      | Inr (n, db') \<Rightarrow> pmodify (\<lambda>_. db'))))"

definition analysis_step :: "'g process_env \<Rightarrow> uuid \<Rightarrow> pystr \<Rightarrow> ('g, unit) proc" where
  "analysis_step env i txt =
     with_source i (\<lambda>s. pbind (run_analysis (pc_analysis env) s txt) (\<lambda>_. preturn ()))"

text \<open>A committed extraction is resumed with the text it was made from.\<close>

definition resume_analysis :: "'g process_env \<Rightarrow> uuid \<Rightarrow> source_row \<Rightarrow> ('g, unit) proc" where
  "resume_analysis env i s =
     pseq (edit_commit i (at_stage Graphing (7 / 10)))
     (pseq (analysis_step env i (text_or_empty (if so_kind s = DocumentKind then so_content_text s
         else so_transcript_text s)))
     (edit_commit i succeeded))"

definition analyze_and_finish :: "'g process_env \<Rightarrow> uuid \<Rightarrow> pystr \<Rightarrow> ('g, unit) proc" where
  "analyze_and_finish env i txt =
     pseq (edit_commit i (at_stage Graphing (7 / 10)))
     (pseq (analysis_step env i txt)
     (pseq (edit_commit i (\<lambda>s. at_stage Graphing (9 / 10) (s\<lparr>so_status := Processing\<rparr>)))
     (edit_commit i succeeded)))"

definition process_document :: "'g process_env \<Rightarrow> chunker \<Rightarrow> uuid \<Rightarrow> source_row \<Rightarrow> ('g, unit) proc" where
  "process_document env c i s =
     pseq (edit_commit i (at_stage Uploaded (2 / 10)))
     (pbind (plift (pc_download env s)) (\<lambda>content.
     pbind (plift (parse_document (pc_parser env) content (so_title s))) (\<lambda>parsed.
     pseq (edit_commit i (\<lambda>s. at_stage Analyzing (5 / 10) (s\<lparr>so_content_text := Some parsed\<rparr>)))
     (pbind (plift (lift_error raise_py (text_section parsed))) (\<lambda>d.
     pseq (index_step env c i (Sections [d]))
     (analyze_and_finish env i parsed))))))"

definition transcribe_meeting :: "'g process_env \<Rightarrow> uuid \<Rightarrow> source_row \<Rightarrow> ('g, unit) proc" where
  "transcribe_meeting env i s =
     pseq (edit_commit i (at_stage Transcribing (2 / 10)))
     (pbind (plift (pc_download env s)) (\<lambda>content.
     pbind pget (\<lambda>db.
     (case transcribe (an_provider (pc_analysis env)) (an_stamp (pc_analysis env)) s content db of
        Inl e \<Rightarrow> praise (raise_pipeline e)
      | Inr (r, db') \<Rightarrow> pseq (pmodify (\<lambda>_. db')) (edit_commit i (transcribed r))))))"

definition process_confirmed :: "'g process_env \<Rightarrow> chunker \<Rightarrow> uuid \<Rightarrow> source_row \<Rightarrow> ('g, unit) proc" where
  "process_confirmed env c i s =
     (if so_review_state s \<noteq> Some RvConfirmed then preturn ()
      else pseq (edit_commit i (at_stage Analyzing (5 / 10)))
        (pbind (plift (lift_error raise_py (review_segments s))) (\<lambda>segments.
        pseq (index_step env c i (Spoken segments))
        (analyze_and_finish env i (text_or_empty (so_transcript_text s))))))"

definition process_source :: "'g process_env \<Rightarrow> uuid \<Rightarrow> ('g, unit) proc" where
  "process_source env i = with_source i (\<lambda>s.
     if so_analysis_mode s = AgentMode then preturn ()
     else if so_status s \<in> {Succeeded, AwaitingReview} then preturn ()
     else if so_kind s = MeetingKind \<and> so_review_state s \<notin> {Some RvTranscribing, Some RvConfirmed}
       then preturn ()
     else pseq (edit i started)
       (pbind (plift (lift_error raise_py (pipeline_chunker (pv_settings (an_provider (pc_analysis env)))))) (\<lambda>c.
        if so_analysis_checkpoint s \<noteq> None then resume_analysis env i s
        else if so_kind s = DocumentKind then process_document env c i s
        else if so_review_state s = Some RvTranscribing then transcribe_meeting env i s
        else process_confirmed env c i s)))"

section \<open>One attempt\<close>

definition unfinished :: "source_row \<Rightarrow> bool" where
  "unfinished s \<longleftrightarrow> \<not> (so_status s = Succeeded \<or> so_review_state s = Some RvAwaitingReview)"

text \<open>\<^verbatim>\<open>_update_source\<close>, in a session of its own: the previous stage, or "unknown".\<close>

definition failed_stage :: "source_row \<Rightarrow> processing_stage \<Rightarrow> processing_stage" where
  "failed_stage s stage = (case so_review_state s of Some RvConfirmed \<Rightarrow> Confirmed
     | Some RvTranscribing \<Rightarrow> Transcribing | _ \<Rightarrow> stage)"

definition update_source ::
  "uuid \<Rightarrow> source_status \<Rightarrow> processing_stage \<Rightarrow> py_float \<Rightarrow> pystr option \<Rightarrow> app_db \<Rightarrow> pystr \<times> app_db" where
  "update_source i st stage progress message db = (case get_source i db of
     None \<Rightarrow> (lit ''unknown'', db)
   | Some s \<Rightarrow> (processing_stage_value (so_processing_stage s),
       if unfinished s then update_row i (\<lambda>s. s\<lparr>so_status := st, so_processing_stage := failed_stage s stage,
         so_progress := progress, so_error_message := message\<rparr>) db else db))"

text \<open>The four messages shown for a failed source.\<close>

fun failure_text :: "failure_message \<Rightarrow> pystr" where
  "failure_text MissingTranscriptionMessage = [51020, 49457, 32, 48320, 54872, 51012, 32, 51648, 50896, 54616, 45716, 32, 54532,
     47196, 48148, 51060, 45908, 32, 50672, 44208, 32, 48143, 32, 47784, 45944, 32, 49444,
     51221, 51060, 32, 54596, 50836, 54633, 45768, 45796, 46]"
| "failure_text GenericFailureMessage = [49548, 49828, 32, 52376, 47532, 50640, 32, 49892, 54056, 54664, 49845, 45768, 45796,
     46, 32, 49444, 51221, 51012, 32, 54869, 51064, 54620, 32, 46244, 32, 45796, 49884,
     32, 49884, 46020, 54644, 32, 51452, 49464, 50836, 46]"
| "failure_text ModelUnavailableMessage = [49444, 51221, 46108, 32, 47784, 45944, 51012, 32, 49324, 50857, 54624, 32, 49688,
     32, 50630, 49845, 45768, 45796, 46, 32, 50892, 53356, 49828, 54168, 51060, 49828,
     51032, 32, 52628, 52636, 32, 47784, 45944, 51012, 32, 49440, 53469, 54644, 32, 51452,
     49464, 50836, 46]"
| "failure_text ProviderAuthMessage = [65, 73, 32, 50672, 44208, 32, 51064, 51613, 50640, 32, 49892, 54056, 54664, 49845,
     45768, 45796, 46, 32, 44228, 51221, 51032, 32, 65, 80, 73, 32, 53412, 50752, 32,
     51217, 44540, 32, 44428, 54620, 51012, 32, 54869, 51064, 54644, 32, 51452, 49464,
     50836, 46]"

definition attempt_message :: "raised \<Rightarrow> safe_error \<Rightarrow> failure_message" where
  "attempt_message e safe =
     (if is_missing_credential (ex_class (hd e)) \<and> ex_capability (hd e) = Some (lit ''transcription'')
      then MissingTranscriptionMessage
      else if sf_provider_failure safe \<and> sf_http_status safe = Some 404 then ModelUnavailableMessage
      else if sf_provider_failure safe \<and> sf_http_status safe \<in> {Some 401, Some 403} then ProviderAuthMessage
      else GenericFailureMessage)"

definition is_db_error :: "raised \<Rightarrow> bool" where
  "is_db_error e \<longleftrightarrow> ex_class (hd e) = DbApiErr"

text \<open>\<^verbatim>\<open>process_source_attempt\<close>: the durable states it leaves behind, and the error it raises or returns.\<close>

definition process_source_attempt ::
  "'g process_env \<Rightarrow> uuid \<Rightarrow> bool \<Rightarrow> app_db \<times> 'g \<Rightarrow> (raised + safe_error option) \<times> (app_db \<times> 'g) list" where
  "process_source_attempt env i final d = (case process_source env i (open_session d) of
     (Inr (), s) \<Rightarrow> (Inr None, ss_log s)
   | (Inl e, s) \<Rightarrow>
       if is_db_error e then (Inl e, ss_log s)
       else (let safe = safe_attempt_error e (lit ''processing'') in
         (case update_source i (if final \<or> sf_terminal safe then Failed else Queued) Uploaded 0
             (Some (failure_text (attempt_message e safe))) (fst (durable s)) of (stage, db) \<Rightarrow>
           (Inr (Some (safe\<lparr>sf_stage := stage\<rparr>)), ss_log s @ [(db, snd (durable s))]))))"

section \<open>The Celery adapter\<close>

datatype celery_outcome = TaskDone | TaskRetry int | TaskRetryInfrastructure int int | TaskRaised safe_error

text \<open>The task's decision, for its attempt counter and the attempt's outcome; a retry names the counter
  it passes on, an infrastructure retry also its countdown. Three retries are the maximum.\<close>

definition celery_decision :: "int \<Rightarrow> raised + safe_error option \<Rightarrow> celery_outcome" where
  "celery_decision app_attempt outcome = (case outcome of
     Inl e \<Rightarrow> TaskRetryInfrastructure app_attempt 30
   | Inr None \<Rightarrow> TaskDone
   | Inr (Some e) \<Rightarrow> if sf_terminal e then TaskDone
       else if app_attempt \<ge> 3 then TaskRaised e
       else TaskRetry (app_attempt + 1))"

definition celery_task ::
  "'g process_env \<Rightarrow> uuid \<Rightarrow> int \<Rightarrow> app_db \<times> 'g \<Rightarrow> celery_outcome \<times> (app_db \<times> 'g) list" where
  "celery_task env i app_attempt d = (case process_source_attempt env i (app_attempt \<ge> 3) d of
     (outcome, trail) \<Rightarrow> (celery_decision app_attempt outcome, trail))"

end
