(* ===== verification/DurableSteps.thy ===== *)
theory DurableSteps
  imports SourceProcessing
begin

text \<open>
  What processing may do to the durable state, whatever fails and wherever it is interrupted.
  \<open>durable_step i\<close> relates the durable states before and after any piece of an attempt on source
  \<open>i\<close>; it is a preorder, and every operation of the processor is shown to stay within it at each
  of its commits and graph writes.
\<close>

section \<open>One step of a source\<close>

definition same_source :: "source_row \<Rightarrow> source_row \<Rightarrow> bool" where
  "same_source s s' \<longleftrightarrow> so_id s' = so_id s \<and> so_workspace_id s' = so_workspace_id s
     \<and> so_owner_id s' = so_owner_id s \<and> so_kind s' = so_kind s \<and> so_title s' = so_title s
     \<and> so_analysis_mode s' = so_analysis_mode s \<and> so_transcript_text s' = so_transcript_text s
     \<and> so_review_revision s' = so_review_revision s
     \<and> so_confirmed_snapshot s' = so_confirmed_snapshot s \<and> so_confirmed_at s' = so_confirmed_at s"

definition applied_cp :: "source_row \<Rightarrow> bool" where
  "applied_cp s \<longleftrightarrow> (case so_analysis_checkpoint s of
     Some cp \<Rightarrow> cp_phase cp \<in> {ContextApplied, AnalysisDone} | None \<Rightarrow> False)"

definition completed_cp :: "source_row \<Rightarrow> bool" where
  "completed_cp s \<longleftrightarrow> (case so_analysis_checkpoint s of
     Some cp \<Rightarrow> cp_phase cp = AnalysisDone | None \<Rightarrow> True)"

definition extraction_of :: "source_row \<Rightarrow> (extraction_result \<times> resolved_graph) option" where
  "extraction_of s = map_option (\<lambda>cp. (cp_result cp, cp_graph cp)) (so_analysis_checkpoint s)"

definition finished :: "source_row \<Rightarrow> bool" where
  "finished s \<longleftrightarrow> so_status s = Succeeded
     \<or> (so_kind s = MeetingKind \<and> so_review_state s = Some RvAwaitingReview)"

definition analysable :: "source_row \<Rightarrow> bool" where
  "analysable s \<longleftrightarrow> so_kind s = DocumentKind \<or> so_review_state s = Some RvConfirmed"

definition row_step :: "source_row \<Rightarrow> source_row \<Rightarrow> bool" where
  "row_step s s' \<longleftrightarrow> same_source s s'
     \<and> (so_review_state s' = so_review_state s
        \<or> (so_review_state s = Some RvTranscribing \<and> so_review_state s' = Some RvAwaitingReview))
     \<and> (applied_cp s \<longrightarrow> applied_cp s' \<and> extraction_of s' = extraction_of s)
     \<and> (so_status s' = Succeeded \<longrightarrow> so_status s = Succeeded \<or> completed_cp s')
     \<and> (so_analysis_checkpoint s' = so_analysis_checkpoint s \<or> analysable s)"

definition untouched :: "uuid \<Rightarrow> app_db \<Rightarrow> app_db \<Rightarrow> bool" where
  "untouched i db db' \<longleftrightarrow> (\<forall>j. j \<noteq> i \<longrightarrow> get_source j db' = get_source j db
       \<and> source_chunks j db' = source_chunks j db)
     \<and> ab_workspaces db' = ab_workspaces db \<and> ab_members db' = ab_members db
     \<and> ab_people db' = ab_people db \<and> ab_projects db' = ab_projects db
     \<and> ab_credentials db' = ab_credentials db \<and> ab_jobs db' = ab_jobs db"

definition durable_step :: "uuid \<Rightarrow> 'g state_rel" where
  "durable_step i d d' \<longleftrightarrow> untouched i (fst d) (fst d')
     \<and> (case get_source i (fst d) of
          None \<Rightarrow> d' = d
        | Some s \<Rightarrow> (finished s \<longrightarrow> d' = d) \<and> (\<exists>s'. get_source i (fst d') = Some s' \<and> row_step s s'
            \<and> (ab_context (fst d') \<noteq> ab_context (fst d) \<longrightarrow> \<not> applied_cp s \<and> applied_cp s' \<and> analysable s)
            \<and> (snd d' \<noteq> snd d \<longrightarrow> applied_cp s')))"

lemma row_step_refl [simp]: "row_step s s"
  by (simp add: row_step_def same_source_def)

lemma untouched_refl [simp]: "untouched i db db"
  by (simp add: untouched_def)

lemma durable_step_refl [simp]: "durable_step i d d"
  by (simp add: durable_step_def split: option.splits)

lemma same_source_trans: "same_source a b \<Longrightarrow> same_source b c \<Longrightarrow> same_source a c"
  by (simp add: same_source_def)

lemma row_step_analysable: "row_step s s' \<Longrightarrow> analysable s' \<Longrightarrow> analysable s"
  by (auto simp: row_step_def same_source_def analysable_def)

lemma row_step_trans:
  assumes "row_step a b" "row_step b c" "finished b \<Longrightarrow> c = b"
  shows "row_step a c"
proof -
  have "same_source a c"
    using assms(1,2) same_source_trans by (auto simp: row_step_def)
  moreover have "so_review_state c = so_review_state a
      \<or> so_review_state a = Some RvTranscribing \<and> so_review_state c = Some RvAwaitingReview"
    using assms(1,2) by (auto simp: row_step_def)
  moreover have "applied_cp a \<longrightarrow> applied_cp c \<and> extraction_of c = extraction_of a"
    using assms(1,2) by (auto simp: row_step_def)
  moreover have "so_status c = Succeeded \<longrightarrow> so_status a = Succeeded \<or> completed_cp c"
    using assms unfolding row_step_def finished_def by metis
  moreover have "so_analysis_checkpoint c = so_analysis_checkpoint a \<or> analysable a"
    using assms(1,2) row_step_analysable [OF assms(1)] unfolding row_step_def by metis
  ultimately show ?thesis
    by (simp add: row_step_def)
qed

lemma untouched_trans: "untouched i a b \<Longrightarrow> untouched i b c \<Longrightarrow> untouched i a c"
  by (simp add: untouched_def)

lemma durable_step_trans:
  fixes a b c :: "app_db \<times> 'g"
  assumes ab: "durable_step i a b" and bc: "durable_step i b c"
  shows "durable_step i a c"
proof (cases "get_source i (fst a)")
  case None
  then show ?thesis
    using ab bc by (simp add: durable_step_def)
next
  case (Some s)
  then obtain s1 where s1: "get_source i (fst b) = Some s1" "row_step s s1" "finished s \<longrightarrow> b = a"
    "ab_context (fst b) \<noteq> ab_context (fst a) \<longrightarrow> \<not> applied_cp s \<and> applied_cp s1 \<and> analysable s"
    "snd b \<noteq> snd a \<longrightarrow> applied_cp s1"
    using ab by (auto simp: durable_step_def)
  then obtain s2 where s2: "get_source i (fst c) = Some s2" "row_step s1 s2" "finished s1 \<longrightarrow> c = b"
    "ab_context (fst c) \<noteq> ab_context (fst b) \<longrightarrow> \<not> applied_cp s1 \<and> applied_cp s2 \<and> analysable s1"
    "snd c \<noteq> snd b \<longrightarrow> applied_cp s2"
    using bc by (auto simp: durable_step_def)
  have row: "row_step s s2"
    using row_step_trans [OF s1(2) s2(2)] s1(1) s2(1,3) by auto
  have "applied_cp s \<longrightarrow> applied_cp s1" "applied_cp s1 \<longrightarrow> applied_cp s2"
    using s1(2) s2(2) by (simp_all add: row_step_def)
  moreover have "untouched i (fst a) (fst c)"
    using ab bc untouched_trans by (auto simp: durable_step_def)
  moreover have "finished s \<longrightarrow> c = a"
    using s1 s2 Some by auto
  ultimately show ?thesis
    unfolding durable_step_def using Some s1 s2 row row_step_analysable [OF s1(2)] by auto
qed

section \<open>Operations within the step\<close>

definition keeps :: "uuid \<Rightarrow> 'g state_rel \<Rightarrow> ('g, 'e, 'a) run \<Rightarrow> ('a \<Rightarrow> 'g state_rel) \<Rightarrow> bool" where
  "keeps i I m Q \<longleftrightarrow> along (durable_step i) (\<lambda>d v. durable_step i d v \<and> I d v) m
     (\<lambda>x d v. durable_step i d v \<and> Q x d v)"

text \<open>What the view knows of the source's row; \<open>clean\<close> when nothing is pending.\<close>

definition rowp :: "uuid \<Rightarrow> (source_row \<Rightarrow> bool) \<Rightarrow> 'g state_rel" where
  "rowp i \<Phi> d v \<longleftrightarrow> (\<exists>s. get_source i (fst v) = Some s \<and> \<Phi> s)"

definition clean :: "uuid \<Rightarrow> (source_row \<Rightarrow> bool) \<Rightarrow> 'g state_rel" where
  "clean i \<Phi> d v \<longleftrightarrow> d = v \<and> rowp i \<Phi> d v"

lemma keeps_mono:
  "keeps i I m Q \<Longrightarrow> (\<And>d v. I' d v \<Longrightarrow> I d v) \<Longrightarrow> (\<And>x d v. Q x d v \<Longrightarrow> Q' x d v) \<Longrightarrow> keeps i I' m Q'"
  unfolding keeps_def by (erule along_mono) auto

lemma keeps_return: "(\<And>d v. I d v \<Longrightarrow> Q x d v) \<Longrightarrow> keeps i I (preturn x) Q"
  unfolding keeps_def by (rule along_return) auto

lemma keeps_raise: "keeps i I (praise e) Q"
  unfolding keeps_def by (rule along_raise)

lemma keeps_lift: "keeps i I (plift r) (\<lambda>_. I)"
  unfolding keeps_def by (rule along_lift) auto

lemma keeps_bind: "keeps i I m Q \<Longrightarrow> (\<And>x. keeps i (Q x) (f x) Q') \<Longrightarrow> keeps i I (pbind m f) Q'"
  unfolding keeps_def by (rule along_bind)

lemma keeps_seq: "keeps i I m (\<lambda>_. J) \<Longrightarrow> keeps i J n Q \<Longrightarrow> keeps i I (pseq m n) Q"
  unfolding pseq_def by (rule keeps_bind)

lemma keeps_get: "keeps i I pget (\<lambda>db d v. db = fst v \<and> I d v)"
  unfolding keeps_def by (rule along_mono [OF along_get]) auto

lemma keeps_modify:
  assumes "\<And>d db g. I d (db, g) \<Longrightarrow> durable_step i (db, g) (f db, g) \<and> Q d (f db, g)"
  shows "keeps i I (pmodify f) (\<lambda>_. Q)"
  unfolding keeps_def by (rule along_modify) (use assms durable_step_trans in blast)

lemma keeps_commit: "keeps i (rowp i \<Phi>) pcommit (\<lambda>_. clean i \<Phi>)"
  unfolding keeps_def by (rule along_commit) (auto simp: clean_def rowp_def)

lemma keeps_get_bind:
  "(\<And>db. keeps i (\<lambda>d v. db = fst v \<and> I d v) (f db) Q) \<Longrightarrow> keeps i I (pbind pget f) Q"
  by (rule keeps_bind [OF keeps_get])

lemma keeps_lift_bind: "(\<And>x. keeps i I (f x) Q) \<Longrightarrow> keeps i I (pbind (plift r) f) Q"
  by (rule keeps_bind [OF keeps_lift])

lemma keeps_with_source:
  assumes "\<And>s. so_id s = i \<Longrightarrow> keeps i (\<lambda>d v. get_source i (fst v) = Some s \<and> I d v) (f s) Q"
  shows "keeps i I (with_source i f) Q"
  unfolding with_source_def
proof (rule keeps_get_bind)
  fix db
  show "keeps i (\<lambda>d v. db = fst v \<and> I d v)
      (case get_source i db of None \<Rightarrow> praise [plain_exc OtherErr ''ValueError''] | Some s \<Rightarrow> f s) Q"
  proof (cases "get_source i db")
    case (Some s)
    have "keeps i (\<lambda>d v. db = fst v \<and> I d v) (f s) Q"
      by (rule keeps_mono [OF assms [OF get_source_id [OF Some]]]) (use Some in auto)
    then show ?thesis
      using Some by simp
  qed (simp add: keeps_raise)
qed

lemma get_source_update_row:
  "(\<And>s. so_id (f s) = so_id s) \<Longrightarrow>
    get_source j (update_row i f db) = (if j = i then map_option f (get_source i db) else get_source j db)"
  by (simp add: get_source_def update_row_def table_simps)

lemma untouched_update_row: "(\<And>s. so_id (f s) = so_id s) \<Longrightarrow> untouched i db (update_row i f db)"
  unfolding untouched_def get_source_update_row
  by (simp add: get_source_update_row) (simp add: update_row_def source_chunks_def)

lemma update_row_context [simp]: "ab_context (update_row i f db) = ab_context db"
  by (simp add: update_row_def)

lemma durable_update_row:
  assumes "\<And>s. so_id (f s) = so_id s" "get_source i db = Some s" "\<not> finished s" "row_step s (f s)"
  shows "durable_step i (db, g) (update_row i f db, g)"
  using assms by (simp add: durable_step_def untouched_update_row get_source_update_row)

lemma keeps_edit:
  assumes "\<And>s. so_id (f s) = so_id s" "\<And>s. \<Phi> s \<Longrightarrow> \<not> finished s \<and> row_step s (f s) \<and> \<Psi> (f s)"
  shows "keeps i (rowp i \<Phi>) (edit i f) (\<lambda>_. rowp i \<Psi>)"
  unfolding edit_def
proof (rule keeps_modify)
  fix d db and g :: 'a
  assume "rowp i \<Phi> d (db, g)"
  then obtain s where s: "get_source i db = Some s" "\<Phi> s"
    by (auto simp: rowp_def)
  then have "durable_step i (db, g) (update_row i f db, g)"
    using assms(2) by (intro durable_update_row [OF assms(1)]) auto
  with s show "durable_step i (db, g) (update_row i f db, g) \<and> rowp i \<Psi> d (update_row i f db, g)"
    using assms by (simp add: rowp_def get_source_update_row)
qed

lemma keeps_edit_commit:
  assumes "\<And>s. so_id (f s) = so_id s" "\<And>s. \<Phi> s \<Longrightarrow> \<not> finished s \<and> row_step s (f s) \<and> \<Psi> (f s)"
  shows "keeps i (rowp i \<Phi>) (edit_commit i f) (\<lambda>_. clean i \<Psi>)"
  unfolding edit_commit_def by (rule keeps_seq [OF keeps_edit keeps_commit]) (use assms in auto)

lemma clean_rowp: "clean i \<Phi> d v \<Longrightarrow> rowp i \<Phi> d v"
  by (simp add: clean_def rowp_def)

lemma keeps_clean: "keeps i (rowp i \<Phi>) m Q \<Longrightarrow> keeps i (clean i \<Phi>) m Q"
  by (erule keeps_mono) (simp_all add: clean_rowp)


section \<open>Indexing and transcription\<close>

lemma transcribe_Inr:
  assumes "transcribe env st s audio db = Inr (r, db')"
  shows "\<exists>e. db' = add_audit_event st e db"
proof -
  obtain p where "(case ad_transcribe (rv_adapter p) \<lparr>tq_audio = audio, tq_filename = so_title s,
      tq_content_type = so_content_type s, tq_model = rv_model p, tq_language = None\<rparr> (rv_api_key p) of
        Inl e \<Rightarrow> Inl (IngestionFailed (ProviderSaid e))
      | Inr response \<Rightarrow> Inr (response, add_audit_event st
          (system_event s ''transcription.completed'' (provenance p)) db)) = Inr (r, db')"
    using assms unfolding transcribe_def rbind_Inr_iff by blast
  then show ?thesis
    by (auto split: sum.splits)
qed

lemma durable_audit_chunks:
  assumes "\<And>j. get_source j db' = get_source j db" "untouched i db db'" "ab_context db' = ab_context db"
    and "get_source i db = Some s" "\<not> finished s"
  shows "durable_step i (db, g) (db', g)"
  using assms by (simp add: durable_step_def)

lemma index_source_step:
  assumes "index_source env uuid5 st c s segments language db = Inr (n, db')" "so_id s = i"
  shows "(\<forall>j. get_source j db' = get_source j db) \<and> untouched i db db' \<and> ab_context db' = ab_context db"
proof -
  note facts = index_source_facts [OF assms(1)]
  have eq: "db' = db\<lparr>ab_chunks := ab_chunks db', ab_audit := ab_audit db'\<rparr>"
    using facts by blast
  have "ab_sources db' = ab_sources db" "ab_context db' = ab_context db"
    "ab_workspaces db' = ab_workspaces db" "ab_members db' = ab_members db" "ab_people db' = ab_people db"
    "ab_projects db' = ab_projects db" "ab_credentials db' = ab_credentials db" "ab_jobs db' = ab_jobs db"
    by (subst eq, simp)+
  then show ?thesis
    using facts assms(2) by (simp add: untouched_def get_source_def)
qed

lemma keeps_index:
  assumes "\<And>s. \<Phi> s \<Longrightarrow> \<not> finished s"
  shows "keeps i (rowp i \<Phi>) (index_step env c i segments) (\<lambda>_. rowp i \<Phi>)"
  unfolding index_step_def
proof (rule keeps_with_source, rule keeps_get_bind)
  fix s :: source_row and db
  assume s: "so_id s = i"
  let ?run = "index_source (an_provider (pc_analysis env)) (pc_uuid5 env) (an_stamp (pc_analysis env)) c s
    segments None db"
  show "keeps i (\<lambda>d v. db = fst v \<and> get_source i (fst v) = Some s \<and> rowp i \<Phi> d v)
      (case ?run of Inl e \<Rightarrow> praise (raise_index e) | Inr (n, db') \<Rightarrow> pmodify (\<lambda>_. db')) (\<lambda>_. rowp i \<Phi>)"
  proof (cases ?run)
    case (Inr r)
    then obtain n db' where run: "?run = Inr (n, db')"
      by (cases r) auto
    note step = index_source_step [OF run s]
    have "keeps i (\<lambda>d v. db = fst v \<and> get_source i (fst v) = Some s \<and> rowp i \<Phi> d v)
        (pmodify (\<lambda>_. db')) (\<lambda>_. rowp i \<Phi>)"
    proof (rule keeps_modify)
      fix d db0 g
      assume I: "db = fst (db0, g) \<and> get_source i (fst (db0, g)) = Some s \<and> rowp i \<Phi> d (db0, g)"
      then have "durable_step i (db0, g) (db', g)"
        using step assms by (intro durable_audit_chunks [where s = s]) (auto simp: rowp_def)
      then show "durable_step i (db0, g) (db', g) \<and> rowp i \<Phi> d (db', g)"
        using I step by (auto simp: rowp_def)
    qed
    then show ?thesis
      using run by simp
  qed (simp add: keeps_raise)
qed


section \<open>The analysis\<close>

text \<open>Where nothing is pending and the context is applied, the graph may be written.\<close>

lemma keeps_write_graph:
  assumes "\<And>s. \<Phi> s \<Longrightarrow> applied_cp s \<and> \<not> finished s"
  shows "keeps i (clean i \<Phi>) (write_graph env graph ws) (\<lambda>_. clean i \<Phi>)"
proof (cases "an_graph env")
  case None
  then show ?thesis
    by (simp add: write_graph_def keeps_return)
next
  case (Some store)
  have "keeps i (clean i \<Phi>) (pgraph (store graph)) (\<lambda>_. clean i \<Phi>)"
    unfolding keeps_def
  proof (rule along_graph)
    fix d :: "app_db \<times> 'a" and g :: 'a and db
    assume "durable_step i d (db, g) \<and> clean i \<Phi> d (db, g)"
    then show "durable_step i d (fst d, snd (store graph g))"
      using assms by (auto simp: clean_def rowp_def durable_step_def)
  next
    fix d :: "app_db \<times> 'a" and g :: 'a and db x
    assume "durable_step i d (db, g) \<and> clean i \<Phi> d (db, g)"
    then show "durable_step i (fst d, snd (store graph g)) (db, snd (store graph g))
        \<and> clean i \<Phi> (fst d, snd (store graph g)) (db, snd (store graph g))"
      by (auto simp: clean_def rowp_def)
  qed
  then show ?thesis
    using Some by (simp add: write_graph_def) (rule keeps_bind, assumption, rule keeps_return, assumption)
qed

lemma get_source_put_id: "get_source (so_id s) db \<noteq> None \<Longrightarrow> get_source (so_id s) (put_source s db) = Some s"
  by (simp add: table_simps)

lemma keeps_complete:
  assumes "so_id s = i" "so_analysis_checkpoint s = Some cp" "\<not> finished s" "applied_cp s" "analysable s"
  shows "keeps i (\<lambda>d v. get_source i (fst v) = Some s) (complete_analysis env s cp details ws)
    (\<lambda>_. clean i (\<lambda>s'. same_source s s' \<and> so_review_state s' = so_review_state s \<and> so_status s' = so_status s
      \<and> completed_cp s'))"
proof -
  define s' where "s' = with_checkpoint s (Some (cp\<lparr>cp_phase := AnalysisDone, cp_warnings := ws\<rparr>))"
  have row: "row_step s s'" "same_source s s'" "so_review_state s' = so_review_state s"
    "so_status s' = so_status s" "completed_cp s'" "applied_cp s'" "so_id s' = i"
    using assms by (auto simp: s'_def with_checkpoint_def row_step_def same_source_def applied_cp_def
        completed_cp_def extraction_of_def)
  have "keeps i (\<lambda>d v. get_source i (fst v) = Some s) (pmodify (put_source s')) (\<lambda>_. rowp i ((=) s'))"
  proof (rule keeps_modify)
    fix d db g
    assume "get_source i (fst (db, g)) = Some s"
    moreover have "untouched i db (put_source s' db)"
      using row(7) by (auto simp: untouched_def table_simps source_chunks_def)
    ultimately show "durable_step i (db, g) (put_source s' db, g) \<and> rowp i ((=) s') d (put_source s' db, g)"
      using assms(3) row by (simp add: durable_step_def rowp_def table_simps)
  qed
  moreover have "keeps i (rowp i ((=) s')) (pmodify (add_audit_event st e)) (\<lambda>_. rowp i ((=) s'))" for st e
  proof (rule keeps_modify)
    fix d db g
    assume "rowp i ((=) s') d (db, g)"
    moreover have "untouched i db (add_audit_event st e db)"
      by (simp add: untouched_def source_chunks_def)
    moreover have "\<not> finished s'"
      using assms(3) row(2-4) by (simp add: finished_def same_source_def)
    ultimately show "durable_step i (db, g) (add_audit_event st e db, g) \<and> rowp i ((=) s') d (add_audit_event st e db, g)"
      using durable_audit_chunks [of "add_audit_event st e db" db i s'] by (auto simp: rowp_def)
  qed
  ultimately have "keeps i (\<lambda>d v. get_source i (fst v) = Some s) (complete_analysis env s cp details ws)
      (\<lambda>_. clean i ((=) s'))"
    unfolding complete_analysis_def s'_def [symmetric]
    by (intro keeps_seq [OF _ keeps_seq [OF _ keeps_seq [OF keeps_commit keeps_return]]])
  then show ?thesis
    by (rule keeps_mono) (auto simp: clean_def rowp_def row)
qed

end
