(* ===== verification/ProcessorSteps.thy ===== *)
theory ProcessorSteps
  imports DurableSteps
begin

text \<open>
  The processor of \<^verbatim>\<open>source_processor.py\<close> and the analysis service of \<^verbatim>\<open>source_analysis.py\<close> within
  \<open>durable_step\<close>: every commit and every graph write of an attempt, for any providers, storage and
  graph store, and what follows for the attempts on a source.
\<close>

section \<open>The analysis\<close>

definition alike :: "source_row \<Rightarrow> source_row \<Rightarrow> bool" where
  "alike s s' \<longleftrightarrow> same_source s s' \<and> so_review_state s' = so_review_state s \<and> so_status s' = so_status s"

lemma alike_refl [simp]: "alike s s"
  by (simp add: alike_def same_source_def)

lemma alike_trans: "alike a b \<Longrightarrow> alike b c \<Longrightarrow> alike a c"
  by (simp add: alike_def same_source_def)

lemma alike_finished: "alike s s' \<Longrightarrow> finished s' \<longleftrightarrow> finished s"
  by (simp add: alike_def same_source_def finished_def)

lemma alike_analysable: "alike s s' \<Longrightarrow> analysable s' \<longleftrightarrow> analysable s"
  by (simp add: alike_def same_source_def analysable_def)

lemma alike_with_checkpoint [simp]: "alike s (with_checkpoint s' cp) \<longleftrightarrow> alike s s'"
  by (simp add: alike_def same_source_def with_checkpoint_def)

lemma alike_saved_context [simp]: "alike s (saved_context s' ws) \<longleftrightarrow> alike s s'"
  by (simp add: alike_def same_source_def saved_context_def)

definition extracted_cp :: "source_row \<Rightarrow> bool" where
  "extracted_cp s \<longleftrightarrow> (case so_analysis_checkpoint s of Some cp \<Rightarrow> cp_phase cp = Extracted | None \<Rightarrow> False)"

lemma keeps_if:
  "(c \<Longrightarrow> keeps i I m Q) \<Longrightarrow> (\<not> c \<Longrightarrow> keeps i I n Q) \<Longrightarrow> keeps i I (if c then m else n) Q"
  by simp

lemma keeps_pure: "(\<phi> \<Longrightarrow> keeps i I m Q) \<Longrightarrow> keeps i (\<lambda>d v. I d v \<and> \<phi>) m Q"
  by (cases \<phi>) (simp_all add: keeps_def along_def)

lemma keeps_provider:
  assumes "\<And>db. keeps i I (f db) Q"
  shows "keeps i I (pbind pget f) Q"
  by (rule keeps_get_bind, rule keeps_mono [OF assms]) simp_all

lemma keeps_save_extraction:
  assumes "so_id s = i" "\<not> finished s" "analysable s"
  shows "keeps i (clean i (\<lambda>s'. alike s s' \<and> so_analysis_checkpoint s' = None))
    (save_extraction s fingerprint p r graph fp) (\<lambda>_. clean i (\<lambda>s'. alike s s' \<and> extracted_cp s'))"
  unfolding save_extraction_def edit_def [symmetric] edit_commit_def [symmetric] assms(1)
proof (rule keeps_clean, rule keeps_edit_commit)
  fix s'
  assume "alike s s' \<and> so_analysis_checkpoint s' = None"
  then show "\<not> finished s' \<and> row_step s' (with_checkpoint s' (Some (saved_extraction fingerprint p r graph fp)))
      \<and> alike s (with_checkpoint s' (Some (saved_extraction fingerprint p r graph fp)))
      \<and> extracted_cp (with_checkpoint s' (Some (saved_extraction fingerprint p r graph fp)))"
    using assms(2,3) alike_finished
    by (auto simp: row_step_def analysable_def same_source_def applied_cp_def extracted_cp_def with_checkpoint_def
        saved_extraction_def alike_def finished_def)
qed (simp add: with_checkpoint_def)

lemma keeps_obtain: "keeps i I (obtain_extraction env adapter a given) (\<lambda>_. I)"
proof (cases given)
  case None
  have "keeps i I (pbind pget (\<lambda>db. let known = known_decisions (ai_workspace_id a) db in
      case pipeline_extract pl (an_models env) (ai_text a) (Some (ai_title a)) known hint of
        (Inl e, u) \<Rightarrow> praise (raise_extraction e)
      | (Inr r, u) \<Rightarrow> preturn (r, Some (decision_fingerprint env known), u))) (\<lambda>_. I)" for pl hint
    by (rule keeps_get_bind)
      (auto simp: Let_def intro!: keeps_raise keeps_return split: prod.splits sum.splits)
  then show ?thesis
    using None by (simp add: obtain_extraction_def keeps_raise split: option.split)
qed (simp add: obtain_extraction_def keeps_return)

text \<open>Between the new context and the checkpoint that says so nothing is committed; \<open>F\<close> is what the
  callback does to the row.\<close>

definition context_saved :: "(source_row \<Rightarrow> source_row) \<Rightarrow> bool" where
  "context_saved F \<longleftrightarrow> (\<forall>s. so_id (F s) = so_id s \<and> alike s (F s)
     \<and> (extracted_cp s \<longrightarrow> applied_cp (F s)) \<and> so_review_state (F s) = so_review_state s)"

lemma context_saved_row:
  assumes "context_saved F" "extracted_cp s" "analysable s" "\<not> finished s"
  shows "row_step s (F s) \<and> \<not> applied_cp s \<and> applied_cp (F s)"
proof -
  have F: "alike s (F s)" "applied_cp (F s)" "so_review_state (F s) = so_review_state s"
    using assms(1,2) by (simp_all add: context_saved_def)
  have none: "\<not> applied_cp s"
    using assms(2) by (auto simp: extracted_cp_def applied_cp_def split: option.splits)
  have same: "same_source s (F s)" "so_status (F s) = so_status s"
    using F(1) by (simp_all add: alike_def)
  show ?thesis
    using same none F assms(3,4) by (simp add: row_step_def finished_def)
qed

lemma saved_context_is [simp]: "context_saved (\<lambda>s. saved_context s ws)"
  by (auto simp: context_saved_def applied_cp_def extracted_cp_def saved_context_def alike_def same_source_def
      split: option.splits)

lemma keeps_context:
  fixes env :: "'g analysis_env"
  assumes "\<not> finished s" "analysable s" "\<And>ws. context_saved (F ws)"
  shows "keeps i (clean i (\<lambda>s'. alike s s' \<and> extracted_cp s'))
    (pbind (apply_context env upd a r) (\<lambda>applied. pseq (edit_commit i (F applied)) (preturn applied)))
    (\<lambda>_. clean i (\<lambda>s'. alike s s' \<and> applied_cp s'))"
proof -
  let ?I = "\<lambda>d v. rowp i (\<lambda>s'. alike s s' \<and> extracted_cp s') d d \<and> snd v = snd d
    \<and> (\<exists>ctx. fst v = (fst d)\<lparr>ab_context := ctx\<rparr>)"
  let ?J = "\<lambda>d v. durable_step i d v \<and> rowp i (\<lambda>s'. alike s s' \<and> applied_cp s') d v"
  have new_context: "along (durable_step i) (\<lambda>d v. durable_step i d v \<and> clean i (\<lambda>s'. alike s s' \<and> extracted_cp s') d v)
      (apply_context env upd a r) (\<lambda>_. ?I)"
    unfolding apply_context_def
  proof (rule along_bind [OF along_get])
    fix db
    let ?P = "\<lambda>d v. db = fst v \<and> durable_step i d v \<and> clean i (\<lambda>s'. alike s s' \<and> extracted_cp s') d v"
    show "along (durable_step i) ?P (case service_apply (an_runtime env) sql_repository upd (context_request env a r)
          (ab_context db) of Inl e \<Rightarrow> praise (raise_context e)
        | Inr (ws, ctx) \<Rightarrow> pseq (pmodify (\<lambda>db. db\<lparr>ab_context := ctx\<rparr>)) (preturn ws)) (\<lambda>_. ?I)"
    proof (cases "service_apply (an_runtime env) sql_repository upd (context_request env a r) (ab_context db)")
      case (Inr b)
      obtain ws ctx where b: "b = (ws, ctx)"
        by fastforce
      have "along (durable_step i) ?P (pmodify (\<lambda>db. db\<lparr>ab_context := ctx\<rparr>)) (\<lambda>_. ?I)"
        by (rule along_modify) (auto simp: clean_def rowp_def)
      then have "along (durable_step i) ?P (pseq (pmodify (\<lambda>db. db\<lparr>ab_context := ctx\<rparr>)) (preturn ws)) (\<lambda>_. ?I)"
        by (rule along_seq) (rule along_return)
      then show ?thesis
        using Inr b by simp
    qed (simp add: along_raise)
  qed
  have save: "along (durable_step i) ?I (edit_commit i (F applied) :: ('g, unit) proc) (\<lambda>_ d v. durable_step i d v
      \<and> clean i (\<lambda>s'. alike s s' \<and> applied_cp s') d v)" for applied
    unfolding edit_commit_def edit_def
  proof (rule along_seq [where Q = ?J])
    show "along (durable_step i) ?I (pmodify (update_row i (F applied)) :: ('g, unit) proc) (\<lambda>_. ?J)"
    proof (rule along_modify)
      fix d :: "app_db \<times> 'g" and db and g :: 'g
      assume "?I d (db, g)"
      then obtain ctx s' where s': "get_source i (fst d) = Some s'" "alike s s'" "extracted_cp s'"
        and v: "db = (fst d)\<lparr>ab_context := ctx\<rparr>" "g = snd d"
        by (auto simp: rowp_def)
      let ?db = "update_row i (F applied) db"
      have F: "so_id (F applied x) = so_id x" "alike x (F applied x)" for x
        using assms(3) by (simp_all add: context_saved_def)
      have "get_source j db = get_source j (fst d)" for j
        by (simp add: v get_source_def)
      then have row: "get_source i ?db = Some (F applied s')"
        using s'(1) by (simp add: get_source_update_row [OF F(1)])
      have "untouched i (fst d) db"
        by (simp add: v untouched_def get_source_def source_chunks_def)
      then have "untouched i (fst d) ?db"
        using untouched_update_row [OF F(1)] untouched_trans by blast
      moreover have fresh: "analysable s'" "\<not> finished s'"
        using assms alike_analysable [OF s'(2)] alike_finished [OF s'(2)] by simp_all
      moreover note step = context_saved_row [OF assms(3) s'(3) fresh, of applied]
      ultimately have "durable_step i d (?db, g)"
        using s'(1) row v(2) by (simp add: durable_step_def)
      then show "?J d (update_row i (F applied) db, g)"
        using row step alike_trans [OF s'(2) F(2)] by (simp add: rowp_def)
    qed
    show "along (durable_step i) ?J (pcommit :: ('g, unit) proc) (\<lambda>_ d v. durable_step i d v
        \<and> clean i (\<lambda>s'. alike s s' \<and> applied_cp s') d v)"
      by (rule along_commit) (auto simp: clean_def rowp_def)
  qed
  show ?thesis
    unfolding keeps_def
    by (rule along_bind [OF new_context]) (rule along_seq [OF save], simp add: along_return)
qed

text \<open>The whole analysis, from no checkpoint or from an extraction, ends with the context applied.\<close>

definition at_checkpoint :: "source_row \<Rightarrow> analysis_checkpoint option \<Rightarrow> source_row \<Rightarrow> bool" where
  "at_checkpoint s cp s' \<longleftrightarrow> alike s s' \<and> so_analysis_checkpoint s' = cp"

lemma keeps_analyze_with:
  fixes env :: "'g analysis_env"
  assumes "\<not> finished s" "analysable s"
    and "\<And>c. cp = Some c \<Longrightarrow> cp_phase c = Extracted"
    and saved: "\<And>r graph fp. keeps i (clean i (at_checkpoint s None)) (on_extracted r graph fp)
      (\<lambda>_. clean i (\<lambda>s'. alike s s' \<and> extracted_cp s'))"
    and "\<And>ws. context_saved (F ws)"
  shows "keeps i (clean i (at_checkpoint s cp))
    (analyze_source env pl upd a given (map_option cp_graph cp) False ws on_extracted (\<lambda>ws. edit_commit i (F ws)))
    (\<lambda>_. clean i (\<lambda>s'. alike s s' \<and> applied_cp s'))"
proof -
  let ?X = "clean i (\<lambda>s'. alike s s' \<and> extracted_cp s') :: 'g state_rel"
  have saved: "keeps i (clean i (at_checkpoint s cp)) (if map_option cp_graph cp = None
      then on_extracted r graph fp else preturn ()) (\<lambda>_. ?X)" for r graph fp
  proof (cases cp)
    case None
    then show ?thesis
      using saved by simp
  next
    case (Some c)
    then show ?thesis
      using assms(3) by (auto simp: at_checkpoint_def extracted_cp_def clean_def rowp_def intro!: keeps_return)
  qed
  have graph_of: "keeps i I (case map_option cp_graph cp of Some g \<Rightarrow> preturn g | None \<Rightarrow> plift q) (\<lambda>_. I)"
    for I :: "'g state_rel" and q
    by (cases cp) (simp_all add: keeps_lift keeps_return)
  have with_context: "keeps i ?X (pbind (if False then preturn [] else pbind (apply_context env u a r)
        (\<lambda>applied. pseq (edit_commit i (F applied)) (preturn applied))) (\<lambda>applied. write_graph env graph (f applied)))
      (\<lambda>_. clean i (\<lambda>s'. alike s s' \<and> applied_cp s'))" for u r graph f
    by (simp, rule keeps_bind [OF keeps_context [OF assms(1,2,5)]], rule keeps_write_graph)
      (use assms(1) alike_finished in auto)
  show ?thesis
    unfolding analyze_source_def
    apply (rule keeps_bind [OF keeps_obtain])
    apply (simp only: split: prod.split)
    apply (intro allI impI)
    apply (rule keeps_bind [OF graph_of])
    apply (rule keeps_get_bind)
    apply (rule keeps_seq [where J = ?X])
     apply (rule keeps_mono [OF saved], simp, assumption)
    apply (rule with_context)
    done
qed

lemma keeps_analyze:
  fixes env :: "'g analysis_env"
  assumes "so_id s = i" "\<not> finished s" "analysable s"
    and "\<And>c. cp = Some c \<Longrightarrow> cp_phase c = Extracted"
  shows "keeps i (clean i (at_checkpoint s cp))
    (analyze_source env pl upd a given (map_option cp_graph cp) False ws
      (save_extraction s fingerprint p) (save_context s))
    (\<lambda>_. clean i (\<lambda>s'. alike s s' \<and> applied_cp s'))"
proof -
  have eq: "(save_context s :: warning list \<Rightarrow> ('g, unit) proc)
      = (\<lambda>ws. edit_commit i (\<lambda>s. saved_context s ws))"
    using assms(1) by (simp add: save_context_def [abs_def] edit_commit_def edit_def)
  show ?thesis
    unfolding eq
    by (rule keeps_analyze_with [OF assms(2,3) assms(4)])
      (use keeps_save_extraction [OF assms(1-3)] in \<open>simp_all add: at_checkpoint_def [abs_def]\<close>)
qed

lemma keeps_fresh_checkpoint:
  fixes env :: "'g analysis_env"
  assumes "so_id s = i" "\<not> finished s" "analysable s"
    and "\<And>c. so_analysis_checkpoint s = Some c \<Longrightarrow> cp_phase c = Extracted"
  shows "keeps i (clean i ((=) s)) (fresh_checkpoint env s)
    (\<lambda>c. \<lambda>d v. clean i (at_checkpoint s c) d v \<and> (c \<noteq> None \<longrightarrow> c = so_analysis_checkpoint s))"
proof (cases "so_analysis_checkpoint s")
  case None
  then show ?thesis
    by (auto simp: fresh_checkpoint_def at_checkpoint_def clean_def rowp_def intro!: keeps_return)
next
  case (Some c)
  have drop: "keeps i (clean i ((=) s)) (commit_source (with_checkpoint s None) :: ('g, unit) proc)
      (\<lambda>_. clean i (at_checkpoint s None))"
    unfolding commit_source_def
  proof (rule keeps_seq [OF keeps_modify keeps_commit])
    fix d :: "app_db \<times> 'g" and db and g :: 'g
    assume "clean i ((=) s) d (db, g)"
    then have row: "get_source i db = Some s"
      by (simp add: clean_def rowp_def)
    have "row_step s (with_checkpoint s None)"
      using Some assms(3,4) by (simp add: row_step_def with_checkpoint_def same_source_def applied_cp_def
          completed_cp_def)
    moreover have "untouched i db (put_source (with_checkpoint s None) db)"
      using assms(1) by (auto simp: untouched_def table_simps source_chunks_def with_checkpoint_def)
    ultimately show "durable_step i (db, g) (put_source (with_checkpoint s None) db, g)
        \<and> rowp i (at_checkpoint s None) d (put_source (with_checkpoint s None) db, g)"
      using row assms(1,2) by (simp add: durable_step_def rowp_def table_simps at_checkpoint_def
          with_checkpoint_def alike_def same_source_def)
  qed
  have kept: "keeps i (clean i ((=) s)) (preturn (Some c))
    (\<lambda>c. \<lambda>d v. clean i (at_checkpoint s c) d v \<and> (c \<noteq> None \<longrightarrow> c = so_analysis_checkpoint s))"
    using Some by (auto simp: at_checkpoint_def clean_def rowp_def intro!: keeps_return)
  show ?thesis
    using Some apply (simp add: fresh_checkpoint_def)
    apply (rule keeps_get_bind)
    apply (rule keeps_if)
     apply (rule keeps_seq [where J = "clean i (at_checkpoint s None)"])
      apply (rule keeps_mono [OF drop], simp, assumption)
     apply (simp add: keeps_return)
    apply (rule keeps_mono [OF kept], simp, simp add: Some)
    done
qed

lemma keeps_finish:
  fixes env :: "'g analysis_env"
  assumes "so_id s = i" "\<not> finished s" "analysable s"
  shows "keeps i (\<lambda>d v. db = fst v \<and> clean i (\<lambda>s'. alike s s' \<and> applied_cp s') d v)
    (case get_source i db of None \<Rightarrow> praise e1 | Some s' \<Rightarrow> (case so_analysis_checkpoint s' of
        None \<Rightarrow> praise e2 | Some cp \<Rightarrow> complete_analysis env s' cp (provenance p) ws))
    (\<lambda>_. clean i (\<lambda>s'. alike s s' \<and> completed_cp s'))"
proof (cases "\<exists>s' cp. get_source i db = Some s' \<and> so_analysis_checkpoint s' = Some cp \<and> alike s s' \<and> applied_cp s'")
  case True
  then obtain s' cp where s': "get_source i db = Some s'" "so_analysis_checkpoint s' = Some cp" "alike s s'"
    "applied_cp s'"
    by blast
  have "keeps i (\<lambda>d v. get_source i (fst v) = Some s') (complete_analysis env s' cp (provenance p) ws)
      (\<lambda>_. clean i (\<lambda>s''. alike s' s'' \<and> completed_cp s''))"
    by (rule keeps_mono [OF keeps_complete]) (use s' assms alike_finished [OF s'(3)] alike_analysable [OF s'(3)] in
        \<open>auto simp: alike_def same_source_def clean_def rowp_def\<close>)
  then have "keeps i (\<lambda>d v. db = fst v \<and> clean i (\<lambda>s'. alike s s' \<and> applied_cp s') d v)
      (complete_analysis env s' cp (provenance p) ws) (\<lambda>_. clean i (\<lambda>s''. alike s s'' \<and> completed_cp s''))"
    by (rule keeps_mono) (use s' alike_trans in \<open>auto simp: clean_def rowp_def\<close>)
  then show ?thesis
    using s' by simp
next
  case False
  have "keeps i (\<lambda>d v. False) m Q" for m :: "('g, warning list) proc" and Q
    by (simp add: keeps_def along_def)
  then show ?thesis
    by (rule keeps_mono) (use False in \<open>auto simp: clean_def rowp_def applied_cp_def split: option.splits\<close>)
qed

lemma keeps_run_extraction:
  fixes env :: "'g analysis_env"
  assumes "so_id s = i" "\<not> finished s" "analysable s"
    and "\<And>c. so_analysis_checkpoint s = Some c \<Longrightarrow> cp_phase c = Extracted"
  shows "keeps i (clean i ((=) s)) (run_extraction env s txt fingerprint p)
    (\<lambda>_. clean i (\<lambda>s'. alike s s' \<and> completed_cp s'))"
proof -
  have analyze: "keeps i (clean i (at_checkpoint s c)) (analyze_source env pl upd a (map_option cp_result c)
      (map_option cp_graph c) (c \<noteq> None \<and> cp_phase (the c) = ContextApplied) ws
      (save_extraction s fingerprint p) (save_context s)) (\<lambda>_. clean i (\<lambda>s'. alike s s' \<and> applied_cp s'))"
    if "c \<noteq> None \<longrightarrow> c = so_analysis_checkpoint s" for c pl upd a ws
  proof -
    have ph: "cp_phase x = Extracted" if "c = Some x" for x
      using that \<open>c \<noteq> None \<longrightarrow> c = so_analysis_checkpoint s\<close> assms(4) by auto
    then have eq: "(c \<noteq> None \<and> cp_phase (the c) = ContextApplied) = False"
      by auto
    show ?thesis
      unfolding eq by (rule keeps_analyze [OF assms(1-3) ph])
  qed
  show ?thesis
    unfolding run_extraction_def assms(1)
    apply (rule keeps_lift_bind)
    apply (rule keeps_bind [OF keeps_fresh_checkpoint [OF assms]], assumption)
    apply (rule keeps_pure)
    apply (rule keeps_provider)
    apply (rule keeps_bind [OF analyze], assumption)
    apply (rule keeps_get_bind)
    apply (rule keeps_finish [OF assms(1-3)])
    done
qed


lemma keeps_replay:
  fixes env :: "'g analysis_env"
  assumes "so_id s = i" "\<not> finished s" "analysable s" "so_analysis_checkpoint s = Some cp" "cp_phase cp = ContextApplied"
  shows "keeps i (clean i ((=) s)) (replay_graph env s cp) (\<lambda>_. clean i (\<lambda>s'. alike s s' \<and> completed_cp s'))"
proof -
  have applied: "applied_cp s"
    using assms(4,5) by (simp add: applied_cp_def)
  have finish: "keeps i (clean i ((=) s)) (complete_analysis env s cp details ws)
      (\<lambda>_. clean i (\<lambda>s'. alike s s' \<and> completed_cp s'))" for details ws
    by (rule keeps_mono [OF keeps_complete [OF assms(1,4,2) applied assms(3)]]) (auto simp: clean_def rowp_def alike_def)
  show ?thesis
    unfolding replay_graph_def
    by (rule keeps_bind [OF keeps_write_graph finish]) (use applied assms(2) in auto)
qed

lemma keeps_run_analysis:
  fixes env :: "'g analysis_env"
  assumes "so_id s = i" "\<not> finished s" "analysable s"
  shows "keeps i (clean i ((=) s)) (run_analysis env s txt) (\<lambda>_. clean i (\<lambda>s'. alike s s' \<and> completed_cp s'))"
proof -
  let ?Q = "\<lambda>_. clean i (\<lambda>s'. alike s s' \<and> completed_cp s') :: 'g state_rel"
  have reviewed: "\<not> (so_kind s = MeetingKind \<and> so_review_state s \<in> {Some RvTranscribing, Some RvAwaitingReview})"
    using assms(3) by (auto simp: analysable_def)
  have stop: "keeps i (clean i ((=) s)) (preturn ws) ?Q" if "completed_cp s" for ws
    by (rule keeps_return) (use that in \<open>auto simp: clean_def rowp_def\<close>)
  show ?thesis
  proof (cases "so_analysis_checkpoint s")
    case None
    have run: "keeps i (clean i ((=) s)) (run_extraction env s txt fp p) ?Q" for fp p
      by (rule keeps_run_extraction [OF assms]) (simp add: None)
    have none: "completed_cp s"
      by (simp add: None completed_cp_def)
    show ?thesis
      unfolding run_analysis_def if_not_P [OF reviewed] None option.case Let_def
      by (rule keeps_provider) (auto split: sum.splits intro: run stop none)
  next
    case (Some cp)
    have run: "keeps i (clean i ((=) s)) (run_extraction env s txt fp p) ?Q"
      if "cp_phase cp = Extracted" for fp p
      by (rule keeps_run_extraction [OF assms]) (simp add: Some that)
    have done_cp: "completed_cp s" if "cp_phase cp = AnalysisDone"
      using that by (simp add: Some completed_cp_def)
    have phase: "cp_phase cp = Extracted" if "cp_phase cp \<noteq> AnalysisDone" "cp_phase cp \<noteq> ContextApplied"
      using that by (cases "cp_phase cp") auto
    show ?thesis
      unfolding run_analysis_def if_not_P [OF reviewed] Some option.case Let_def
      apply (rule keeps_if, rule keeps_raise)
      apply (rule keeps_if, rule stop, erule done_cp)
      apply (rule keeps_if, rule keeps_replay [OF assms Some], assumption)
      apply (rule keeps_provider)
      apply (auto split: sum.splits intro: run phase keeps_raise)
      done
  qed
qed

section \<open>The processor\<close>

lemma keeps_analysis_step:
  fixes env :: "'g process_env"
  assumes "\<And>s. \<Phi> s \<Longrightarrow> \<not> finished s \<and> analysable s"
  shows "keeps i (clean i \<Phi>) (analysis_step env i txt)
    (\<lambda>_. clean i (\<lambda>s'. completed_cp s' \<and> \<not> finished s' \<and> analysable s'))"
  unfolding analysis_step_def
proof (rule keeps_with_source)
  fix s :: source_row
  assume id: "so_id s = i"
  show "keeps i (\<lambda>d v. get_source i (fst v) = Some s \<and> clean i \<Phi> d v)
      (pbind (run_analysis (pc_analysis env) s txt) (\<lambda>_. preturn ()))
      (\<lambda>_. clean i (\<lambda>s'. completed_cp s' \<and> \<not> finished s' \<and> analysable s'))"
  proof (cases "\<Phi> s")
    case True
    note ok = assms [OF True]
    have "keeps i (clean i ((=) s)) (pbind (run_analysis (pc_analysis env) s txt) (\<lambda>_. preturn ()))
        (\<lambda>_. clean i (\<lambda>s'. completed_cp s' \<and> \<not> finished s' \<and> analysable s'))"
    proof (rule keeps_bind [OF keeps_run_analysis [OF id]])
      show "keeps i (clean i (\<lambda>s'. alike s s' \<and> completed_cp s')) (preturn ())
          (\<lambda>_. clean i (\<lambda>s'. completed_cp s' \<and> \<not> finished s' \<and> analysable s'))"
        by (rule keeps_return) (use ok alike_finished alike_analysable in \<open>auto simp: clean_def rowp_def\<close>)
    qed (use ok in simp_all)
    then show ?thesis
      by (rule keeps_mono) (auto simp: clean_def rowp_def)
  next
    case False
    then show ?thesis
      by (auto simp: keeps_def along_def clean_def rowp_def)
  qed
qed

definition in_process :: "source_row \<Rightarrow> bool" where
  "in_process s \<longleftrightarrow> \<not> finished s \<and> analysable s"

lemma in_process_stage [simp]: "in_process (at_stage stage x s) \<longleftrightarrow> in_process s"
  by (simp add: in_process_def at_stage_def finished_def analysable_def)

lemma at_stage_id [simp]: "so_id (at_stage stage x s) = so_id s"
  by (simp add: at_stage_def)

lemma at_stage_fields [simp]:
  "finished (at_stage stage x s) \<longleftrightarrow> finished s" "so_review_state (at_stage stage x s) = so_review_state s"
  by (simp_all add: at_stage_def finished_def)

lemma row_step_stage [simp]: "row_step s (at_stage stage x s)"
  by (simp add: row_step_def same_source_def at_stage_def applied_cp_def completed_cp_def extraction_of_def)

lemma keeps_stage:
  "(\<And>s. \<Phi> s \<Longrightarrow> in_process s) \<Longrightarrow> keeps i (rowp i \<Phi>) (edit_commit i (at_stage stage x)) (\<lambda>_. clean i in_process)"
  by (rule keeps_edit_commit) (simp_all, simp add: in_process_def)

text \<open>Where an attempt leaves a source that it processed without a failure.\<close>

definition processed :: "source_row \<Rightarrow> bool" where
  "processed s \<longleftrightarrow> (so_status s = Succeeded \<and> completed_cp s)
     \<or> (so_status s = AwaitingReview \<and> so_review_state s = Some RvAwaitingReview)"

lemma keeps_succeeded:
  "keeps i (clean i (\<lambda>s. completed_cp s \<and> in_process s)) (edit_commit i succeeded) (\<lambda>_. clean i processed)"
  by (rule keeps_clean [OF keeps_edit_commit])
    (auto simp: processed_def succeeded_def row_step_def same_source_def at_stage_def applied_cp_def completed_cp_def
      extraction_of_def in_process_def)

lemma keeps_analysis:
  "keeps i (clean i in_process) (analysis_step env i txt) (\<lambda>_. clean i (\<lambda>s. completed_cp s \<and> in_process s))"
  unfolding in_process_def by (rule keeps_mono [OF keeps_analysis_step]) auto

lemma keeps_resume_analysis: "keeps i (rowp i in_process) (resume_analysis env i s) (\<lambda>_. clean i processed)"
  unfolding resume_analysis_def
  by (rule keeps_seq [OF keeps_stage keeps_seq [OF keeps_analysis keeps_succeeded]])

lemma keeps_analyze_and_finish: "keeps i (rowp i in_process) (analyze_and_finish env i txt) (\<lambda>_. clean i processed)"
proof -
  have "keeps i (clean i (\<lambda>s. completed_cp s \<and> in_process s))
      (edit_commit i (\<lambda>s. at_stage Graphing (9 / 10) (s\<lparr>so_status := Processing\<rparr>)))
      (\<lambda>_. clean i (\<lambda>s. completed_cp s \<and> in_process s))"
    by (rule keeps_clean [OF keeps_edit_commit])
      (auto simp: row_step_def same_source_def at_stage_def applied_cp_def completed_cp_def
        extraction_of_def in_process_def finished_def analysable_def)
  then show ?thesis
    unfolding analyze_and_finish_def
    by (intro keeps_seq [OF keeps_stage keeps_seq [OF keeps_analysis keeps_seq [OF _ keeps_succeeded]]])
qed


lemma keeps_transcribe_meeting:
  fixes env :: "'g process_env"
  shows "keeps i (rowp i (\<lambda>s. \<not> finished s \<and> so_review_state s = Some RvTranscribing))
    (transcribe_meeting env i s) (\<lambda>_. clean i processed)"
proof -
  let ?\<Phi> = "\<lambda>s. \<not> finished s \<and> so_review_state s = Some RvTranscribing"
  have stage: "keeps i (rowp i ?\<Phi>) (edit_commit i (at_stage Transcribing (2 / 10)) :: ('g, unit) proc)
      (\<lambda>_. clean i ?\<Phi>)"
    by (rule keeps_edit_commit) simp_all
  have spoken: "keeps i (rowp i ?\<Phi>) (edit_commit i (transcribed r) :: ('g, unit) proc) (\<lambda>_. clean i processed)" for r
    by (rule keeps_edit_commit) (auto simp: processed_def transcribed_def at_stage_def row_step_def same_source_def applied_cp_def completed_cp_def
        extraction_of_def)
  have audit: "keeps i (\<lambda>d v. db = fst v \<and> clean i ?\<Phi> d v) (pmodify (\<lambda>_. add_audit_event st e db) :: ('g, unit) proc)
      (\<lambda>_. rowp i ?\<Phi>)" for db st e
  proof (rule keeps_modify)
    fix d :: "app_db \<times> 'g" and db' and g :: 'g
    assume I: "db = fst (db', g) \<and> clean i ?\<Phi> d (db', g)"
    then obtain s where s: "get_source i db = Some s" "?\<Phi> s"
      by (auto simp: clean_def rowp_def)
    have "durable_step i (db, g) (add_audit_event st e db, g)"
      by (rule durable_audit_chunks [OF _ _ _ s(1)]) (use s(2) in \<open>simp_all add: untouched_def source_chunks_def\<close>)
    with I s show "durable_step i (db', g) (add_audit_event st e db, g)
        \<and> rowp i ?\<Phi> d (add_audit_event st e db, g)"
      by (auto simp: rowp_def)
  qed
  have answer: "keeps i (\<lambda>d v. db = fst v \<and> clean i ?\<Phi> d v)
      (case transcribe penv st s content db of Inl e \<Rightarrow> praise (raise_pipeline e)
        | Inr (r, db') \<Rightarrow> (pseq (pmodify (\<lambda>_. db')) (edit_commit i (transcribed r)) :: ('g, unit) proc)) (\<lambda>_. clean i processed)"
    for db penv st content
  proof (cases "transcribe penv st s content db")
    case (Inr b)
    obtain r db' where b: "b = (r, db')"
      by fastforce
    obtain e where "db' = add_audit_event st e db"
      using transcribe_Inr Inr b by blast
    then show ?thesis
      using Inr b keeps_seq [OF audit spoken] by simp
  qed (simp add: keeps_raise)
  show ?thesis
    unfolding transcribe_meeting_def
    by (intro keeps_seq [OF stage] keeps_lift_bind keeps_get_bind answer)
qed

lemma keeps_process_document:
  "keeps i (rowp i in_process) (process_document env c i s) (\<lambda>_. clean i processed)"
proof -
  have parsed: "keeps i (clean i in_process) (edit_commit i (\<lambda>s. at_stage Analyzing (5 / 10)
      (s\<lparr>so_content_text := t\<rparr>))) (\<lambda>_. clean i in_process)" for t
    by (rule keeps_clean [OF keeps_edit_commit])
      (auto simp: row_step_def same_source_def at_stage_def applied_cp_def completed_cp_def
        extraction_of_def in_process_def finished_def analysable_def)
  have index: "keeps i (clean i in_process) (index_step env c i segments) (\<lambda>_. rowp i in_process)" for segments
    by (rule keeps_clean [OF keeps_index]) (simp add: in_process_def)
  show ?thesis
    unfolding process_document_def
    by (intro keeps_seq [OF keeps_stage] keeps_lift_bind keeps_seq [OF parsed]
        keeps_seq [OF index keeps_analyze_and_finish])
qed

lemma keeps_process_confirmed:
  assumes "so_review_state s = Some RvConfirmed"
  shows "keeps i (rowp i in_process) (process_confirmed env c i s) (\<lambda>_. clean i processed)"
proof -
  have index: "keeps i (clean i in_process) (index_step env c i segments) (\<lambda>_. rowp i in_process)" for segments
    by (rule keeps_clean [OF keeps_index]) (simp add: in_process_def)
  show ?thesis
    unfolding process_confirmed_def using assms
    by simp (intro keeps_seq [OF keeps_stage] keeps_lift_bind keeps_seq [OF index keeps_analyze_and_finish])
qed

section \<open>One attempt\<close>

text \<open>Only sources that may be analysed have a checkpoint; every attempt keeps it so.\<close>

definition checkpoint_ok :: "source_row \<Rightarrow> bool" where
  "checkpoint_ok s \<longleftrightarrow> so_analysis_checkpoint s = None \<or> analysable s"

definition guarded :: "uuid \<Rightarrow> 'g state_rel" where
  "guarded i d v \<longleftrightarrow> d = v \<and> (\<forall>s. get_source i (fst v) = Some s \<longrightarrow> checkpoint_ok s)"

lemma keeps_started:
  "(\<And>s. \<Phi> s \<Longrightarrow> \<not> finished s) \<Longrightarrow> (\<And>s. \<Phi> s \<Longrightarrow> \<Psi> (started s)) \<Longrightarrow>
    keeps i (rowp i \<Phi>) (edit i started) (\<lambda>_. rowp i \<Psi>)"
  by (rule keeps_edit)
    (simp_all add: started_def row_step_def same_source_def applied_cp_def completed_cp_def extraction_of_def)

text \<open>What an attempt leaves alone: agent sources, finished ones and unreviewed transcripts.\<close>

definition skipped :: "source_row \<Rightarrow> bool" where
  "skipped s \<longleftrightarrow> so_analysis_mode s = AgentMode \<or> so_status s \<in> {Succeeded, AwaitingReview}
     \<or> (so_kind s = MeetingKind \<and> so_review_state s \<notin> {Some RvTranscribing, Some RvConfirmed})"

lemma keeps_process_source:
  fixes env :: "'g process_env"
  shows "keeps i (guarded i) (process_source env i) (\<lambda>_ d v. d = v \<and> (\<forall>s. get_source i (fst v) = Some s \<longrightarrow> skipped s \<or> processed s))"
  unfolding process_source_def
proof (rule keeps_with_source)
  fix s :: source_row
  let ?\<Phi> = "\<lambda>s'. s' = started s"
  let ?Q = "\<lambda>_ d v. d = v \<and> (\<forall>s. get_source i (fst v) = Some s \<longrightarrow> skipped s \<or> processed s)"
  have dispatch: "keeps i (rowp i ?\<Phi>) (if so_analysis_checkpoint s \<noteq> None then resume_analysis env i s
      else if so_kind s = DocumentKind then process_document env c i s
      else if so_review_state s = Some RvTranscribing then transcribe_meeting env i s
      else process_confirmed env c i s) (\<lambda>_. clean i processed)"
    if s: "\<not> finished s" "checkpoint_ok s" "so_kind s = MeetingKind \<longrightarrow> so_review_state s \<in> {Some RvTranscribing, Some RvConfirmed}"
      for c
  proof -
    have st: "\<not> finished (started s)" "analysable (started s) \<longleftrightarrow> analysable s"
      using s(3) by (auto simp: started_def finished_def analysable_def)
    have kind: "so_kind s = DocumentKind \<or> so_kind s = MeetingKind"
      by (cases "so_kind s") auto
    consider "analysable s" | "so_analysis_checkpoint s = None" "so_kind s = MeetingKind" "so_review_state s = Some RvTranscribing"
      using s(2,3) kind by (auto simp: checkpoint_ok_def analysable_def)
    then show ?thesis
    proof cases
      case 1
      have I: "rowp i in_process d v" if "rowp i ?\<Phi> d v" for d v :: "app_db \<times> 'g"
        using that st 1 by (auto simp: rowp_def in_process_def)
      have t: "so_kind s \<noteq> DocumentKind \<Longrightarrow> so_review_state s = Some RvConfirmed"
        using 1 by (simp add: analysable_def)
      show ?thesis
        using t keeps_mono [OF keeps_resume_analysis I] keeps_mono [OF keeps_process_document I]
          keeps_mono [OF keeps_process_confirmed I] by auto
    next
      case 2
      have t: "rowp i (\<lambda>s. \<not> finished s \<and> so_review_state s = Some RvTranscribing) d v"
        if "rowp i ?\<Phi> d v" for d v :: "app_db \<times> 'g"
        using that st 2 by (auto simp: rowp_def started_def)
      show ?thesis
        using 2 keeps_mono [OF keeps_transcribe_meeting t] by simp
    qed
  qed
  have start: "keeps i (\<lambda>d v. get_source i (fst v) = Some s \<and> guarded i d v) (edit i started :: ('g, unit) proc)
      (\<lambda>_. rowp i ?\<Phi>)" if "\<not> finished s"
    by (rule keeps_mono [OF keeps_started [where \<Phi> = "(=) s" and \<Psi> = "\<lambda>s'. s' = started s"]]) (use that in \<open>auto simp: rowp_def\<close>)
  have run: "keeps i (\<lambda>d v. get_source i (fst v) = Some s \<and> guarded i d v) (pseq (edit i started)
      (pbind (plift r) (\<lambda>c. if so_analysis_checkpoint s \<noteq> None then resume_analysis env i s
        else if so_kind s = DocumentKind then process_document env c i s
        else if so_review_state s = Some RvTranscribing then transcribe_meeting env i s
        else process_confirmed env c i s))) (\<lambda>_. clean i processed)"
    if "\<not> finished s" "so_kind s = MeetingKind \<longrightarrow> so_review_state s \<in> {Some RvTranscribing, Some RvConfirmed}" for r
  proof (cases "checkpoint_ok s")
    case True
    show ?thesis
      by (rule keeps_seq [OF start keeps_lift_bind [OF dispatch]]) (use that True in simp_all)
  next
    case False
    then show ?thesis
      by (auto simp: keeps_def along_def guarded_def)
  qed
  have skip: "keeps i (\<lambda>d v. get_source i (fst v) = Some s \<and> guarded i d v) (preturn ()) ?Q" if "skipped s"
    by (rule keeps_return) (use that in \<open>auto simp: guarded_def\<close>)
  show "keeps i (\<lambda>d v. get_source i (fst v) = Some s \<and> guarded i d v)
      (if so_analysis_mode s = AgentMode then preturn ()
       else if so_status s \<in> {Succeeded, AwaitingReview} then preturn ()
       else if so_kind s = MeetingKind \<and> so_review_state s \<notin> {Some RvTranscribing, Some RvConfirmed}
         then preturn ()
       else pseq (edit i started)
         (pbind (plift (lift_error raise_py (pipeline_chunker (pv_settings (an_provider (pc_analysis env)))))) (\<lambda>c.
          if so_analysis_checkpoint s \<noteq> None then resume_analysis env i s
          else if so_kind s = DocumentKind then process_document env c i s
          else if so_review_state s = Some RvTranscribing then transcribe_meeting env i s
          else process_confirmed env c i s))) ?Q"
    by (rule keeps_if, rule skip, simp add: skipped_def, rule keeps_if, rule skip, simp add: skipped_def,
        rule keeps_if, rule skip, simp add: skipped_def, rule keeps_mono [OF run])
      (auto simp: finished_def clean_def rowp_def)
qed

end
