(* ===== verification/AttemptContract.thy ===== *)
theory AttemptContract
  imports ProcessorSteps
begin

text \<open>
  What the attempts on a source promise together: any number of attempts, each with providers,
  storage and a graph store of its own, each interrupted after any commit or graph write.
\<close>

section \<open>The trail of one attempt\<close>

lemma update_source_step:
  assumes "update_source i st stage x message (fst d) = (old, db)" "st \<noteq> Succeeded"
  shows "durable_step i d (db, snd d)"
proof (cases "get_source i (fst d)")
  case (Some s)
  let ?f = "\<lambda>s. s\<lparr>so_status := st, so_processing_stage := failed_stage s stage, so_progress := x,
    so_error_message := message\<rparr>"
  show ?thesis
  proof (cases "unfinished s")
    case True
    then have "durable_step i (fst d, snd d) (update_row i ?f (fst d), snd d)"
      using assms(2) by (intro durable_update_row [OF _ Some])
        (auto simp: unfinished_def finished_def row_step_def same_source_def applied_cp_def completed_cp_def
          extraction_of_def)
    then show ?thesis
      using assms(1) Some True by (simp add: update_source_def)
  qed (use assms(1) Some in \<open>cases d, simp add: update_source_def\<close>)
qed (use assms(1) in \<open>cases d, simp add: update_source_def\<close>)

lemma update_source_row:
  assumes "update_source i st stage x (Some message) db = (old, db')" "get_source i db' = Some s"
    and "so_status s \<noteq> Succeeded \<and> so_review_state s \<noteq> Some RvAwaitingReview"
  shows "so_status s = st \<and> so_error_message s = Some message"
proof -
  have id: "so_id (s\<lparr>so_status := st, so_processing_stage := failed_stage s stage, so_progress := x,
    so_error_message := Some message\<rparr>) = so_id s" for s
    by simp
  show ?thesis
    using assms by (auto simp: update_source_def get_source_update_row [OF id] unfinished_def
        split: option.splits if_splits)
qed

lemma attempt_cases:
  assumes "process_source_attempt env i final d = (outcome, trail)"
  obtains (returned) s where "process_source env i (open_session d) = (Inr (), s)" "outcome = Inr None"
      "trail = ss_log s"
  | (database) e s where "process_source env i (open_session d) = (Inl e, s)" "is_db_error e" "outcome = Inl e"
      "trail = ss_log s"
  | (failed) e s stage db where "process_source env i (open_session d) = (Inl e, s)" "\<not> is_db_error e"
      "update_source i (if final \<or> sf_terminal (safe_attempt_error e (lit ''processing'')) then Failed else Queued)
        Uploaded 0 (Some (failure_text (attempt_message e (safe_attempt_error e (lit ''processing'')))))
        (fst (durable s)) = (stage, db)"
      "outcome = Inr (Some ((safe_attempt_error e (lit ''processing''))\<lparr>sf_stage := stage\<rparr>))"
      "trail = ss_log s @ [(db, snd (durable s))]"
proof -
  obtain r s where run: "process_source env i (open_session d) = (r, s)"
    by fastforce
  show thesis
  proof (cases r)
    case (Inr u)
    then show thesis
      using run assms returned by (simp add: process_source_attempt_def split: unit.splits)
  next
    case (Inl e)
    obtain stage db where upd: "update_source i
        (if final \<or> sf_terminal (safe_attempt_error e (lit ''processing'')) then Failed else Queued)
        Uploaded 0 (Some (failure_text (attempt_message e (safe_attempt_error e (lit ''processing'')))))
        (fst (durable s)) = (stage, db)"
      by fastforce
    show thesis
    proof (cases "is_db_error e")
      case True
      then show thesis
        using run assms database Inl by (simp add: process_source_attempt_def)
    next
      case False
      have "outcome = Inr (Some ((safe_attempt_error e (lit ''processing''))\<lparr>sf_stage := stage\<rparr>))"
        "trail = ss_log s @ [(db, snd (durable s))]"
        using assms False by (simp_all only: process_source_attempt_def run Inl prod.case sum.case if_False Let_def upd)
          (simp_all)
      then show thesis
        using failed run Inl False upd by blast
    qed
  qed
qed

definition checkpoints_ok :: "uuid \<Rightarrow> app_db \<times> 'g \<Rightarrow> bool" where
  "checkpoints_ok i d \<longleftrightarrow> (\<forall>s. get_source i (fst d) = Some s \<longrightarrow> checkpoint_ok s)"

lemma process_source_run:
  assumes "process_source env i (open_session d) = (r, s)" "checkpoints_ok i d"
  shows "ss_log s \<noteq> [] \<and> hd (ss_log s) = d \<and> successively (durable_step i) (ss_log s)
    \<and> (\<forall>x. r = Inr x \<longrightarrow> (\<forall>s'. get_source i (fst (durable s)) = Some s' \<longrightarrow> skipped s' \<or> processed s'))"
proof -
  have "durable_step i d d \<and> guarded i d d"
    using assms(2) by (simp add: guarded_def checkpoints_ok_def)
  from along_open [OF keeps_process_source [unfolded keeps_def] this assms(1)] show ?thesis
    by auto
qed

lemma attempt_trail:
  assumes "process_source_attempt env i final d = (outcome, trail)" "checkpoints_ok i d"
  shows "trail \<noteq> [] \<and> hd trail = d \<and> successively (durable_step i) trail"
  using assms(1)
proof (cases rule: attempt_cases)
  case (failed e s stage db)
  note run = process_source_run [OF failed(1) assms(2)]
  have "durable_step i (durable s) (db, snd (durable s))"
    by (rule update_source_step [OF failed(3)]) simp
  then show ?thesis
    using run failed(5) by (simp add: successively_append_iff durable_def)
qed (use process_source_run [OF _ assms(2)] in simp_all)

lemma durable_step_checkpoints:
  assumes "durable_step i d d'" "checkpoints_ok i d"
  shows "checkpoints_ok i d'"
proof -
  have "checkpoint_ok s'" if "row_step s s'" "checkpoint_ok s" for s s'
    using that by (auto simp: row_step_def checkpoint_ok_def analysable_def same_source_def)
  then show ?thesis
    using assms by (auto simp: durable_step_def checkpoints_ok_def split: option.splits)
qed

section \<open>Any number of attempts\<close>

text \<open>\<open>attempted i d d'\<close>: some attempt on the source, started from \<open>d\<close>, left \<open>d'\<close> when it ended or
  was interrupted.\<close>

definition attempted :: "uuid \<Rightarrow> app_db \<times> 'g \<Rightarrow> app_db \<times> 'g \<Rightarrow> bool" where
  "attempted i d d' \<longleftrightarrow> (\<exists>env final. d' \<in> set (snd (process_source_attempt env i final d)))"

lemma attempted_step:
  assumes "attempted i d d'" "checkpoints_ok i d"
  shows "durable_step i d d'"
proof -
  obtain env final outcome trail where run: "process_source_attempt env i final d = (outcome, trail)" "d' \<in> set trail"
    using assms(1) unfolding attempted_def by (metis prod.collapse)
  have "(durable_step i)\<^sup>*\<^sup>* d d'"
    using attempt_trail [OF run(1) assms(2)] successively_rtranclp run(2) by metis
  then show ?thesis
    by (induction rule: rtranclp_induct) (auto intro: durable_step_trans)
qed

lemma attempts_step:
  assumes "(attempted i)\<^sup>*\<^sup>* d d'" "checkpoints_ok i d"
  shows "durable_step i d d' \<and> checkpoints_ok i d'"
  using assms(1)
proof (induction rule: rtranclp_induct)
  case (step d' d'')
  then show ?case
    using attempted_step durable_step_trans durable_step_checkpoints by metis
qed (use assms(2) in simp)

section \<open>Properties\<close>

text \<open>C15: An attempt, whatever its providers, storage and graph store answer, and wherever it is cut
  off, moves the durable state in steps that never touch another source or another table of the
  workspace, never rewrite what was uploaded or reviewed, move the review only from transcribing to
  awaiting review, and mark the source succeeded only with a completed or no checkpoint.\<close>

theorem attempt_durable_steps:
  assumes "process_source_attempt env i final d = (outcome, trail)"
    and "\<forall>s. get_source i (fst d) = Some s \<longrightarrow> so_analysis_checkpoint s = None \<or> so_kind s = DocumentKind
      \<or> so_review_state s = Some RvConfirmed"
  shows "trail \<noteq> [] \<and> hd trail = d \<and> (\<forall>n. Suc n < length trail \<longrightarrow> durable_step i (trail ! n) (trail ! Suc n))"
proof -
  have "checkpoints_ok i d"
    using assms(2) by (auto simp: checkpoints_ok_def checkpoint_ok_def analysable_def)
  from attempt_trail [OF assms(1) this] show ?thesis
    by (simp add: successively_conv_nth)
qed

text \<open>C14: Across any number of attempts, each possibly interrupted, the context of the workspace takes
  a source at most once: it changes only together with the checkpoint that says so, and from then on
  neither it nor the stored extraction and graph change. The graph store is written only after that,
  only for a document or a confirmed meeting, and always with the stored graph's source.\<close>

theorem context_applied_once:
  assumes "(attempted i)\<^sup>*\<^sup>* d0 d1" "(attempted i)\<^sup>*\<^sup>* d1 d2"
    and "\<forall>s. get_source i (fst d0) = Some s \<longrightarrow> so_analysis_checkpoint s = None \<or> so_kind s = DocumentKind
      \<or> so_review_state s = Some RvConfirmed"
    and "get_source i (fst d1) = Some s1" "get_source i (fst d2) = Some s2"
  shows "(ab_context (fst d1) \<noteq> ab_context (fst d0) \<or> snd d1 \<noteq> snd d0 \<longrightarrow> applied_cp s1 \<and> analysable s1)
    \<and> (applied_cp s1 \<longrightarrow> ab_context (fst d2) = ab_context (fst d1) \<and> applied_cp s2
        \<and> extraction_of s2 = extraction_of s1)"
proof -
  have "checkpoints_ok i d0"
    using assms(3) by (auto simp: checkpoints_ok_def checkpoint_ok_def analysable_def)
  note first = attempts_step [OF assms(1) this]
  note second = attempts_step [OF assms(2) conjunct2 [OF first]]
  obtain s0 where s0: "get_source i (fst d0) = Some s0"
    using first assms(4) by (cases "get_source i (fst d0)") (auto simp: durable_step_def)
  have "row_step s0 s1" and changed: "ab_context (fst d1) \<noteq> ab_context (fst d0) \<longrightarrow> applied_cp s1"
    "snd d1 \<noteq> snd d0 \<longrightarrow> applied_cp s1"
    using first s0 assms(4) by (auto simp: durable_step_def)
  moreover have "applied_cp s1 \<longrightarrow> analysable s1"
    using first assms(4) by (auto simp: checkpoints_ok_def checkpoint_ok_def applied_cp_def)
  moreover have "applied_cp s1 \<longrightarrow> ab_context (fst d2) = ab_context (fst d1) \<and> applied_cp s2
      \<and> extraction_of s2 = extraction_of s1"
    using second assms(4,5) by (auto simp: durable_step_def row_step_def)
  ultimately show ?thesis
    by blast
qed

text \<open>C16: While a meeting transcript is not confirmed, no attempt changes the workspace's context or
  graph, nor the transcript and its revision; a finished source is left exactly as it is.\<close>

theorem review_gate_holds:
  assumes "(attempted i)\<^sup>*\<^sup>* d d'" "get_source i (fst d) = Some s"
    and "so_analysis_checkpoint s = None \<or> so_kind s = DocumentKind \<or> so_review_state s = Some RvConfirmed"
  shows "(so_kind s = MeetingKind \<and> so_review_state s \<noteq> Some RvConfirmed \<longrightarrow>
      ab_context (fst d') = ab_context (fst d) \<and> snd d' = snd d
      \<and> (\<exists>s'. get_source i (fst d') = Some s' \<and> so_analysis_checkpoint s' = None
          \<and> so_review_state s' \<noteq> Some RvConfirmed \<and> so_transcript_text s' = so_transcript_text s
          \<and> so_review_revision s' = so_review_revision s))
    \<and> (so_status s = Succeeded \<or> so_kind s = MeetingKind \<and> so_review_state s = Some RvAwaitingReview \<longrightarrow> d' = d)"
proof -
  have "checkpoints_ok i d"
    using assms(2,3) by (auto simp: checkpoints_ok_def checkpoint_ok_def analysable_def)
  note step = conjunct1 [OF attempts_step [OF assms(1) this]]
  obtain s' where s': "get_source i (fst d') = Some s'" "row_step s s'"
    "ab_context (fst d') \<noteq> ab_context (fst d) \<longrightarrow> analysable s" "snd d' \<noteq> snd d \<longrightarrow> applied_cp s'"
    using step assms(2) by (auto simp: durable_step_def)
  show ?thesis
  proof (intro conjI impI)
    assume meeting: "so_kind s = MeetingKind \<and> so_review_state s \<noteq> Some RvConfirmed"
    then have "\<not> analysable s" "so_analysis_checkpoint s = None"
      using assms(3) by (auto simp: analysable_def)
    moreover from this have "so_analysis_checkpoint s' = None"
      using s'(2) by (auto simp: row_step_def)
    moreover from this have "\<not> applied_cp s'"
      by (simp add: applied_cp_def)
    moreover have "same_source s s'" "so_review_state s' \<noteq> Some RvConfirmed"
      using s'(2) meeting by (auto simp: row_step_def)
    ultimately show "ab_context (fst d') = ab_context (fst d)" "snd d' = snd d"
      "\<exists>s'. get_source i (fst d') = Some s' \<and> so_analysis_checkpoint s' = None
          \<and> so_review_state s' \<noteq> Some RvConfirmed \<and> so_transcript_text s' = so_transcript_text s
          \<and> so_review_revision s' = so_review_revision s"
      using s' by (auto simp: same_source_def)
  next
    assume "so_status s = Succeeded \<or> so_kind s = MeetingKind \<and> so_review_state s = Some RvAwaitingReview"
    then show "d' = d"
      using step assms(2) by (simp add: durable_step_def finished_def)
  qed
qed


section \<open>Concrete runs\<close>

text \<open>A document whose download fails, and one whose context was applied before a crash.\<close>

definition example_analysis_env :: "resolved_graph list analysis_env" where
  "example_analysis_env = \<lparr>an_provider = example_env, an_runtime = toy_runtime, an_models = sample_stages,
     an_update_prompt = [], an_update_model = sample_update_model, an_reasoning_effort = [],
     an_dumps = (\<lambda>_. []), an_dumps_sorted = (\<lambda>_. []), an_date_iso = (\<lambda>_. []), an_sha256 = (\<lambda>t. t),
     an_stamp = example_stamp, an_graph = Some (\<lambda>g gs. (Inr [], gs @ [g]))\<rparr>"

definition example_process_env :: "resolved_graph list process_env" where
  "example_process_env = \<lparr>pc_analysis = example_analysis_env,
     pc_parser = \<lparr>pr_unicode = ascii_unicode, pr_decode_sig = (\<lambda>bs. Some (map unat bs)), pr_convert = (\<lambda>_ _. Inr None)\<rparr>,
     pc_uuid5 = (\<lambda>_. toy_uuid5), pc_download = (\<lambda>_. Inl [plain_exc OtherErr ''OSError''])\<rparr>"

definition example_checkpoint :: analysis_checkpoint where
  "example_checkpoint = \<lparr>cp_fingerprint = [], cp_decision_fingerprint = Some [], cp_phase = ContextApplied,
     cp_result = example_extraction,
     cp_graph = \<lparr>rg_entities = [], rg_relations = [], rg_warnings = [], rg_supersessions = []\<rparr>,
     cp_provenance = [], cp_context_warnings = [], cp_warnings = [], cp_agent = None\<rparr>"

definition example_state :: "analysis_checkpoint option \<Rightarrow> app_db \<times> resolved_graph list" where
  "example_state cp = (empty_db\<lparr>ab_sources := [example_source\<lparr>so_analysis_checkpoint := cp\<rparr>]\<rparr>, [])"

lemma example_chunker: "pipeline_chunker (pv_settings example_env) = Inr \<lparr>ch_size = 1200, ch_overlap = 200\<rparr>"
  by code_simp

lemmas run_defs = process_source_attempt_def process_source_def with_source_def pbind_def pget_def pseq_def
  edit_def edit_commit_def pmodify_def pcommit_def plift_def preturn_def praise_def open_session_def
  update_row_def get_source_def row_get_def row_upd_def started_def at_stage_def succeeded_def durable_def

definition example_meeting :: "app_db \<times> resolved_graph list" where
  "example_meeting = (empty_db\<lparr>ab_sources := [example_source\<lparr>so_kind := MeetingKind,
     so_review_state := Some RvTranscribing\<rparr>]\<rparr>, [])"

lemma example_transient: "\<not> sf_terminal (safe_attempt_error [plain_exc OtherErr ''OSError''] (lit ''processing''))"
  by code_simp

lemma example_failure:
  "\<exists>safe d1 d2. process_source_attempt example_process_env 9 False (example_state None)
      = (Inr (Some safe), [example_state None, d1, d2]) \<and> \<not> sf_terminal safe
    \<and> map_option so_status (get_source 9 (fst d1)) = Some Processing
    \<and> (\<exists>s. get_source 9 (fst d2) = Some s \<and> so_status s = Queued \<and> so_review_state s = None)"
  by (simp add: run_defs example_state_def example_process_env_def example_analysis_env_def example_chunker
      example_source_def empty_db_def process_document_def is_db_error_def Let_def example_transient
      update_source_def unfinished_def failed_stage_def) (simp add: plain_exc_def)

lemma example_meeting_failure:
  "\<exists>safe d1 d2. process_source_attempt example_process_env 9 False example_meeting
      = (Inr (Some safe), [example_meeting, d1, d2]) \<and> example_meeting \<noteq> d2"
  by (simp add: run_defs example_meeting_def example_process_env_def example_analysis_env_def example_chunker
      example_source_def empty_db_def transcribe_meeting_def is_db_error_def Let_def example_transient
      update_source_def unfinished_def failed_stage_def) (simp add: plain_exc_def)

lemma example_replay:
  "\<exists>d1 d2 d3 d4 ws. process_source_attempt example_process_env 9 True (example_state (Some example_checkpoint))
      = (Inr None, [example_state (Some example_checkpoint), d1, d2, d3, d4])
    \<and> snd d1 = [] \<and> snd d2 \<noteq> [] \<and> snd d4 \<noteq> []
    \<and> get_source 9 (fst d4) = Some (succeeded (started (example_source\<lparr>so_analysis_checkpoint :=
        Some (example_checkpoint\<lparr>cp_phase := AnalysisDone, cp_warnings := ws\<rparr>)\<rparr>)))"
  apply (simp add: run_defs example_state_def example_process_env_def example_analysis_env_def example_chunker
      example_source_def empty_db_def is_db_error_def resume_analysis_def analysis_step_def run_analysis_def
      replay_graph_def write_graph_def complete_analysis_def with_checkpoint_def pgraph_def
      source_fingerprint_def example_checkpoint_def put_source_def add_audit_event_def
      split: unit.splits)
  done


lemma example_state_row:
  "get_source 9 (fst (example_state cp)) = Some (example_source\<lparr>so_analysis_checkpoint := cp\<rparr>)"
  by (simp add: example_state_def get_source_def row_get_def empty_db_def example_source_def)

lemma example_kind: "so_kind example_source = DocumentKind"
  by (simp add: example_source_def)

theorem attempt_durable_steps_witness:
  "\<exists>d1 d2. durable_step 9 (example_state None) d1 \<and> durable_step 9 d1 d2
    \<and> map_option so_status (get_source 9 (fst d2)) = Some Queued"
proof -
  obtain safe d1 d2 where run: "process_source_attempt example_process_env 9 False (example_state None)
      = (Inr (Some safe), [example_state None, d1, d2])" "map_option so_status (get_source 9 (fst d2)) = Some Queued"
    using example_failure by auto
  have "\<forall>n. Suc n < 3 \<longrightarrow> durable_step 9 ([example_state None, d1, d2] ! n) ([example_state None, d1, d2] ! Suc n)"
    using attempt_durable_steps [OF run(1)] by (simp add: example_state_row example_kind)
  from spec [OF this, of 0] spec [OF this, of 1] show ?thesis
    using run(2) by (intro exI [of _ d1] exI [of _ d2]) simp
qed

theorem context_applied_once_witness:
  "\<exists>d. attempted 9 (example_state (Some example_checkpoint)) d \<and> snd d \<noteq> []
    \<and> ab_context (fst d) = ab_context (fst (example_state (Some example_checkpoint)))
    \<and> (\<exists>s. get_source 9 (fst d) = Some s \<and> applied_cp s)"
proof -
  let ?d0 = "example_state (Some example_checkpoint)"
  obtain d1 d2 d3 d s where run: "process_source_attempt example_process_env 9 True ?d0 = (Inr None, [?d0, d1, d2, d3, d])"
    "get_source 9 (fst d) = Some s" "snd d \<noteq> []"
    using example_replay by blast
  have tried: "attempted 9 ?d0 d"
    unfolding attempted_def using run(1) by (intro exI [of _ example_process_env] exI [of _ True]) simp
  have "applied_cp (example_source\<lparr>so_analysis_checkpoint := Some example_checkpoint\<rparr>)"
    by (simp add: applied_cp_def example_checkpoint_def)
  then show ?thesis
    using context_applied_once [OF rtranclp.rtrancl_refl r_into_rtranclp [where r = "attempted 9", OF tried] _ example_state_row run(2)]
      tried run(2,3) by (intro exI [of _ d]) (simp add: example_state_row example_kind)
qed

theorem review_gate_holds_witness:
  "\<exists>d. attempted 9 example_meeting d \<and> d \<noteq> example_meeting
    \<and> ab_context (fst d) = ab_context (fst example_meeting) \<and> snd d = snd example_meeting"
proof -
  let ?s = "example_source\<lparr>so_kind := MeetingKind, so_review_state := Some RvTranscribing\<rparr>"
  obtain safe d1 d where run: "process_source_attempt example_process_env 9 False example_meeting
      = (Inr (Some safe), [example_meeting, d1, d])" "example_meeting \<noteq> d"
    using example_meeting_failure by blast
  have tried: "attempted 9 example_meeting d"
    unfolding attempted_def using run(1) by (intro exI [of _ example_process_env] exI [of _ False]) simp
  have row: "get_source 9 (fst example_meeting) = Some ?s"
    by (simp add: example_meeting_def get_source_def row_get_def empty_db_def example_source_def)
  have "so_analysis_checkpoint ?s = None"
    by (simp add: example_source_def)
  then show ?thesis
    using review_gate_holds [OF r_into_rtranclp [where r = "attempted 9", OF tried] row] tried run(2) by (intro exI [of _ d]) auto
qed


end
