(* ===== verification/ModelCatalog.thy ===== *)
theory ModelCatalog
  imports Indexing
begin

text \<open>
  The models a user can pick (\<^verbatim>\<open>context_engine/application/model_catalog.py\<close>): every active
  credential the requester may use, asked for its models. The registry and the price list are
  parameters; a price list that is empty is \<open>None\<close>.
\<close>

definition models_of :: "adapter \<Rightarrow> pystr \<Rightarrow> model_info list" where
  "models_of a key = (case ad_list_model_infos a key of Inl e \<Rightarrow> [] | Inr infos \<Rightarrow> infos)"

definition options_for_key ::
  "unicode \<Rightarrow> (pystr \<Rightarrow> pystr option \<Rightarrow> adapter option) \<Rightarrow> price_map option \<Rightarrow> provider_env
    \<Rightarrow> pystr \<Rightarrow> pystr \<Rightarrow> pystr option \<Rightarrow> uuid option \<Rightarrow> role_options" where
  "options_for_key uc registry prices env provider key base_url cid =
     (case registry provider (if provider = lit ''ollama'' then base_url else None) of
       None \<Rightarrow> options_by_role uc [] None (\<lambda>_ _. None) (pv_today env)
     | Some a \<Rightarrow> options_by_role uc [(a, models_of a key, cid)]
         (if provider = lit ''ollama'' then None else prices)
         (se_provider_default_models (pv_settings env)) (pv_today env))"

definition listing_of :: "provider_env \<Rightarrow> credential_row \<Rightarrow> (adapter \<times> model_info list \<times> uuid option) option" where
  "listing_of env c = (case pv_adapter env c of
     None \<Rightarrow> None
   | Some a \<Rightarrow> (case resolve_credential_secret env c of
       None \<Rightarrow> None
     | Some key \<Rightarrow> Some (a, models_of a key, Some (cd_id c))))"

definition workspace_listings ::
  "provider_env \<Rightarrow> app_db \<Rightarrow> uuid \<Rightarrow> uuid \<Rightarrow> pystr option \<Rightarrow> (adapter \<times> model_info list \<times> uuid option) list" where
  "workspace_listings env db ws owner provider = List.map_filter (listing_of env)
     (filter (\<lambda>c. provider = None \<or> provider = Some (cd_provider c)) (usable_credentials ws owner (ab_credentials db)))"

definition options_for_workspace ::
  "unicode \<Rightarrow> price_map option \<Rightarrow> provider_env \<Rightarrow> app_db \<Rightarrow> uuid \<Rightarrow> uuid \<Rightarrow> pystr option \<Rightarrow> role_options" where
  "options_for_workspace uc prices env db ws owner provider =
     (let listings = workspace_listings env db ws owner provider in
      options_by_role uc listings
        (if listings \<noteq> [] \<and> (\<forall>(a, _) \<in> set listings. ad_id a = lit ''ollama'') then None else prices)
        (se_provider_default_models (pv_settings env)) (pv_today env))"

lemma set_workspace_listings:
  "l \<in> set (workspace_listings env db ws owner provider) \<longleftrightarrow> (\<exists>c \<in> set (ab_credentials db).
     (cd_workspace_id c = Some ws \<or> cd_workspace_id c = None \<and> cd_owner_id c = owner)
     \<and> cd_status c = lit ''active'' \<and> (provider = None \<or> provider = Some (cd_provider c)) \<and> listing_of env c = Some l)"
proof -
  have "l \<in> set (List.map_filter f xs) \<longleftrightarrow> (\<exists>c \<in> set xs. f c = Some l)" for f :: "credential_row \<Rightarrow> _" and xs
    by (induction xs) (auto simp: map_filter_simps split: option.splits)
  then show ?thesis
    by (auto simp: workspace_listings_def usable_credentials_def)
qed

section \<open>Properties\<close>

text \<open>Every model offered to a member was listed just now by an active connection of the workspace or
  of the member's own account, under that connection's identifier; and such a choice, stored for
  its role, is one the workspace accepts.\<close>

theorem offered_models_are_usable:
  assumes "x \<in> set (options_for_workspace uc prices env db ws owner provider role)"
  shows "(\<exists>c a key infos i. c \<in> set (ab_credentials db) \<and> mo_credential_id x = Some (cd_id c)
      \<and> (cd_workspace_id c = Some ws \<or> cd_workspace_id c = None \<and> cd_owner_id c = owner)
      \<and> cd_status c = lit ''active'' \<and> pv_adapter env c = Some a
      \<and> resolve_credential_secret env c = Some key \<and> ad_list_model_infos a key = Inr infos
      \<and> i \<in> set infos \<and> mi_id i = mo_model x \<and> mo_provider x = ad_id a \<and> not_retired (pv_today env) i
      \<and> role_capability role \<in> set (ad_capabilities a))
    \<and> invalid_selections [(model_role_value role, x)] (options_for_workspace uc prices env db ws owner provider) = []"
proof -
  obtain a infos cid where l: "(a, infos, cid) \<in> set (workspace_listings env db ws owner provider)"
    "mo_provider x = ad_id a" "mo_credential_id x = cid" "role_capability role \<in> set (ad_capabilities a)"
    "\<exists>i \<in> set infos. mi_id i = mo_model x \<and> not_retired (pv_today env) i"
    using assms unfolding options_for_workspace_def Let_def
    by (blast dest: bspec [OF conjunct1 [OF options_offered]])
  then obtain c where c: "c \<in> set (ab_credentials db)" "cd_status c = lit ''active''" "listing_of env c = Some (a, infos, cid)"
    "cd_workspace_id c = Some ws \<or> cd_workspace_id c = None \<and> cd_owner_id c = owner"
    by (auto simp: set_workspace_listings)
  then obtain key where "pv_adapter env c = Some a" "resolve_credential_secret env c = Some key"
    "cid = Some (cd_id c)" "infos = models_of a key"
    by (auto simp: listing_of_def split: option.splits)
  moreover from this l(5) obtain i listed where "ad_list_model_infos a key = Inr listed" "i \<in> set listed"
    "mi_id i = mo_model x" "not_retired (pv_today env) i"
    by (auto simp: models_of_def split: sum.splits)
  moreover have "invalid_selections [(model_role_value role, x)] (options_for_workspace uc prices env db ws owner provider) = []"
    using assms by (simp add: acceptable_def)
  ultimately show ?thesis
    using c(1,2,4) l(2-4) by blast
qed

theorem offered_models_are_usable_witness:
  "\<exists>x. x \<in> set (options_for_workspace ascii_unicode None example_env example_db 1 2 None RoleAnswer)
    \<and> (\<exists>c \<in> set (ab_credentials example_db). mo_credential_id x = Some (cd_id c))"
proof -
  let ?options = "options_for_workspace ascii_unicode None example_env example_db 1 2 None RoleAnswer"
  have "length ?options = 2"
    by code_simp
  then obtain x where x: "x \<in> set ?options"
    by (cases ?options) auto
  from offered_models_are_usable [OF x] x show ?thesis
    by blast
qed

end
