(* ===== verification/Access.thy ===== *)
theory Access
  imports Database
begin

text \<open>
  Who may do what in a workspace (\<^verbatim>\<open>workspaces/application/access.py\<close>) and its members and audit log
  (\<^verbatim>\<open>api/workspaces/collaboration.py\<close>). A request runs on the committed tables and returns its
  answer with the tables it committed; an \<^verbatim>\<open>HTTPException\<close> rolls back what it had not committed.
  Where a statement has no order, the rows come in table order.
\<close>

section \<open>Requests\<close>

record http_error =
  he_status :: int
  he_detail :: string

definition http :: "int \<Rightarrow> string \<Rightarrow> http_error" where
  "http status detail = \<lparr>he_status = status, he_detail = detail\<rparr>"

type_synonym 'a body = "app_db \<Rightarrow> http_error + 'a \<times> app_db"

type_synonym 'a request = "app_db \<Rightarrow> (http_error + 'a) \<times> app_db"

definition respond :: "'a body \<Rightarrow> 'a request" where
  "respond body db = (case body db of Inl e \<Rightarrow> (Inl e, db) | Inr (x, db') \<Rightarrow> (Inr x, db'))"

section \<open>Access\<close>

fun role_level :: "member_role \<Rightarrow> int" where
  "role_level Viewer = 10"
| "role_level Editor = 20"
| "role_level Admin = 30"
| "role_level Owner = 40"

record access_grant =
  wa_workspace :: workspace_row
  wa_member :: member_row

definition normalize_member_email :: "unicode \<Rightarrow> pystr \<Rightarrow> pystr" where
  "normalize_member_email uc email = uc_casefold uc (strip email)"

definition pending_for :: "unicode \<Rightarrow> pystr \<Rightarrow> member_row \<Rightarrow> bool" where
  "pending_for uc email m \<longleftrightarrow> mb_user_id m = None
     \<and> mb_email_normalized m = normalize_member_email uc email"

definition join_member :: "stamp \<Rightarrow> auth_user \<Rightarrow> pystr \<Rightarrow> member_row \<Rightarrow> member_row" where
  "join_member st user email m = m\<lparr>mb_user_id := Some (us_id user), mb_email := email,
     mb_joined_at := Some (st_now st)\<rparr>"

text \<open>The commit checks the unique constraints of the table; a violation is an internal error.\<close>

definition claim_pending_memberships ::
  "unicode \<Rightarrow> stamp \<Rightarrow> auth_user \<Rightarrow> app_db \<Rightarrow> http_error + app_db" where
  "claim_pending_memberships uc st user db = (case truthy (us_email user) of
     None \<Rightarrow> Inr db
   | Some email \<Rightarrow>
       if \<not> (\<exists>m \<in> set (ab_members db). pending_for uc email m) then Inr db
       else let members = map (\<lambda>m. if pending_for uc email m then join_member st user email m else m) (ab_members db)
         in if members_unique members then Inr (db\<lparr>ab_members := members\<rparr>)
            else Inl (http 500 ''IntegrityError''))"

definition owner_member :: "unicode \<Rightarrow> stamp \<Rightarrow> workspace_row \<Rightarrow> auth_user \<Rightarrow> member_row" where
  "owner_member uc st w user = (let email = (case us_email user of Some e \<Rightarrow> e | None \<Rightarrow> []) in
     \<lparr>mb_id = st_fresh st 0, mb_workspace_id = wk_id w, mb_user_id = Some (us_id user), mb_email = email,
       mb_email_normalized = normalize_member_email uc email, mb_role = Owner, mb_invited_by = us_id user,
       mb_joined_at = Some (st_now st), mb_created_at = st_now st\<rparr>)"

definition is_identity :: "unicode \<Rightarrow> auth_user \<Rightarrow> member_row \<Rightarrow> bool" where
  "is_identity uc user m \<longleftrightarrow> mb_user_id m = Some (us_id user)
     \<or> (case truthy (us_email user) of None \<Rightarrow> False
        | Some e \<Rightarrow> mb_email_normalized m = normalize_member_email uc e)"

definition not_found :: http_error where
  "not_found = http 404 ''Workspace not found''"

definition grant ::
  "unicode \<Rightarrow> stamp \<Rightarrow> uuid \<Rightarrow> auth_user \<Rightarrow> member_role \<Rightarrow> app_db \<Rightarrow> http_error + access_grant" where
  "grant uc st ws user minimum db = (case row_get wk_id ws (ab_workspaces db) of
     None \<Rightarrow> Inl not_found
   | Some w \<Rightarrow>
       if wk_owner_id w = us_id user then Inr \<lparr>wa_workspace = w, wa_member = owner_member uc st w user\<rparr>
       else (case find (\<lambda>m. mb_workspace_id m = ws \<and> is_identity uc user m) (ab_members db) of
           None \<Rightarrow> Inl not_found
         | Some m \<Rightarrow> if role_level (mb_role m) < role_level minimum then Inl not_found
             else Inr \<lparr>wa_workspace = w, wa_member = m\<rparr>))"

definition workspace_access ::
  "unicode \<Rightarrow> stamp \<Rightarrow> uuid \<Rightarrow> auth_user \<Rightarrow> member_role \<Rightarrow> access_grant request" where
  "workspace_access uc st ws user minimum db = (case claim_pending_memberships uc st user db of
     Inl e \<Rightarrow> (Inl e, db)
   | Inr db1 \<Rightarrow> (grant uc st ws user minimum db1, db1))"

definition with_access ::
  "unicode \<Rightarrow> stamp \<Rightarrow> uuid \<Rightarrow> auth_user \<Rightarrow> member_role \<Rightarrow> (access_grant \<Rightarrow> 'a body) \<Rightarrow> 'a request" where
  "with_access uc st ws user minimum body db = (case workspace_access uc st ws user minimum db of
     (Inl e, db1) \<Rightarrow> (Inl e, db1)
   | (Inr a, db1) \<Rightarrow> respond (body a) db1)"

section \<open>Members\<close>

definition count_char :: "nat \<Rightarrow> pystr \<Rightarrow> nat" where
  "count_char c s = length (filter (\<lambda>x. x = c) s)"

text \<open>\<^verbatim>\<open>local, domain = s.split("@")\<close> of a text with one "@".\<close>

definition address_parts :: "pystr \<Rightarrow> pystr \<times> pystr" where
  "address_parts s = (takeWhile (\<lambda>c. c \<noteq> 64) s, drop 1 (dropWhile (\<lambda>c. c \<noteq> 64) s))"

definition valid_address :: "pystr \<Rightarrow> bool" where
  "valid_address s \<longleftrightarrow> count_char 64 s = 1 \<and> \<not> (\<exists>c \<in> set s. py_isspace c)
     \<and> fst (address_parts s) \<noteq> [] \<and> snd (address_parts s) \<noteq> [] \<and> 46 \<in> set (snd (address_parts s))"

definition invite_email :: "pystr \<Rightarrow> pystr option" where
  "invite_email s = (if 3 \<le> length s \<and> length s \<le> 320 \<and> valid_address (strip s) then Some (strip s) else None)"

datatype invited_role = AsAdmin | AsEditor | AsViewer

fun invited_member_role :: "invited_role \<Rightarrow> member_role" where
  "invited_member_role AsAdmin = Admin"
| "invited_member_role AsEditor = Editor"
| "invited_member_role AsViewer = Viewer"

fun member_role_value :: "member_role \<Rightarrow> pystr" where
  "member_role_value Owner = lit ''owner''"
| "member_role_value Admin = lit ''admin''"
| "member_role_value Editor = lit ''editor''"
| "member_role_value Viewer = lit ''viewer''"

definition user_event ::
  "uuid \<Rightarrow> auth_user \<Rightarrow> string \<Rightarrow> string \<Rightarrow> uuid \<Rightarrow> (pystr \<times> json) list \<Rightarrow> pystr option \<Rightarrow> audit_event" where
  "user_event ws user action kind target details rid = \<lparr>ae_workspace_id = ws, ae_actor = user,
     ae_action = lit action, ae_target_type = lit kind, ae_target_id = Some (uuid_str target),
     ae_origin = lit ''web'', ae_details = details, ae_request_id = rid\<rparr>"

definition unprocessable :: http_error where
  "unprocessable = http 422 ''Unprocessable''"

definition list_members ::
  "unicode \<Rightarrow> stamp \<Rightarrow> uuid \<Rightarrow> auth_user \<Rightarrow> member_row list request" where
  "list_members uc st ws user = with_access uc st ws user Viewer (\<lambda>a db.
     Inr (sort_key mb_created_at (filter (\<lambda>m. mb_workspace_id m = ws) (ab_members db)), db))"

definition invite_member ::
  "unicode \<Rightarrow> stamp \<Rightarrow> uuid \<Rightarrow> auth_user \<Rightarrow> pystr \<Rightarrow> invited_role \<Rightarrow> pystr option \<Rightarrow> member_row request" where
  "invite_member uc st ws user raw role rid db = (case invite_email raw of
     None \<Rightarrow> (Inl unprocessable, db)
   | Some email \<Rightarrow> with_access uc st ws user Admin (\<lambda>a db.
       let normalized = normalize_member_email uc email in
       if \<exists>m \<in> set (ab_members db). mb_workspace_id m = ws \<and> mb_email_normalized m = normalized
       then Inl (http 409 ''Member already invited'')
       else let m = \<lparr>mb_id = st_fresh st 0, mb_workspace_id = ws, mb_user_id = None, mb_email = email,
              mb_email_normalized = normalized, mb_role = invited_member_role role,
              mb_invited_by = us_id user, mb_joined_at = None, mb_created_at = st_now st\<rparr>
         in Inr (m, add_audit_event st (user_event ws user ''member.invited'' ''member'' (mb_id m)
              [(lit ''email'', JStr email), (lit ''role'', JStr (member_role_value (mb_role m)))] rid)
              (db\<lparr>ab_members := ab_members db @ [m]\<rparr>))) db)"

definition editable_member :: "uuid \<Rightarrow> uuid \<Rightarrow> app_db \<Rightarrow> http_error + member_row" where
  "editable_member ws i db = (case row_get mb_id i (ab_members db) of
     Some m \<Rightarrow> if mb_workspace_id m \<noteq> ws \<or> mb_role m = Owner then Inl (http 404 ''Member not found'') else Inr m
   | None \<Rightarrow> Inl (http 404 ''Member not found''))"

definition change_role ::
  "unicode \<Rightarrow> stamp \<Rightarrow> uuid \<Rightarrow> auth_user \<Rightarrow> uuid \<Rightarrow> invited_role \<Rightarrow> pystr option \<Rightarrow> member_row request" where
  "change_role uc st ws user i role rid = with_access uc st ws user Admin (\<lambda>a db.
     rbind (editable_member ws i db) (\<lambda>m.
       let m' = m\<lparr>mb_role := invited_member_role role\<rparr> in
       Inr (m', add_audit_event st (user_event ws user ''member.role_changed'' ''member'' i
         [(lit ''email'', JStr (mb_email m)), (lit ''before'', JStr (member_role_value (mb_role m))),
          (lit ''after'', JStr (member_role_value (mb_role m')))] rid)
         (db\<lparr>ab_members := row_upd mb_id i (\<lambda>_. m') (ab_members db)\<rparr>))))"

definition remove_member ::
  "unicode \<Rightarrow> stamp \<Rightarrow> uuid \<Rightarrow> auth_user \<Rightarrow> uuid \<Rightarrow> pystr option \<Rightarrow> unit request" where
  "remove_member uc st ws user i rid = with_access uc st ws user Admin (\<lambda>a db.
     rbind (editable_member ws i db) (\<lambda>m.
       Inr ((), add_audit_event st (user_event ws user ''member.removed'' ''member'' i
         [(lit ''email'', JStr (mb_email m)), (lit ''role'', JStr (member_role_value (mb_role m)))] rid)
         (db\<lparr>ab_members := row_del mb_id i (ab_members db)\<rparr>))))"

section \<open>The audit log\<close>

definition checkpoint_provenance :: "source_row \<Rightarrow> (pystr \<times> json) list" where
  "checkpoint_provenance s = (case so_analysis_checkpoint s of Some cp \<Rightarrow> cp_provenance cp | None \<Rightarrow> [])"

definition dict_merge :: "(pystr \<times> 'v) list \<Rightarrow> (pystr \<times> 'v) list \<Rightarrow> (pystr \<times> 'v) list" where
  "dict_merge d d' = foldl (\<lambda>d (k, v). AList.update k v d) d d'"

text \<open>The sources whose analyses the page shows, and the provenance their checkpoints record.\<close>

definition analysed_sources :: "(pystr \<Rightarrow> uuid option) \<Rightarrow> uuid \<Rightarrow> audit_row list \<Rightarrow> app_db \<Rightarrow> source_row list" where
  "analysed_sources parse ws rows db = (let ids = List.map_filter (\<lambda>r.
       if au_action r = lit ''analysis.completed'' then Option.bind (truthy (au_target_id r)) parse else None) rows
     in filter (\<lambda>s. so_workspace_id s = ws \<and> so_id s \<in> set ids) (ab_sources db))"

definition audit_response :: "source_row list \<Rightarrow> audit_row \<Rightarrow> audit_row" where
  "audit_response sources r = (case find (\<lambda>s. Some (uuid_str (so_id s)) = au_target_id r) sources of
     None \<Rightarrow> r
   | Some s \<Rightarrow> r\<lparr>au_details := dict_merge (checkpoint_provenance s) (au_details r)\<rparr>)"

definition audit_events ::
  "unicode \<Rightarrow> stamp \<Rightarrow> (pystr \<Rightarrow> uuid option) \<Rightarrow> uuid \<Rightarrow> auth_user \<Rightarrow> pystr option \<Rightarrow> uuid option \<Rightarrow> nat
    \<Rightarrow> audit_row list request" where
  "audit_events uc st parse ws user action actor limit db =
     (if \<not> (1 \<le> limit \<and> limit \<le> 200) then (Inl unprocessable, db)
      else with_access uc st ws user Viewer (\<lambda>a db.
        let rows = take limit (sort_key (\<lambda>r. - au_created_at r) (filter (\<lambda>r. au_workspace_id r = ws
            \<and> (case truthy action of None \<Rightarrow> True | Some x \<Rightarrow> au_action r = x)
            \<and> (case actor of None \<Rightarrow> True | Some u \<Rightarrow> au_actor_id r = u)) (ab_audit db)))
        in Inr (map (audit_response (analysed_sources parse ws rows db)) rows, db)) db)"

end
