(* ===== verification/Directory.thy ===== *)
theory Directory
  imports Access
begin

text \<open>
  People and projects of a workspace (\<^verbatim>\<open>api/workspaces/directory.py\<close>) and the explicit associations
  of its sources (\<^verbatim>\<open>api/workspaces/associations.py\<close>). A patch field is unset, null or a value.
\<close>

section \<open>Validation\<close>

definition clean_aliases :: "pystr list \<Rightarrow> pystr list option" where
  "clean_aliases values = (let cleaned = map strip values in
     if \<exists>a \<in> set cleaned. a = [] \<or> length a > 120 then None else Some (fromkeys cleaned))"

text \<open>The address and its key; \<open>Inl ()\<close> is \<^verbatim>\<open>ValueError\<close>.\<close>

definition normalize_email :: "unicode \<Rightarrow> pystr option \<Rightarrow> unit + (pystr \<times> pystr) option" where
  "normalize_email uc v = (case v of
     None \<Rightarrow> Inr None
   | Some s \<Rightarrow> if blank s then Inr None
       else (let email = uc_nfkc uc (strip s) in
         if length email > 320 \<or> \<not> valid_address email then Inl () else Inr (Some (email, uc_casefold uc email))))"

definition clean_role :: "pystr option \<Rightarrow> pystr option" where
  "clean_role v = truthy (map_option strip v)"

definition max_chars :: "nat \<Rightarrow> pystr option \<Rightarrow> bool" where
  "max_chars n v \<longleftrightarrow> (case v of None \<Rightarrow> True | Some s \<Rightarrow> length s \<le> n)"

record person_input =
  pi_name :: pystr
  pi_email :: "pystr option"
  pi_role :: "pystr option"
  pi_aliases :: "pystr list"

definition valid_name :: "pystr \<Rightarrow> bool" where
  "valid_name s \<longleftrightarrow> length s \<le> 120 \<and> \<not> blank s"

definition person_input_of :: "unicode \<Rightarrow> person_input \<Rightarrow> person_input option" where
  "person_input_of uc b = (if \<not> valid_name (pi_name b) \<or> \<not> max_chars 320 (pi_email b) \<or> \<not> max_chars 120 (pi_role b) then None
     else (case (normalize_email uc (pi_email b), clean_aliases (pi_aliases b)) of
         (Inr e, Some aliases) \<Rightarrow> Some \<lparr>pi_name = strip (pi_name b), pi_email = map_option fst e,
           pi_role = clean_role (pi_role b), pi_aliases = aliases\<rparr>
       | _ \<Rightarrow> None))"

record person_patch =
  pp_name :: "pystr option option"
  pp_email :: "pystr option option"
  pp_role :: "pystr option option"
  pp_aliases :: "pystr list option option"
  pp_archived :: "bool option option"

fun when_set :: "('a \<Rightarrow> bool) \<Rightarrow> 'a option option \<Rightarrow> bool" where
  "when_set P (Some (Some x)) = P x"
| "when_set P _ = True"

fun on_set :: "('a \<Rightarrow> 'b) \<Rightarrow> 'a option option \<Rightarrow> 'b option option" where
  "on_set f (Some (Some x)) = Some (Some (f x))"
| "on_set f (Some None) = Some None"
| "on_set f None = None"

definition person_patch_of :: "unicode \<Rightarrow> person_patch \<Rightarrow> person_patch option" where
  "person_patch_of uc b = (if \<not> when_set valid_name (pp_name b) \<or> \<not> when_set (\<lambda>s. length s \<le> 320) (pp_email b)
       \<or> \<not> when_set (\<lambda>s. length s \<le> 120) (pp_role b) \<or> \<not> when_set (\<lambda>xs. clean_aliases xs \<noteq> None) (pp_aliases b) then None
     else (case map_option (normalize_email uc) (pp_email b) of
         Some (Inl e) \<Rightarrow> None
       | email \<Rightarrow> Some (b\<lparr>pp_name := on_set strip (pp_name b),
           pp_email := (case email of Some (Inr e) \<Rightarrow> Some (map_option fst e) | _ \<Rightarrow> None),
           pp_role := map_option clean_role (pp_role b),
           pp_aliases := on_set (\<lambda>xs. the (clean_aliases xs)) (pp_aliases b)\<rparr>)))"

section \<open>References\<close>

definition owned_workspace ::
  "unicode \<Rightarrow> stamp \<Rightarrow> uuid \<Rightarrow> auth_user \<Rightarrow> member_role \<Rightarrow> (workspace_row \<Rightarrow> 'a body) \<Rightarrow> 'a request" where
  "owned_workspace uc st ws user minimum body = with_access uc st ws user minimum (\<lambda>a. body (wa_workspace a))"

definition active_person :: "uuid option \<Rightarrow> uuid \<Rightarrow> uuid \<Rightarrow> app_db \<Rightarrow> http_error + person_row option" where
  "active_person person ws owner db = (case person of
     None \<Rightarrow> Inr None
   | Some i \<Rightarrow> (case row_get pe_id i (ab_people db) of
       Some p \<Rightarrow> if pe_workspace_id p = ws \<and> pe_owner_id p = owner \<and> pe_archived_at p = None then Inr (Some p)
         else Inl (http 422 ''Invalid person reference'')
     | None \<Rightarrow> Inl (http 422 ''Invalid person reference'')))"

definition active_project :: "uuid option \<Rightarrow> uuid \<Rightarrow> uuid \<Rightarrow> app_db \<Rightarrow> http_error + project_row option" where
  "active_project project ws owner db = (case project of
     None \<Rightarrow> Inr None
   | Some i \<Rightarrow> (case row_get pj_id i (ab_projects db) of
       Some p \<Rightarrow> if pj_workspace_id p = ws \<and> pj_owner_id p = owner \<and> pj_archived_at p = None then Inr (Some p)
         else Inl (http 422 ''Invalid project reference'')
     | None \<Rightarrow> Inl (http 422 ''Invalid project reference'')))"

section \<open>People\<close>

text \<open>\<^verbatim>\<open>uq_workspace_people_email_normalized\<close>.\<close>

definition people_unique :: "person_row list \<Rightarrow> bool" where
  "people_unique rows \<longleftrightarrow> distinct (map (\<lambda>p. (pe_workspace_id p, pe_email_normalized p))
     (filter (\<lambda>p. pe_email_normalized p \<noteq> None) rows))"

definition put_person :: "person_row \<Rightarrow> app_db \<Rightarrow> app_db" where
  "put_person p db = db\<lparr>ab_people := row_upd pe_id (pe_id p) (\<lambda>_. p) (ab_people db)\<rparr>"

definition list_people :: "unicode \<Rightarrow> stamp \<Rightarrow> uuid \<Rightarrow> auth_user \<Rightarrow> person_row list request" where
  "list_people uc st ws user = owned_workspace uc st ws user Viewer (\<lambda>w db.
     Inr (sort_key pe_name (filter (\<lambda>p. pe_workspace_id p = ws \<and> pe_owner_id p = wk_owner_id w) (ab_people db)), db))"

definition merge_person :: "stamp \<Rightarrow> pystr list \<Rightarrow> person_row \<Rightarrow> app_db \<Rightarrow> http_error + person_row \<times> app_db" where
  "merge_person st aliases existing db = (case clean_aliases (pe_aliases existing @ aliases) of
     None \<Rightarrow> Inl (http 500 ''ValueError'')
   | Some merged \<Rightarrow> if merged \<noteq> pe_aliases existing \<or> pe_archived_at existing \<noteq> None
       then (let p = existing\<lparr>pe_aliases := merged, pe_archived_at := None, pe_updated_at := st_now st\<rparr>
         in Inr (p, put_person p db))
       else Inr (existing, db))"

definition new_person :: "stamp \<Rightarrow> workspace_row \<Rightarrow> person_input \<Rightarrow> (pystr \<times> pystr) option \<Rightarrow> person_row" where
  "new_person st w b email = \<lparr>pe_id = st_fresh st 0, pe_workspace_id = wk_id w, pe_owner_id = wk_owner_id w,
     pe_name = pi_name b, pe_email = map_option fst email, pe_email_normalized = map_option snd email,
     pe_role = pi_role b, pe_aliases = pi_aliases b, pe_archived_at = None,
     pe_created_at = st_now st, pe_updated_at = st_now st\<rparr>"

text \<open>The answer's status is 200 where the address is already in the directory. The recovery from a
  unique violation at the commit concerns two requests at once.\<close>

definition add_person :: "unicode \<Rightarrow> stamp \<Rightarrow> auth_user \<Rightarrow> person_input \<Rightarrow> workspace_row \<Rightarrow> (int \<times> person_row) body" where
  "add_person uc st user b w db = (case normalize_email uc (pi_email b) of
     Inl e \<Rightarrow> Inl (http 500 ''ValueError'')
   | Inr email \<Rightarrow> (case (if email = None then None else find (\<lambda>p. pe_workspace_id p = wk_id w
         \<and> pe_email_normalized p = map_option snd email) (ab_people db)) of
       Some existing \<Rightarrow> rbind (merge_person st (pi_aliases b) existing db) (\<lambda>(p, db'). Inr ((200, p), db'))
     | None \<Rightarrow> (let p = new_person st w b email in
         Inr ((201, p), add_audit_event st (user_event (wk_id w) user ''person.created'' ''person'' (pe_id p) [] None)
           (db\<lparr>ab_people := ab_people db @ [p]\<rparr>)))))"

definition create_person ::
  "unicode \<Rightarrow> stamp \<Rightarrow> uuid \<Rightarrow> auth_user \<Rightarrow> person_input \<Rightarrow> (int \<times> person_row) request" where
  "create_person uc st ws user raw db = (case person_input_of uc raw of
     None \<Rightarrow> (Inl unprocessable, db)
   | Some b \<Rightarrow> owned_workspace uc st ws user Editor (add_person uc st user b) db)"

definition patched_fields :: "(string \<times> bool) list \<Rightarrow> json" where
  "patched_fields fs = JArr (map (\<lambda>f. JStr (lit (fst f))) (filter snd fs))"

definition person_fields :: "person_patch \<Rightarrow> (pystr \<times> json) list" where
  "person_fields b = [(lit ''fields'', patched_fields [(''aliases'', pp_aliases b \<noteq> None),
     (''archived'', pp_archived b \<noteq> None), (''email'', pp_email b \<noteq> None), (''name'', pp_name b \<noteq> None),
     (''role'', pp_role b \<noteq> None)])]"

definition patch_person ::
  "unicode \<Rightarrow> stamp \<Rightarrow> person_patch \<Rightarrow> person_row \<Rightarrow> http_error + person_row" where
  "patch_person uc st b p =
     (if pp_name b = Some None \<or> pp_aliases b = Some None then Inl (http 422 ''field cannot be null'')
      else (case (case pp_email b of None \<Rightarrow> Inr None | Some v \<Rightarrow> map_sum id Some (normalize_email uc v)) of
        Inl e \<Rightarrow> Inl (http 500 ''ValueError'')
      | Inr email \<Rightarrow> Inr (p\<lparr>
          pe_name := (case pp_name b of Some (Some n) \<Rightarrow> n | _ \<Rightarrow> pe_name p),
          pe_aliases := (case pp_aliases b of Some (Some a) \<Rightarrow> a | _ \<Rightarrow> pe_aliases p),
          pe_role := (case pp_role b of Some r \<Rightarrow> r | None \<Rightarrow> pe_role p),
          pe_email := (case email of Some e \<Rightarrow> map_option fst e | None \<Rightarrow> pe_email p),
          pe_email_normalized := (case email of Some e \<Rightarrow> map_option snd e | None \<Rightarrow> pe_email_normalized p),
          pe_archived_at := (case pp_archived b of
              Some (Some True) \<Rightarrow> Some (st_now st) | Some (Some False) \<Rightarrow> None | _ \<Rightarrow> pe_archived_at p),
          pe_updated_at := st_now st\<rparr>)))"

definition edit_person ::
  "unicode \<Rightarrow> stamp \<Rightarrow> auth_user \<Rightarrow> uuid \<Rightarrow> person_patch \<Rightarrow> workspace_row \<Rightarrow> person_row body" where
  "edit_person uc st user i b w db = (case row_get pe_id i (ab_people db) of
     None \<Rightarrow> Inl (http 404 ''Person not found'')
   | Some p \<Rightarrow> if pe_workspace_id p \<noteq> wk_id w \<or> pe_owner_id p \<noteq> wk_owner_id w then Inl (http 404 ''Person not found'')
       else rbind (patch_person uc st b p) (\<lambda>p'.
         let db' = put_person p' (add_audit_event st
           (user_event (wk_id w) user ''person.updated'' ''person'' i (person_fields b) None) db)
         in if people_unique (ab_people db') then Inr (p', db') else Inl (http 409 ''Person email conflict'')))"

definition update_person ::
  "unicode \<Rightarrow> stamp \<Rightarrow> uuid \<Rightarrow> auth_user \<Rightarrow> uuid \<Rightarrow> person_patch \<Rightarrow> person_row request" where
  "update_person uc st ws user i raw db = (case person_patch_of uc raw of
     None \<Rightarrow> (Inl unprocessable, db)
   | Some b \<Rightarrow> owned_workspace uc st ws user Editor (edit_person uc st user i b) db)"

section \<open>Projects\<close>

record project_input =
  qi_name :: pystr
  qi_goal :: "pystr option"
  qi_description :: "pystr option"
  qi_owner_person_id :: "uuid option"
  qi_starts_on :: "int option"
  qi_ends_on :: "int option"

definition dates_in_order :: "int option \<Rightarrow> int option \<Rightarrow> bool" where
  "dates_in_order a b \<longleftrightarrow> (case (a, b) of (Some x, Some y) \<Rightarrow> x \<le> y | _ \<Rightarrow> True)"

definition project_input_of :: "project_input \<Rightarrow> project_input option" where
  "project_input_of b = (if valid_name (qi_name b) \<and> max_chars 4000 (qi_goal b) \<and> max_chars 4000 (qi_description b)
       \<and> dates_in_order (qi_starts_on b) (qi_ends_on b)
     then Some (b\<lparr>qi_name := strip (qi_name b)\<rparr>) else None)"

record project_patch =
  qp_name :: "pystr option option"
  qp_goal :: "pystr option option"
  qp_description :: "pystr option option"
  qp_owner_person_id :: "uuid option option"
  qp_starts_on :: "int option option"
  qp_ends_on :: "int option option"
  qp_archived :: "bool option option"

definition project_patch_valid :: "project_patch \<Rightarrow> bool" where
  "project_patch_valid b \<longleftrightarrow> when_set (\<lambda>s. s \<noteq> [] \<and> length s \<le> 120) (qp_name b)
     \<and> when_set (\<lambda>s. length s \<le> 4000) (qp_goal b) \<and> when_set (\<lambda>s. length s \<le> 4000) (qp_description b)"

definition get_project :: "uuid \<Rightarrow> workspace_row \<Rightarrow> app_db \<Rightarrow> http_error + project_row" where
  "get_project i w db = (case row_get pj_id i (ab_projects db) of
     Some p \<Rightarrow> if pj_workspace_id p = wk_id w \<and> pj_owner_id p = wk_owner_id w then Inr p
       else Inl (http 404 ''Project not found'')
   | None \<Rightarrow> Inl (http 404 ''Project not found''))"

definition put_project :: "project_row \<Rightarrow> app_db \<Rightarrow> app_db" where
  "put_project p db = db\<lparr>ab_projects := row_upd pj_id (pj_id p) (\<lambda>_. p) (ab_projects db)\<rparr>"

definition project_response :: "project_row \<Rightarrow> app_db \<Rightarrow> project_row \<times> uuid list" where
  "project_response p db = (p, map pm_person_id (filter (\<lambda>m. pm_project_id m = pj_id p) (ab_project_members db)))"

definition list_projects ::
  "unicode \<Rightarrow> stamp \<Rightarrow> uuid \<Rightarrow> auth_user \<Rightarrow> (project_row \<times> uuid list) list request" where
  "list_projects uc st ws user = owned_workspace uc st ws user Viewer (\<lambda>w db.
     Inr (map (\<lambda>p. project_response p db) (sort_key pj_name (filter (\<lambda>p. pj_workspace_id p = ws
       \<and> pj_owner_id p = wk_owner_id w) (ab_projects db))), db))"

definition add_project :: "stamp \<Rightarrow> auth_user \<Rightarrow> project_input \<Rightarrow> workspace_row \<Rightarrow> (project_row \<times> uuid list) body" where
  "add_project st user b w db = rbind (active_person (qi_owner_person_id b) (wk_id w) (wk_owner_id w) db) (\<lambda>_.
     let p = \<lparr>pj_id = st_fresh st 0, pj_workspace_id = wk_id w, pj_owner_id = wk_owner_id w, pj_revision = 0,
           pj_name = qi_name b, pj_goal = qi_goal b, pj_description = qi_description b,
           pj_owner_person_id = qi_owner_person_id b, pj_starts_on = qi_starts_on b, pj_ends_on = qi_ends_on b,
           pj_archived_at = None, pj_created_at = st_now st, pj_updated_at = st_now st\<rparr>;
         db' = add_audit_event st (user_event (wk_id w) user ''project.created'' ''project'' (pj_id p) [] None)
           (db\<lparr>ab_projects := ab_projects db @ [p]\<rparr>)
     in Inr (project_response p db', db'))"

definition create_project ::
  "unicode \<Rightarrow> stamp \<Rightarrow> uuid \<Rightarrow> auth_user \<Rightarrow> project_input \<Rightarrow> (project_row \<times> uuid list) request" where
  "create_project uc st ws user raw db = (case project_input_of raw of
     None \<Rightarrow> (Inl unprocessable, db)
   | Some b \<Rightarrow> owned_workspace uc st ws user Editor (add_project st user b) db)"

definition project_fields :: "project_patch \<Rightarrow> (pystr \<times> json) list" where
  "project_fields b = [(lit ''fields'', patched_fields [(''archived'', qp_archived b \<noteq> None),
     (''description'', qp_description b \<noteq> None), (''ends_on'', qp_ends_on b \<noteq> None), (''goal'', qp_goal b \<noteq> None),
     (''name'', qp_name b \<noteq> None), (''owner_person_id'', qp_owner_person_id b \<noteq> None),
     (''starts_on'', qp_starts_on b \<noteq> None)])]"

definition patch_project :: "stamp \<Rightarrow> project_patch \<Rightarrow> project_row \<Rightarrow> app_db \<Rightarrow> http_error + project_row" where
  "patch_project st b p db =
     (if (case qp_name b of Some None \<Rightarrow> True | Some (Some n) \<Rightarrow> blank n | None \<Rightarrow> False)
      then Inl (http 422 ''Name is required'')
      else rbind (active_person (case qp_owner_person_id b of Some v \<Rightarrow> v | None \<Rightarrow> None)
        (pj_workspace_id p) (pj_owner_id p) db) (\<lambda>_.
        let p' = p\<lparr>pj_name := (case qp_name b of Some (Some n) \<Rightarrow> strip n | _ \<Rightarrow> pj_name p),
            pj_goal := (case qp_goal b of Some v \<Rightarrow> v | None \<Rightarrow> pj_goal p),
            pj_description := (case qp_description b of Some v \<Rightarrow> v | None \<Rightarrow> pj_description p),
            pj_owner_person_id := (case qp_owner_person_id b of Some v \<Rightarrow> v | None \<Rightarrow> pj_owner_person_id p),
            pj_starts_on := (case qp_starts_on b of Some v \<Rightarrow> v | None \<Rightarrow> pj_starts_on p),
            pj_ends_on := (case qp_ends_on b of Some v \<Rightarrow> v | None \<Rightarrow> pj_ends_on p)\<rparr>
        in if \<not> dates_in_order (pj_starts_on p') (pj_ends_on p') then Inl (http 422 ''Project end precedes start'')
          else Inr (p'\<lparr>pj_archived_at := (case qp_archived b of
              Some (Some True) \<Rightarrow> Some (st_now st) | Some (Some False) \<Rightarrow> None | _ \<Rightarrow> pj_archived_at p),
            pj_updated_at := st_now st\<rparr>)))"

definition edit_project ::
  "stamp \<Rightarrow> auth_user \<Rightarrow> uuid \<Rightarrow> project_patch \<Rightarrow> workspace_row \<Rightarrow> (project_row \<times> uuid list) body" where
  "edit_project st user i b w db = rbind (get_project i w db) (\<lambda>p. rbind (patch_project st b p db) (\<lambda>p'.
     let db' = put_project p' (add_audit_event st
       (user_event (wk_id w) user ''project.updated'' ''project'' i (project_fields b) None) db)
     in Inr (project_response p' db', db')))"

definition update_project ::
  "unicode \<Rightarrow> stamp \<Rightarrow> uuid \<Rightarrow> auth_user \<Rightarrow> uuid \<Rightarrow> project_patch \<Rightarrow> (project_row \<times> uuid list) request" where
  "update_project uc st ws user i b db = (if \<not> project_patch_valid b then (Inl unprocessable, db)
     else owned_workspace uc st ws user Editor (edit_project st user i b) db)"

section \<open>Participants of a project\<close>

definition list_project_participants ::
  "unicode \<Rightarrow> stamp \<Rightarrow> uuid \<Rightarrow> auth_user \<Rightarrow> uuid \<Rightarrow> person_row list request" where
  "list_project_participants uc st ws user i = owned_workspace uc st ws user Viewer (\<lambda>w db.
     rbind (get_project i w db) (\<lambda>p. Inr (sort_key pe_name (concat (map (\<lambda>m.
       filter (\<lambda>q. pe_id q = pm_person_id m \<and> pe_workspace_id q = ws) (ab_people db))
         (filter (\<lambda>m. pm_project_id m = i) (ab_project_members db)))), db)))"

definition set_participants :: "stamp \<Rightarrow> uuid \<Rightarrow> uuid \<Rightarrow> uuid list \<Rightarrow> app_db \<Rightarrow> app_db" where
  "set_participants st ws i people db = db\<lparr>ab_project_members :=
     filter (\<lambda>m. pm_project_id m \<noteq> i) (ab_project_members db)
     @ map (\<lambda>(n, person). \<lparr>pm_id = st_fresh st n, pm_workspace_id = ws, pm_project_id = i, pm_person_id = person\<rparr>)
         (enumerate 0 people)\<rparr>"

definition replace_participants ::
  "stamp \<Rightarrow> auth_user \<Rightarrow> uuid \<Rightarrow> int \<Rightarrow> uuid list \<Rightarrow> workspace_row \<Rightarrow> (project_row \<times> uuid list) body" where
  "replace_participants st user i revision people w db = rbind (get_project i w db) (\<lambda>p.
     if pj_archived_at p \<noteq> None then Inl (http 422 ''Project is archived'')
     else if pj_revision p \<noteq> revision then Inl (http 409 ''Stale project revision'')
     else if \<not> distinct people then Inl (http 422 ''Duplicate participant'')
     else rbind (traverse (\<lambda>q. active_person (Some q) (wk_id w) (wk_owner_id w) db) people) (\<lambda>_.
       let p' = p\<lparr>pj_revision := pj_revision p + 1, pj_updated_at := st_now st\<rparr>;
           db' = put_project p' (add_audit_event st (user_event (wk_id w) user ''project.participants_updated''
             ''project'' i [(lit ''participantCount'', JInt (int (length people)))] None)
             (set_participants st (wk_id w) i people db))
       in Inr (project_response p' db', db')))"

definition replace_project_participants ::
  "unicode \<Rightarrow> stamp \<Rightarrow> uuid \<Rightarrow> auth_user \<Rightarrow> uuid \<Rightarrow> int \<Rightarrow> uuid list \<Rightarrow> (project_row \<times> uuid list) request" where
  "replace_project_participants uc st ws user i revision people db = (if revision < 0 then (Inl unprocessable, db)
     else owned_workspace uc st ws user Editor (replace_participants st user i revision people) db)"

section \<open>Associations of a source\<close>

definition project_ids :: "source_row \<Rightarrow> app_db \<Rightarrow> uuid list" where
  "project_ids s db = (let ids = map sp_project_id (sort_key sp_position
       (filter (\<lambda>r. sp_source_id r = so_id s) (ab_source_projects db)))
     in if ids \<noteq> [] then ids else case so_project_id s of Some i \<Rightarrow> [i] | None \<Rightarrow> [])"

definition source_people :: "source_row \<Rightarrow> app_db \<Rightarrow> (uuid \<times> source_person_role) list" where
  "source_people s db = map (\<lambda>r. (sn_person_id r, sn_role r))
     (filter (\<lambda>r. sn_source_id r = so_id s) (ab_source_people db))"

definition link_projects :: "stamp \<Rightarrow> source_row \<Rightarrow> uuid list \<Rightarrow> app_db \<Rightarrow> app_db" where
  "link_projects st s ids db = db\<lparr>ab_source_projects :=
     filter (\<lambda>r. sp_source_id r \<noteq> so_id s) (ab_source_projects db)
     @ map (\<lambda>(n, i). \<lparr>sp_id = st_fresh st n, sp_workspace_id = so_workspace_id s, sp_source_id = so_id s,
         sp_project_id = i, sp_position = int n\<rparr>) (enumerate 0 ids)\<rparr>"

text \<open>The source, with its primary project, and the tables with its links.\<close>

definition replace_projects :: "stamp \<Rightarrow> source_row \<Rightarrow> uuid list \<Rightarrow> source_row body" where
  "replace_projects st s ids db = (if \<not> distinct ids then Inl (http 422 ''Duplicate project ID'')
     else rbind (traverse (\<lambda>i. active_project (Some i) (so_workspace_id s) (so_owner_id s) db) ids) (\<lambda>_.
       let s' = s\<lparr>so_project_id := (case ids of i # _ \<Rightarrow> Some i | [] \<Rightarrow> None)\<rparr>
       in Inr (s', put_source s' (link_projects st s ids db))))"

definition link_people ::
  "stamp \<Rightarrow> source_row \<Rightarrow> (source_person_role \<Rightarrow> bool) \<Rightarrow> (uuid \<times> source_person_role) list \<Rightarrow> app_db \<Rightarrow> app_db" where
  "link_people st s replaced people db = db\<lparr>ab_source_people :=
     filter (\<lambda>r. \<not> (sn_source_id r = so_id s \<and> replaced (sn_role r))) (ab_source_people db)
     @ map (\<lambda>(n, (i, role)). \<lparr>sn_id = st_fresh st n, sn_workspace_id = so_workspace_id s, sn_source_id = so_id s,
         sn_person_id = i, sn_role = role\<rparr>) (enumerate 0 people)\<rparr>"

definition owned_source :: "uuid \<Rightarrow> workspace_row \<Rightarrow> app_db \<Rightarrow> http_error + source_row" where
  "owned_source i w db = (case get_source i db of
     Some s \<Rightarrow> if so_workspace_id s = wk_id w \<and> so_owner_id s = wk_owner_id w then Inr s
       else Inl (http 404 ''Source not found'')
   | None \<Rightarrow> Inl (http 404 ''Source not found''))"

type_synonym associations = "int \<times> uuid list \<times> (uuid \<times> source_person_role) list"

definition get_associations :: "unicode \<Rightarrow> stamp \<Rightarrow> uuid \<Rightarrow> auth_user \<Rightarrow> uuid \<Rightarrow> associations request" where
  "get_associations uc st ws user i = owned_workspace uc st ws user Viewer (\<lambda>w db.
     rbind (owned_source i w db) (\<lambda>s. Inr ((so_association_revision s, project_ids s db, source_people s db), db)))"

definition edit_associations ::
  "stamp \<Rightarrow> uuid \<Rightarrow> int \<Rightarrow> uuid list \<Rightarrow> (uuid \<times> source_person_role) list \<Rightarrow> workspace_row \<Rightarrow> associations body" where
  "edit_associations st i revision projects people w db = rbind (owned_source i w db) (\<lambda>s.
     if so_association_revision s \<noteq> revision then Inl (http 409 ''Stale association revision'')
     else if \<not> distinct people then Inl (http 422 ''Duplicate person association'')
     else rbind (traverse (\<lambda>p. active_person (Some (fst p)) (wk_id w) (wk_owner_id w) db) people) (\<lambda>_.
       rbind (replace_projects st s projects db) (\<lambda>(s1, db1).
       let s2 = s1\<lparr>so_association_revision := so_association_revision s1 + 1,
             so_review_revision := (if so_kind s1 = MeetingKind \<and> so_review_state s1 \<noteq> Some RvConfirmed
               then so_review_revision s1 + 1 else so_review_revision s1)\<rparr>
       in Inr ((so_association_revision s2, projects, people),
            put_source s2 (link_people st s (\<lambda>_. True) people db1)))))"

definition patch_associations ::
  "unicode \<Rightarrow> stamp \<Rightarrow> uuid \<Rightarrow> auth_user \<Rightarrow> uuid \<Rightarrow> int \<Rightarrow> uuid list \<Rightarrow> (uuid \<times> source_person_role) list
    \<Rightarrow> associations request" where
  "patch_associations uc st ws user i revision projects people db = (if revision < 0 then (Inl unprocessable, db)
     else owned_workspace uc st ws user Editor (edit_associations st i revision projects people) db)"

end
