(* ===== verification/Review.thy ===== *)
theory Review
  imports Directory PgQueue SourceProcessing
begin

text \<open>
  Reviewing a meeting transcript (\<^verbatim>\<open>api/workspaces/review.py\<close>): edits under a revision, the confirmation
  that opens the gate to the analysis, and a new transcription after a failed one. Publishing to the
  broker is a parameter that says whether it worked.
\<close>

section \<open>Utterances\<close>

definition nonnegative :: "py_float option \<Rightarrow> bool" where
  "nonnegative v \<longleftrightarrow> (case v of None \<Rightarrow> True | Some x \<Rightarrow> 0 \<le> x)"

definition times_in_order :: "utterance \<Rightarrow> bool" where
  "times_in_order u \<longleftrightarrow> (case (ut_start_seconds u, ut_end_seconds u) of
     (Some a, Some b) \<Rightarrow> a \<le> b | _ \<Rightarrow> True)"

definition stripped_utterance :: "utterance \<Rightarrow> utterance" where
  "stripped_utterance u = u\<lparr>ut_id := strip (ut_id u), ut_speaker_name := strip (ut_speaker_name u),
     ut_text := strip (ut_text u)\<rparr>"

text \<open>\<^verbatim>\<open>ReviewUtterance\<close>; \<open>None\<close> is a validation error.\<close>

definition review_utterance :: "utterance \<Rightarrow> utterance option" where
  "review_utterance u = (if ut_id u \<noteq> [] \<and> length (ut_id u) \<le> 80 \<and> ut_speaker_name u \<noteq> []
       \<and> length (ut_speaker_name u) \<le> 120 \<and> length (ut_text u) \<le> 10000
       \<and> nonnegative (ut_start_seconds u) \<and> nonnegative (ut_end_seconds u)
       \<and> \<not> blank (ut_id u) \<and> \<not> blank (ut_speaker_name u) \<and> times_in_order u
     then Some (stripped_utterance u) else None)"

fun validate_all :: "('a \<Rightarrow> 'b option) \<Rightarrow> 'a list \<Rightarrow> 'b list option" where
  "validate_all f [] = Some []"
| "validate_all f (x # xs) = (case f x of None \<Rightarrow> None | Some y \<Rightarrow> map_option ((#) y) (validate_all f xs))"

definition stored_utterances :: "utterance list \<Rightarrow> http_error + utterance list" where
  "stored_utterances us = (case validate_all review_utterance us of
     None \<Rightarrow> Inl (http 500 ''ValidationError'') | Some checked \<Rightarrow> Inr checked)"

section \<open>Responses\<close>

record review_response =
  rr_source :: source_row
  rr_review_state :: review_state
  rr_project_ids :: "uuid list"
  rr_suggested :: "person_row list"
  rr_utterances :: "utterance list"
  rr_raw_utterances :: "utterance list"

record job_response =
  jo_id :: uuid
  jo_kind :: source_kind
  jo_transcript_source :: "transcript_source option"
  jo_status :: source_status
  jo_analysis_mode :: analysis_mode
  jo_progress :: py_float
  jo_stage :: processing_stage
  jo_error_message :: "pystr option"

definition job_payload :: "source_row \<Rightarrow> job_response" where
  "job_payload s = \<lparr>jo_id = so_id s, jo_kind = so_kind s, jo_transcript_source = so_transcript_source s,
     jo_status = so_status s, jo_analysis_mode = so_analysis_mode s, jo_progress = so_progress s,
     jo_stage = so_processing_stage s, jo_error_message = so_error_message s\<rparr>"

definition review_payload :: "source_row \<Rightarrow> uuid list \<Rightarrow> person_row list \<Rightarrow> http_error + review_response" where
  "review_payload s projects suggested = rbind (stored_utterances (so_review_utterances s)) (\<lambda>us.
     rbind (stored_utterances (so_raw_utterances s)) (\<lambda>raw.
     Inr \<lparr>rr_source = s, rr_review_state = (case so_review_state s of Some r \<Rightarrow> r
           | None \<Rightarrow> if so_status s = Succeeded then RvConfirmed else RvAwaitingReview),
         rr_project_ids = projects, rr_suggested = suggested, rr_utterances = us, rr_raw_utterances = raw\<rparr>))"

text \<open>The active people of the active projects, one per address.\<close>

definition person_key :: "person_row \<Rightarrow> pystr + uuid" where
  "person_key p = (case truthy (pe_email_normalized p) of Some e \<Rightarrow> Inl e | None \<Rightarrow> Inr (pe_id p))"

definition project_people :: "uuid \<Rightarrow> uuid list \<Rightarrow> app_db \<Rightarrow> person_row list" where
  "project_people ws ids db = concat (map (\<lambda>m.
     if pm_project_id m \<in> set ids \<and> (case row_get pj_id (pm_project_id m) (ab_projects db) of
         Some q \<Rightarrow> pj_archived_at q = None | None \<Rightarrow> False)
     then (case row_get pe_id (pm_person_id m) (ab_people db) of
         Some p \<Rightarrow> if pe_workspace_id p = ws \<and> pe_archived_at p = None then [p] else []
       | None \<Rightarrow> [])
     else []) (ab_project_members db))"

fun first_per_key :: "('a \<Rightarrow> 'k) \<Rightarrow> 'k set \<Rightarrow> 'a list \<Rightarrow> 'a list" where
  "first_per_key key seen [] = []"
| "first_per_key key seen (x # xs) = (if key x \<in> seen then first_per_key key seen xs
     else x # first_per_key key (insert (key x) seen) xs)"

definition review_payload_with_directory :: "source_row \<Rightarrow> app_db \<Rightarrow> http_error + review_response" where
  "review_payload_with_directory s db = (let ids = project_ids s db in
     if ids = [] then review_payload s [] []
     else review_payload s ids (first_per_key person_key {} (project_people (so_workspace_id s) ids db)))"

section \<open>Reading and editing\<close>

definition owned_meeting :: "uuid \<Rightarrow> workspace_row \<Rightarrow> app_db \<Rightarrow> http_error + source_row" where
  "owned_meeting i w db = (case get_source i db of
     Some s \<Rightarrow> if so_workspace_id s = wk_id w \<and> so_owner_id s = wk_owner_id w \<and> so_kind s = MeetingKind then Inr s
       else Inl (http 404 ''Meeting not found'')
   | None \<Rightarrow> Inl (http 404 ''Meeting not found''))"

text \<open>What happens after a commit cannot undo it.\<close>

definition after_commit :: "('a \<Rightarrow> app_db \<Rightarrow> http_error + 'b) \<Rightarrow> 'a request \<Rightarrow> 'b request" where
  "after_commit f r db = (case r db of
     (Inl e, db') \<Rightarrow> (Inl e, db')
   | (Inr x, db') \<Rightarrow> (f x db', db'))"

definition get_review :: "unicode \<Rightarrow> stamp \<Rightarrow> uuid \<Rightarrow> auth_user \<Rightarrow> uuid \<Rightarrow> review_response request" where
  "get_review uc st ws user i = owned_workspace uc st ws user Viewer (\<lambda>w db.
     rbind (owned_meeting i w db) (\<lambda>s. rbind (review_payload_with_directory s db) (\<lambda>r. Inr (r, db))))"

definition referenced_people :: "utterance list \<Rightarrow> uuid list" where
  "referenced_people us = fromkeys (List.map_filter ut_person_id us)"

definition validate_refs ::
  "uuid \<Rightarrow> uuid \<Rightarrow> utterance list \<Rightarrow> app_db \<Rightarrow> http_error + (uuid \<times> person_row) list" where
  "validate_refs ws owner us db = traverse (\<lambda>i. case active_person (Some i) ws owner db of
     Inl e \<Rightarrow> Inl e | Inr (Some p) \<Rightarrow> Inr (i, p) | Inr None \<Rightarrow> Inl (http 500 ''AssertionError''))
     (referenced_people us)"

record review_patch =
  rp_revision :: int
  rp_project_id :: "uuid option"
  rp_project_ids :: "uuid list option"
  rp_utterances :: "utterance list"

definition review_patch_of :: "review_patch \<Rightarrow> review_patch option" where
  "review_patch_of b = (if rp_revision b < 0 \<or> length (rp_utterances b) > 1000 then None
     else map_option (\<lambda>us. b\<lparr>rp_utterances := us\<rparr>) (validate_all review_utterance (rp_utterances b)))"

definition patched_projects :: "review_patch \<Rightarrow> http_error + uuid list" where
  "patched_projects b = (case rp_project_ids b of
     None \<Rightarrow> Inr (case rp_project_id b of Some i \<Rightarrow> [i] | None \<Rightarrow> [])
   | Some ids \<Rightarrow> (case rp_project_id b of
       None \<Rightarrow> Inr ids
     | Some i \<Rightarrow> if ids \<noteq> [] \<and> hd ids = i then Inr ids else Inl (http 422 ''projectId must be primary'')))"

definition edited_source :: "review_patch \<Rightarrow> bool \<Rightarrow> source_row \<Rightarrow> source_row" where
  "edited_source b moved s = s\<lparr>
     so_association_revision := (if moved then so_association_revision s + 1 else so_association_revision s),
     so_review_utterances := rp_utterances b, so_review_revision := so_review_revision s + 1\<rparr>"

definition edit_review :: "stamp \<Rightarrow> auth_user \<Rightarrow> uuid \<Rightarrow> review_patch \<Rightarrow> workspace_row \<Rightarrow> source_row body" where
  "edit_review st user i b w db = rbind (owned_meeting i w db) (\<lambda>s.
     if so_review_state s \<noteq> Some RvAwaitingReview then Inl (http 409 ''Meeting is not awaiting review'')
     else if so_review_revision s \<noteq> rp_revision b then Inl (http 409 ''Stale review revision'')
     else if \<not> distinct (map ut_id (rp_utterances b)) then Inl (http 422 ''Duplicate utterance ID'')
     else rbind (patched_projects b) (\<lambda>ids.
       rbind (validate_refs (wk_id w) (so_owner_id s) (rp_utterances b) db) (\<lambda>_.
       rbind (replace_projects st s ids db) (\<lambda>(s1, db1).
       let s2 = edited_source b (project_ids s db \<noteq> ids) s1
       in Inr (s2, put_source s2 (add_audit_event st (user_event (wk_id w) user ''transcript.edited'' ''source'' i
            [(lit ''revision'', JInt (so_review_revision s2)),
             (lit ''generationMethod'', JStr (lit ''direct_edit''))] None) db1))))))"

definition save_review ::
  "unicode \<Rightarrow> stamp \<Rightarrow> uuid \<Rightarrow> auth_user \<Rightarrow> uuid \<Rightarrow> review_patch \<Rightarrow> review_response request" where
  "save_review uc st ws user i raw db = (case review_patch_of raw of
     None \<Rightarrow> (Inl unprocessable, db)
   | Some b \<Rightarrow> after_commit review_payload_with_directory
       (owned_workspace uc st ws user Editor (edit_review st user i b)) db)"

section \<open>Confirming\<close>

definition snapshot_of_person :: "person_row \<Rightarrow> snapshot_person" where
  "snapshot_of_person p = \<lparr>dp_id = pe_id p, dp_name = pe_name p, dp_role = pe_role p, dp_email = pe_email p,
     dp_aliases = pe_aliases p\<rparr>"

definition snapshot_of_project :: "project_row \<times> person_row option \<Rightarrow> snapshot_project" where
  "snapshot_of_project = (\<lambda>(p, owner). \<lparr>dj_id = pj_id p, dj_name = pj_name p, dj_goal = pj_goal p,
     dj_description = pj_description p, dj_owner_person_id = pj_owner_person_id p,
     dj_owner_name = map_option pe_name owner, dj_owner_role = Option.bind owner pe_role,
     dj_starts_on = pj_starts_on p, dj_ends_on = pj_ends_on p\<rparr>)"

definition snapshot ::
  "(project_row \<times> person_row option) list \<Rightarrow> person_row list \<Rightarrow> person_row list \<Rightarrow> directory_snapshot" where
  "snapshot projects people roster = (let rows = map snapshot_of_project projects in
     \<lparr>dy_project = (case rows of p # _ \<Rightarrow> Some p | [] \<Rightarrow> None), dy_projects = rows,
       dy_people = map snapshot_of_person people, dy_roster = map snapshot_of_person roster\<rparr>)"

definition project_with_owner ::
  "uuid \<Rightarrow> uuid \<Rightarrow> app_db \<Rightarrow> uuid \<Rightarrow> http_error + project_row \<times> person_row option" where
  "project_with_owner ws owner db i = rbind (active_project (Some i) ws owner db) (\<lambda>found. case found of
     None \<Rightarrow> Inl (http 500 ''AssertionError'')
   | Some p \<Rightarrow> (case pj_owner_person_id p of
       None \<Rightarrow> Inr (p, None)
     | Some j \<Rightarrow> (case row_get pe_id j (ab_people db) of
         Some q \<Rightarrow> if pe_workspace_id q = ws \<and> pe_owner_id q = owner then Inr (p, Some q)
           else Inl (http 422 ''Invalid project owner'')
       | None \<Rightarrow> Inl (http 422 ''Invalid project owner''))))"

definition project_roster :: "uuid \<Rightarrow> uuid \<Rightarrow> uuid list \<Rightarrow> app_db \<Rightarrow> person_row list" where
  "project_roster ws owner projects db = List.map_filter (\<lambda>i. case row_get pe_id i (ab_people db) of
       Some p \<Rightarrow> if pe_workspace_id p = ws \<and> pe_owner_id p = owner \<and> pe_archived_at p = None then Some p else None
     | None \<Rightarrow> None)
     (fromkeys (map pm_person_id (filter (\<lambda>m. pm_project_id m \<in> set projects) (ab_project_members db))))"

definition named_utterance :: "(uuid \<times> person_row) list \<Rightarrow> utterance \<Rightarrow> utterance" where
  "named_utterance people u = (case Option.bind (ut_person_id u) (map_of people) of
     Some p \<Rightarrow> u\<lparr>ut_speaker_name := pe_name p\<rparr> | None \<Rightarrow> u)"

definition transcript_of :: "utterance list \<Rightarrow> pystr" where
  "transcript_of us = join [10, 10] (map (\<lambda>u. ut_speaker_name u @ lit '': '' @ ut_text u) us)"

definition confirmed_source ::
  "stamp \<Rightarrow> (uuid \<times> person_row) list \<Rightarrow> directory_snapshot \<Rightarrow> utterance list \<Rightarrow> source_row \<Rightarrow> source_row" where
  "confirmed_source st people snap spoken s = (let us = map (named_utterance people) spoken in
     s\<lparr>so_review_utterances := us, so_transcript_text := Some (transcript_of us), so_confirmed_snapshot := Some snap,
       so_confirmed_at := Some (st_now st), so_association_revision := so_association_revision s + 1,
       so_review_state := Some RvConfirmed\<rparr>)"

definition confirm_transcript_review :: "stamp \<Rightarrow> workspace_row \<Rightarrow> source_row \<Rightarrow> source_row body" where
  "confirm_transcript_review st w s db = rbind (stored_utterances (so_review_utterances s)) (\<lambda>us.
     if \<not> distinct (map ut_id us) then Inl (http 422 ''Duplicate utterance ID'')
     else let spoken = filter (\<lambda>u. ut_text u \<noteq> []) us in
     if spoken = [] then Inl (http 422 ''Transcript text is required'')
     else rbind (validate_refs (wk_id w) (so_owner_id s) spoken db) (\<lambda>people.
       rbind (traverse (project_with_owner (wk_id w) (so_owner_id s) db) (project_ids s db)) (\<lambda>projects.
       let roster = project_roster (wk_id w) (so_owner_id s) (map (pj_id \<circ> fst) projects) db;
           s' = confirmed_source st people (snapshot projects (map snd people) roster) spoken s
       in Inr (s', put_source s' (link_people st s (\<lambda>r. r = Participant)
            (map (\<lambda>(i, p). (pe_id p, Participant)) people) db)))))"

text \<open>The way a source goes back to processing: a job in the same transaction, or a message whose
  failure is stored and answered with 503.\<close>

record queueing =
  qe_postgres :: bool
  qe_publish :: "uuid \<Rightarrow> bool"

definition enqueue_transition ::
  "stamp \<Rightarrow> queueing \<Rightarrow> source_row \<Rightarrow> app_db \<Rightarrow> (http_error + job_response) \<times> app_db" where
  "enqueue_transition st q s db =
     (if qe_postgres q then (let s' = s\<lparr>so_status := Queued\<rparr> in (Inr (job_payload s'), (put_source s' db)\<lparr>ab_jobs :=
         enqueue_source (st_now st) (so_id s) (so_processing_stage s) True (ab_jobs db)\<rparr>))
      else if qe_publish q (so_id s) then (let s' = s\<lparr>so_status := Queued\<rparr> in (Inr (job_payload s'), put_source s' db))
      else (Inl (http 503 ''Processing queue unavailable''),
        put_source (s\<lparr>so_status := Failed, so_error_message := Some (lit ''Processing queue unavailable'')\<rparr>) db))"

definition mode_value :: "analysis_mode \<Rightarrow> pystr" where
  "mode_value m = (case m of ServerMode \<Rightarrow> lit ''server'' | AgentMode \<Rightarrow> lit ''agent'')"

definition release_confirmed ::
  "stamp \<Rightarrow> queueing \<Rightarrow> auth_user \<Rightarrow> workspace_row \<Rightarrow> source_row \<Rightarrow> app_db \<Rightarrow> (http_error + job_response) \<times> app_db" where
  "release_confirmed st q user w s db =
     (if so_analysis_mode s = AgentMode then (let s' = s\<lparr>so_status := AwaitingAgent,
          so_processing_stage := StAwaitingAgent, so_error_message := None\<rparr> in (Inr (job_payload s'), put_source s' db))
      else (let s' = s\<lparr>so_status := EnqueuePending, so_processing_stage := Confirmed, so_error_message := None\<rparr> in
        enqueue_transition st q s' (put_source s' (add_audit_event st (user_event (wk_id w) user ''source.confirmed''
          ''source'' (so_id s) [(lit ''analysisMode'', JStr (mode_value (so_analysis_mode s)))] None) db))))"

definition confirm_body ::
  "stamp \<Rightarrow> queueing \<Rightarrow> auth_user \<Rightarrow> uuid \<Rightarrow> int \<Rightarrow> workspace_row \<Rightarrow> (http_error + job_response) body" where
  "confirm_body st q user i revision w db = rbind (owned_meeting i w db) (\<lambda>s.
     if so_review_revision s \<noteq> revision then Inl (http 409 ''Stale review revision'')
     else if so_review_state s = Some RvConfirmed then
       (if so_status s \<notin> {Failed, EnqueuePending} then Inr (Inr (job_payload s), db)
        else Inr (release_confirmed st q user w s db))
     else if so_review_state s = Some RvAwaitingReview then
       rbind (confirm_transcript_review st w s db) (\<lambda>(s', db'). Inr (release_confirmed st q user w s' db'))
     else Inl (http 409 ''Meeting is not awaiting review''))"

definition confirm_review ::
  "unicode \<Rightarrow> stamp \<Rightarrow> queueing \<Rightarrow> uuid \<Rightarrow> auth_user \<Rightarrow> uuid \<Rightarrow> int \<Rightarrow> job_response request" where
  "confirm_review uc st q ws user i revision db = (if revision < 0 then (Inl unprocessable, db)
     else after_commit (\<lambda>r _. r) (owned_workspace uc st ws user Editor (confirm_body st q user i revision)) db)"

section \<open>Transcribing again\<close>

definition retry_body ::
  "stamp \<Rightarrow> queueing \<Rightarrow> uuid \<Rightarrow> workspace_row \<Rightarrow> (http_error + job_response) body" where
  "retry_body st q i w db = rbind (owned_meeting i w db) (\<lambda>s.
     if so_transcript_source s \<noteq> Some FromServer \<or> so_review_state s \<noteq> Some RvTranscribing
     then Inl (http 409 ''Meeting cannot be retranscribed'')
     else if so_status s \<in> {Queued, EnqueuePending, Processing} then Inr (Inr (job_payload s), db)
     else if so_status s \<noteq> Failed then Inl (http 409 ''Transcription has not failed'')
     else let s' = s\<lparr>so_status := EnqueuePending, so_processing_stage := Transcribing, so_error_message := None\<rparr>
       in Inr (enqueue_transition st q s' (put_source s' db)))"

definition retry_transcription ::
  "unicode \<Rightarrow> stamp \<Rightarrow> queueing \<Rightarrow> uuid \<Rightarrow> auth_user \<Rightarrow> uuid \<Rightarrow> job_response request" where
  "retry_transcription uc st q ws user i =
     after_commit (\<lambda>r _. r) (owned_workspace uc st ws user Editor (retry_body st q i))"

end
