(* ===== verification/AgentValidation.thy ===== *)
theory AgentValidation
  imports Analysis Database
begin

text \<open>
  Checking an extraction that an external agent supplies (\<^verbatim>\<open>agent_workflows/validation.py\<close>, with the
  errors of \<^verbatim>\<open>errors.py\<close>): structured contexts become events, every quotation must occur in the text,
  relation ends and supersessions must name something unique. Parsing the JSON is a parameter: a
  submission is the size of its text and the value it parses to.
\<close>

section \<open>Errors\<close>

record workflow_error =
  we_code :: string
  we_status :: int

definition workflow :: "string \<Rightarrow> int \<Rightarrow> workflow_error" where
  "workflow code status = \<lparr>we_code = code, we_status = status\<rparr>"

section \<open>Structured contexts\<close>

fun context_event_kind :: "context_kind \<Rightarrow> entity_kind option" where
  "context_event_kind CtxDecision = Some Decision"
| "context_event_kind CtxIssue = Some Issue"
| "context_event_kind CtxTask = Some Task"
| "context_event_kind CtxEvent = Some Event"
| "context_event_kind _ = None"

definition event_key :: "unicode \<Rightarrow> extracted_event \<Rightarrow> entity_kind \<times> pystr" where
  "event_key uc e = (ev_kind e, normalize_name uc (ev_name e) (entity_kind_value (ev_kind e)))"

definition event_of_context :: "entity_kind \<Rightarrow> extracted_context \<Rightarrow> extracted_event" where
  "event_of_context kind c = \<lparr>ev_name = cx_title c, ev_kind = kind, ev_description = cx_body c,
     ev_occurred_at = cx_occurred_at c, ev_due_at = None, ev_supersedes = None, ev_source_refs = cx_source_refs c\<rparr>"

fun promoted_events :: "unicode \<Rightarrow> (entity_kind \<times> pystr) set \<Rightarrow> extracted_context list \<Rightarrow> extracted_event list" where
  "promoted_events uc existing [] = []"
| "promoted_events uc existing (c # cs) = (case context_event_kind (cx_kind c) of
     None \<Rightarrow> promoted_events uc existing cs
   | Some kind \<Rightarrow> (let key = (kind, normalize_name uc (cx_title c) (entity_kind_value kind)) in
       if snd key = [] \<or> key \<in> existing then promoted_events uc existing cs
       else event_of_context kind c # promoted_events uc (insert key existing) cs))"

definition promote_structured_contexts :: "unicode \<Rightarrow> extraction_result \<Rightarrow> extraction_result" where
  "promote_structured_contexts uc r = r\<lparr>xr_events := xr_events r
     @ promoted_events uc (event_key uc ` set (xr_events r)) (xr_contexts r)\<rparr>"

section \<open>Fingerprints\<close>

record hashing =
  hs_sha256 :: "pystr \<Rightarrow> pystr"
  hs_dumps_sorted :: "json \<Rightarrow> pystr"
  hs_result_text :: "extraction_result \<Rightarrow> pystr"

definition agent_source_fingerprint :: "hashing \<Rightarrow> source_row \<Rightarrow> pystr \<Rightarrow> json \<Rightarrow> pystr" where
  "agent_source_fingerprint h s txt directory = hs_sha256 h (hs_dumps_sorted h (JArr [JStr (so_title s), JStr txt,
     JInt (so_review_revision s), JInt (so_association_revision s), directory]))"

definition context_fingerprint :: "hashing \<Rightarrow> source_row \<Rightarrow> pystr \<Rightarrow> pystr list \<Rightarrow> json \<Rightarrow> pystr" where
  "context_fingerprint h s txt decided directory = hs_sha256 h (hs_dumps_sorted h
     (JArr [JStr (agent_source_fingerprint h s txt directory), jstrs (sort decided)]))"

definition result_fingerprint :: "hashing \<Rightarrow> extraction_result \<Rightarrow> pystr" where
  "result_fingerprint h r = hs_sha256 h (hs_result_text h r)"

section \<open>Validation\<close>

record submission =
  sb_bytes :: nat
  sb_result :: "extraction_result option"

definition max_extraction_bytes :: nat where
  "max_extraction_bytes = 256000"

definition max_items_per_group :: nat where
  "max_items_per_group = 100"

definition max_quote_chars :: nat where
  "max_quote_chars = 1200"

definition max_field_chars :: nat where
  "max_field_chars = 10000"

definition quote_ok :: "unicode \<Rightarrow> pystr \<Rightarrow> pystr \<Rightarrow> bool" where
  "quote_ok uc txt ref \<longleftrightarrow> \<not> blank ref \<and> length ref \<le> max_quote_chars
     \<and> contains (uc_casefold uc (squash ref)) (uc_casefold uc (squash txt))"

text \<open>An item as the checks see it: its references and its text fields.\<close>

definition opt_text :: "pystr option \<Rightarrow> pystr list" where
  "opt_text v = (case v of None \<Rightarrow> [] | Some s \<Rightarrow> [s])"

definition item_views :: "extraction_result \<Rightarrow> (pystr list \<times> pystr list) list" where
  "item_views r =
     map (\<lambda>e. (en_source_refs e, [en_name e, entity_kind_value (en_kind e)])) (xr_entities r)
     @ map (\<lambda>e. (ev_source_refs e, [ev_name e, entity_kind_value (ev_kind e), ev_description e]
         @ opt_text (ev_occurred_at e) @ opt_text (ev_due_at e) @ opt_text (ev_supersedes e))) (xr_events r)
     @ map (\<lambda>e. (re_source_refs e, [re_source e, re_target e, relation_kind_value (re_kind e)]
         @ opt_text (re_valid_from e) @ opt_text (re_valid_to e))) (xr_relations r)
     @ map (\<lambda>c. (cx_source_refs c, [context_kind_value (cx_kind c), cx_title c, cx_body c]
         @ opt_text (cx_occurred_at c))) (xr_contexts r)"

fun check_items :: "unicode \<Rightarrow> pystr \<Rightarrow> (pystr list \<times> pystr list) list \<Rightarrow> workflow_error + unit" where
  "check_items uc txt [] = Inr ()"
| "check_items uc txt ((refs, texts) # items) =
     (if refs = [] \<or> (\<exists>ref \<in> set refs. \<not> quote_ok uc txt ref) then Inl (workflow ''ungrounded_analysis'' 422)
      else if \<exists>t \<in> set texts. length t > max_field_chars then Inl (workflow ''analysis_too_large'' 422)
      else check_items uc txt items)"

definition identifier_ok :: "unicode \<Rightarrow> pystr \<Rightarrow> pystr \<Rightarrow> bool" where
  "identifier_ok uc txt v \<longleftrightarrow> \<not> prefix (lit ''directory:'') (uc_casefold uc v)
     \<and> contains (uc_casefold uc (squash v)) (uc_casefold uc (squash txt))"

text \<open>The kinds and names under which an entity or event can be a relation's end.\<close>

definition end_names :: "extraction_result \<Rightarrow> (entity_kind \<times> pystr list) list" where
  "end_names r = map (\<lambda>e. (en_kind e, en_name e # en_aliases e)) (xr_entities r)
     @ map (\<lambda>e. (ev_kind e, [ev_name e])) (xr_events r)"

definition named_by :: "unicode \<Rightarrow> pystr \<Rightarrow> entity_kind \<times> pystr list \<Rightarrow> bool" where
  "named_by uc name item \<longleftrightarrow> (\<exists>n \<in> set (snd item). normalize_name uc n (entity_kind_value (fst item))
     = normalize_name uc name (entity_kind_value (fst item)))"

definition end_ok :: "unicode \<Rightarrow> extraction_result \<Rightarrow> pystr \<Rightarrow> bool" where
  "end_ok uc r name \<longleftrightarrow> length (filter (named_by uc name) (end_names r)) = 1"

definition known_decision_names :: "unicode \<Rightarrow> extraction_result \<Rightarrow> pystr list \<Rightarrow> pystr set" where
  "known_decision_names uc r decided = (\<lambda>n. normalize_name uc n (entity_kind_value Decision)) `
     set (decided @ map ev_name (filter (\<lambda>e. ev_kind e = Decision) (xr_events r)))"

definition supersession_ok :: "unicode \<Rightarrow> extraction_result \<Rightarrow> pystr list \<Rightarrow> extracted_event \<Rightarrow> bool" where
  "supersession_ok uc r decided e \<longleftrightarrow> (case truthy (ev_supersedes e) of None \<Rightarrow> True
     | Some name \<Rightarrow> normalize_name uc name (entity_kind_value Decision) \<in> known_decision_names uc r decided)"

definition check_result ::
  "unicode \<Rightarrow> source_row \<Rightarrow> pystr \<Rightarrow> pystr list \<Rightarrow> extraction_result \<Rightarrow> workflow_error + unit" where
  "check_result uc s txt decided r =
     (if so_kind s = MeetingKind \<and> cl_source_type (xr_classification r) \<noteq> StMeeting
      then Inl (workflow ''invalid_analysis'' 422)
      else if length (xr_entities r) > max_items_per_group \<or> length (xr_events r) > max_items_per_group
        \<or> length (xr_relations r) > max_items_per_group \<or> length (xr_contexts r) > max_items_per_group
      then Inl (workflow ''analysis_too_large'' 422)
      else rbind (check_items uc txt (item_views r)) (\<lambda>_.
        if \<exists>e \<in> set (xr_entities r). \<exists>v \<in> set (en_identifiers e). \<not> identifier_ok uc txt v
        then Inl (workflow ''ungrounded_analysis'' 422)
        else if \<exists>q \<in> set (xr_relations r). \<not> end_ok uc r (re_source q) \<or> \<not> end_ok uc r (re_target q)
        then Inl (workflow ''invalid_relation'' 422)
        else if \<exists>e \<in> set (xr_events r). \<not> supersession_ok uc r decided e
        then Inl (workflow ''invalid_supersession'' 422)
        else Inr ()))"

definition without_diagnostics :: "extraction_result \<Rightarrow> extraction_result" where
  "without_diagnostics r = r\<lparr>xr_warnings := [], xr_usage := []\<rparr>"

definition validate_extraction ::
  "unicode \<Rightarrow> submission \<Rightarrow> source_row \<Rightarrow> pystr \<Rightarrow> pystr list \<Rightarrow> workflow_error + extraction_result" where
  "validate_extraction uc sub s txt decided =
     (if sb_bytes sub > max_extraction_bytes then Inl (workflow ''analysis_too_large'' 422)
      else (case sb_result sub of
        None \<Rightarrow> Inl (workflow ''invalid_analysis'' 422)
      | Some supplied \<Rightarrow> (let r = promote_structured_contexts uc supplied in
          rbind (check_result uc s txt decided r) (\<lambda>_. Inr (without_diagnostics r)))))"

section \<open>What a validated result is\<close>

lemma check_items_Inr: "check_items uc txt items = Inr () \<longleftrightarrow> (\<forall>(refs, texts) \<in> set items. refs \<noteq> []
    \<and> (\<forall>ref \<in> set refs. quote_ok uc txt ref) \<and> (\<forall>t \<in> set texts. length t \<le> max_field_chars))"
proof (induction items)
  case (Cons item items)
  obtain refs texts where item: "item = (refs, texts)"
    by fastforce
  show ?case
    unfolding item using Cons by (auto simp: linorder_not_less [symmetric] simp del: linorder_not_less not_less)
qed simp

lemma promoted_events_facts:
  "distinct (map (event_key uc) (promoted_events uc existing cs))
   \<and> event_key uc ` set (promoted_events uc existing cs) \<inter> existing = {}
   \<and> (\<forall>e \<in> set (promoted_events uc existing cs). \<exists>c \<in> set cs. \<exists>kind. context_event_kind (cx_kind c) = Some kind
        \<and> e = event_of_context kind c)"
proof (induction uc existing cs rule: promoted_events.induct)
  case (2 uc existing c cs)
  show ?case
  proof (cases "context_event_kind (cx_kind c)")
    case None
    then show ?thesis
      using 2(1) by auto
  next
    case (Some kind)
    let ?key = "(kind, normalize_name uc (cx_title c) (entity_kind_value kind))"
    have key: "event_key uc (event_of_context kind c) = ?key"
      by (simp add: event_key_def event_of_context_def)
    show ?thesis
    proof (cases "snd ?key = [] \<or> ?key \<in> existing")
      case True
      then show ?thesis
        using 2(2) [OF Some refl] Some by (auto simp: Let_def)
    next
      case False
      then have eq: "promoted_events uc existing (c # cs)
          = event_of_context kind c # promoted_events uc (insert ?key existing) cs"
        using Some by (auto simp: Let_def)
      have tail: "distinct (map (event_key uc) (promoted_events uc (insert ?key existing) cs))"
        "event_key uc ` set (promoted_events uc (insert ?key existing) cs) \<inter> insert ?key existing = {}"
        "\<forall>e \<in> set (promoted_events uc (insert ?key existing) cs). \<exists>c \<in> set cs. \<exists>kind.
           context_event_kind (cx_kind c) = Some kind \<and> e = event_of_context kind c"
        using 2(3) [OF Some refl False] by blast+
      show ?thesis
        unfolding eq using tail False Some by (auto simp: key)
    qed
  qed
qed simp

lemma promoted_events_none:
  "promoted_events uc existing cs = [] \<longleftrightarrow> (\<forall>c \<in> set cs. \<forall>kind. context_event_kind (cx_kind c) = Some kind
      \<longrightarrow> normalize_name uc (cx_title c) (entity_kind_value kind) = []
        \<or> (kind, normalize_name uc (cx_title c) (entity_kind_value kind)) \<in> existing)"
  by (induction uc existing cs rule: promoted_events.induct) (auto simp: Let_def split: option.splits)

lemma promote_id: "promote_structured_contexts uc r = r \<longleftrightarrow>
    promoted_events uc (event_key uc ` set (xr_events r)) (xr_contexts r) = []"
proof
  assume "promote_structured_contexts uc r = r"
  from arg_cong [OF this, of xr_events]
  show "promoted_events uc (event_key uc ` set (xr_events r)) (xr_contexts r) = []"
    by (simp add: promote_structured_contexts_def)
qed (simp add: promote_structured_contexts_def)

lemma validate_Inr:
  assumes "validate_extraction uc sub s txt decided = Inr v"
  obtains r where "sb_result sub = Some r" "v = without_diagnostics (promote_structured_contexts uc r)"
    "check_result uc s txt decided (promote_structured_contexts uc r) = Inr ()" "sb_bytes sub \<le> max_extraction_bytes"
  using assms by (auto simp: validate_extraction_def Let_def not_less rbind_Inr_iff split: if_splits option.splits)

end
