(* ===== verification/AgentRepository.thy ===== *)
theory AgentRepository
  imports Review AgentValidation
begin

text \<open>
  What an external agent may read and how its workspace is scoped
  (\<^verbatim>\<open>agent_workflows/repositories.py\<close>, \<^verbatim>\<open>locks.py\<close>), and the recovery of a failed recording by a
  browser transcript (\<^verbatim>\<open>ingestion/application/transcript_recovery.py\<close>), which goes through it.
\<close>

section \<open>Scope\<close>

type_synonym 'a wbody = "app_db \<Rightarrow> workflow_error + 'a \<times> app_db"

fun agent_role_level :: "member_role \<Rightarrow> int" where
  "agent_role_level Viewer = 0"
| "agent_role_level Editor = 1"
| "agent_role_level Admin = 2"
| "agent_role_level Owner = 3"

definition agent_role :: "uuid \<Rightarrow> workspace_row \<Rightarrow> app_db \<Rightarrow> member_role option" where
  "agent_role actor w db = (if wk_owner_id w = actor then Some Owner
     else map_option mb_role (find (\<lambda>m. mb_workspace_id m = wk_id w \<and> mb_user_id m = Some actor) (ab_members db)))"

definition repo_workspace :: "uuid \<Rightarrow> uuid \<Rightarrow> member_role \<Rightarrow> app_db \<Rightarrow> workflow_error + workspace_row" where
  "repo_workspace actor ws minimum db = (case row_get wk_id ws (ab_workspaces db) of
     None \<Rightarrow> Inl (workflow ''workspace_not_found'' 404)
   | Some w \<Rightarrow> (case agent_role actor w db of
       None \<Rightarrow> Inl (workflow ''workspace_not_found'' 404)
     | Some r \<Rightarrow> if agent_role_level r < agent_role_level minimum then Inl (workflow ''workspace_not_found'' 404)
         else Inr w))"

definition repo_source :: "uuid \<Rightarrow> uuid \<Rightarrow> uuid \<Rightarrow> member_role \<Rightarrow> app_db \<Rightarrow> workflow_error + source_row" where
  "repo_source actor ws i minimum db = rbind (repo_workspace actor ws minimum db) (\<lambda>w.
     (case get_source i db of
        Some s \<Rightarrow> if so_owner_id s = wk_owner_id w \<and> so_workspace_id s = ws then Inr s
          else Inl (workflow ''source_not_found'' 404)
      | None \<Rightarrow> Inl (workflow ''source_not_found'' 404)))"

section \<open>What a source shows\<close>

record source_info =
  si_id :: uuid
  si_workspace_id :: uuid
  si_title :: pystr
  si_kind :: source_kind
  si_status :: source_status
  si_stage :: processing_stage
  si_analysis_mode :: analysis_mode
  si_review_state :: "review_state option"
  si_revision :: int
  si_has_media :: bool
  si_content_type :: pystr
  si_size_bytes :: int

definition stored_path :: "source_row \<Rightarrow> pystr" where
  "stored_path s = uuid_str (so_owner_id s) @ [47] @ uuid_str (so_workspace_id s) @ [47] @ uuid_str (so_id s) @ [47]"

definition source_info_of :: "source_row \<Rightarrow> source_info" where
  "source_info_of s = \<lparr>si_id = so_id s, si_workspace_id = so_workspace_id s, si_title = so_title s,
     si_kind = so_kind s, si_status = so_status s, si_stage = so_processing_stage s,
     si_analysis_mode = so_analysis_mode s, si_review_state = so_review_state s,
     si_revision = so_review_revision s,
     si_has_media = (so_size_bytes s > 0 \<and> prefix (stored_path s) (so_object_path s)),
     si_content_type = so_content_type s, si_size_bytes = so_size_bytes s\<rparr>"

record source_content =
  sc_source :: source_info
  sc_text :: "pystr option"
  sc_utterances :: "utterance list"
  sc_chunks :: "(uuid \<times> pystr \<times> py_float option \<times> py_float option) list"
  sc_storage_path :: "pystr option"

definition agent_utterances :: "utterance list \<Rightarrow> workflow_error + utterance list" where
  "agent_utterances us = (case validate_all review_utterance us of
     None \<Rightarrow> Inl (workflow ''ValidationError'' 500) | Some checked \<Rightarrow> Inr checked)"

definition source_content_of :: "source_row \<Rightarrow> app_db \<Rightarrow> workflow_error + source_content" where
  "source_content_of s db = rbind (agent_utterances (so_review_utterances s)) (\<lambda>us.
     let edited = transcript_of (filter (\<lambda>u. ut_text u \<noteq> []) us) in
     Inr \<lparr>sc_source = source_info_of s,
       sc_text = (if so_kind s = MeetingKind then
           (if edited \<noteq> [] then Some edited
            else case truthy (so_transcript_text s) of Some t \<Rightarrow> Some t | None \<Rightarrow> so_raw_transcript_text s)
         else so_content_text s),
       sc_utterances = us,
       sc_chunks = map (\<lambda>k. (ck_id k, ck_content k, ck_start_seconds k, ck_end_seconds k))
         (sort_key ck_position (filter (\<lambda>k. ck_source_id k = so_id s \<and> ck_workspace_id k = so_workspace_id s
           \<and> ck_owner_id k = so_owner_id s) (ab_chunks db))),
       sc_storage_path = (if si_has_media (source_info_of s) then Some (so_object_path s) else None)\<rparr>)"

section \<open>The directory of a source\<close>

definition mentioned_people :: "source_row \<Rightarrow> uuid \<Rightarrow> app_db \<Rightarrow> uuid list" where
  "mentioned_people s ws db = fromkeys (List.map_filter ut_person_id (so_review_utterances s)
     @ map sn_person_id (filter (\<lambda>r. sn_source_id r = so_id s \<and> sn_workspace_id r = ws) (ab_source_people db)))"

definition linked_projects :: "source_row \<Rightarrow> uuid \<Rightarrow> app_db \<Rightarrow> uuid list" where
  "linked_projects s ws db = (let ids = map sp_project_id (sort_key (\<lambda>r. (sp_position r, sp_project_id r))
       (filter (\<lambda>r. sp_source_id r = so_id s \<and> sp_workspace_id r = ws) (ab_source_projects db)))
     in case so_project_id s of Some i \<Rightarrow> if i \<in> set ids then ids else i # ids | None \<Rightarrow> ids)"

definition active_people :: "uuid \<Rightarrow> uuid \<Rightarrow> uuid list \<Rightarrow> app_db \<Rightarrow> person_row list" where
  "active_people ws owner ids db = filter (\<lambda>p. pe_id p \<in> set ids \<and> pe_workspace_id p = ws
     \<and> pe_owner_id p = owner \<and> pe_archived_at p = None) (ab_people db)"

definition active_projects :: "uuid \<Rightarrow> uuid \<Rightarrow> uuid list \<Rightarrow> app_db \<Rightarrow> project_row list" where
  "active_projects ws owner ids db = filter (\<lambda>p. pj_id p \<in> set ids \<and> pj_workspace_id p = ws
     \<and> pj_owner_id p = owner \<and> pj_archived_at p = None) (ab_projects db)"

definition agent_directory_snapshot :: "uuid \<Rightarrow> source_row \<Rightarrow> app_db \<Rightarrow> workflow_error + directory_snapshot" where
  "agent_directory_snapshot ws s db =
     (let owner = so_owner_id s; person_ids = mentioned_people s ws db; ids = linked_projects s ws db;
        people = active_people ws owner person_ids db; projects = active_projects ws owner ids db;
        owner_ids = fromkeys (List.map_filter pj_owner_person_id projects);
        owners = active_people ws owner owner_ids db;
        members = filter (\<lambda>m. pm_project_id m \<in> set ids) (ab_project_members db)
      in if length people \<noteq> length person_ids then Inl (workflow ''invalid_participant'' 422)
         else if length projects \<noteq> length ids then Inl (workflow ''invalid_project'' 422)
         else if length owners \<noteq> length owner_ids then Inl (workflow ''invalid_project'' 422)
         else Inr (snapshot
           (map (\<lambda>p. (p, Option.bind (pj_owner_person_id p) (\<lambda>j. find (\<lambda>q. pe_id q = j) owners)))
             (List.map_filter (\<lambda>i. find (\<lambda>p. pj_id p = i) projects) ids))
           (sort_key pe_id people)
           (sort_key pe_id (active_people ws owner (map pm_person_id members) db))))"

definition replace_agent_participants :: "stamp \<Rightarrow> source_row \<Rightarrow> app_db \<Rightarrow> app_db" where
  "replace_agent_participants st s db = link_people st s (\<lambda>r. r = Participant)
     (map (\<lambda>i. (i, Participant)) (referenced_people (so_review_utterances s))) db"

section \<open>Locks\<close>

text \<open>The first eight bytes, without the sign.\<close>

definition lock_key :: "uuid \<Rightarrow> int" where
  "lock_key i = take_bit 63 (drop_bit 64 (uint i))"

definition analysis_locks :: "uuid \<Rightarrow> uuid \<Rightarrow> int list" where
  "analysis_locks source_id workspace_id = [lock_key source_id, lock_key workspace_id - 2 ^ 63]"

section \<open>A browser transcript for a failed recording\<close>

definition recovery_possible :: "source_row \<Rightarrow> bool" where
  "recovery_possible s \<longleftrightarrow> so_kind s = MeetingKind \<and> so_status s = Failed
     \<and> so_review_state s = Some RvTranscribing \<and> so_analysis_mode s = ServerMode"

definition spoken_text :: "utterance list \<Rightarrow> pystr" where
  "spoken_text us = transcript_of (filter (\<lambda>u. ut_text u \<noteq> []) us)"

definition recovered_source :: "utterance list \<Rightarrow> source_row \<Rightarrow> source_row" where
  "recovered_source us s = (let keep = truthy (so_raw_transcript_text s) \<noteq> None in
     s\<lparr>so_review_utterances := us,
       so_raw_transcript_text := (if keep then so_raw_transcript_text s else Some (spoken_text us)),
       so_raw_utterances := (if keep then so_raw_utterances s else us),
       so_transcript_source := Some FromBrowser, so_review_revision := so_review_revision s + 1,
       so_review_state := Some RvAwaitingReview, so_status := AwaitingReview,
       so_processing_stage := StAwaitingReview, so_progress := 45 / 100, so_error_message := None\<rparr>)"

definition active_participant :: "uuid \<Rightarrow> uuid \<Rightarrow> app_db \<Rightarrow> uuid \<Rightarrow> bool" where
  "active_participant owner ws db i \<longleftrightarrow> (case row_get pe_id i (ab_people db) of None \<Rightarrow> False
     | Some p \<Rightarrow> pe_owner_id p = owner \<and> pe_workspace_id p = ws \<and> pe_archived_at p = None)"

definition recover_browser_transcript ::
  "uuid \<Rightarrow> uuid \<Rightarrow> uuid \<Rightarrow> int \<Rightarrow> utterance list \<Rightarrow> source_row wbody" where
  "recover_browser_transcript owner ws i revision us db = rbind (repo_source owner ws i Viewer db) (\<lambda>s.
     if \<not> recovery_possible s then Inl (workflow ''recovery_unavailable'' 409)
     else if so_review_revision s \<noteq> revision then Inl (workflow ''stale_revision'' 409)
     else if so_size_bytes s \<le> 0 \<or> \<not> prefix (uuid_str owner @ [47] @ uuid_str ws @ [47] @ uuid_str i @ [47]) (so_object_path s)
     then Inl (workflow ''recording_missing'' 409)
     else if (case get_job i (ab_jobs db) of Some j \<Rightarrow> jb_status j \<in> {JobPending, JobRunning} | None \<Rightarrow> False)
     then Inl (workflow ''processing_active'' 409)
     else if us = [] \<or> length us > 1000 \<or> \<not> (\<exists>u \<in> set us. ut_text u \<noteq> []) then Inl (workflow ''invalid_transcript'' 422)
     else if \<not> distinct (map ut_id us) then Inl (workflow ''invalid_transcript'' 422)
     else if \<exists>j \<in> set (referenced_people us). \<not> active_participant owner ws db j
     then Inl (workflow ''invalid_person'' 422)
     else let s' = recovered_source us s in Inr (s', put_source s' db))"

end
