(* ===== verification/AgentWorkflows.thy ===== *)
theory AgentWorkflows
  imports AgentRepository
begin

text \<open>
  The operations an external agent works with (\<^verbatim>\<open>agent_workflows/service.py\<close>): workspaces and sources,
  the review of a transcript, the context an analysis is made from, and the submission of an
  analysis under the locks of its source and workspace. A request returns its answer with the
  tables it committed; a submission commits on its way, so it is a run over a session.
\<close>

section \<open>Workspaces\<close>

record workspace_info =
  wi_id :: uuid
  wi_name :: pystr
  wi_created_at :: instant

definition workspace_info_of :: "workspace_row \<Rightarrow> workspace_info" where
  "workspace_info_of w = \<lparr>wi_id = wk_id w, wi_name = wk_name w, wi_created_at = wk_created_at w\<rparr>"

definition list_workspaces :: "uuid \<Rightarrow> app_db \<Rightarrow> workspace_info list" where
  "list_workspaces actor db = map workspace_info_of (sort_key (\<lambda>w. (- wk_created_at w, wk_id w))
     (filter (\<lambda>w. wk_owner_id w = actor \<or> (\<exists>m \<in> set (ab_members db). mb_workspace_id m = wk_id w
        \<and> mb_user_id m = Some actor)) (ab_workspaces db)))"

definition create_workspace :: "stamp \<Rightarrow> uuid \<Rightarrow> pystr \<Rightarrow> workspace_info wbody" where
  "create_workspace st actor raw db = (let name = strip raw in
     if name = [] \<or> length name > 120 then Inl (workflow ''invalid_name'' 422)
     else let w = \<lparr>wk_id = st_fresh st 0, wk_owner_id = actor, wk_name = name, wk_model_settings = [],
            wk_created_at = st_now st\<rparr>;
          m = \<lparr>mb_id = st_fresh st 1, mb_workspace_id = wk_id w, mb_user_id = Some actor, mb_email = [],
            mb_email_normalized = [], mb_role = Owner, mb_invited_by = actor, mb_joined_at = Some (st_now st),
            mb_created_at = st_now st\<rparr>
       in Inr (workspace_info_of w, db\<lparr>ab_workspaces := ab_workspaces db @ [w], ab_members := ab_members db @ [m]\<rparr>))"

section \<open>Sources\<close>

definition list_sources :: "uuid \<Rightarrow> uuid \<Rightarrow> app_db \<Rightarrow> workflow_error + source_info list" where
  "list_sources actor ws db = rbind (repo_workspace actor ws Viewer db) (\<lambda>w.
     Inr (map source_info_of (sort_key (\<lambda>s. (- so_created_at s, so_id s)) (filter (\<lambda>s. so_workspace_id s = ws
       \<and> so_owner_id s = wk_owner_id w) (ab_sources db)))))"

definition agent_source_content :: "uuid \<Rightarrow> uuid \<Rightarrow> uuid \<Rightarrow> app_db \<Rightarrow> workflow_error + source_content" where
  "agent_source_content actor ws i db = rbind (repo_source actor ws i Viewer db) (\<lambda>s. source_content_of s db)"

definition agent_event :: "uuid \<Rightarrow> uuid \<Rightarrow> string \<Rightarrow> uuid \<Rightarrow> (pystr \<times> json) list \<Rightarrow> audit_event" where
  "agent_event actor ws action target details = \<lparr>ae_workspace_id = ws,
     ae_actor = \<lparr>us_id = actor, us_email = None\<rparr>, ae_action = lit action, ae_target_type = lit ''source'',
     ae_target_id = Some (uuid_str target), ae_origin = lit ''mcp'', ae_details = details, ae_request_id = None\<rparr>"

text \<open>\<^verbatim>\<open>len(text.encode())\<close>; a lone surrogate has no encoding.\<close>

fun utf8_width :: "nat \<Rightarrow> nat option" where
  "utf8_width c = (if c < 128 then Some 1 else if c < 2048 then Some 2
     else if 55296 \<le> c \<and> c \<le> 57343 then None else if c < 65536 then Some 3 else Some 4)"

fun utf8_length :: "pystr \<Rightarrow> nat option" where
  "utf8_length [] = Some 0"
| "utf8_length (c # cs) = (case (utf8_width c, utf8_length cs) of
     (Some n, Some m) \<Rightarrow> Some (n + m) | _ \<Rightarrow> None)"

definition checked_text :: "nat \<Rightarrow> pystr \<Rightarrow> workflow_error + nat" where
  "checked_text limit body = (if blank body then Inl (workflow ''invalid_text'' 422)
     else (case utf8_length body of
       None \<Rightarrow> Inl (workflow ''UnicodeEncodeError'' 500)
     | Some n \<Rightarrow> if n > limit then Inl (workflow ''invalid_text'' 422) else Inr n))"

record new_source =
  ns_id :: uuid
  ns_title :: pystr
  ns_kind :: pystr
  ns_object_path :: pystr
  ns_content_type :: pystr
  ns_size_bytes :: int
  ns_text :: "pystr option"
  ns_project_ids :: "uuid list"

definition parse_kind :: "pystr \<Rightarrow> source_kind option" where
  "parse_kind s = (if s = lit ''document'' then Some DocumentKind
     else if s = lit ''meeting'' then Some MeetingKind else None)"

text \<open>The first utterance of a text that is a transcript: "Speaker 1" in Korean says it all.\<close>

definition initial_utterance :: "pystr \<Rightarrow> utterance" where
  "initial_utterance body = \<lparr>ut_id = lit ''initial'', ut_person_id = None,
     ut_speaker_name = [54868, 51088, 32, 49], ut_text = body, ut_start_seconds = None, ut_end_seconds = None\<rparr>"

definition initial_utterances :: "source_kind \<Rightarrow> pystr option \<Rightarrow> workflow_error + utterance list" where
  "initial_utterances kind body = (case (kind, truthy body) of
     (MeetingKind, Some t) \<Rightarrow> agent_utterances [initial_utterance t] | _ \<Rightarrow> Inr [])"

definition source_of :: "stamp \<Rightarrow> workspace_row \<Rightarrow> new_source \<Rightarrow> source_kind \<Rightarrow> utterance list \<Rightarrow> uuid list \<Rightarrow> source_row" where
  "source_of st w n kind us ids = (let meeting = (kind = MeetingKind) in
     \<lparr>so_id = ns_id n, so_workspace_id = wk_id w, so_owner_id = wk_owner_id w, so_kind = kind,
      so_title = strip (ns_title n), so_object_path = ns_object_path n, so_content_type = ns_content_type n,
      so_size_bytes = ns_size_bytes n, so_analysis_mode = AgentMode,
      so_transcript_source = (if meeting then Some FromAgent else None), so_duration_seconds = None,
      so_transcript_text = None, so_raw_transcript_text = (if meeting then ns_text n else None),
      so_raw_utterances = [], so_review_utterances = us,
      so_review_state = (if meeting then Some RvAwaitingReview else None), so_review_revision = 0,
      so_project_id = (case ids of i # _ \<Rightarrow> Some i | [] \<Rightarrow> None), so_association_revision = 0,
      so_confirmed_at = None, so_confirmed_snapshot = None,
      so_content_text = (if meeting then None else ns_text n), so_analysis_checkpoint = None,
      so_status = (if meeting then AwaitingReview else AwaitingAgent),
      so_processing_stage = (if meeting then StAwaitingReview else StAwaitingAgent),
      so_progress = (if meeting then 45 / 100 else 0), so_error_message = None, so_created_at = st_now st\<rparr>)"

definition create_source :: "stamp \<Rightarrow> uuid \<Rightarrow> uuid \<Rightarrow> new_source \<Rightarrow> source_info wbody" where
  "create_source st actor ws n db = rbind (repo_workspace actor ws Editor db) (\<lambda>w.
     (case parse_kind (ns_kind n) of
       None \<Rightarrow> Inl (workflow ''invalid_kind'' 422)
     | Some kind \<Rightarrow> let title = strip (ns_title n); ids = fromkeys (ns_project_ids n) in
         if title = [] \<or> length title > 255 \<or> ns_size_bytes n < 0 then Inl (workflow ''invalid_source'' 422)
         else if length (active_projects ws (wk_owner_id w) ids db) \<noteq> length ids
         then Inl (workflow ''invalid_project'' 422)
         else rbind (initial_utterances kind (ns_text n)) (\<lambda>us.
           let s = source_of st w n kind us ids in
           Inr (source_info_of s, add_audit_event st (agent_event actor ws ''source.created'' (so_id s)
               [(lit ''kind'', JStr (ns_kind n)), (lit ''generationMethod'', JStr (lit ''external_agent''))])
             (link_projects st s ids (db\<lparr>ab_sources := ab_sources db @ [s]\<rparr>))))))"

definition create_text_source ::
  "stamp \<Rightarrow> nat \<Rightarrow> uuid \<Rightarrow> uuid \<Rightarrow> pystr \<Rightarrow> pystr \<Rightarrow> pystr \<Rightarrow> uuid list \<Rightarrow> source_info wbody" where
  "create_text_source st limit actor ws title body kind projects db = rbind (checked_text limit body) (\<lambda>n.
     let i = st_fresh st 0 in create_source st actor ws \<lparr>ns_id = i, ns_title = title, ns_kind = kind,
       ns_object_path = lit ''inline:'' @ uuid_str i, ns_content_type = lit ''text/plain; charset=utf-8'',
       ns_size_bytes = int n, ns_text = Some body, ns_project_ids = projects\<rparr> db)"

definition edited_by_agent :: "(pystr \<times> json) list" where
  "edited_by_agent = [(lit ''generationMethod'', JStr (lit ''external_agent_edit''))]"

definition save_document_text ::
  "stamp \<Rightarrow> nat \<Rightarrow> uuid \<Rightarrow> uuid \<Rightarrow> uuid \<Rightarrow> int \<Rightarrow> pystr \<Rightarrow> source_info wbody" where
  "save_document_text st limit actor ws i revision body db = rbind (repo_source actor ws i Editor db) (\<lambda>s.
     if so_analysis_mode s \<noteq> AgentMode \<or> so_kind s \<noteq> DocumentKind then Inl (workflow ''invalid_source'' 409)
     else if so_analysis_checkpoint s \<noteq> None then Inl (workflow ''already_analyzed'' 409)
     else if so_review_revision s \<noteq> revision then Inl (workflow ''stale_revision'' 409)
     else rbind (checked_text limit body) (\<lambda>_.
       let s' = s\<lparr>so_content_text := Some (strip body), so_review_revision := so_review_revision s + 1,
             so_status := AwaitingAgent, so_processing_stage := StAwaitingAgent\<rparr>
       in Inr (source_info_of s', put_source s' (add_audit_event st
            (agent_event actor ws ''source.edited'' i edited_by_agent) db))))"

section \<open>Transcripts\<close>

definition under_review :: "source_row \<Rightarrow> bool" where
  "under_review s \<longleftrightarrow> so_analysis_mode s = AgentMode \<and> so_kind s = MeetingKind
     \<and> so_review_state s = Some RvAwaitingReview"

definition plain_text :: "utterance list \<Rightarrow> pystr" where
  "plain_text us = join [10, 10] (filter (\<lambda>t. t \<noteq> []) (map ut_text us))"

definition saved_transcript :: "utterance list \<Rightarrow> source_row \<Rightarrow> source_row" where
  "saved_transcript us s = (let first = (so_raw_transcript_text s = None) in
     s\<lparr>so_review_utterances := us,
       so_raw_transcript_text := (if first then Some (plain_text us) else so_raw_transcript_text s),
       so_raw_utterances := (if first then us else so_raw_utterances s),
       so_review_revision := so_review_revision s + 1\<rparr>)"

definition save_transcript ::
  "stamp \<Rightarrow> uuid \<Rightarrow> uuid \<Rightarrow> uuid \<Rightarrow> int \<Rightarrow> utterance list \<Rightarrow> source_info wbody" where
  "save_transcript st actor ws i revision us db = rbind (repo_source actor ws i Editor db) (\<lambda>s.
     if \<not> under_review s then Inl (workflow ''review_closed'' 409)
     else if so_review_revision s \<noteq> revision then Inl (workflow ''stale_revision'' 409)
     else if length us > 1000 then Inl (workflow ''invalid_transcript'' 422)
     else (case validate_all review_utterance us of
       None \<Rightarrow> Inl (workflow ''invalid_transcript'' 422)
     | Some checked \<Rightarrow> if \<not> distinct (map ut_id checked) then Inl (workflow ''invalid_transcript'' 422)
         else let s' = saved_transcript checked s in Inr (source_info_of s', put_source s' (add_audit_event st
            (agent_event actor ws ''transcript.edited'' i edited_by_agent) db))))"

definition agent_confirmed :: "stamp \<Rightarrow> utterance list \<Rightarrow> directory_snapshot \<Rightarrow> source_row \<Rightarrow> source_row" where
  "agent_confirmed st us snap s = s\<lparr>so_transcript_text := Some (transcript_of us), so_review_utterances := us,
     so_confirmed_snapshot := Some snap, so_confirmed_at := Some (st_now st),
     so_association_revision := so_association_revision s + 1, so_review_state := Some RvConfirmed,
     so_status := AwaitingAgent, so_processing_stage := StAwaitingAgent\<rparr>"

definition confirm_transcript :: "stamp \<Rightarrow> uuid \<Rightarrow> uuid \<Rightarrow> uuid \<Rightarrow> int \<Rightarrow> source_info wbody" where
  "confirm_transcript st actor ws i revision db = rbind (repo_source actor ws i Editor db) (\<lambda>s.
     if \<not> under_review s then Inl (workflow ''review_closed'' 409)
     else if so_review_revision s \<noteq> revision then Inl (workflow ''stale_revision'' 409)
     else rbind (agent_utterances (filter (\<lambda>u. \<not> blank (ut_text u)) (so_review_utterances s))) (\<lambda>us.
       if us = [] then Inl (workflow ''text_required'' 422)
       else rbind (agent_directory_snapshot ws s db) (\<lambda>snap.
         let s' = agent_confirmed st us snap s in
         Inr (source_info_of s', put_source s' (add_audit_event st
           (agent_event actor ws ''source.confirmed'' i []) (replace_agent_participants st s' db))))))"

section \<open>The context of an analysis\<close>

definition workflow_text :: "source_row \<Rightarrow> workflow_error + pystr" where
  "workflow_text s = rbind (if so_kind s = MeetingKind
       then (if so_review_state s \<noteq> Some RvConfirmed then Inl (workflow ''review_required'' 409)
         else Inr (so_transcript_text s))
       else Inr (so_content_text s)) (\<lambda>found. case found of
     None \<Rightarrow> Inl (workflow ''text_required'' 409)
   | Some t \<Rightarrow> if blank t then Inl (workflow ''text_required'' 409) else Inr t)"

definition source_directory :: "uuid \<Rightarrow> source_row \<Rightarrow> app_db \<Rightarrow> workflow_error + directory_snapshot" where
  "source_directory ws s db = (case so_confirmed_snapshot s of Some d \<Rightarrow> Inr d
     | None \<Rightarrow> agent_directory_snapshot ws s db)"

record agent_env =
  ag_hash :: hashing
  ag_date_iso :: "int \<Rightarrow> pystr"
  ag_uuid5 :: uuid5_fn
  ag_chunk_size :: int
  ag_chunk_overlap :: int

definition directory_json :: "agent_env \<Rightarrow> directory_snapshot \<Rightarrow> json" where
  "directory_json ag d = snapshot_json (ag_date_iso ag) d"

record analysis_context =
  ac_source :: source_info
  ac_text :: pystr
  ac_fingerprint :: pystr
  ac_known_decisions :: "pystr list"
  ac_directory :: directory_snapshot

definition analysis_context_of :: "agent_env \<Rightarrow> uuid \<Rightarrow> uuid \<Rightarrow> uuid \<Rightarrow> app_db \<Rightarrow> workflow_error + analysis_context" where
  "analysis_context_of ag actor ws i db = rbind (repo_source actor ws i Viewer db) (\<lambda>s.
     if so_analysis_mode s \<noteq> AgentMode then Inl (workflow ''invalid_source'' 409)
     else rbind (workflow_text s) (\<lambda>body. let decided = known_decisions ws db in
       rbind (source_directory ws s db) (\<lambda>d.
       Inr \<lparr>ac_source = source_info_of s, ac_text = body,
         ac_fingerprint = context_fingerprint (ag_hash ag) s body decided (directory_json ag d),
         ac_known_decisions = decided, ac_directory = d\<rparr>)))"

section \<open>Submitting an analysis\<close>

datatype agent_error = Refused workflow_error | Broken raised

definition refuse_with :: "workflow_error + 'a \<Rightarrow> ('g, agent_error, 'a) run" where
  "refuse_with r = plift (lift_error Refused r)"

definition map_error :: "('e \<Rightarrow> 'f) \<Rightarrow> ('g, 'e, 'a) run \<Rightarrow> ('g, 'f, 'a) run" where
  "map_error f m s = (case m s of (Inl e, s') \<Rightarrow> (Inl (f e), s') | (Inr x, s') \<Rightarrow> (Inr x, s'))"

text \<open>The chunks of a source without embeddings, in place of the ones it had.\<close>

definition agent_segments :: "source_row \<Rightarrow> pystr \<Rightarrow> py_error + raw_segments" where
  "agent_segments s body = (if so_kind s = MeetingKind then rbind (review_segments s) (\<lambda>xs. Inr (Spoken xs))
     else rbind (text_section body) (\<lambda>x. Inr (Sections [x])))"

definition agent_chunks :: "agent_env \<Rightarrow> source_row \<Rightarrow> pystr \<Rightarrow> py_error + source_chunk list" where
  "agent_chunks ag s body = rbind (agent_segments s body) (\<lambda>segments.
     rbind (normalize_service (ag_uuid5 ag) (kind_value (so_kind s)) (index_args s None) segments) (\<lambda>normalized.
     rbind (make_chunker (ag_chunk_size ag) (ag_chunk_overlap ag)) (\<lambda>c. Inr (chunk c normalized))))"

definition index_source_text :: "agent_env \<Rightarrow> stamp \<Rightarrow> source_row \<Rightarrow> pystr \<Rightarrow> ('g, agent_error, unit) run" where
  "index_source_text ag st s body = (case agent_chunks ag s body of
     Inl e \<Rightarrow> praise (Broken (raise_py e))
   | Inr chunks \<Rightarrow> if chunks = [] then praise (Refused (workflow ''text_required'' 422))
       else pmodify (replace_chunks st s chunks (map (\<lambda>_. None) chunks)))"

record submit_request =
  sq_actor :: uuid
  sq_workspace :: uuid
  sq_source :: uuid
  sq_revision :: int
  sq_fingerprint :: pystr
  sq_submission :: submission
  sq_provenance :: "(pystr \<times> pystr) list"

definition agent_provenance :: "(pystr \<times> json) list" where
  "agent_provenance = [(lit ''generationMethod'', JStr (lit ''external_agent'')),
     (lit ''provenanceTrust'', JStr (lit ''self_reported''))]"

definition agent_checkpoint ::
  "submit_request \<Rightarrow> pystr \<Rightarrow> pystr \<Rightarrow> extraction_result \<Rightarrow> resolved_graph \<Rightarrow> pystr \<Rightarrow> analysis_checkpoint" where
  "agent_checkpoint q fingerprint input_hash r graph fp = \<lparr>cp_fingerprint = fingerprint,
     cp_decision_fingerprint = Some fp, cp_phase = Extracted, cp_result = r, cp_graph = graph,
     cp_provenance = dict_merge agent_provenance (map (\<lambda>(k, v). (k, JStr v)) (sq_provenance q)),
     cp_context_warnings = [], cp_warnings = [],
     cp_agent = Some \<lparr>am_context_fingerprint = sq_fingerprint q, am_result_hash = input_hash\<rparr>\<rparr>"

definition at_agent_stage :: "processing_stage \<Rightarrow> source_row \<Rightarrow> source_row" where
  "at_agent_stage stage s = s\<lparr>so_processing_stage := stage\<rparr>"

definition save_agent_extraction ::
  "submit_request \<Rightarrow> pystr \<Rightarrow> pystr \<Rightarrow> extraction_result \<Rightarrow> resolved_graph \<Rightarrow> pystr \<Rightarrow> ('g, unit) proc" where
  "save_agent_extraction q fingerprint input_hash r graph fp = edit_commit (sq_source q) (\<lambda>s. at_agent_stage Analyzing
     (with_checkpoint s (Some (agent_checkpoint q fingerprint input_hash r graph fp))))"

definition save_agent_context :: "submit_request \<Rightarrow> warning list \<Rightarrow> ('g, unit) proc" where
  "save_agent_context q applied = edit_commit (sq_source q) (\<lambda>s. at_agent_stage Graphing (saved_context s applied))"

record agent_submission =
  as_source_id :: uuid
  as_warnings :: "warning list"
  as_already_applied :: bool

text \<open>What a submission is to be: a replay of the stored analysis, or a new one.\<close>

definition same_submission :: "agent_env \<Rightarrow> submit_request \<Rightarrow> pystr \<Rightarrow> analysis_checkpoint \<Rightarrow> workflow_error + unit" where
  "same_submission ag q fingerprint cp = (case cp_agent cp of
     None \<Rightarrow> Inl (workflow ''analysis_conflict'' 409)
   | Some mark \<Rightarrow>
       if cp_fingerprint cp \<noteq> fingerprint \<or> am_context_fingerprint mark \<noteq> sq_fingerprint q
       then Inl (workflow ''analysis_conflict'' 409)
       else (case sb_result (sq_submission q) of
         None \<Rightarrow> Inl (workflow ''invalid_analysis'' 422)
       | Some r \<Rightarrow> if am_result_hash mark \<noteq> result_fingerprint (ag_hash ag) (without_diagnostics r)
           then Inl (workflow ''analysis_conflict'' 409) else Inr ()))"

definition accept_analysis ::
  "agent_env \<Rightarrow> unicode \<Rightarrow> submit_request \<Rightarrow> source_row \<Rightarrow> pystr \<Rightarrow> directory_snapshot \<Rightarrow> app_db
    \<Rightarrow> workflow_error + extraction_result" where
  "accept_analysis ag uc q s body d db = (let decided = known_decisions (sq_workspace q) db in
     if sq_fingerprint q \<noteq> context_fingerprint (ag_hash ag) s body decided (directory_json ag d)
     then Inl (workflow ''stale_context'' 409)
     else validate_extraction uc (sq_submission q) s body decided)"

definition processing :: "source_row \<Rightarrow> source_row" where
  "processing s = s\<lparr>so_status := Processing, so_processing_stage := Analyzing\<rparr>"

definition agent_input :: "submit_request \<Rightarrow> workspace_row \<Rightarrow> source_row \<Rightarrow> pystr \<Rightarrow> directory_snapshot \<Rightarrow> analysis_input" where
  "agent_input q w s body d = \<lparr>ai_workspace_id = sq_workspace q, ai_owner_id = so_owner_id s,
     ai_source_id = so_id s, ai_title = so_title s, ai_subject = wk_name w, ai_text = body, ai_snapshot = Some d\<rparr>"

definition agent_done :: "warning list \<Rightarrow> source_row \<Rightarrow> source_row" where
  "agent_done warnings s = s\<lparr>so_analysis_checkpoint := map_option (\<lambda>cp. cp\<lparr>cp_phase := AnalysisDone,
       cp_warnings := warnings\<rparr>) (so_analysis_checkpoint s),
     so_status := Succeeded, so_processing_stage := Completed, so_progress := 1\<rparr>"

definition finish_agent :: "stamp \<Rightarrow> submit_request \<Rightarrow> warning list \<Rightarrow> ('g, agent_error, agent_submission) run" where
  "finish_agent st q warnings = pbind pget (\<lambda>db. (case get_source (sq_source q) db of
     None \<Rightarrow> praise (Broken [plain_exc OtherErr ''StaleDataError''])
   | Some s \<Rightarrow> pseq (pmodify (\<lambda>db. add_audit_event st (agent_event (sq_actor q) (sq_workspace q)
         ''analysis.completed'' (sq_source q) (dict_merge agent_provenance (checkpoint_provenance s)))
         (put_source (agent_done warnings s) db)))
       (pseq pcommit (preturn \<lparr>as_source_id = sq_source q, as_warnings = warnings, as_already_applied = False\<rparr>))))"

text \<open>The analysis proper: the extraction is at hand, so there is no provider to ask.\<close>

definition run_agent_analysis ::
  "'g analysis_env \<Rightarrow> submit_request \<Rightarrow> source_row \<Rightarrow> pystr \<Rightarrow> directory_snapshot \<Rightarrow> pystr \<Rightarrow> pystr
    \<Rightarrow> analysis_checkpoint option \<Rightarrow> extraction_result \<Rightarrow> ('g, agent_error, agent_submission) run" where
  "run_agent_analysis env q s body d fingerprint input_hash cp r = pbind pget (\<lambda>db.
     pbind (refuse_with (repo_workspace (sq_actor q) (sq_workspace q) Editor db)) (\<lambda>w.
     pbind (map_error Broken (analyze_source env None (\<lambda>_. keyless_update (an_runtime env) (st_now (an_stamp env)))
         (agent_input q w s body d) (Some r) (map_option cp_graph cp)
         (cp \<noteq> None \<and> cp_phase (the cp) = ContextApplied)
         (case cp of Some c \<Rightarrow> cp_context_warnings c | None \<Rightarrow> [])
         (save_agent_extraction q fingerprint input_hash) (save_agent_context q)))
       (finish_agent (an_stamp env) q)))"

definition new_analysis ::
  "agent_env \<Rightarrow> 'g analysis_env \<Rightarrow> submit_request \<Rightarrow> source_row \<Rightarrow> pystr \<Rightarrow> directory_snapshot \<Rightarrow> pystr
    \<Rightarrow> ('g, agent_error, agent_submission) run" where
  "new_analysis ag env q s body d fingerprint = pbind pget (\<lambda>db.
     pbind (refuse_with (accept_analysis ag (rt_unicode (an_runtime env)) q s body d db)) (\<lambda>r.
     pseq (index_source_text ag (an_stamp env) s body)
     (pseq (commit_source (processing s))
       (run_agent_analysis env q s body d fingerprint (result_fingerprint (ag_hash ag) r) None r))))"

definition replayed_analysis ::
  "agent_env \<Rightarrow> 'g analysis_env \<Rightarrow> submit_request \<Rightarrow> source_row \<Rightarrow> pystr \<Rightarrow> directory_snapshot \<Rightarrow> pystr
    \<Rightarrow> analysis_checkpoint \<Rightarrow> ('g, agent_error, agent_submission) run" where
  "replayed_analysis ag env q s body d fingerprint cp = pbind (refuse_with (same_submission ag q fingerprint cp)) (\<lambda>_.
     if cp_phase cp = AnalysisDone then preturn \<lparr>as_source_id = so_id s, as_warnings = cp_warnings cp,
       as_already_applied = True\<rparr>
     else run_agent_analysis env q s body d fingerprint
       (case cp_agent cp of Some mark \<Rightarrow> am_result_hash mark | None \<Rightarrow> []) (Some cp) (cp_result cp))"

definition submit_analysis_locked ::
  "agent_env \<Rightarrow> 'g analysis_env \<Rightarrow> submit_request \<Rightarrow> ('g, agent_error, agent_submission) run" where
  "submit_analysis_locked ag env q = pbind pget (\<lambda>db.
     pbind (refuse_with (repo_source (sq_actor q) (sq_workspace q) (sq_source q) Editor db)) (\<lambda>s.
     if so_analysis_mode s \<noteq> AgentMode then praise (Refused (workflow ''invalid_source'' 409))
     else if so_review_revision s \<noteq> sq_revision q then praise (Refused (workflow ''stale_revision'' 409))
     else pbind (refuse_with (workflow_text s)) (\<lambda>body.
     pbind (refuse_with (source_directory (sq_workspace q) s db)) (\<lambda>d.
     let fingerprint = agent_source_fingerprint (ag_hash ag) s body (directory_json ag d) in
     (case so_analysis_checkpoint s of
        None \<Rightarrow> new_analysis ag env q s body d fingerprint
      | Some cp \<Rightarrow> replayed_analysis ag env q s body d fingerprint cp)))))"

text \<open>Access is checked before the locks are waited for, in a transaction of its own; \<open>earlier\<close> is what it
  sees.\<close>

definition submit_analysis ::
  "agent_env \<Rightarrow> 'g analysis_env \<Rightarrow> submit_request \<Rightarrow> app_db \<Rightarrow> ('g, agent_error, agent_submission) run" where
  "submit_analysis ag env q earlier = pbind (refuse_with (repo_source (sq_actor q) (sq_workspace q) (sq_source q) Editor earlier))
     (\<lambda>_. submit_analysis_locked ag env q)"

end
