(* ===== verification/AgentContract.thy ===== *)
theory AgentContract
  imports AgentWorkflows AttemptContract
begin

text \<open>
  What a submission of an agent may do to the durable state: each of its commits and graph writes is a
  \<open>durable_step\<close> of its source, the step the server's processor keeps to, and a refusal commits nothing.
  Then what a validated extraction is, and how a submission is recognised when it comes again.
\<close>

section \<open>Runs\<close>

lemma keeps_map_error: "keeps i I m Q \<Longrightarrow> keeps i I (map_error f m) Q"
  unfolding keeps_def along_def map_error_def by (fastforce split: prod.splits sum.splits)

lemma keeps_refused_bind:
  assumes "\<And>x. r = Inr x \<Longrightarrow> keeps i I (f x) Q"
  shows "keeps i I (pbind (refuse_with r) f) Q"
proof (cases r)
  case (Inl e)
  then have "pbind (refuse_with r) f = praise (Refused e)"
    by (simp add: fun_eq_iff pbind_def refuse_with_def plift_def praise_def)
  then show ?thesis
    by (simp add: keeps_raise)
next
  case (Inr x)
  then have "pbind (refuse_with r) f = f x"
    by (simp add: fun_eq_iff pbind_def refuse_with_def plift_def preturn_def)
  then show ?thesis
    using assms [OF Inr] by simp
qed

lemma workflow_text_analysable: "workflow_text s = Inr body \<Longrightarrow> analysable s"
  by (cases "so_kind s") (auto simp: workflow_text_def analysable_def split: if_splits)

section \<open>One submission\<close>

lemma agent_context_is: "context_saved (\<lambda>s. at_agent_stage Graphing (saved_context s ws))"
  using saved_context_is [of ws, unfolded context_saved_def]
  by (simp add: context_saved_def at_agent_stage_def alike_def same_source_def applied_cp_def)

lemma keeps_save_agent:
  assumes "sq_source q = i" "\<not> finished t" "analysable t"
  shows "keeps i (clean i (at_checkpoint t None)) (save_agent_extraction q fingerprint h r graph fp)
    (\<lambda>_. clean i (\<lambda>s'. alike t s' \<and> extracted_cp s'))"
  unfolding save_agent_extraction_def assms(1)
proof (rule keeps_clean, rule keeps_edit_commit)
  fix s'
  assume "at_checkpoint t None s'"
  then show "\<not> finished s' \<and> row_step s' (at_agent_stage Analyzing (with_checkpoint s'
        (Some (agent_checkpoint q fingerprint h r graph fp))))
      \<and> alike t (at_agent_stage Analyzing (with_checkpoint s' (Some (agent_checkpoint q fingerprint h r graph fp))))
      \<and> extracted_cp (at_agent_stage Analyzing (with_checkpoint s' (Some (agent_checkpoint q fingerprint h r graph fp))))"
    using assms(2,3) alike_finished
    by (auto simp: row_step_def analysable_def same_source_def applied_cp_def extracted_cp_def with_checkpoint_def
        agent_checkpoint_def at_agent_stage_def at_checkpoint_def alike_def finished_def)
qed (simp add: with_checkpoint_def at_agent_stage_def)

lemma keeps_agent_analysis:
  fixes env :: "'g analysis_env"
  assumes "sq_source q = i" "\<not> finished t" "analysable t"
    and "\<And>c. cp = Some c \<Longrightarrow> cp_phase c \<noteq> AnalysisDone"
  shows "keeps i (clean i (at_checkpoint t cp))
    (analyze_source env None upd a (Some r) (map_option cp_graph cp)
      (cp \<noteq> None \<and> cp_phase (the cp) = ContextApplied) ws
      (save_agent_extraction q fingerprint h) (save_agent_context q))
    (\<lambda>_. clean i (\<lambda>s'. alike t s' \<and> applied_cp s'))"
proof (cases "\<exists>c. cp = Some c \<and> cp_phase c = ContextApplied")
  case True
  then obtain c where c: "cp = Some c" "cp_phase c = ContextApplied"
    by blast
  have row: "clean i (at_checkpoint t cp) d v \<Longrightarrow> clean i (\<lambda>s'. alike t s' \<and> applied_cp s') d v" for d v
    using c by (auto simp: clean_def rowp_def at_checkpoint_def applied_cp_def)
  have graph: "keeps i (clean i (\<lambda>s'. alike t s' \<and> applied_cp s')) (write_graph env g ws :: ('g, warning list) proc)
      (\<lambda>_. clean i (\<lambda>s'. alike t s' \<and> applied_cp s'))" for g ws
    by (rule keeps_write_graph) (use assms(2) alike_finished in auto)
  show ?thesis
    unfolding analyze_source_def
    apply (rule keeps_bind [OF keeps_obtain])
    apply (simp only: split: prod.split)
    apply (intro allI impI)
    apply (rule keeps_bind [where Q = "\<lambda>_. clean i (at_checkpoint t cp)"])
     apply (simp add: c(1) keeps_return)
    apply (rule keeps_get_bind)
    apply (rule keeps_seq [where J = "clean i (at_checkpoint t cp)"])
     apply (simp add: c(1))
     apply (rule keeps_return, simp)
    apply (simp add: c)
    apply (rule keeps_bind [where Q = "\<lambda>_. clean i (\<lambda>s'. alike t s' \<and> applied_cp s')"])
     apply (rule keeps_return)
     apply (rule row [unfolded c(1)], assumption)
    apply (rule graph)
    done
next
  case False
  then have eq: "(cp \<noteq> None \<and> cp_phase (the cp) = ContextApplied) = False"
    by auto
  have ph: "cp_phase c = Extracted" if "cp = Some c" for c
    using that False assms(4) [OF that] by (cases "cp_phase c") auto
  have ctx: "(save_agent_context q :: warning list \<Rightarrow> ('g, unit) proc)
      = (\<lambda>ws. edit_commit i (\<lambda>s. at_agent_stage Graphing (saved_context s ws)))"
    by (simp add: fun_eq_iff save_agent_context_def assms(1))
  show ?thesis
    unfolding eq ctx
    by (rule keeps_analyze_with [OF assms(2,3) ph]) (simp_all add: keeps_save_agent [OF assms(1-3)] agent_context_is)
qed

lemma agent_done_row:
  assumes "applied_cp s" "analysable s"
  shows "row_step s (agent_done ws s)" "so_status (agent_done ws s) = Succeeded" "so_id (agent_done ws s) = so_id s"
    "applied_cp (agent_done ws s)"
  using assms by (auto simp: row_step_def agent_done_def same_source_def applied_cp_def completed_cp_def
      extraction_of_def split: option.splits)

lemma keeps_finish_agent:
  assumes "sq_source q = i" "\<not> finished t" "analysable t"
  shows "keeps i (clean i (\<lambda>s'. alike t s' \<and> applied_cp s')) (finish_agent st q ws)
    (\<lambda>_. clean i (\<lambda>s'. so_status s' = Succeeded \<and> applied_cp s'))"
  unfolding finish_agent_def
proof (rule keeps_get_bind)
  fix db
  let ?I = "\<lambda>d v. db = fst v \<and> clean i (\<lambda>s'. alike t s' \<and> applied_cp s') d v"
  let ?e = "\<lambda>s. agent_event (sq_actor q) (sq_workspace q) ''analysis.completed'' (sq_source q)
    (dict_merge agent_provenance (checkpoint_provenance s))"
  show "keeps i ?I (case get_source (sq_source q) db of None \<Rightarrow> praise (Broken [plain_exc OtherErr ''StaleDataError''])
      | Some s \<Rightarrow> pseq (pmodify (\<lambda>db. add_audit_event st (?e s) (put_source (agent_done ws s) db)))
        (pseq pcommit (preturn \<lparr>as_source_id = sq_source q, as_warnings = ws, as_already_applied = False\<rparr>)))
      (\<lambda>_. clean i (\<lambda>s'. so_status s' = Succeeded \<and> applied_cp s'))"
  proof (cases "get_source i db")
    case (Some s)
    then have id: "so_id s = i"
      by (rule get_source_id)
    have "keeps i ?I (pmodify (\<lambda>db. add_audit_event st (?e s) (put_source (agent_done ws s) db)))
      (\<lambda>_. rowp i (\<lambda>s'. so_status s' = Succeeded \<and> applied_cp s'))"
    proof (rule keeps_modify)
      fix d db0 g
      assume "db = fst (db0, g) \<and> clean i (\<lambda>s'. alike t s' \<and> applied_cp s') d (db0, g)"
      then have s: "db0 = db" "alike t s" "applied_cp s"
        using Some by (auto simp: clean_def rowp_def)
      have fresh: "analysable s" "\<not> finished s"
        using assms(2,3) alike_analysable [OF s(2)] alike_finished [OF s(2)] by simp_all
      note row = agent_done_row [OF s(3) fresh(1), of ws]
      let ?db = "add_audit_event st (?e s) (put_source (agent_done ws s) db)"
      have "untouched i db ?db"
        using row(3) id by (auto simp: untouched_def table_simps source_chunks_def)
      then show "durable_step i (db0, g) (add_audit_event st (?e s) (put_source (agent_done ws s) db0), g)
          \<and> rowp i (\<lambda>s'. so_status s' = Succeeded \<and> applied_cp s') d
            (add_audit_event st (?e s) (put_source (agent_done ws s) db0), g)"
        using Some row fresh id s(1) by (simp add: durable_step_def rowp_def table_simps)
    qed
    then have "keeps i ?I (pseq (pmodify (\<lambda>db. add_audit_event st (?e s) (put_source (agent_done ws s) db)))
        (pseq pcommit (preturn \<lparr>as_source_id = sq_source q, as_warnings = ws, as_already_applied = False\<rparr>)))
        (\<lambda>_. clean i (\<lambda>s'. so_status s' = Succeeded \<and> applied_cp s'))"
      by (rule keeps_seq) (rule keeps_seq [OF keeps_commit], rule keeps_return)
    then show ?thesis
      using Some assms(1) by simp
  qed (simp add: assms(1) keeps_raise)
qed

lemma keeps_run_agent:
  fixes env :: "'g analysis_env"
  assumes "sq_source q = i" "\<not> finished t" "analysable t"
    and "\<And>c. cp = Some c \<Longrightarrow> cp_phase c \<noteq> AnalysisDone"
  shows "keeps i (clean i (at_checkpoint t cp)) (run_agent_analysis env q s body d fingerprint h cp r)
    (\<lambda>_. clean i (\<lambda>s'. so_status s' = Succeeded \<and> applied_cp s'))"
  unfolding run_agent_analysis_def
  apply (rule keeps_get_bind)
  apply (rule keeps_refused_bind)
  apply (rule keeps_bind [where Q = "\<lambda>_. clean i (\<lambda>s'. alike t s' \<and> applied_cp s')"])
   apply (rule keeps_map_error)
   apply (rule keeps_mono [OF keeps_agent_analysis [OF assms(1-3)]])
     apply (rule assms(4), assumption)
    apply simp
   apply simp
  apply (rule keeps_finish_agent [OF assms(1-3)])
  done

lemma chunks_elsewhere:
  "j \<noteq> so_id s \<Longrightarrow> source_chunks j (replace_chunks st s chunks es db) = source_chunks j db"
proof -
  assume j: "j \<noteq> so_id s"
  have "filter (\<lambda>k. ck_source_id k = j) (map (chunk_row_of st s) ks) = []" for ks
    using j by (auto simp: chunk_row_of_def filter_empty_conv)
  moreover have "filter (\<lambda>k. ck_source_id k \<noteq> so_id s \<and> ck_source_id k = j) (ab_chunks db)
      = filter (\<lambda>k. ck_source_id k = j) (ab_chunks db)"
    by (rule filter_cong) (use j in auto)
  ultimately show ?thesis
    by (simp add: source_chunks_def replace_chunks_def)
qed

lemma keeps_index_text:
  assumes "so_id s = i" "\<not> finished s"
  shows "keeps i (clean i ((=) s)) (index_source_text ag st s body :: ('g, agent_error, unit) run)
    (\<lambda>_. rowp i ((=) s))"
proof (cases "agent_chunks ag s body")
  case (Inr chunks)
  let ?f = "replace_chunks st s chunks (map (\<lambda>_. None) chunks)"
  have "keeps i (clean i ((=) s)) (pmodify ?f :: ('g, agent_error, unit) run) (\<lambda>_. rowp i ((=) s))"
  proof (rule keeps_modify)
    fix d :: "app_db \<times> 'g" and db and g :: 'g
    assume "clean i ((=) s) d (db, g)"
    then have row: "get_source i db = Some s"
      by (simp add: clean_def rowp_def)
    have "untouched i db (?f db)"
      using assms(1) by (simp add: untouched_def chunks_elsewhere) (simp add: replace_chunks_def get_source_def)
    moreover have "get_source i (?f db) = get_source i db" "ab_context (?f db) = ab_context db"
      by (simp_all add: replace_chunks_def get_source_def)
    ultimately show "durable_step i (db, g) (?f db, g) \<and> rowp i ((=) s) d (?f db, g)"
      using row assms(2) by (simp add: durable_step_def rowp_def)
  qed
  then show ?thesis
    using Inr by (simp add: index_source_text_def keeps_raise)
qed (simp add: index_source_text_def keeps_raise)

lemma keeps_mark_processing:
  assumes "so_id s = i" "\<not> finished s" "analysable s"
  shows "keeps i (rowp i ((=) s)) (commit_source (processing s) :: ('g, 'e, unit) run)
    (\<lambda>_. clean i ((=) (processing s)))"
  unfolding commit_source_def
proof (rule keeps_seq [OF keeps_modify keeps_commit])
  fix d :: "app_db \<times> 'g" and db and g :: 'g
  assume "rowp i ((=) s) d (db, g)"
  then have row: "get_source i db = Some s"
    by (simp add: rowp_def)
  have "untouched i db (put_source (processing s) db)"
    using assms(1) by (auto simp: untouched_def table_simps source_chunks_def processing_def)
  moreover have "row_step s (processing s)"
    by (simp add: row_step_def processing_def same_source_def applied_cp_def extraction_of_def)
  ultimately show "durable_step i (db, g) (put_source (processing s) db, g)
      \<and> rowp i ((=) (processing s)) d (put_source (processing s) db, g)"
    using row assms by (simp add: durable_step_def rowp_def table_simps processing_def)
qed

lemma keeps_new_analysis:
  fixes env :: "'g analysis_env"
  assumes "sq_source q = i" "so_id s = i" "\<not> finished s" "analysable s" "so_analysis_checkpoint s = None"
  shows "keeps i (clean i ((=) s)) (new_analysis ag env q s body d fingerprint)
    (\<lambda>_. clean i (\<lambda>s'. so_status s' = Succeeded \<and> applied_cp s'))"
proof -
  have t: "\<not> finished (processing s)" "analysable (processing s)"
    using assms(3,4) by (auto simp: finished_def analysable_def processing_def)
  have start: "clean i ((=) (processing s)) d' v \<Longrightarrow> clean i (at_checkpoint (processing s) None) d' v"
    for d' v :: "app_db \<times> 'g"
    using assms(5) by (auto simp: clean_def rowp_def at_checkpoint_def processing_def)
  show ?thesis
    unfolding new_analysis_def
    apply (rule keeps_get_bind)
    apply (rule keeps_refused_bind)
    apply (rule keeps_seq [where J = "rowp i ((=) s)"])
     apply (rule keeps_mono [OF keeps_index_text [OF assms(2,3)]], simp, assumption)
    apply (rule keeps_seq [OF keeps_mark_processing [OF assms(2-4)]])
    apply (rule keeps_mono [OF keeps_run_agent [OF assms(1) t, where cp = None]])
      apply simp
     apply (rule start, assumption)
    apply assumption
    done
qed

lemma repo_source_Inr:
  "repo_source actor ws i minimum db = Inr s \<Longrightarrow> get_source i db = Some s \<and> so_id s = i \<and> so_workspace_id s = ws
    \<and> (\<exists>w. repo_workspace actor ws minimum db = Inr w \<and> so_owner_id s = wk_owner_id w)"
  by (auto simp: repo_source_def rbind_Inr_iff dest: get_source_id split: option.splits if_splits)

text \<open>A source that is done says so in its checkpoint.\<close>

definition submittable :: "source_row \<Rightarrow> bool" where
  "submittable s \<longleftrightarrow> so_status s \<noteq> Succeeded
     \<or> (\<exists>cp. so_analysis_checkpoint s = Some cp \<and> cp_phase cp = AnalysisDone)"

definition submittable_at :: "uuid \<Rightarrow> 'g state_rel" where
  "submittable_at i d v \<longleftrightarrow> d = v \<and> (\<forall>s. get_source i (fst v) = Some s \<longrightarrow> submittable s)"

lemma keeps_replayed:
  fixes env :: "'g analysis_env"
  assumes "sq_source q = i" "\<not> finished s" "analysable s" "so_analysis_checkpoint s = Some cp"
    "cp_phase cp \<noteq> AnalysisDone"
  shows "keeps i (clean i ((=) s)) (replayed_analysis ag env q s body d fingerprint cp) (\<lambda>_ _ _. True)"
proof -
  have ph: "\<And>c. Some cp = Some c \<Longrightarrow> cp_phase c \<noteq> AnalysisDone"
    using assms(5) by simp
  have start: "clean i ((=) s) d' v \<Longrightarrow> clean i (at_checkpoint s (Some cp)) d' v" for d' v :: "app_db \<times> 'g"
    using assms(4) by (auto simp: clean_def rowp_def at_checkpoint_def)
  have "keeps i (clean i ((=) s)) (run_agent_analysis env q s body d fingerprint h (Some cp) r) (\<lambda>_ _ _. True)" for h r
    by (rule keeps_mono [OF keeps_run_agent [OF assms(1-3) ph]], assumption) (rule start, assumption, simp)
  then show ?thesis
    using assms(5) by (simp add: replayed_analysis_def keeps_refused_bind)
qed

lemma keeps_recalled:
  "cp_phase cp = AnalysisDone \<Longrightarrow> keeps i I (replayed_analysis ag env q s body d fingerprint cp) (\<lambda>_ _ _. True)"
  unfolding replayed_analysis_def by (rule keeps_refused_bind) (simp add: keeps_return)

lemma keeps_never: "(\<And>d v. \<not> I d v) \<Longrightarrow> keeps i I m Q"
  by (simp add: keeps_def along_def)

lemma keeps_decided:
  fixes env :: "'g analysis_env"
  assumes "sq_source q = i" "so_id s = i" "analysable s" "submittable s"
  shows "keeps i (clean i ((=) s)) (case so_analysis_checkpoint s of
      None \<Rightarrow> new_analysis ag env q s body d fingerprint
    | Some cp \<Rightarrow> replayed_analysis ag env q s body d fingerprint cp) (\<lambda>_ _ _. True)"
proof (cases "so_analysis_checkpoint s")
  case None
  then have "\<not> finished s"
    using assms(3,4) by (auto simp: submittable_def finished_def analysable_def)
  from keeps_new_analysis [OF assms(1,2) this assms(3) None] show ?thesis
    unfolding None option.case by (rule keeps_mono) simp_all
next
  case (Some cp)
  show ?thesis
  proof (cases "cp_phase cp = AnalysisDone")
    case False
    then have "\<not> finished s"
      using assms(3,4) Some by (auto simp: submittable_def finished_def analysable_def)
    from keeps_replayed [OF assms(1) this assms(3) Some False] show ?thesis
      unfolding Some option.case .
  qed (simp add: Some keeps_recalled)
qed

lemma keeps_submit:
  fixes env :: "'g analysis_env"
  assumes "sq_source q = i"
  shows "keeps i (submittable_at i) (submit_analysis_locked ag env q) (\<lambda>_ _ _. True)"
  unfolding submit_analysis_locked_def
proof (rule keeps_get_bind, rule keeps_refused_bind)
  fix db s
  assume found: "repo_source (sq_actor q) (sq_workspace q) (sq_source q) Editor db = Inr s"
  then have row: "get_source i db = Some s" "so_id s = i"
    using repo_source_Inr assms by auto
  let ?I = "\<lambda>d v. db = fst v \<and> submittable_at i d v"
  have start: "clean i ((=) s) d v" "submittable s" if "?I d v" for d v :: "app_db \<times> 'g"
    using that row by (auto simp: clean_def rowp_def submittable_at_def)
  have analysis: "keeps i ?I (case so_analysis_checkpoint s of None \<Rightarrow> new_analysis ag env q s body d fingerprint
      | Some cp \<Rightarrow> replayed_analysis ag env q s body d fingerprint cp) (\<lambda>_ _ _. True)"
    if ok: "workflow_text s = Inr body" for body d fingerprint
  proof (cases "submittable s")
    case True
    show ?thesis
      by (rule keeps_mono [OF keeps_decided [OF assms row(2) workflow_text_analysable [OF ok] True]])
        (erule start(1), simp)
  next
    case False
    show ?thesis
      by (rule keeps_never) (use start(2) False in blast)
  qed
  show "keeps i ?I (if so_analysis_mode s \<noteq> AgentMode then praise (Refused (workflow ''invalid_source'' 409))
      else if so_review_revision s \<noteq> sq_revision q then praise (Refused (workflow ''stale_revision'' 409))
      else pbind (refuse_with (workflow_text s)) (\<lambda>body.
        pbind (refuse_with (source_directory (sq_workspace q) s db)) (\<lambda>d.
        let fingerprint = agent_source_fingerprint (ag_hash ag) s body (directory_json ag d)
        in case so_analysis_checkpoint s of None \<Rightarrow> new_analysis ag env q s body d fingerprint
          | Some cp \<Rightarrow> replayed_analysis ag env q s body d fingerprint cp))) (\<lambda>_ _ _. True)"
    apply (rule keeps_if [OF keeps_raise])
    apply (rule keeps_if [OF keeps_raise])
    apply (rule keeps_refused_bind)
    apply (rule keeps_refused_bind)
    apply (simp only: Let_def)
    apply (rule analysis, assumption)
    done
qed

section \<open>Refusals\<close>

text \<open>What may refuse does so before the first commit; after it only a failure can stop the run.\<close>

lemma run_agent_never_refuses:
  assumes "repo_workspace (sq_actor q) (sq_workspace q) Editor (ss_db s) = Inr w"
  shows "fst (run_agent_analysis env q t body d fingerprint h cp r s) \<noteq> Inl (Refused e)"
  using assms
  by (auto simp: run_agent_analysis_def pbind_def pget_def refuse_with_def plift_def preturn_def map_error_def
      finish_agent_def pseq_def praise_def pmodify_def pcommit_def split: prod.splits sum.splits option.splits)

lemma repo_workspace_unchanged:
  "ab_workspaces db' = ab_workspaces db \<Longrightarrow> ab_members db' = ab_members db \<Longrightarrow>
    repo_workspace actor ws minimum db' = repo_workspace actor ws minimum db"
proof -
  assume same: "ab_workspaces db' = ab_workspaces db" "ab_members db' = ab_members db"
  then have "agent_role actor w db' = agent_role actor w db" for w
    by (simp add: agent_role_def)
  then show ?thesis
    using same by (simp add: repo_workspace_def cong: option.case_cong)
qed

lemma new_analysis_accepted:
  fixes env :: "'g analysis_env" and s :: "'g sess"
  assumes "accept_analysis ag (rt_unicode (an_runtime env)) q t body d (ss_db s) = Inr v"
    and "agent_chunks ag t body = Inr chunks" "chunks \<noteq> []"
  shows "\<exists>s1 :: 'g sess. ab_workspaces (ss_db s1) = ab_workspaces (ss_db s) \<and> ab_members (ss_db s1) = ab_members (ss_db s)
    \<and> new_analysis ag env q t body d fingerprint s
      = run_agent_analysis env q t body d fingerprint (result_fingerprint (ag_hash ag) v) None v s1"
proof -
  define s0 where "s0 = s\<lparr>ss_db := replace_chunks (an_stamp env) t chunks (map (\<lambda>_. None) chunks) (ss_db s)\<rparr>"
  have index: "index_source_text ag (an_stamp env) t body s = (Inr (), s0)"
    using assms(2,3) by (simp add: index_source_text_def pmodify_def s0_def)
  define s1 where "s1 = snd ((commit_source (processing t) :: ('g, agent_error, unit) run) s0)"
  have commit: "(commit_source (processing t) :: ('g, agent_error, unit) run) s0 = (Inr (), s1)"
    by (simp add: s1_def commit_source_def pseq_def pbind_def pmodify_def pcommit_def)
  have "ab_workspaces (ss_db s1) = ab_workspaces (ss_db s)" "ab_members (ss_db s1) = ab_members (ss_db s)"
    by (simp_all add: s1_def s0_def commit_source_def pseq_def pbind_def pmodify_def pcommit_def replace_chunks_def)
  moreover have "new_analysis ag env q t body d fingerprint s
      = run_agent_analysis env q t body d fingerprint (result_fingerprint (ag_hash ag) v) None v s1"
    using assms(1) index commit
    by (simp add: new_analysis_def pbind_def pget_def refuse_with_def plift_def preturn_def pseq_def)
  ultimately show ?thesis
    by blast
qed

lemma new_analysis_refused:
  fixes env :: "'g analysis_env" and s :: "'g sess"
  assumes "repo_workspace (sq_actor q) (sq_workspace q) Editor (ss_db s) = Inr w"
    and run: "new_analysis ag env q t body d fingerprint s = (Inl (Refused e), s')"
  shows "ss_log s' = ss_log s"
proof (cases "accept_analysis ag (rt_unicode (an_runtime env)) q t body d (ss_db s)")
  case (Inl x)
  then have "new_analysis ag env q t body d fingerprint s = (Inl (Refused x), s)"
    by (simp add: new_analysis_def pbind_def pget_def refuse_with_def plift_def praise_def)
  then show ?thesis
    using run by simp
next
  case (Inr v)
  show ?thesis
  proof (cases "\<exists>chunks. agent_chunks ag t body = Inr chunks \<and> chunks \<noteq> []")
    case True
    then obtain chunks s1 where s1: "ab_workspaces (ss_db s1) = ab_workspaces (ss_db s)"
      "ab_members (ss_db s1) = ab_members (ss_db s)" "new_analysis ag env q t body d fingerprint s
        = run_agent_analysis env q t body d fingerprint (result_fingerprint (ag_hash ag) v) None v s1"
      using new_analysis_accepted [OF Inr] by meson
    have "repo_workspace (sq_actor q) (sq_workspace q) Editor (ss_db s1) = Inr w"
      using assms(1) repo_workspace_unchanged [OF s1(1,2)] by simp
    from run_agent_never_refuses [OF this, of env t body d fingerprint "result_fingerprint (ag_hash ag) v" None v e]
    show ?thesis
      using run s1(3) by simp
  next
    case False
    then obtain x where "index_source_text ag (an_stamp env) t body s = (Inl x, s)"
      by (cases "agent_chunks ag t body") (auto simp: index_source_text_def praise_def)
    then have "new_analysis ag env q t body d fingerprint s = (Inl x, s)"
      using Inr by (simp add: new_analysis_def pbind_def pget_def refuse_with_def plift_def preturn_def pseq_def)
    then show ?thesis
      using run by simp
  qed
qed

lemma replayed_analysis_refused:
  assumes "repo_workspace (sq_actor q) (sq_workspace q) Editor (ss_db s) = Inr w"
    and "replayed_analysis ag env q t body d fingerprint cp s = (Inl (Refused e), s')"
  shows "ss_log s' = ss_log s"
proof (cases "same_submission ag q fingerprint cp")
  case (Inl x)
  then show ?thesis
    using assms(2) by (simp add: replayed_analysis_def pbind_def refuse_with_def plift_def praise_def)
next
  case (Inr x)
  then show ?thesis
    using assms(2) run_agent_never_refuses [OF assms(1)]
    by (auto simp: replayed_analysis_def pbind_def refuse_with_def plift_def preturn_def split: if_splits) (metis fst_conv)+
qed

lemma submit_locked_refused:
  assumes "submit_analysis_locked ag env q s = (Inl (Refused e), s')"
  shows "ss_log s' = ss_log s"
proof (cases "repo_source (sq_actor q) (sq_workspace q) (sq_source q) Editor (ss_db s)")
  case (Inl x)
  then show ?thesis
    using assms by (simp add: submit_analysis_locked_def pbind_def pget_def refuse_with_def plift_def praise_def)
next
  case (Inr t)
  obtain w where w: "repo_workspace (sq_actor q) (sq_workspace q) Editor (ss_db s) = Inr w"
    using repo_source_Inr [OF Inr] by blast
  show ?thesis
    using assms Inr new_analysis_refused [OF w] replayed_analysis_refused [OF w]
    by (auto simp: submit_analysis_locked_def pbind_def pget_def refuse_with_def plift_def preturn_def praise_def Let_def
        split: sum.splits if_splits option.splits)
qed

section \<open>Validated results\<close>

lemma promoted_events_cover:
  assumes "c \<in> set cs" "context_event_kind (cx_kind c) = Some kind"
    "normalize_name uc (cx_title c) (entity_kind_value kind) \<noteq> []"
  shows "(kind, normalize_name uc (cx_title c) (entity_kind_value kind))
    \<in> existing \<union> event_key uc ` set (promoted_events uc existing cs)"
  using assms
proof (induction uc existing cs rule: promoted_events.induct)
  case (2 uc existing c' cs)
  have key: "event_key uc (event_of_context k x) = (k, normalize_name uc (cx_title x) (entity_kind_value k))" for k x
    by (simp add: event_key_def event_of_context_def)
  show ?case
  proof (cases "context_event_kind (cx_kind c')")
    case None
    then show ?thesis
      using 2(1) 2(4-6) by auto
  next
    case (Some k)
    show ?thesis
    proof (cases "normalize_name uc (cx_title c') (entity_kind_value k) = []
        \<or> (k, normalize_name uc (cx_title c') (entity_kind_value k)) \<in> existing")
      case True
      then show ?thesis
        using 2(2) [OF Some refl] 2(4-6) Some by (auto simp: Let_def)
    next
      case False
      then show ?thesis
        using 2(3) [OF Some refl] 2(4-6) Some by (auto simp: Let_def key)
    qed
  qed
qed simp

lemma filter_one_unique:
  assumes "length (filter P xs) = 1"
  shows "\<exists>!n. n < length xs \<and> P (xs ! n)"
proof -
  have "card {n. n < length xs \<and> P (xs ! n)} = 1"
    using assms by (simp add: length_filter_conv_card)
  then obtain n where n: "{n. n < length xs \<and> P (xs ! n)} = {n}"
    by (rule card_1_singletonE)
  show ?thesis
  proof (rule ex1I [of _ n])
    show "n < length xs \<and> P (xs ! n)"
      using n by blast
  next
    fix m
    assume "m < length xs \<and> P (xs ! m)"
    then show "m = n"
      using n by blast
  qed
qed

lemma without_diagnostics_sel [simp]:
  "xr_entities (without_diagnostics r) = xr_entities r" "xr_events (without_diagnostics r) = xr_events r"
  "xr_relations (without_diagnostics r) = xr_relations r" "xr_contexts (without_diagnostics r) = xr_contexts r"
  "xr_classification (without_diagnostics r) = xr_classification r"
  "xr_warnings (without_diagnostics r) = []" "xr_usage (without_diagnostics r) = []"
  "item_views (without_diagnostics r) = item_views r" "end_names (without_diagnostics r) = end_names r"
  by (simp_all add: without_diagnostics_def item_views_def end_names_def)

lemma promote_sel [simp]:
  "xr_entities (promote_structured_contexts uc r) = xr_entities r"
  "xr_relations (promote_structured_contexts uc r) = xr_relations r"
  "xr_contexts (promote_structured_contexts uc r) = xr_contexts r"
  "xr_events (promote_structured_contexts uc r) = xr_events r
     @ promoted_events uc (event_key uc ` set (xr_events r)) (xr_contexts r)"
  by (simp_all add: promote_structured_contexts_def)

lemma check_result_Inr:
  assumes "check_result uc s body decided p = Inr ()"
  shows "length (xr_entities p) \<le> 100" "length (xr_events p) \<le> 100" "length (xr_relations p) \<le> 100"
    "length (xr_contexts p) \<le> 100" "check_items uc body (item_views p) = Inr ()"
    "\<forall>e \<in> set (xr_entities p). \<forall>k \<in> set (en_identifiers e). identifier_ok uc body k"
    "\<forall>q \<in> set (xr_relations p). end_ok uc p (re_source q) \<and> end_ok uc p (re_target q)"
    "\<forall>e \<in> set (xr_events p). supersession_ok uc p decided e"
  using assms unfolding check_result_def max_items_per_group_def
  by (simp_all add: rbind_Inr_iff not_less split: if_splits)

lemma supersession_ok_without: "supersession_ok uc (without_diagnostics p) decided e = supersession_ok uc p decided e"
proof -
  have "known_decision_names uc (without_diagnostics p) decided = known_decision_names uc p decided"
    by (simp add: known_decision_names_def)
  then show ?thesis
    by (simp add: supersession_ok_def cong: option.case_cong)
qed

lemma end_ok_unique:
  "end_ok uc p name \<Longrightarrow> \<exists>!n. n < length (end_names p) \<and> named_by uc name (end_names p ! n)"
  unfolding end_ok_def by (rule filter_one_unique)

lemma quotes_present:
  assumes "check_items uc body items = Inr ()" "(refs, texts) \<in> set items"
  shows "refs \<noteq> [] \<and> (\<forall>ref \<in> set refs. \<not> blank ref
    \<and> contains (uc_casefold uc (squash ref)) (uc_casefold uc (squash body)))"
  using assms unfolding check_items_Inr quote_ok_def by blast

section \<open>Properties\<close>

text \<open>C21: Every commit and every graph write of an agent's submission is a step its source may take: the
  step the server's processor keeps to. So a submission never touches another source, rewrites what was
  reviewed, applies the context at most once and only with its checkpoint, and writes the graph only
  after that, whatever fails and wherever it stops.\<close>

theorem submission_durable_steps:
  assumes "submit_analysis ag env q earlier (open_session d) = (r, s')"
    and "\<forall>s. get_source (sq_source q) (fst d) = Some s \<longrightarrow> so_status s \<noteq> Succeeded
      \<or> (\<exists>cp. so_analysis_checkpoint s = Some cp \<and> cp_phase cp = AnalysisDone)"
  shows "ss_log s' \<noteq> [] \<and> hd (ss_log s') = d \<and> (\<forall>n. Suc n < length (ss_log s') \<longrightarrow>
    durable_step (sq_source q) (ss_log s' ! n) (ss_log s' ! Suc n))"
proof -
  have "keeps (sq_source q) (submittable_at (sq_source q)) (submit_analysis ag env q earlier) (\<lambda>_ _ _. True)"
    unfolding submit_analysis_def by (rule keeps_refused_bind) (rule keeps_submit [OF refl])
  moreover have "durable_step (sq_source q) d d \<and> submittable_at (sq_source q) d d"
    using assms(2) by (simp add: submittable_at_def submittable_def)
  ultimately have "successively (durable_step (sq_source q)) (ss_log s') \<and> ss_log s' \<noteq> [] \<and> hd (ss_log s') = d"
    using along_open [where R = "durable_step (sq_source q)" and d = d and s' = s' and r = r
        and m = "submit_analysis ag env q earlier" and Q = "\<lambda>_ d v. durable_step (sq_source q) d v \<and> True"
        and P = "\<lambda>d v. durable_step (sq_source q) d v \<and> submittable_at (sq_source q) d v"] assms(1)
    unfolding keeps_def by blast
  then show ?thesis
    by (simp add: successively_conv_nth)
qed


text \<open>C22: In an accepted extraction every item quotes its source, no entity claims a directory identifier or
  one the text lacks, each end of a relation names exactly one entity or event, every decision, issue,
  task and event among the contexts has an event of its kind and name, a supersession names a known
  decision, and nothing the agent says about warnings or usage remains.\<close>

theorem validated_extraction_grounded:
  assumes "validate_extraction uc sub s body decided = Inr v"
  shows "(\<forall>(refs, texts) \<in> set (item_views v). refs \<noteq> [] \<and> (\<forall>ref \<in> set refs. \<not> blank ref
        \<and> contains (uc_casefold uc (squash ref)) (uc_casefold uc (squash body))))
    \<and> (\<forall>e \<in> set (xr_entities v). \<forall>k \<in> set (en_identifiers e). \<not> prefix (lit ''directory:'') (uc_casefold uc k)
        \<and> contains (uc_casefold uc (squash k)) (uc_casefold uc (squash body)))
    \<and> (\<forall>q \<in> set (xr_relations v). \<forall>name \<in> {re_source q, re_target q}.
        \<exists>!n. n < length (end_names v) \<and> named_by uc name (end_names v ! n))
    \<and> (\<forall>c \<in> set (xr_contexts v). \<forall>kind. context_event_kind (cx_kind c) = Some kind
        \<longrightarrow> normalize_name uc (cx_title c) (entity_kind_value kind) = []
          \<or> (\<exists>e \<in> set (xr_events v). event_key uc e = (kind, normalize_name uc (cx_title c) (entity_kind_value kind))))
    \<and> (\<forall>e \<in> set (xr_events v). supersession_ok uc v decided e)
    \<and> length (item_views v) \<le> 400 \<and> xr_warnings v = [] \<and> xr_usage v = []"
proof -
  obtain r where v: "v = without_diagnostics (promote_structured_contexts uc r)"
    and checked: "check_result uc s body decided (promote_structured_contexts uc r) = Inr ()"
    using validate_Inr [OF assms] by blast
  let ?p = "promote_structured_contexts uc r"
  note ok = check_result_Inr [OF checked]
  show ?thesis
  proof (intro conjI)
    show "\<forall>(refs, texts) \<in> set (item_views v). refs \<noteq> [] \<and> (\<forall>ref \<in> set refs. \<not> blank ref
        \<and> contains (uc_casefold uc (squash ref)) (uc_casefold uc (squash body)))"
      using quotes_present [OF ok(5)] by (auto simp only: v without_diagnostics_sel)
    show "\<forall>e \<in> set (xr_entities v). \<forall>k \<in> set (en_identifiers e). \<not> prefix (lit ''directory:'') (uc_casefold uc k)
        \<and> contains (uc_casefold uc (squash k)) (uc_casefold uc (squash body))"
      using ok(6) by (simp only: v without_diagnostics_sel identifier_ok_def)
    show "\<forall>q \<in> set (xr_relations v). \<forall>name \<in> {re_source q, re_target q}.
        \<exists>!n. n < length (end_names v) \<and> named_by uc name (end_names v ! n)"
    proof (intro ballI)
      fix q name
      assume "q \<in> set (xr_relations v)" "name \<in> {re_source q, re_target q}"
      then have "end_ok uc ?p name"
        using ok(7) by (auto simp only: v without_diagnostics_sel)
      then show "\<exists>!n. n < length (end_names v) \<and> named_by uc name (end_names v ! n)"
        unfolding v without_diagnostics_sel by (rule end_ok_unique)
    qed
    show "\<forall>c \<in> set (xr_contexts v). \<forall>kind. context_event_kind (cx_kind c) = Some kind
        \<longrightarrow> normalize_name uc (cx_title c) (entity_kind_value kind) = []
          \<or> (\<exists>e \<in> set (xr_events v). event_key uc e = (kind, normalize_name uc (cx_title c) (entity_kind_value kind)))"
      using promoted_events_cover [of _ "xr_contexts r" _ uc "event_key uc ` set (xr_events r)"]
      by (simp only: v without_diagnostics_sel promote_sel set_append) (force simp: image_iff)
    show "\<forall>e \<in> set (xr_events v). supersession_ok uc v decided e"
      using ok(8) by (simp only: v without_diagnostics_sel supersession_ok_without)
    show "length (item_views v) \<le> 400"
      using ok(1-4) by (simp only: v without_diagnostics_sel) (simp add: item_views_def)
  qed (simp_all add: v)
qed

lemma resubmission:
  assumes "accept_analysis ag uc q s body d db = Inr v" "sb_result (sq_submission q) = Some r"
  shows "v = without_diagnostics (promote_structured_contexts uc r)"
    "v = without_diagnostics r \<longleftrightarrow> promoted_events uc (event_key uc ` set (xr_events r)) (xr_contexts r) = []"
proof -
  show v: "v = without_diagnostics (promote_structured_contexts uc r)"
    using assms by (auto simp: accept_analysis_def Let_def split: if_splits elim!: validate_Inr)
  show "v = without_diagnostics r
      \<longleftrightarrow> promoted_events uc (event_key uc ` set (xr_events r)) (xr_contexts r) = []"
  proof
    assume "v = without_diagnostics r"
    from arg_cong [OF this, of xr_events]
    show "promoted_events uc (event_key uc ` set (xr_events r)) (xr_contexts r) = []"
      by (simp add: v)
  qed (simp add: v promote_id [symmetric])
qed

text \<open>C24: The checkpoint of an accepted submission recognises the same submission when it comes again, with a
  hash that tells the two results apart, exactly if no context was promoted to an event: the stored hash
  is taken after promotion, the replay's before it. Otherwise the repetition, and with it the
  continuation of an interrupted analysis, is refused as a conflict.\<close>

theorem identical_resubmission:
  assumes "accept_analysis ag uc q s body d db = Inr v" "sb_result (sq_submission q) = Some r"
    and "result_fingerprint (ag_hash ag) v = result_fingerprint (ag_hash ag) (without_diagnostics r)
      \<Longrightarrow> v = without_diagnostics r"
  shows "same_submission ag q fingerprint (agent_checkpoint q fingerprint (result_fingerprint (ag_hash ag) v) x graph fp)
    = (if promoted_events uc (event_key uc ` set (xr_events r)) (xr_contexts r) = [] then Inr ()
       else Inl (workflow ''analysis_conflict'' 409))"
  using resubmission(2) [OF assms(1,2)] assms(2,3)
  by (auto simp: same_submission_def agent_checkpoint_def)

lemma lock_key_high_bits: "lock_key i = high_bits i"
  using uint_lt2p [of i] by (simp add: lock_key_def high_bits_def unsigned_drop_bit_eq take_bit_eq_mod mod_pos_pos_trivial)


section \<open>Concrete submissions\<close>

definition example_agent_env :: agent_env where
  "example_agent_env = \<lparr>ag_hash = \<lparr>hs_sha256 = (\<lambda>t. t), hs_dumps_sorted = (\<lambda>_. []),
     hs_result_text = (\<lambda>r. map (\<lambda>_. 0) (xr_events r))\<rparr>, ag_date_iso = (\<lambda>_. []), ag_uuid5 = (\<lambda>_. toy_uuid5),
     ag_chunk_size = 1200, ag_chunk_overlap = 200\<rparr>"

definition example_result :: extraction_result where
  "example_result = \<lparr>xr_classification = \<lparr>cl_source_type = StOther, cl_language = [], cl_topics = []\<rparr>,
     xr_entities = [], xr_events = [], xr_relations = [],
     xr_contexts = [\<lparr>cx_kind = CtxDecision, cx_title = lit ''ship'', cx_body = lit ''ship it'', cx_occurred_at = None,
       cx_source_refs = [lit ''ship it'']\<rparr>], xr_warnings = [], xr_usage = []\<rparr>"

definition example_request :: "pystr \<Rightarrow> submit_request" where
  "example_request fp = \<lparr>sq_actor = 2, sq_workspace = 1, sq_source = 9, sq_revision = 0, sq_fingerprint = fp,
     sq_submission = \<lparr>sb_bytes = 300, sb_result = Some example_result\<rparr>, sq_provenance = []\<rparr>"

definition example_agent_source :: source_row where
  "example_agent_source = example_source\<lparr>so_analysis_mode := AgentMode, so_status := AwaitingAgent,
     so_content_text := Some (lit ''we ship it''), so_analysis_checkpoint := Some (example_checkpoint\<lparr>
       cp_result := example_result, cp_agent := Some \<lparr>am_context_fingerprint = [], am_result_hash = []\<rparr>\<rparr>)\<rparr>"

definition example_agent_state :: "app_db \<times> resolved_graph list" where
  "example_agent_state = (empty_db\<lparr>ab_workspaces := [\<lparr>wk_id = 1, wk_owner_id = 2, wk_name = [], wk_model_settings = [],
     wk_created_at = 0\<rparr>], ab_sources := [example_agent_source]\<rparr>, [])"

lemma example_validated:
  "validate_extraction ascii_unicode \<lparr>sb_bytes = 300, sb_result = Some example_result\<rparr> example_source
     (lit ''we ship it'') [] = Inr (example_result\<lparr>xr_events := [event_of_context Decision (hd (xr_contexts example_result))]\<rparr>)"
  by code_simp

theorem validated_extraction_grounded_witness:
  "\<exists>v. validate_extraction ascii_unicode \<lparr>sb_bytes = 300, sb_result = Some example_result\<rparr> example_source
      (lit ''we ship it'') [] = Inr v \<and> length (item_views v) = 2
    \<and> (\<exists>e \<in> set (xr_events v). event_key ascii_unicode e = (Decision, lit ''ship'')) \<and> xr_warnings v = []"
proof -
  let ?v = "example_result\<lparr>xr_events := [event_of_context Decision (hd (xr_contexts example_result))]\<rparr>"
  have norm: "normalize_name ascii_unicode (lit ''ship'') (entity_kind_value Decision) = lit ''ship''"
    by code_simp
  have "\<forall>c \<in> set (xr_contexts ?v). \<forall>kind. context_event_kind (cx_kind c) = Some kind
      \<longrightarrow> normalize_name ascii_unicode (cx_title c) (entity_kind_value kind) = []
        \<or> (\<exists>e \<in> set (xr_events ?v). event_key ascii_unicode e
            = (kind, normalize_name ascii_unicode (cx_title c) (entity_kind_value kind)))"
    using validated_extraction_grounded [OF example_validated] by blast
  moreover have "\<lparr>cx_kind = CtxDecision, cx_title = lit ''ship'', cx_body = lit ''ship it'', cx_occurred_at = None,
      cx_source_refs = [lit ''ship it'']\<rparr> \<in> set (xr_contexts ?v)"
    by (simp add: example_result_def)
  moreover have "lit ''ship'' \<noteq> []"
    by (simp add: lit_def)
  ultimately have "\<exists>e \<in> set (xr_events ?v). event_key ascii_unicode e = (Decision, lit ''ship'')"
    using norm by fastforce
  then show ?thesis
    by (intro exI [of _ ?v]) (simp add: example_validated item_views_def, simp add: example_result_def)
qed

lemma example_accepted:
  "accept_analysis example_agent_env ascii_unicode (example_request []) (example_source\<lparr>so_analysis_mode := AgentMode\<rparr>)
     (lit ''we ship it'') \<lparr>dy_project = None, dy_projects = [], dy_people = [], dy_roster = []\<rparr> empty_db
    = Inr (example_result\<lparr>xr_events := [event_of_context Decision (hd (xr_contexts example_result))]\<rparr>)"
  by code_simp

theorem identical_resubmission_witness:
  "\<exists>v. accept_analysis example_agent_env ascii_unicode (example_request []) (example_source\<lparr>so_analysis_mode := AgentMode\<rparr>)
      (lit ''we ship it'') \<lparr>dy_project = None, dy_projects = [], dy_people = [], dy_roster = []\<rparr> empty_db = Inr v
    \<and> same_submission example_agent_env (example_request []) [] (agent_checkpoint (example_request []) []
        (result_fingerprint (ag_hash example_agent_env) v) v
        \<lparr>rg_entities = [], rg_relations = [], rg_warnings = [], rg_supersessions = []\<rparr> [])
      = Inl (workflow ''analysis_conflict'' 409)"
proof -
  let ?v = "example_result\<lparr>xr_events := [event_of_context Decision (hd (xr_contexts example_result))]\<rparr>"
  have r: "sb_result (sq_submission (example_request [])) = Some example_result"
    by (simp add: example_request_def)
  have promoted: "promoted_events ascii_unicode (event_key ascii_unicode ` set (xr_events example_result))
      (xr_contexts example_result) \<noteq> []"
    by code_simp
  have "result_fingerprint (ag_hash example_agent_env) ?v
      \<noteq> result_fingerprint (ag_hash example_agent_env) (without_diagnostics example_result)"
    by code_simp
  then show ?thesis
    using identical_resubmission [OF example_accepted r] promoted example_accepted by auto
qed

lemma example_no_events: "xr_events example_result = []"
  by (simp add: example_result_def)

lemma example_text: "\<not> blank (lit ''we ship it'')"
  by code_simp

lemma example_canonical:
  "canonicalize_directory_entities (rt_unicode toy_runtime) example_result
     (Some \<lparr>dy_project = None, dy_projects = [], dy_people = [], dy_roster = []\<rparr>) (lit ''we ship it'')
   = (example_result, {})"
  by code_simp

lemmas submit_defs = submit_analysis_def submit_analysis_locked_def run_defs refuse_with_def repo_source_def
  repo_workspace_def agent_role_def example_agent_state_def example_request_def example_agent_source_def
  example_source_def example_checkpoint_def empty_db_def workflow_text_def Let_def replayed_analysis_def
  same_submission_def source_directory_def agent_directory_snapshot_def mentioned_people_def linked_projects_def
  active_people_def active_projects_def snapshot_def agent_source_fingerprint_def result_fingerprint_def
  example_agent_env_def

lemma example_continuation:
  "\<exists>sub d1 d2 s'. submit_analysis example_agent_env example_analysis_env (example_request [])
      (fst example_agent_state) (open_session example_agent_state)
    = (Inr sub, s') \<and> ss_log s' = [example_agent_state, d1, d2] \<and> snd d1 \<noteq> [] \<and> \<not> as_already_applied sub
    \<and> map_option so_status (get_source 9 (fst d2)) = Some Succeeded"
  by (simp add: submit_defs example_text example_canonical example_no_events run_agent_analysis_def analyze_source_def
      obtain_extraction_def map_error_def finish_agent_def write_graph_def pgraph_def example_analysis_env_def
      agent_input_def agent_done_def put_source_def add_audit_event_def)

lemma example_conflict:
  "\<exists>s'. submit_analysis example_agent_env example_analysis_env (example_request [1])
      (fst example_agent_state) (open_session example_agent_state)
    = (Inl (Refused (workflow ''analysis_conflict'' 409)), s')"
  by (simp add: submit_defs example_text)

theorem submission_durable_steps_witness:
  "\<exists>d1 d2. durable_step 9 example_agent_state d1 \<and> durable_step 9 d1 d2 \<and> snd d1 \<noteq> snd example_agent_state
    \<and> map_option so_status (get_source 9 (fst d2)) = Some Succeeded"
proof -
  obtain sub d1 d2 s' where run: "submit_analysis example_agent_env example_analysis_env (example_request [])
      (fst example_agent_state) (open_session example_agent_state) = (Inr sub, s')"
    "ss_log s' = [example_agent_state, d1, d2]" "snd d1 \<noteq> []"
    "map_option so_status (get_source 9 (fst d2)) = Some Succeeded"
    using example_continuation by blast
  have nine: "sq_source (example_request []) = 9"
    by (simp add: example_request_def)
  have row: "\<forall>s. get_source (sq_source (example_request [])) (fst example_agent_state) = Some s \<longrightarrow> so_status s \<noteq> Succeeded
      \<or> (\<exists>cp. so_analysis_checkpoint s = Some cp \<and> cp_phase cp = AnalysisDone)"
    by (simp add: nine example_agent_state_def example_agent_source_def get_source_def example_source_def)
  have steps: "\<forall>n. Suc n < 3 \<longrightarrow> durable_step 9 (ss_log s' ! n) (ss_log s' ! Suc n)"
    using submission_durable_steps [OF run(1) row] by (simp add: run(2) nine)
  have "snd example_agent_state = []"
    by (simp add: example_agent_state_def)
  then show ?thesis
    using spec [OF steps, of 0] spec [OF steps, of 1] run(2-4)
    by (intro exI [of _ d1] exI [of _ d2]) simp
qed


end
