(* ===== verification/Uploads.thy ===== *)
theory Uploads
  imports Review
begin

text \<open>
  How a source comes to a workspace over the web (\<^verbatim>\<open>api/workspaces/router.py\<close>, \<^verbatim>\<open>ingestion/application/source_upload.py\<close>
  and \<^verbatim>\<open>upload_validation.py\<close>): the checks of an uploaded document or recording, the object in the storage, and the
  row with its links, its audit event and its job. The storage, the ZIP reader and the UTF-8 decoder are arguments;
  the JSON of the form fields is parsed before. The second access check of an upload repeats the first and is left out.
\<close>

section \<open>What a file may be\<close>

definition document_mimes :: "pystr \<Rightarrow> pystr list option" where
  "document_mimes extension =
     (if extension = lit ''.pdf'' then Some [lit ''application/pdf'', lit ''application/octet-stream'']
      else if extension = lit ''.docx'' then Some [lit ''application/vnd.openxmlformats-officedocument.wordprocessingml.document'',
        lit ''application/zip'', lit ''application/octet-stream'']
      else if extension = lit ''.txt'' then Some [lit ''text/plain'', lit ''application/octet-stream'']
      else if extension \<in> {lit ''.md'', lit ''.markdown''} then Some [lit ''text/markdown'', lit ''text/plain'', lit ''application/octet-stream'']
      else None)"

definition audio_mimes :: "(pystr \<times> pystr) list" where
  "audio_mimes = map (\<lambda>(m, e). (lit m, lit e)) [(''audio/webm'', ''.webm''), (''video/webm'', ''.webm''), (''audio/mp4'', ''.mp4''),
     (''video/mp4'', ''.mp4''), (''audio/x-m4a'', ''.mp4''), (''audio/m4a'', ''.mp4''), (''audio/wav'', ''.wav''), (''audio/x-wav'', ''.wav''),
     (''audio/mpeg'', ''.mp3''), (''audio/mp3'', ''.mp3''), (''audio/ogg'', ''.ogg''), (''audio/flac'', ''.flac''), (''audio/x-flac'', ''.flac'')]"

record upload_env =
  up_queueing :: queueing
  up_max_bytes :: nat
  up_token :: pystr
  up_post :: "source_row \<Rightarrow> 8 word list \<Rightarrow> int option"
  up_members :: "8 word list \<Rightarrow> pystr list option"
  up_decode_sig :: "8 word list \<Rightarrow> pystr option"
  up_encode :: "pystr \<Rightarrow> 8 word list"
  up_title :: "instant \<Rightarrow> pystr"

definition mime_of :: "unicode \<Rightarrow> pystr option \<Rightarrow> pystr" where
  "mime_of uc content_type = (case content_type of None \<Rightarrow> [] | Some c \<Rightarrow> uc_lower uc (strip (takeWhile (\<lambda>x. x \<noteq> 59) c)))"

definition extension_of :: "unicode \<Rightarrow> pystr \<Rightarrow> pystr" where
  "extension_of uc filename = uc_lower uc (path_suffix filename)"

definition bytes_of :: "string \<Rightarrow> 8 word list" where
  "bytes_of s = map of_nat (lit s)"

definition document_valid :: "upload_env \<Rightarrow> pystr \<Rightarrow> 8 word list \<Rightarrow> bool" where
  "document_valid up extension content =
     (if extension = lit ''.pdf'' then prefix (bytes_of ''%PDF-'') content
      else if extension = lit ''.docx'' then (case up_members up content of None \<Rightarrow> False
        | Some members \<Rightarrow> {lit ''[Content_Types].xml'', lit ''_rels/.rels'', lit ''word/document.xml''} \<subseteq> set members)
      else (case up_decode_sig up content of None \<Rightarrow> False | Some t \<Rightarrow> 0 \<notin> set t))"

definition validate_document ::
  "unicode \<Rightarrow> upload_env \<Rightarrow> pystr \<Rightarrow> pystr option \<Rightarrow> 8 word list \<Rightarrow> http_error + unit" where
  "validate_document uc up filename content_type content = (let extension = extension_of uc filename in
     case document_mimes extension of
       None \<Rightarrow> Inl (http 415 ''Supported document types: PDF, DOCX, TXT, MD'')
     | Some allowed \<Rightarrow> if mime_of uc content_type \<noteq> [] \<and> mime_of uc content_type \<notin> set allowed
         then Inl (http 415 ''Document content type does not match its extension'')
         else guard (document_valid up extension content) (http 422 ''Document content does not match its format''))"

definition audio_container :: "8 word list \<Rightarrow> pystr option" where
  "audio_container content =
     (if prefix [26, 69, 223, 163] content then Some (lit ''.webm'')
      else if 12 \<le> length content \<and> take 4 (drop 4 content) = bytes_of ''ftyp'' then Some (lit ''.mp4'')
      else if prefix (bytes_of ''RIFF'') content \<and> take 4 (drop 8 content) = bytes_of ''WAVE'' then Some (lit ''.wav'')
      else if prefix (bytes_of ''ID3'') content
        \<or> 2 \<le> length content \<and> content ! 0 = 255 \<and> drop_bit 5 (content ! 1) = 7 then Some (lit ''.mp3'')
      else if prefix (bytes_of ''OggS'') content then Some (lit ''.ogg'')
      else if prefix (bytes_of ''fLaC'') content then Some (lit ''.flac'') else None)"

definition validate_recording ::
  "unicode \<Rightarrow> pystr \<Rightarrow> pystr option \<Rightarrow> 8 word list \<Rightarrow> http_error + pystr" where
  "validate_recording uc filename content_type content = (case map_of audio_mimes (mime_of uc content_type) of
     None \<Rightarrow> Inl (http 415 ''Unsupported recording content type'')
   | Some declared \<Rightarrow> if audio_container content \<noteq> Some declared
       then Inl (http 422 ''Recording content does not match its content type'')
       else let extension = extension_of uc filename in
         if extension \<noteq> [] \<and> extension \<noteq> declared
           \<and> \<not> (declared = lit ''.mp4'' \<and> extension \<in> {lit ''.webm'', lit ''.m4a''})
         then Inl (http 422 ''Recording filename does not match its format'') else Inr declared)"

section \<open>Storing a file\<close>

text \<open>A status is the answer of the storage; \<open>None\<close> is a connection that failed.\<close>

definition store_source_bytes :: "upload_env \<Rightarrow> source_row \<Rightarrow> 8 word list \<Rightarrow> http_error + unit" where
  "store_source_bytes up s content = (if up_token up = [] then Inl (http 503 ''Storage is not configured'')
     else (case up_post up s content of
         None \<Rightarrow> Inl (http 503 ''Storage unavailable'')
       | Some code \<Rightarrow> guard (code \<in> {200, 201}) (http 502 ''Storage upload failed'')))"

definition fresh_source ::
  "stamp \<Rightarrow> workspace_row \<Rightarrow> source_kind \<Rightarrow> pystr \<Rightarrow> pystr \<Rightarrow> nat \<Rightarrow> source_row" where
  "fresh_source st w kind title content_type n =
     \<lparr>so_id = st_fresh st 0, so_workspace_id = wk_id w, so_owner_id = wk_owner_id w, so_kind = kind, so_title = title,
      so_object_path = lit ''pending'', so_content_type = content_type, so_size_bytes = int n, so_analysis_mode = ServerMode,
      so_transcript_source = None, so_duration_seconds = None, so_transcript_text = None, so_raw_transcript_text = None,
      so_raw_utterances = [], so_review_utterances = [], so_review_state = None, so_review_revision = 0, so_project_id = None,
      so_association_revision = 0, so_confirmed_at = None, so_confirmed_snapshot = None, so_content_text = None,
      so_analysis_checkpoint = None, so_status = Queued, so_processing_stage = Uploaded, so_progress = 0,
      so_error_message = None, so_created_at = st_now st\<rparr>"

definition object_path_of :: "source_row \<Rightarrow> pystr \<Rightarrow> pystr" where
  "object_path_of s filename = uuid_str (so_owner_id s) @ [47] @ uuid_str (so_workspace_id s) @ [47] @ uuid_str (so_id s)
     @ [47] @ filename"

record upload_file =
  uf_filename :: "pystr option"
  uf_content_type :: "pystr option"
  uf_content :: "8 word list"

text \<open>The name a file gets: a default, no separators.\<close>

definition stored_name :: "source_kind \<Rightarrow> pystr option \<Rightarrow> pystr" where
  "stored_name kind filename = map (\<lambda>c. if c \<in> {47, 92} then 95 else c) (case truthy filename of
     Some f \<Rightarrow> f | None \<Rightarrow> if kind = MeetingKind then lit ''recording.webm'' else lit ''document'')"

definition checked_name ::
  "unicode \<Rightarrow> upload_env \<Rightarrow> source_kind \<Rightarrow> upload_file \<Rightarrow> http_error + pystr" where
  "checked_name uc up kind f = (let filename = stored_name kind (uf_filename f) in
     if 255 < length filename \<or> (\<exists>c \<in> set filename. c < 32) then Inl (http 422 ''Invalid filename'')
     else if kind = DocumentKind then rbind (validate_document uc up filename (uf_content_type f) (uf_content f)) (\<lambda>_. Inr filename)
     else rbind (validate_recording uc filename (uf_content_type f) (uf_content f)) (\<lambda>extension.
       Inr (if suffix (lit ''.webm'') (uc_lower uc filename) \<and> extension = lit ''.mp4''
         then take (length filename - 5) filename @ lit ''.mp4'' else filename)))"

definition upload ::
  "unicode \<Rightarrow> upload_env \<Rightarrow> stamp \<Rightarrow> workspace_row \<Rightarrow> source_kind \<Rightarrow> upload_file \<Rightarrow> http_error + source_row" where
  "upload uc up st w kind f =
     (if uf_content f = [] then Inl (http 400 ''Empty file'')
      else if up_max_bytes up < length (uf_content f) then Inl (http 413 ''File is too large'')
      else rbind (checked_name uc up kind f) (\<lambda>filename.
        let s = fresh_source st w kind filename (case truthy (uf_content_type f) of
              Some c \<Rightarrow> c | None \<Rightarrow> lit ''application/octet-stream'') (length (uf_content f));
            s' = s\<lparr>so_object_path := object_path_of s filename\<rparr>
        in rbind (store_source_bytes up s' (uf_content f)) (\<lambda>_. Inr s')))"

section \<open>Rows and jobs\<close>

text \<open>The columns of the table are bounded and the path is unique; a violation is an internal error.\<close>

definition add_source :: "source_row \<Rightarrow> app_db \<Rightarrow> http_error + app_db" where
  "add_source s db = (if length (so_title s) \<le> 255 \<and> length (so_content_type s) \<le> 120
       \<and> (\<forall>r \<in> set (ab_sources db). so_object_path r \<noteq> so_object_path s)
     then Inr (db\<lparr>ab_sources := ab_sources db @ [s]\<rparr>) else Inl (http 500 ''DBAPIError''))"

definition created_event :: "uuid \<Rightarrow> auth_user \<Rightarrow> source_row \<Rightarrow> (pystr \<times> json) list \<Rightarrow> audit_event" where
  "created_event ws user s extra = user_event ws user ''source.created'' ''source'' (so_id s)
     ((lit ''kind'', JStr (kind_value (so_kind s))) # extra) None"

definition persist_and_enqueue_source ::
  "stamp \<Rightarrow> queueing \<Rightarrow> source_row \<Rightarrow> app_db \<Rightarrow> (http_error + job_response) \<times> app_db" where
  "persist_and_enqueue_source st q s db =
     (if qe_postgres q then (Inr (job_payload s), db\<lparr>ab_jobs :=
        enqueue_source (st_now st) (so_id s) (so_processing_stage s) False (ab_jobs db)\<rparr>)
      else if qe_publish q (so_id s) then (Inr (job_payload s), db)
      else (Inl (http 503 ''Processing queue unavailable''),
        put_source (s\<lparr>so_status := Failed, so_error_message := Some (lit ''Processing queue unavailable'')\<rparr>) db))"

definition upload_document_body ::
  "unicode \<Rightarrow> upload_env \<Rightarrow> stamp \<Rightarrow> auth_user \<Rightarrow> upload_file \<Rightarrow> workspace_row \<Rightarrow> (http_error + job_response) body" where
  "upload_document_body uc up st user f w db = rbind (upload uc up st w DocumentKind f) (\<lambda>s.
     rbind (add_source s db) (\<lambda>db1.
       Inr (persist_and_enqueue_source st (up_queueing up) s (add_audit_event st (created_event (wk_id w) user s []) db1))))"

definition upload_document ::
  "unicode \<Rightarrow> upload_env \<Rightarrow> stamp \<Rightarrow> uuid \<Rightarrow> auth_user \<Rightarrow> upload_file \<Rightarrow> job_response request" where
  "upload_document uc up st ws user f =
     after_commit (\<lambda>r _. r) (owned_workspace uc st ws user Editor (upload_document_body uc up st user f))"

definition selected_projects :: "uuid option \<Rightarrow> uuid list option \<Rightarrow> http_error + uuid list" where
  "selected_projects project projects = (let ids = (case projects of Some is \<Rightarrow> is
        | None \<Rightarrow> (case project of Some i \<Rightarrow> [i] | None \<Rightarrow> [])) in
     if \<not> distinct ids \<or> (project \<noteq> None \<and> (ids = [] \<or> Some (hd ids) \<noteq> project))
     then Inl (http 422 ''Invalid project selection'') else Inr ids)"

text \<open>A form field that is missing, cannot be parsed, or holds a value.\<close>

datatype 'a form_field = Missing | Malformed | Parsed 'a

record recording_form =
  rf_file :: upload_file
  rf_live_draft :: "utterance list form_field"
  rf_project_id :: "uuid option"
  rf_project_ids :: "uuid list form_field"

definition form_projects :: "recording_form \<Rightarrow> http_error + uuid list" where
  "form_projects b = (case rf_project_ids b of
     Missing \<Rightarrow> selected_projects (rf_project_id b) None
   | Malformed \<Rightarrow> Inl (http 422 ''Invalid projectIds'')
   | Parsed ids \<Rightarrow> selected_projects (rf_project_id b) (Some ids))"

definition draft_utterances :: "utterance list form_field \<Rightarrow> http_error + utterance list" where
  "draft_utterances draft = (case draft of
     Missing \<Rightarrow> Inr []
   | Malformed \<Rightarrow> Inl (http 422 ''Invalid live draft'')
   | Parsed us \<Rightarrow> if 1000 < length us then Inl (http 422 ''Invalid live draft'')
       else (case validate_all review_utterance us of
           None \<Rightarrow> Inl (http 422 ''Invalid live draft'')
         | Some checked \<Rightarrow> rbind (guard (distinct (map ut_id checked)) (http 422 ''Duplicate utterance ID'')) (\<lambda>_. Inr checked)))"

definition recording_of :: "uuid list \<Rightarrow> utterance list \<Rightarrow> source_row \<Rightarrow> source_row" where
  "recording_of ids us s = s\<lparr>so_transcript_source := Some FromServer, so_review_state := Some RvTranscribing,
     so_project_id := (case ids of i # _ \<Rightarrow> Some i | [] \<Rightarrow> None), so_review_utterances := us\<rparr>"

definition projects_exist :: "uuid list \<Rightarrow> workspace_row \<Rightarrow> app_db \<Rightarrow> http_error + unit" where
  "projects_exist ids w db = rbind (traverse (\<lambda>i. active_project (Some i) (wk_id w) (wk_owner_id w) db) ids) (\<lambda>_. Inr ())"

definition upload_recording_body ::
  "unicode \<Rightarrow> upload_env \<Rightarrow> stamp \<Rightarrow> auth_user \<Rightarrow> recording_form \<Rightarrow> uuid list \<Rightarrow> workspace_row \<Rightarrow> (http_error + job_response) body" where
  "upload_recording_body uc up st user b ids w db = rbind (projects_exist ids w db) (\<lambda>_.
     rbind (draft_utterances (rf_live_draft b)) (\<lambda>us.
     rbind (upload uc up st w MeetingKind (rf_file b)) (\<lambda>s0.
     let s = recording_of ids us s0 in
     rbind (add_source s db) (\<lambda>db1.
     rbind (replace_projects st s ids (add_audit_event st (created_event (wk_id w) user s []) db1)) (\<lambda>(s', db2).
       Inr (persist_and_enqueue_source st (up_queueing up) s' db2))))))"

definition upload_recording ::
  "unicode \<Rightarrow> upload_env \<Rightarrow> stamp \<Rightarrow> uuid \<Rightarrow> auth_user \<Rightarrow> recording_form \<Rightarrow> job_response request" where
  "upload_recording uc up st ws user b db = (case form_projects b of
     Inl e \<Rightarrow> (Inl e, db)
   | Inr ids \<Rightarrow> after_commit (\<lambda>r _. r) (owned_workspace uc st ws user Editor (upload_recording_body uc up st user b ids)) db)"

section \<open>Transcripts\<close>

record transcript_input =
  ti_text :: pystr
  ti_title :: "pystr option"
  ti_duration_seconds :: "py_float option"
  ti_project_id :: "uuid option"
  ti_project_ids :: "uuid list option"
  ti_utterances :: "utterance list option"

definition transcript_input_ok :: "transcript_input \<Rightarrow> bool" where
  "transcript_input_ok b \<longleftrightarrow> ti_text b \<noteq> [] \<and> (case ti_title b of None \<Rightarrow> True | Some t \<Rightarrow> length t \<le> 255)
     \<and> nonnegative (ti_duration_seconds b)"

text \<open>The name of an unnamed speaker, "speaker 1" in Korean.\<close>

definition first_speaker :: pystr where
  "first_speaker = [54868, 51088, 32, 49]"

definition initial_draft :: "pystr \<Rightarrow> utterance list option \<Rightarrow> http_error + utterance list" where
  "initial_draft content us = (case validate_all review_utterance (case us of Some given \<Rightarrow> given
      | None \<Rightarrow> [\<lparr>ut_id = lit ''initial'', ut_person_id = None, ut_speaker_name = first_speaker, ut_text = content,
          ut_start_seconds = None, ut_end_seconds = None\<rparr>]) of
     None \<Rightarrow> Inl (http 422 ''Invalid transcript draft'')
   | Some checked \<Rightarrow> rbind (guard (distinct (map ut_id checked)) (http 422 ''Duplicate utterance ID'')) (\<lambda>_. Inr checked))"

definition transcript_title :: "upload_env \<Rightarrow> stamp \<Rightarrow> transcript_input \<Rightarrow> pystr" where
  "transcript_title up st b = (case ti_title b of None \<Rightarrow> up_title up (st_now st)
     | Some t \<Rightarrow> if strip t \<noteq> [] then strip t else up_title up (st_now st))"

definition utf8_bytes :: "pystr \<Rightarrow> nat" where
  "utf8_bytes s = sum_list (map (\<lambda>c. if c < 128 then 1 else if c < 2048 then 2 else if c < 65536 then 3 else 4) s)"

definition transcript_row ::
  "upload_env \<Rightarrow> stamp \<Rightarrow> workspace_row \<Rightarrow> transcript_input \<Rightarrow> uuid list \<Rightarrow> utterance list \<Rightarrow> source_row" where
  "transcript_row up st w b ids us = (let content = strip (ti_text b);
       s = fresh_source st w MeetingKind (transcript_title up st b) (lit ''text/plain; charset=utf-8'') (utf8_bytes content) in
     s\<lparr>so_transcript_source := Some FromBrowser, so_project_id := (case ids of i # _ \<Rightarrow> Some i | [] \<Rightarrow> None),
       so_duration_seconds := ti_duration_seconds b, so_transcript_text := Some content, so_review_utterances := us,
       so_review_state := Some RvAwaitingReview, so_status := AwaitingReview, so_processing_stage := StAwaitingReview,
       so_progress := 45 / 100, so_object_path := object_path_of s (lit ''transcript.txt'')\<rparr>)"

definition create_transcript_body ::
  "upload_env \<Rightarrow> stamp \<Rightarrow> auth_user \<Rightarrow> transcript_input \<Rightarrow> workspace_row \<Rightarrow> job_response body" where
  "create_transcript_body up st user b w db =
     rbind (selected_projects (ti_project_id b) (ti_project_ids b)) (\<lambda>ids.
     rbind (projects_exist ids w db) (\<lambda>_.
     rbind (guard (\<not> blank (ti_text b)) (http 422 ''Transcript text is required'')) (\<lambda>_.
     rbind (initial_draft (strip (ti_text b)) (ti_utterances b)) (\<lambda>us.
     let s = transcript_row up st w b ids us in
     rbind (store_source_bytes up s (up_encode up (strip (ti_text b)))) (\<lambda>_.
     rbind (add_source s db) (\<lambda>db1.
     rbind (replace_projects st s ids (add_audit_event st (created_event (wk_id w) user s
         [(lit ''transcriptSource'', JStr (lit ''browser''))]) db1)) (\<lambda>(s', db2).
       Inr (job_payload s', db2))))))))"

definition create_transcript_source ::
  "unicode \<Rightarrow> upload_env \<Rightarrow> stamp \<Rightarrow> uuid \<Rightarrow> auth_user \<Rightarrow> transcript_input \<Rightarrow> job_response request" where
  "create_transcript_source uc up st ws user b db = (if \<not> transcript_input_ok b then (Inl unprocessable, db)
     else owned_workspace uc st ws user Editor (create_transcript_body up st user b) db)"

section \<open>Reading\<close>

record workspace_response =
  wr_workspace :: workspace_row
  wr_source_count :: nat
  wr_role :: member_role

definition source_count :: "uuid \<Rightarrow> app_db \<Rightarrow> nat" where
  "source_count ws db = length (filter (\<lambda>s. so_workspace_id s = ws) (ab_sources db))"

text \<open>One row for each workspace and role; a user has one membership of a workspace.\<close>

definition list_user_workspaces :: "unicode \<Rightarrow> stamp \<Rightarrow> auth_user \<Rightarrow> workspace_response list request" where
  "list_user_workspaces uc st user db = (case claim_pending_memberships uc st user db of
     Inl e \<Rightarrow> (Inl e, db)
   | Inr db1 \<Rightarrow> (Inr (sort_key (\<lambda>r. - wk_created_at (wr_workspace r)) (concat (map (\<lambda>w.
       map (\<lambda>m. \<lparr>wr_workspace = w, wr_source_count = source_count (wk_id w) db1, wr_role = mb_role m\<rparr>)
         (filter (\<lambda>m. mb_workspace_id m = wk_id w \<and> mb_user_id m = Some (us_id user)) (ab_members db1))) (ab_workspaces db1)))), db1))"

definition get_workspace :: "unicode \<Rightarrow> stamp \<Rightarrow> uuid \<Rightarrow> auth_user \<Rightarrow> workspace_response request" where
  "get_workspace uc st ws user = with_access uc st ws user Viewer (\<lambda>a db.
     Inr (\<lparr>wr_workspace = wa_workspace a, wr_source_count = source_count ws db, wr_role = mb_role (wa_member a)\<rparr>, db))"

record source_response =
  sr_source :: source_row
  sr_project_ids :: "uuid list"
  sr_people :: "(uuid \<times> source_person_role) list"
  sr_has_recording :: bool

definition source_response_of :: "uuid \<Rightarrow> app_db \<Rightarrow> source_row \<Rightarrow> source_response" where
  "source_response_of ws db s = (let ids = map sp_project_id (sort_key sp_position
       (filter (\<lambda>r. sp_workspace_id r = ws \<and> sp_source_id r = so_id s) (ab_source_projects db))) in
     \<lparr>sr_source = s, sr_project_ids = (if ids \<noteq> [] then ids else case so_project_id s of Some i \<Rightarrow> [i] | None \<Rightarrow> []),
      sr_people = map (\<lambda>r. (sn_person_id r, sn_role r))
        (filter (\<lambda>r. sn_workspace_id r = ws \<and> sn_source_id r = so_id s) (ab_source_people db)),
      sr_has_recording = (so_kind s = MeetingKind
        \<and> (prefix (lit ''audio/'') (so_content_type s) \<or> prefix (lit ''video/'') (so_content_type s)))\<rparr>)"

definition list_workspace_sources :: "unicode \<Rightarrow> stamp \<Rightarrow> uuid \<Rightarrow> auth_user \<Rightarrow> source_response list request" where
  "list_workspace_sources uc st ws user = owned_workspace uc st ws user Viewer (\<lambda>w db.
     Inr (map (source_response_of ws db) (sort_key (\<lambda>s. - so_created_at s)
       (filter (\<lambda>s. so_workspace_id s = wk_id w \<and> so_owner_id s = wk_owner_id w) (ab_sources db))), db))"

section \<open>What an accepted file is\<close>

text \<open>A document is accepted for its extension, declared type and content, a recording for its declared type and container.\<close>

definition format_checked :: "unicode \<Rightarrow> upload_env \<Rightarrow> source_kind \<Rightarrow> upload_file \<Rightarrow> bool" where
  "format_checked uc up kind f = (let name = stored_name kind (uf_filename f); mime = mime_of uc (uf_content_type f) in
     case kind of
       DocumentKind \<Rightarrow> (\<exists>allowed. document_mimes (extension_of uc name) = Some allowed \<and> (mime = [] \<or> mime \<in> set allowed)
         \<and> document_valid up (extension_of uc name) (uf_content f))
     | MeetingKind \<Rightarrow> (\<exists>container. map_of audio_mimes mime = Some container \<and> audio_container (uf_content f) = Some container))"

definition one_segment :: "pystr \<Rightarrow> bool" where
  "one_segment name \<longleftrightarrow> length name \<le> 255 \<and> (\<forall>c \<in> set name. 32 \<le> c \<and> c \<noteq> 47 \<and> c \<noteq> 92)"

lemma stored_name_plain: "c \<in> set (stored_name kind filename) \<Longrightarrow> c \<noteq> 47 \<and> c \<noteq> 92"
  by (auto simp: stored_name_def)

lemma checked_name_facts:
  assumes "checked_name uc up kind f = Inr name"
  shows "format_checked uc up kind f \<and> one_segment name"
proof -
  let ?stored = "stored_name kind (uf_filename f)"
  have short: "length ?stored \<le> 255" "\<forall>c \<in> set ?stored. 32 \<le> c"
    using assms by (auto simp: checked_name_def Let_def not_less split: if_splits)
  then have stored: "one_segment ?stored"
    using stored_name_plain by (auto simp: one_segment_def)
  have cut: "one_segment (take (length ?stored - 5) ?stored @ lit ''.mp4'')" if "suffix (lit ''.webm'') (uc_lower uc ?stored)" "5 \<le> length ?stored"
    using stored that(2) by (auto simp: one_segment_def lit_def dest: in_set_takeD)
  have small: "one_segment (take (length ?stored - 5) ?stored @ lit ''.mp4'')" if "length ?stored < 5"
    using that by (auto simp: one_segment_def lit_def)
  have "one_segment name"
    using assms stored cut small by (cases "5 \<le> length ?stored") (auto simp: checked_name_def Let_def rbind_Inr_iff split: if_splits)
  moreover have "format_checked uc up kind f"
  proof (cases kind)
    case DocumentKind
    then have "validate_document uc up ?stored (uf_content_type f) (uf_content f) = Inr ()"
      using assms by (auto simp: checked_name_def Let_def rbind_Inr_iff split: if_splits)
    then show ?thesis
      using DocumentKind by (auto simp: validate_document_def Let_def format_checked_def split: option.splits if_splits)
  next
    case MeetingKind
    then obtain extension where "validate_recording uc ?stored (uf_content_type f) (uf_content f) = Inr extension"
      using assms by (auto simp: checked_name_def Let_def rbind_Inr_iff split: if_splits)
    then show ?thesis
      using MeetingKind by (auto simp: validate_recording_def Let_def format_checked_def split: option.splits if_splits)
  qed
  ultimately show ?thesis
    by blast
qed

lemma upload_facts:
  assumes "upload uc up st w kind f = Inr s"
  obtains name where "so_object_path s = object_path_of s name" "one_segment name" "format_checked uc up kind f"
    "s = (fresh_source st w kind name (so_content_type s) (length (uf_content f)))\<lparr>so_object_path := object_path_of s name\<rparr>"
    "uf_content f \<noteq> []" "length (uf_content f) \<le> up_max_bytes up" "store_source_bytes up s (uf_content f) = Inr ()"
proof -
  obtain name where name: "checked_name uc up kind f = Inr name" and nonempty: "uf_content f \<noteq> []"
    and bound: "length (uf_content f) \<le> up_max_bytes up"
    and run: "(let s0 = fresh_source st w kind name (case truthy (uf_content_type f) of
              Some c \<Rightarrow> c | None \<Rightarrow> lit ''application/octet-stream'') (length (uf_content f));
            s' = s0\<lparr>so_object_path := object_path_of s0 name\<rparr>
        in rbind (store_source_bytes up s' (uf_content f)) (\<lambda>_. Inr s')) = Inr s"
    using assms by (auto simp: upload_def rbind_Inr_iff not_less split: if_splits)
  have "s = (fresh_source st w kind name (so_content_type s) (length (uf_content f)))\<lparr>so_object_path := object_path_of s name\<rparr>"
    "so_object_path s = object_path_of s name" "store_source_bytes up s (uf_content f) = Inr ()"
    using run by (auto simp: Let_def rbind_Inr_iff fresh_source_def object_path_of_def)
  then show thesis
    using that checked_name_facts [OF name] nonempty bound by blast
qed

lemma access_keeps_sources:
  "workspace_access uc st ws user minimum db = (r, db1) \<Longrightarrow> ab_sources db1 = ab_sources db \<and> ab_jobs db1 = ab_jobs db
    \<and> ab_workspaces db1 = ab_workspaces db"
  by (auto simp: workspace_access_def claim_pending_memberships_def Let_def split: option.splits sum.splits if_splits)

lemma add_audit_sources [simp]:
  "ab_sources (add_audit_event st e db) = ab_sources db" "ab_jobs (add_audit_event st e db) = ab_jobs db"
  by (simp_all add: add_audit_event_def)

lemma persist_facts:
  assumes "qe_postgres q"
  shows "fst (persist_and_enqueue_source st q s db) = Inr (job_payload s)"
    "ab_sources (snd (persist_and_enqueue_source st q s db)) = ab_sources db"
    "ab_jobs (snd (persist_and_enqueue_source st q s db))
      = enqueue_source (st_now st) (so_id s) (so_processing_stage s) False (ab_jobs db)"
  using assms by (simp_all add: persist_and_enqueue_source_def)

lemma granted_workspace:
  "workspace_access uc st ws user minimum db = (Inr a, db1) \<Longrightarrow> row_get wk_id ws (ab_workspaces db) = Some (wa_workspace a)"
  using access_keeps_sources [of uc st ws user minimum db "Inr a" db1]
  by (auto simp: workspace_access_def grant_def split: option.splits sum.splits if_splits)

lemma uploaded_all_or_nothing:
  assumes postgres: "qe_postgres (up_queueing up)" and run: "upload_document uc up st ws user f db = (r, db')"
  shows "case r of Inl e \<Rightarrow> ab_sources db' = ab_sources db \<and> ab_jobs db' = ab_jobs db
    | Inr j \<Rightarrow> (\<exists>w s. row_get wk_id ws (ab_workspaces db) = Some w \<and> upload uc up st w DocumentKind f = Inr s
        \<and> ab_sources db' = ab_sources db @ [s] \<and> j = job_payload s
        \<and> ab_jobs db' = enqueue_source (st_now st) (so_id s) Uploaded False (ab_jobs db))"
proof -
  obtain a db1 where access: "workspace_access uc st ws user Editor db = (a, db1)"
    by fastforce
  note same = access_keeps_sources [OF access]
  show ?thesis
  proof (cases a)
    case (Inl e)
    then show ?thesis
      using run access same by (auto simp: upload_document_def after_commit_def owned_workspace_def with_access_def)
  next
    case (Inr g)
    note w = granted_workspace [OF access [unfolded Inr]]
    show ?thesis
    proof (cases "upload_document_body uc up st user f (wa_workspace g) db1")
      case (Inl e)
      then show ?thesis
        using run access same Inr
        by (auto simp: upload_document_def after_commit_def owned_workspace_def with_access_def respond_def)
    next
      case body: (Inr y)
      obtain s db2 where s: "upload uc up st (wa_workspace g) DocumentKind f = Inr s" "add_source s db1 = Inr db2"
        and y: "y = persist_and_enqueue_source st (up_queueing up) s
          (add_audit_event st (created_event (wk_id (wa_workspace g)) user s []) db2)"
        using body by (auto simp: upload_document_body_def rbind_Inr_iff)
      have "so_processing_stage s = Uploaded"
        using s(1) by (auto simp: upload_def rbind_Inr_iff Let_def fresh_source_def split: if_splits)
      moreover have "ab_sources db2 = ab_sources db @ [s]" "ab_jobs db2 = ab_jobs db"
        using s(2) same by (auto simp: add_source_def split: if_splits)
      moreover have "r = fst y" "db' = snd y"
        using run access Inr body by (cases y; auto simp: upload_document_def after_commit_def owned_workspace_def with_access_def respond_def)+
      ultimately show ?thesis
        using w s(1) persist_facts [OF postgres] unfolding y by auto
    qed
  qed
qed

section \<open>Properties\<close>


definition upload_example_env :: upload_env where
  "upload_example_env = \<lparr>up_queueing = \<lparr>qe_postgres = True, qe_publish = (\<lambda>_. True)\<rparr>, up_max_bytes = 100, up_token = lit ''t'',
     up_post = (\<lambda>_ _. Some 200), up_members = (\<lambda>_. None), up_decode_sig = (\<lambda>_. Some []), up_encode = (\<lambda>_. []),
     up_title = (\<lambda>_. [])\<rparr>"

definition upload_db :: app_db where
  "upload_db = empty_db\<lparr>ab_workspaces :=
     [\<lparr>wk_id = 1, wk_owner_id = 2, wk_name = lit ''team'', wk_model_settings = [], wk_created_at = 0\<rparr>]\<rparr>"

definition notes_file :: upload_file where
  "notes_file = \<lparr>uf_filename = Some (lit ''a/notes.TXT''), uf_content_type = Some (lit ''text/plain; charset=utf-8''), uf_content = [104, 105]\<rparr>"

lemma upload_env_fields: "up_max_bytes upload_example_env = 100" "up_token upload_example_env = lit ''t''"
    "up_post upload_example_env s content = Some 200" "qe_postgres (up_queueing upload_example_env)"
  by (simp_all add: upload_example_env_def)

lemma notes_fields: "uf_content notes_file = [104, 105]" "uf_content_type notes_file = Some (lit ''text/plain; charset=utf-8'')"
  by (simp_all add: notes_file_def)

lemma notes_name: "checked_name ascii_unicode upload_example_env DocumentKind notes_file = Inr (lit ''a_notes.TXT'')"
  by code_simp

lemma notes_upload: "\<exists>s. upload ascii_unicode upload_example_env example_stamp w DocumentKind notes_file = Inr s
    \<and> length (so_title s) \<le> 255 \<and> length (so_content_type s) \<le> 120"
  by (simp add: upload_def notes_name notes_fields Let_def store_source_bytes_def fresh_source_def upload_env_fields guard_def) (simp add: lit_def)

lemma upload_example: "\<exists>j db'. upload_document ascii_unicode upload_example_env example_stamp 1 \<lparr>us_id = 2, us_email = None\<rparr> notes_file upload_db = (Inr j, db')"
proof -
  let ?w = "\<lparr>wk_id = 1, wk_owner_id = 2, wk_name = lit ''team'', wk_model_settings = [], wk_created_at = 0\<rparr>"
  obtain s where s: "upload ascii_unicode upload_example_env example_stamp ?w DocumentKind notes_file = Inr s"
      "length (so_title s) \<le> 255" "length (so_content_type s) \<le> 120"
    using notes_upload by blast
  have "\<exists>y. upload_document_body ascii_unicode upload_example_env example_stamp \<lparr>us_id = 2, us_email = None\<rparr> notes_file ?w upload_db = Inr y
      \<and> (\<exists>j. fst y = Inr j)"
    by (simp add: upload_document_body_def s add_source_def upload_db_def empty_db_def persist_and_enqueue_source_def upload_env_fields)
  then show ?thesis
    by (auto simp: upload_document_def after_commit_def owned_workspace_def with_access_def workspace_access_def
        claim_pending_memberships_def grant_def respond_def upload_db_def row_get_def)
qed


text \<open>A recording may be called "..": its suffix is empty, and its path then points out of its folder.\<close>

lemma recording_named_dots:
  "checked_name ascii_unicode upload_example_env MeetingKind \<lparr>uf_filename = Some (lit ''..''),
     uf_content_type = Some (lit ''audio/ogg''), uf_content = bytes_of ''OggS''\<rparr> = Inr (lit ''..'')"
  by code_simp

end
