(* ===== verification/WorkspaceScope.thy ===== *)
theory WorkspaceScope
  imports Uploads
begin

text \<open>
  The requests of the workspace routes as one step function, and what holds of every one of them: the
  references between rows resolve confined one workspace (\<open>scoped\<close>), a request to a workspace changes
  nothing of another (\<open>confined\<close>), and only with the role it needs.
\<close>

section \<open>Rows and their homes\<close>

definition refers :: "('r \<Rightarrow> uuid) \<Rightarrow> ('r \<Rightarrow> uuid) \<Rightarrow> 'r list \<Rightarrow> uuid \<Rightarrow> uuid \<Rightarrow> bool" where
  "refers key home rows i ws \<longleftrightarrow> (\<exists>r \<in> set rows. key r = i \<and> home r = ws)"

definition others :: "('r \<Rightarrow> uuid) \<Rightarrow> uuid \<Rightarrow> 'r list \<Rightarrow> 'r list" where
  "others home ws rows = filter (\<lambda>r. home r \<noteq> ws) rows"

lemma refers_get: "row_get key i rows = Some r \<Longrightarrow> refers key home rows i (home r)"
  using row_get_Some by (fastforce simp: refers_def)

lemma refers_append: "refers key home (xs @ ys) i ws \<longleftrightarrow> refers key home xs i ws \<or> refers key home ys i ws"
  by (auto simp: refers_def)

lemma unique_get:
  assumes "keys_unique key rows" "row_get key i rows = Some r" "x \<in> set rows" "key x = i"
  shows "x = r"
proof -
  have "row_get key i rows = Some x"
    using row_get_unique [OF assms(1,3)] assms(4) by simp
  then show ?thesis
    using assms(2) by simp
qed

lemma refers_put:
  assumes "keys_unique key rows" "row_get key i rows = Some r" "key r' = i" "home r' = home r"
  shows "refers key home (row_upd key i (\<lambda>_. r') rows) = refers key home rows"
proof -
  let ?f = "\<lambda>x. if key x = i then r' else x"
  have "key (?f x) = key x \<and> home (?f x) = home x" if "x \<in> set rows" for x
  proof (cases "key x = i")
    case True
    then have "x = r"
      by (rule unique_get [OF assms(1,2) that])
    then show ?thesis
      using True assms(3,4) by simp
  qed simp
  then show ?thesis
    unfolding refers_def row_upd_def set_map bex_simps by (intro ext bex_cong) simp_all
qed

lemma keys_put: "key r' = i \<Longrightarrow> keys_unique key (row_upd key i (\<lambda>_. r') rows) \<longleftrightarrow> keys_unique key rows"
  unfolding keys_unique_def row_upd_def by (rule arg_cong [where f = distinct]) simp

lemma others_put:
  assumes "keys_unique key rows" "row_get key i rows = Some r" "home r = ws" "home r' = ws"
  shows "others home ws (row_upd key i (\<lambda>_. r') rows) = others home ws rows"
proof -
  have "home x = ws" if "x \<in> set rows" "key x = i" for x
    using unique_get [OF assms(1,2) that] assms(3) by simp
  then show ?thesis
    using assms(4) unfolding others_def row_upd_def by (induction rows) auto
qed

lemma others_append: "others home ws (xs @ ys) = others home ws xs @ others home ws ys"
  by (simp add: others_def)

lemma others_Nil: "(\<And>r. r \<in> set rows \<Longrightarrow> home r = ws) \<Longrightarrow> others home ws rows = []"
  by (auto simp: others_def filter_empty_conv)

lemma others_filter: "(\<And>r. r \<in> set rows \<Longrightarrow> \<not> P r \<Longrightarrow> home r = ws) \<Longrightarrow> others home ws (filter P rows) = others home ws rows"
  unfolding others_def filter_filter by (rule filter_cong) auto

section \<open>References stay in a workspace\<close>

abbreviation person_in :: "app_db \<Rightarrow> uuid \<Rightarrow> uuid \<Rightarrow> bool" where
  "person_in db \<equiv> refers pe_id pe_workspace_id (ab_people db)"

abbreviation project_in :: "app_db \<Rightarrow> uuid \<Rightarrow> uuid \<Rightarrow> bool" where
  "project_in db \<equiv> refers pj_id pj_workspace_id (ab_projects db)"

abbreviation source_in :: "app_db \<Rightarrow> uuid \<Rightarrow> uuid \<Rightarrow> bool" where
  "source_in db \<equiv> refers so_id so_workspace_id (ab_sources db)"

definition keyed_db :: "app_db \<Rightarrow> bool" where
  "keyed_db db \<longleftrightarrow> keys_unique mb_id (ab_members db) \<and> keys_unique pe_id (ab_people db)
     \<and> keys_unique pj_id (ab_projects db) \<and> keys_unique so_id (ab_sources db)"

definition linked_db :: "app_db \<Rightarrow> bool" where
  "linked_db db \<longleftrightarrow>
     (\<forall>r \<in> set (ab_source_projects db). source_in db (sp_source_id r) (sp_workspace_id r)
        \<and> project_in db (sp_project_id r) (sp_workspace_id r))
     \<and> (\<forall>r \<in> set (ab_source_people db). source_in db (sn_source_id r) (sn_workspace_id r)
        \<and> person_in db (sn_person_id r) (sn_workspace_id r))
     \<and> (\<forall>r \<in> set (ab_project_members db). project_in db (pm_project_id r) (pm_workspace_id r)
        \<and> person_in db (pm_person_id r) (pm_workspace_id r))
     \<and> (\<forall>p \<in> set (ab_projects db). \<forall>i. pj_owner_person_id p = Some i \<longrightarrow> person_in db i (pj_workspace_id p))
     \<and> (\<forall>s \<in> set (ab_sources db). \<forall>i. so_project_id s = Some i \<longrightarrow> project_in db i (so_workspace_id s))"

definition scoped :: "app_db \<Rightarrow> bool" where
  "scoped db \<longleftrightarrow> keyed_db db \<and> linked_db db"

section \<open>Changes confined a workspace\<close>

definition confined :: "uuid \<Rightarrow> app_db \<Rightarrow> app_db \<Rightarrow> bool" where
  "confined ws db db' \<longleftrightarrow>
     others mb_workspace_id ws (ab_members db') = others mb_workspace_id ws (ab_members db)
     \<and> others pe_workspace_id ws (ab_people db') = others pe_workspace_id ws (ab_people db)
     \<and> others pj_workspace_id ws (ab_projects db') = others pj_workspace_id ws (ab_projects db)
     \<and> others pm_workspace_id ws (ab_project_members db') = others pm_workspace_id ws (ab_project_members db)
     \<and> others sp_workspace_id ws (ab_source_projects db') = others sp_workspace_id ws (ab_source_projects db)
     \<and> others sn_workspace_id ws (ab_source_people db') = others sn_workspace_id ws (ab_source_people db)
     \<and> others so_workspace_id ws (ab_sources db') = others so_workspace_id ws (ab_sources db)
     \<and> others au_workspace_id ws (ab_audit db') = others au_workspace_id ws (ab_audit db)
     \<and> ab_workspaces db' = ab_workspaces db \<and> ab_credentials db' = ab_credentials db
     \<and> ab_chunks db' = ab_chunks db \<and> ab_context db' = ab_context db
     \<and> (\<forall>i. source_in db i ws \<longrightarrow> source_in db' i ws)
     \<and> (\<forall>i. \<not> source_in db' i ws \<longrightarrow> get_job i (ab_jobs db') = get_job i (ab_jobs db))"

lemma confined_refl [simp]: "confined ws db db"
  by (simp add: confined_def)

lemma confined_trans: "confined ws a b \<Longrightarrow> confined ws b c \<Longrightarrow> confined ws a c"
  by (auto simp: confined_def)

text \<open>What a handler may do with the tables of its workspace.\<close>

definition sound :: "uuid \<Rightarrow> app_db \<Rightarrow> app_db \<Rightarrow> bool" where
  "sound ws db db' \<longleftrightarrow> (scoped db \<longrightarrow> scoped db' \<and> confined ws db db')"

lemma sound_refl [simp]: "sound ws db db"
  by (simp add: sound_def)

lemma sound_trans [trans]: "sound ws a b \<Longrightarrow> sound ws b c \<Longrightarrow> sound ws a c"
  unfolding sound_def using confined_trans by blast

lemma soundI: "(scoped db \<Longrightarrow> scoped db' \<and> confined ws db db') \<Longrightarrow> sound ws db db'"
  by (simp add: sound_def)

lemma add_audit_links [simp]:
  "ab_project_members (add_audit_event st e db) = ab_project_members db"
  "ab_source_projects (add_audit_event st e db) = ab_source_projects db"
  "ab_source_people (add_audit_event st e db) = ab_source_people db"
  by (simp_all add: add_audit_event_def)

lemma put_source_links [simp]:
  "ab_project_members (put_source s db) = ab_project_members db"
  "ab_source_projects (put_source s db) = ab_source_projects db"
  "ab_source_people (put_source s db) = ab_source_people db"
  "ab_sources (put_source s db) = row_upd so_id (so_id s) (\<lambda>_. s) (ab_sources db)"
  by (simp_all add: put_source_def)

lemma sound_audit: "ae_workspace_id e = ws \<Longrightarrow> sound ws db (add_audit_event st e db)"
  by (rule soundI) (simp add: scoped_def keyed_db_def linked_db_def confined_def, simp add: add_audit_event_def
    others_append others_def)

lemma sound_put_source:
  assumes "get_source i db = Some s" "so_id s' = i" "so_workspace_id s = ws" "so_workspace_id s' = ws"
    and "\<And>j. so_project_id s' = Some j \<Longrightarrow> project_in db j ws"
  shows "sound ws db (put_source s' db)"
proof (rule soundI)
  assume scoped: "scoped db"
  then have unique: "keys_unique so_id (ab_sources db)"
    by (simp add: scoped_def keyed_db_def)
  have same: "source_in (put_source s' db) = source_in db"
    using refers_put [OF unique, where home = so_workspace_id and r = s and r' = s' and i = i] assms
    by (simp add: get_source_def)
  have "others so_workspace_id ws (ab_sources (put_source s' db)) = others so_workspace_id ws (ab_sources db)"
    using others_put [OF unique, where home = so_workspace_id and r = s and r' = s' and i = i] assms
    by (simp add: get_source_def)
  moreover have "linked_db (put_source s' db)"
    using scoped same assms(4,5) unfolding scoped_def linked_db_def by (auto simp: set_row_upd)
  ultimately show "scoped (put_source s' db) \<and> confined ws db (put_source s' db)"
    using scoped same assms(2) by (simp add: scoped_def keyed_db_def confined_def keys_put)
qed

lemma put_person_fields [simp]:
  "ab_people (put_person p db) = row_upd pe_id (pe_id p) (\<lambda>_. p) (ab_people db)"
  "ab_members (put_person p db) = ab_members db" "ab_projects (put_person p db) = ab_projects db"
  "ab_project_members (put_person p db) = ab_project_members db" "ab_sources (put_person p db) = ab_sources db"
  "ab_source_projects (put_person p db) = ab_source_projects db"
  "ab_source_people (put_person p db) = ab_source_people db" "ab_audit (put_person p db) = ab_audit db"
  "ab_workspaces (put_person p db) = ab_workspaces db" "ab_credentials (put_person p db) = ab_credentials db"
  "ab_chunks (put_person p db) = ab_chunks db" "ab_context (put_person p db) = ab_context db"
  "ab_jobs (put_person p db) = ab_jobs db"
  by (simp_all add: put_person_def)

lemma put_project_fields [simp]:
  "ab_projects (put_project p db) = row_upd pj_id (pj_id p) (\<lambda>_. p) (ab_projects db)"
  "ab_members (put_project p db) = ab_members db" "ab_people (put_project p db) = ab_people db"
  "ab_project_members (put_project p db) = ab_project_members db" "ab_sources (put_project p db) = ab_sources db"
  "ab_source_projects (put_project p db) = ab_source_projects db"
  "ab_source_people (put_project p db) = ab_source_people db" "ab_audit (put_project p db) = ab_audit db"
  "ab_workspaces (put_project p db) = ab_workspaces db" "ab_credentials (put_project p db) = ab_credentials db"
  "ab_chunks (put_project p db) = ab_chunks db" "ab_context (put_project p db) = ab_context db"
  "ab_jobs (put_project p db) = ab_jobs db"
  by (simp_all add: put_project_def)

lemma sound_put_person:
  assumes "row_get pe_id i (ab_people db) = Some p" "pe_id p' = i" "pe_workspace_id p = ws" "pe_workspace_id p' = ws"
  shows "sound ws db (put_person p' db)"
proof (rule soundI)
  assume scoped: "scoped db"
  then have unique: "keys_unique pe_id (ab_people db)"
    by (simp add: scoped_def keyed_db_def)
  have same: "person_in (put_person p' db) = person_in db"
    using refers_put [OF unique assms(1), where home = pe_workspace_id and r' = p'] assms by simp
  moreover have "others pe_workspace_id ws (ab_people (put_person p' db)) = others pe_workspace_id ws (ab_people db)"
    using others_put [OF unique assms(1), where home = pe_workspace_id and r' = p'] assms by simp
  ultimately show "scoped (put_person p' db) \<and> confined ws db (put_person p' db)"
    using scoped assms(2) by (simp add: scoped_def keyed_db_def linked_db_def confined_def keys_put)
qed

lemma sound_put_project:
  assumes "row_get pj_id i (ab_projects db) = Some p" "pj_id p' = i" "pj_workspace_id p = ws" "pj_workspace_id p' = ws"
    and "\<And>j. pj_owner_person_id p' = Some j \<Longrightarrow> person_in db j ws"
  shows "sound ws db (put_project p' db)"
proof (rule soundI)
  assume scoped: "scoped db"
  then have unique: "keys_unique pj_id (ab_projects db)"
    by (simp add: scoped_def keyed_db_def)
  have same: "project_in (put_project p' db) = project_in db"
    using refers_put [OF unique assms(1), where home = pj_workspace_id and r' = p'] assms by simp
  have "others pj_workspace_id ws (ab_projects (put_project p' db)) = others pj_workspace_id ws (ab_projects db)"
    using others_put [OF unique assms(1), where home = pj_workspace_id and r' = p'] assms by simp
  moreover have "linked_db (put_project p' db)"
    using scoped same assms(4,5) unfolding scoped_def linked_db_def by (auto simp: set_row_upd)
  ultimately show "scoped (put_project p' db) \<and> confined ws db (put_project p' db)"
    using scoped assms(2) by (simp add: scoped_def keyed_db_def confined_def keys_put)
qed

lemma active_person_in:
  assumes "active_person (Some i) ws owner db = Inr r"
  shows "person_in db i ws"
  using assms by (auto simp: active_person_def dest!: refers_get [OF sym, where home = pe_workspace_id] split: option.splits if_splits)

lemma active_project_in:
  assumes "active_project (Some i) ws owner db = Inr r"
  shows "project_in db i ws"
  using assms by (auto simp: active_project_def dest!: refers_get [OF sym, where home = pj_workspace_id] split: option.splits if_splits)

lemma traverse_member: "traverse f xs = Inr ys \<Longrightarrow> x \<in> set xs \<Longrightarrow> \<exists>y. f x = Inr y"
  by (induction xs arbitrary: ys) (auto simp: rbind_Inr_iff)

section \<open>Rows added, links replaced\<close>

definition fresh_stamp :: "stamp \<Rightarrow> app_db \<Rightarrow> bool" where
  "fresh_stamp st db \<longleftrightarrow> (\<forall>n \<in> {0, 1}. st_fresh st n \<notin> mb_id ` set (ab_members db) \<union> pe_id ` set (ab_people db)
     \<union> pj_id ` set (ab_projects db) \<union> so_id ` set (ab_sources db) \<union> wk_id ` set (ab_workspaces db))"

lemma keys_append: "keys_unique key (xs @ [r]) \<longleftrightarrow> keys_unique key xs \<and> key r \<notin> key ` set xs"
  by (auto simp: keys_unique_def)

lemma others_one: "home r = ws \<Longrightarrow> others home ws (xs @ [r]) = others home ws xs"
  by (simp add: others_def)

lemma sound_add_person:
  assumes "pe_id p \<notin> pe_id ` set (ab_people db)" "pe_workspace_id p = ws"
  shows "sound ws db (db\<lparr>ab_people := ab_people db @ [p]\<rparr>)"
  using assms by (auto intro!: soundI simp: scoped_def keyed_db_def linked_db_def confined_def keys_append others_one
      refers_append)

lemma sound_add_project:
  assumes "pj_id p \<notin> pj_id ` set (ab_projects db)" "pj_workspace_id p = ws"
    and "\<And>j. pj_owner_person_id p = Some j \<Longrightarrow> person_in db j ws"
  shows "sound ws db (db\<lparr>ab_projects := ab_projects db @ [p]\<rparr>)"
  using assms by (auto intro!: soundI simp: scoped_def keyed_db_def linked_db_def confined_def keys_append others_one
      refers_append)

lemma sound_add_member:
  assumes "mb_id m \<notin> mb_id ` set (ab_members db)" "mb_workspace_id m = ws"
  shows "sound ws db (db\<lparr>ab_members := ab_members db @ [m]\<rparr>)"
  using assms by (auto intro!: soundI simp: scoped_def keyed_db_def linked_db_def confined_def keys_append others_one)

lemma sound_put_member:
  assumes "row_get mb_id i (ab_members db) = Some m" "mb_id m' = i" "mb_workspace_id m = ws" "mb_workspace_id m' = ws"
  shows "sound ws db (db\<lparr>ab_members := row_upd mb_id i (\<lambda>_. m') (ab_members db)\<rparr>)"
proof (rule soundI)
  assume scoped: "scoped db"
  then have "keys_unique mb_id (ab_members db)"
    by (simp add: scoped_def keyed_db_def)
  from others_put [OF this assms(1,3,4)]
  show "scoped (db\<lparr>ab_members := row_upd mb_id i (\<lambda>_. m') (ab_members db)\<rparr>)
      \<and> confined ws db (db\<lparr>ab_members := row_upd mb_id i (\<lambda>_. m') (ab_members db)\<rparr>)"
    using scoped assms(2) by (simp add: scoped_def keyed_db_def linked_db_def confined_def keys_put)
qed

lemma sound_del_member:
  assumes "row_get mb_id i (ab_members db) = Some m" "mb_workspace_id m = ws"
  shows "sound ws db (db\<lparr>ab_members := row_del mb_id i (ab_members db)\<rparr>)"
proof (rule soundI)
  assume scoped: "scoped db"
  then have unique: "keys_unique mb_id (ab_members db)"
    by (simp add: scoped_def keyed_db_def)
  have "others mb_workspace_id ws (row_del mb_id i (ab_members db)) = others mb_workspace_id ws (ab_members db)"
    unfolding row_del_def by (rule others_filter) (use unique_get [OF unique assms(1)] assms(2) in auto)
  then show "scoped (db\<lparr>ab_members := row_del mb_id i (ab_members db)\<rparr>)
      \<and> confined ws db (db\<lparr>ab_members := row_del mb_id i (ab_members db)\<rparr>)"
    using scoped by (simp add: scoped_def keyed_db_def linked_db_def confined_def keys_unique_del)
qed

lemma others_links:
  assumes "\<And>r. r \<in> set rows \<Longrightarrow> \<not> keep r \<Longrightarrow> home r = ws" "\<And>r. r \<in> set new \<Longrightarrow> home r = ws"
  shows "others home ws (filter keep rows @ new) = others home ws rows"
  using others_filter [of rows keep home ws] others_Nil [of new home ws] assms by (simp add: others_append)

lemma sound_participants:
  assumes "project_in db i ws" "\<And>j. j \<in> set people \<Longrightarrow> person_in db j ws"
  shows "sound ws db (set_participants st ws i people db)"
proof (rule soundI)
  assume scoped: "scoped db"
  have home: "pm_workspace_id r = ws" if "r \<in> set (ab_project_members db)" "pm_project_id r = i" for r
    using scoped that assms(1) unfolding scoped_def keyed_db_def linked_db_def refers_def
    by (metis (no_types, lifting) row_get_unique unique_get)
  have "others pm_workspace_id ws (ab_project_members (set_participants st ws i people db))
      = others pm_workspace_id ws (ab_project_members db)"
    unfolding set_participants_def by (simp, rule others_links) (use home in auto)
  moreover have "linked_db (set_participants st ws i people db)"
    using scoped assms by (auto simp: scoped_def linked_db_def set_participants_def dest!: in_enumerateD)
  ultimately show "scoped (set_participants st ws i people db) \<and> confined ws db (set_participants st ws i people db)"
    using scoped by (simp add: scoped_def keyed_db_def confined_def) (simp add: set_participants_def)
qed

lemma sound_link_projects:
  assumes "source_in db (so_id s) ws" "so_workspace_id s = ws" "\<And>j. j \<in> set ids \<Longrightarrow> project_in db j ws"
  shows "sound ws db (link_projects st s ids db)"
proof (rule soundI)
  assume scoped: "scoped db"
  have home: "sp_workspace_id r = ws" if "r \<in> set (ab_source_projects db)" "sp_source_id r = so_id s" for r
    using scoped that assms(1) unfolding scoped_def keyed_db_def linked_db_def refers_def
    by (metis (no_types, lifting) row_get_unique unique_get)
  have "others sp_workspace_id ws (ab_source_projects (link_projects st s ids db))
      = others sp_workspace_id ws (ab_source_projects db)"
    unfolding link_projects_def by (simp, rule others_links) (use home assms(2) in auto)
  moreover have "linked_db (link_projects st s ids db)"
    using scoped assms by (auto simp: scoped_def linked_db_def link_projects_def dest!: in_enumerateD)
  ultimately show "scoped (link_projects st s ids db) \<and> confined ws db (link_projects st s ids db)"
    using scoped by (simp add: scoped_def keyed_db_def confined_def) (simp add: link_projects_def)
qed

lemma sound_link_people:
  assumes "source_in db (so_id s) ws" "so_workspace_id s = ws" "\<And>x. x \<in> set people \<Longrightarrow> person_in db (fst x) ws"
  shows "sound ws db (link_people st s P people db)"
proof (rule soundI)
  assume scoped: "scoped db"
  have home: "sn_workspace_id r = ws" if "r \<in> set (ab_source_people db)" "sn_source_id r = so_id s" for r
    using scoped that assms(1) unfolding scoped_def keyed_db_def linked_db_def refers_def
    by (metis (no_types, lifting) row_get_unique unique_get)
  have "others sn_workspace_id ws (ab_source_people (link_people st s P people db))
      = others sn_workspace_id ws (ab_source_people db)"
    unfolding link_people_def by (simp, rule others_links) (use home assms(2) in auto)
  moreover have "linked_db (link_people st s P people db)"
    using scoped assms by (auto simp: scoped_def linked_db_def link_people_def dest!: in_enumerateD)
  ultimately show "scoped (link_people st s P people db) \<and> confined ws db (link_people st s P people db)"
    using scoped by (simp add: scoped_def keyed_db_def confined_def) (simp add: link_people_def)
qed

lemma get_job_enqueue: "j \<noteq> i \<Longrightarrow> get_job j (enqueue_source now i stage b jobs) = get_job j jobs"
  by (auto simp: enqueue_source_def get_job_def table_simps rearm_job_def fresh_job_def split: option.splits)

lemma sound_enqueue:
  assumes "source_in db i ws"
  shows "sound ws db (db\<lparr>ab_jobs := enqueue_source now i stage b (ab_jobs db)\<rparr>)"
proof (rule soundI)
  have "get_job j (enqueue_source now i stage b (ab_jobs db)) = get_job j (ab_jobs db)" if "\<not> source_in db j ws" for j
    using get_job_enqueue that assms by metis
  then show "scoped db \<Longrightarrow> scoped (db\<lparr>ab_jobs := enqueue_source now i stage b (ab_jobs db)\<rparr>)
      \<and> confined ws db (db\<lparr>ab_jobs := enqueue_source now i stage b (ab_jobs db)\<rparr>)"
    by (simp add: scoped_def keyed_db_def linked_db_def confined_def)
qed

section \<open>Handlers\<close>

definition claimed :: "unicode \<Rightarrow> stamp \<Rightarrow> auth_user \<Rightarrow> app_db \<Rightarrow> app_db" where
  "claimed uc st user db = (case claim_pending_memberships uc st user db of Inl _ \<Rightarrow> db | Inr db1 \<Rightarrow> db1)"

lemma claim_members:
  assumes "claim_pending_memberships uc st user db = Inr db1"
  shows "\<exists>rows. db1 = db\<lparr>ab_members := rows\<rparr> \<and> map mb_id rows = map mb_id (ab_members db)"
proof -
  let ?email = "the (truthy (us_email user))"
  let ?rows = "map (\<lambda>m. if pending_for uc ?email m then join_member st user ?email m else m) (ab_members db)"
  have "map mb_id ?rows = map mb_id (ab_members db)"
    by (simp add: join_member_def)
  moreover have "db1 = db\<lparr>ab_members := ab_members db\<rparr> \<or> db1 = db\<lparr>ab_members := ?rows\<rparr>"
    using assms by (auto simp: claim_pending_memberships_def Let_def split: option.splits if_splits)
  ultimately show ?thesis
    by blast
qed

lemma claimed_members:
  "\<exists>rows. claimed uc st user db = db\<lparr>ab_members := rows\<rparr> \<and> map mb_id rows = map mb_id (ab_members db)"
  using claim_members by (fastforce simp: claimed_def intro: exI [of _ "ab_members db"] split: sum.splits)

lemma scoped_claimed [simp]: "scoped (claimed uc st user db) \<longleftrightarrow> scoped db"
proof -
  obtain rows where "claimed uc st user db = db\<lparr>ab_members := rows\<rparr>" "map mb_id rows = map mb_id (ab_members db)"
    using claimed_members by blast
  then show ?thesis
    by (simp add: scoped_def keyed_db_def linked_db_def keys_unique_def)
qed

lemma fresh_claimed [simp]: "fresh_stamp st' (claimed uc st user db) \<longleftrightarrow> fresh_stamp st' db"
proof -
  obtain rows where rows: "claimed uc st user db = db\<lparr>ab_members := rows\<rparr>" "map mb_id rows = map mb_id (ab_members db)"
    using claimed_members by blast
  then have "mb_id ` set rows = mb_id ` set (ab_members db)"
    by (metis list.set_map)
  then show ?thesis
    by (simp add: rows(1) fresh_stamp_def)
qed

lemma grant_Inr:
  "grant uc st ws user minimum db = Inr a \<Longrightarrow> row_get wk_id ws (ab_workspaces db) = Some (wa_workspace a)
    \<and> wk_id (wa_workspace a) = ws"
  using row_get_Some by (fastforce simp: grant_def split: option.splits if_splits)

definition body_sound :: "uuid \<Rightarrow> stamp \<Rightarrow> ('w \<Rightarrow> uuid) \<Rightarrow> ('w \<Rightarrow> 'a body) \<Rightarrow> bool" where
  "body_sound ws st home body \<longleftrightarrow> (\<forall>w db x db'. home w = ws \<and> fresh_stamp st db \<and> body w db = Inr (x, db')
     \<longrightarrow> sound ws db db')"

lemma with_access_effect:
  "snd (with_access uc st ws user minimum body db) = (case grant uc st ws user minimum (claimed uc st user db) of
     Inl _ \<Rightarrow> claimed uc st user db
   | Inr a \<Rightarrow> if claim_pending_memberships uc st user db = Inr (claimed uc st user db)
       then snd (respond (body a) (claimed uc st user db)) else claimed uc st user db)"
  by (auto simp: with_access_def workspace_access_def claimed_def split: sum.splits prod.splits)

lemma sound_with_access:
  assumes "body_sound ws st (wk_id \<circ> wa_workspace) body" "fresh_stamp st db"
  shows "sound ws (claimed uc st user db) (snd (with_access uc st ws user minimum body db))"
proof (cases "grant uc st ws user minimum (claimed uc st user db)")
  case (Inr a)
  have "sound ws (claimed uc st user db) (snd (respond (body a) (claimed uc st user db)))"
    using assms grant_Inr [OF Inr] unfolding body_sound_def respond_def
    by (cases "body a (claimed uc st user db)") (auto split: prod.splits)
  then show ?thesis
    using Inr by (simp add: with_access_effect)
qed (simp add: with_access_effect)

text \<open>What a request of a user may do to the committed tables: nothing, or what its role allows, in its workspace.\<close>

definition permitted :: "unicode \<Rightarrow> stamp \<Rightarrow> auth_user \<Rightarrow> uuid \<Rightarrow> member_role \<Rightarrow> 'a request \<Rightarrow> bool" where
  "permitted uc st user ws minimum r \<longleftrightarrow> (\<forall>db. fresh_stamp st db \<longrightarrow> snd (r db) = db
     \<or> sound ws (claimed uc st user db) (snd (r db))
       \<and> (snd (r db) = claimed uc st user db
          \<or> minimum \<noteq> Viewer \<and> (\<exists>a. grant uc st ws user minimum (claimed uc st user db) = Inr a)))"

definition reads :: "('w \<Rightarrow> 'a body) \<Rightarrow> bool" where
  "reads body \<longleftrightarrow> (\<forall>w db x db'. body w db = Inr (x, db') \<longrightarrow> db' = db)"

lemma permitted_access:
  assumes "body_sound ws st (wk_id \<circ> wa_workspace) body" "minimum \<noteq> Viewer"
  shows "permitted uc st user ws minimum (with_access uc st ws user minimum body)"
  using sound_with_access [OF assms(1)] assms(2) unfolding permitted_def with_access_effect
  by (auto split: sum.splits)

lemma permitted_reader:
  assumes "reads body"
  shows "permitted uc st user ws minimum (with_access uc st ws user minimum body)"
proof -
  have "snd (respond (body a) db) = db" for a db
    using assms unfolding reads_def respond_def by (fastforce split: sum.splits)
  then show ?thesis
    unfolding permitted_def with_access_effect by (simp split: sum.splits)
qed

lemma permitted_owned:
  assumes "body_sound ws st wk_id body" "minimum \<noteq> Viewer"
  shows "permitted uc st user ws minimum (owned_workspace uc st ws user minimum body)"
proof -
  have "body_sound ws st (wk_id \<circ> wa_workspace) (\<lambda>a. body (wa_workspace a))"
    using assms(1) unfolding body_sound_def comp_def by blast
  from permitted_access [OF this assms(2)] show ?thesis
    by (simp add: owned_workspace_def)
qed

lemma permitted_owned_reader: "reads body \<Longrightarrow> permitted uc st user ws minimum (owned_workspace uc st ws user minimum body)"
  unfolding owned_workspace_def by (rule permitted_reader) (simp add: reads_def)

lemma permitted_if: "permitted uc st user ws minimum r \<Longrightarrow>
    permitted uc st user ws minimum (\<lambda>db. if c then (Inl e, db) else r db)"
  by (simp add: permitted_def)

lemma permitted_refused: "permitted uc st user ws minimum (\<lambda>db. (Inl e, db))"
  by (simp add: permitted_def)

lemma permitted_option: "(\<And>b. permitted uc st user ws minimum (r b)) \<Longrightarrow>
    permitted uc st user ws minimum (\<lambda>db. case v of None \<Rightarrow> (Inl e, db) | Some b \<Rightarrow> r b db)"
  by (cases v) (simp_all add: permitted_def)

lemma after_commit_effect [simp]: "snd (after_commit f r db) = snd (r db)"
  by (auto simp: after_commit_def split: prod.splits sum.splits)

lemma permitted_after_commit: "permitted uc st user ws minimum r \<Longrightarrow> permitted uc st user ws minimum (after_commit f r)"
  by (simp add: permitted_def)

lemma body_soundI:
  "(\<And>w db x db'. home w = ws \<Longrightarrow> fresh_stamp st db \<Longrightarrow> body w db = Inr (x, db') \<Longrightarrow> sound ws db db')
    \<Longrightarrow> body_sound ws st home body"
  by (auto simp: body_sound_def)

lemma fresh_ids:
  assumes "fresh_stamp st db"
  shows "st_fresh st 0 \<notin> mb_id ` set (ab_members db)" "st_fresh st 0 \<notin> pe_id ` set (ab_people db)"
    "st_fresh st 0 \<notin> pj_id ` set (ab_projects db)" "st_fresh st 0 \<notin> so_id ` set (ab_sources db)"
  using assms unfolding fresh_stamp_def by (meson UnI1 UnI2 insertI1)+

lemma user_event_home [simp]: "ae_workspace_id (user_event ws user action kind target details rid) = ws"
  by (simp add: user_event_def)

lemma owned_source_Inr:
  "owned_source i w db = Inr s \<Longrightarrow> get_source i db = Some s \<and> so_id s = i \<and> so_workspace_id s = wk_id w"
  by (auto simp: owned_source_def dest: get_source_id split: option.splits if_splits)

lemma owned_meeting_Inr:
  "owned_meeting i w db = Inr s \<Longrightarrow> get_source i db = Some s \<and> so_id s = i \<and> so_workspace_id s = wk_id w"
  by (auto simp: owned_meeting_def dest: get_source_id split: option.splits if_splits)

lemma source_in_get: "get_source i db = Some s \<Longrightarrow> source_in db i (so_workspace_id s)"
  unfolding get_source_def by (rule refers_get)

lemma get_project_Inr:
  "get_project i w db = Inr p \<Longrightarrow> row_get pj_id i (ab_projects db) = Some p \<and> pj_id p = i \<and> pj_workspace_id p = wk_id w"
  using row_get_Some by (fastforce simp: get_project_def split: option.splits if_splits)

lemma sound_add_person_body: "body_sound ws st wk_id (add_person uc st user b)"
proof (rule body_soundI)
  fix w :: workspace_row and db x db'
  assume w: "wk_id w = ws" and fresh: "fresh_stamp st db" and run: "add_person uc st user b w db = Inr (x, db')"
  obtain email where email: "normalize_email uc (pi_email b) = Inr email"
    using run by (auto simp: add_person_def split: sum.splits)
  let ?found = "if email = None then None else find (\<lambda>p. pe_workspace_id p = wk_id w
    \<and> pe_email_normalized p = map_option snd email) (ab_people db)"
  show "sound ws db db'"
  proof (cases ?found)
    case None
    let ?p = "new_person st w b email"
    have "sound ws db (db\<lparr>ab_people := ab_people db @ [?p]\<rparr>)"
      using fresh_ids(2) [OF fresh] w by (intro sound_add_person) (simp_all add: new_person_def)
    moreover have "db' = add_audit_event st (user_event (wk_id w) user ''person.created'' ''person'' (pe_id ?p) [] None)
        (db\<lparr>ab_people := ab_people db @ [?p]\<rparr>)"
      using run None email by (simp add: add_person_def Let_def)
    ultimately show ?thesis
      using sound_trans sound_audit w by simp
  next
    case (Some p)
    then have p: "p \<in> set (ab_people db)" "pe_workspace_id p = ws"
      using find_SomeD w by (fastforce split: if_splits)+
    show ?thesis
    proof (rule soundI)
      assume "scoped db"
      then have "row_get pe_id (pe_id p) (ab_people db) = Some p"
        using p(1) row_get_unique by (auto simp: scoped_def keyed_db_def)
      from sound_put_person [OF this, where ws = ws] have "sound ws db db'"
        using run Some email p(2)
        by (auto simp: add_person_def merge_person_def rbind_Inr_iff Let_def split: option.splits if_splits)
      then show "scoped db' \<and> confined ws db db'"
        using \<open>scoped db\<close> by (simp add: sound_def)
    qed
  qed
qed

lemma sound_edit_person: "body_sound ws st wk_id (edit_person uc st user i b)"
proof (rule body_soundI)
  fix w :: workspace_row and db x db'
  assume w: "wk_id w = ws" and run: "edit_person uc st user i b w db = Inr (x, db')"
  obtain p p' where p: "row_get pe_id i (ab_people db) = Some p" "pe_workspace_id p = ws"
    and p': "patch_person uc st b p = Inr p'" and db': "db' = put_person p' (add_audit_event st
      (user_event (wk_id w) user ''person.updated'' ''person'' i (person_fields b) None) db)"
    using run w by (auto simp: edit_person_def rbind_Inr_iff Let_def split: option.splits if_splits)
  have same: "pe_id p' = i" "pe_workspace_id p' = ws"
    using p p' row_get_Some [OF p(1)] by (auto simp: patch_person_def split: sum.splits if_splits)
  have "sound ws db (add_audit_event st (user_event (wk_id w) user ''person.updated'' ''person'' i (person_fields b) None) db)"
    by (rule sound_audit) (simp add: w)
  moreover have "sound ws (add_audit_event st (user_event (wk_id w) user ''person.updated'' ''person'' i (person_fields b) None) db) db'"
    unfolding db' by (rule sound_put_person [OF _ same(1) p(2) same(2)]) (simp add: p)
  ultimately show "sound ws db db'"
    by (rule sound_trans)
qed

lemma sound_then_audit:
  "sound ws db db1 \<Longrightarrow> ae_workspace_id e = ws \<Longrightarrow> sound ws db (add_audit_event st e db1)"
  using sound_trans sound_audit by blast

lemma sound_add_project_body: "body_sound ws st wk_id (add_project st user b)"
proof (rule body_soundI)
  fix w :: workspace_row and db x db'
  assume w: "wk_id w = ws" and fresh: "fresh_stamp st db" and run: "add_project st user b w db = Inr (x, db')"
  let ?p = "\<lparr>pj_id = st_fresh st 0, pj_workspace_id = ws, pj_owner_id = wk_owner_id w, pj_revision = 0,
    pj_name = qi_name b, pj_goal = qi_goal b, pj_description = qi_description b,
    pj_owner_person_id = qi_owner_person_id b, pj_starts_on = qi_starts_on b, pj_ends_on = qi_ends_on b,
    pj_archived_at = None, pj_created_at = st_now st, pj_updated_at = st_now st\<rparr>"
  obtain r where ref: "active_person (qi_owner_person_id b) ws (wk_owner_id w) db = Inr r"
    and db': "db' = add_audit_event st (user_event ws user ''project.created'' ''project'' (st_fresh st 0) [] None)
      (db\<lparr>ab_projects := ab_projects db @ [?p]\<rparr>)"
    using run w by (auto simp: add_project_def rbind_Inr_iff Let_def)
  have "sound ws db (db\<lparr>ab_projects := ab_projects db @ [?p]\<rparr>)"
    using ref fresh_ids(3) [OF fresh] active_person_in by (intro sound_add_project) auto
  then show "sound ws db db'"
    unfolding db' by (rule sound_then_audit) simp
qed

lemma patch_project_home:
  assumes "patch_project st b p db = Inr p'"
  shows "pj_id p' = pj_id p" "pj_workspace_id p' = pj_workspace_id p"
    and "pj_owner_person_id p' = Some j \<Longrightarrow> pj_owner_person_id p = Some j \<or> person_in db j (pj_workspace_id p)"
proof -
  let ?ref = "active_person (case qp_owner_person_id b of Some v \<Rightarrow> v | None \<Rightarrow> None) (pj_workspace_id p) (pj_owner_id p) db"
  obtain r where "?ref = Inr r" and home: "pj_id p' = pj_id p" "pj_workspace_id p' = pj_workspace_id p"
    and owner: "pj_owner_person_id p' = (case qp_owner_person_id b of Some v \<Rightarrow> v | None \<Rightarrow> pj_owner_person_id p)"
    using assms unfolding patch_project_def by (fastforce simp: rbind_Inr_iff Let_def simp del: if_split split: if_splits)
  then show "pj_id p' = pj_id p" "pj_workspace_id p' = pj_workspace_id p"
    "pj_owner_person_id p' = Some j \<Longrightarrow> pj_owner_person_id p = Some j \<or> person_in db j (pj_workspace_id p)"
    by (cases "qp_owner_person_id b"; auto dest: active_person_in)+
qed

lemma sound_edit_project: "body_sound ws st wk_id (edit_project st user i b)"
proof (rule body_soundI)
  fix w :: workspace_row and db x db'
  assume w: "wk_id w = ws" and run: "edit_project st user i b w db = Inr (x, db')"
  let ?e = "user_event ws user ''project.updated'' ''project'' i (project_fields b) None"
  obtain p p' where p: "row_get pj_id i (ab_projects db) = Some p" "pj_workspace_id p = ws" "pj_id p = i"
    and p': "patch_project st b p db = Inr p'" and db': "db' = put_project p' (add_audit_event st ?e db)"
    using run w by (auto simp: edit_project_def rbind_Inr_iff Let_def dest!: get_project_Inr)
  show "sound ws db db'"
  proof (rule soundI)
    assume scoped: "scoped db"
    have "person_in db j ws" if "pj_owner_person_id p' = Some j" for j
      using patch_project_home(3) [OF p' that] p row_get_Some [OF p(1)] scoped
      by (auto simp: scoped_def linked_db_def)
    then have "sound ws (add_audit_event st ?e db) db'"
      unfolding db' using p patch_project_home(1,2) [OF p'] by (intro sound_put_project [where p = p]) simp_all
    then have "sound ws db db'"
      by (rule sound_trans [rotated]) (rule sound_audit, simp)
    then show "scoped db' \<and> confined ws db db'"
      using scoped by (simp add: sound_def)
  qed
qed

lemma set_participants_fields [simp]:
  "ab_projects (set_participants st ws i people db) = ab_projects db"
  "ab_people (set_participants st ws i people db) = ab_people db"
  by (simp_all add: set_participants_def)

lemma sound_replace_participants: "body_sound ws st wk_id (replace_participants st user i revision people)"
proof (rule body_soundI)
  fix w :: workspace_row and db x db'
  assume w: "wk_id w = ws" and run: "replace_participants st user i revision people w db = Inr (x, db')"
  let ?e = "user_event ws user ''project.participants_updated'' ''project'' i
    [(lit ''participantCount'', JInt (int (length people)))] None"
  obtain p r where p: "row_get pj_id i (ab_projects db) = Some p" "pj_workspace_id p = ws" "pj_id p = i"
    and r: "traverse (\<lambda>q. active_person (Some q) ws (wk_owner_id w) db) people = Inr r"
    and db': "db' = put_project (p\<lparr>pj_revision := pj_revision p + 1, pj_updated_at := st_now st\<rparr>)
      (add_audit_event st ?e (set_participants st ws i people db))"
    using run w by (auto simp: replace_participants_def rbind_Inr_iff Let_def dest!: get_project_Inr split: if_splits)
  have "project_in db i ws"
    using refers_get [OF p(1), where home = pj_workspace_id] p(2) by simp
  moreover have "person_in db j ws" if "j \<in> set people" for j
    using traverse_member [OF r that] active_person_in by blast
  ultimately have links: "sound ws db (set_participants st ws i people db)"
    by (rule sound_participants)
  show "sound ws db db'"
  proof (rule soundI)
    assume scoped: "scoped db"
    have "person_in db j ws" if "pj_owner_person_id p = Some j" for j
      using that p row_get_Some [OF p(1)] scoped by (auto simp: scoped_def linked_db_def)
    then have "sound ws (add_audit_event st ?e (set_participants st ws i people db)) db'"
      unfolding db' using p by (intro sound_put_project [where p = p]) simp_all
    then have "sound ws db db'"
      by (rule sound_trans [rotated]) (rule sound_then_audit [OF links], simp)
    then show "scoped db' \<and> confined ws db db'"
      using scoped by (simp add: sound_def)
  qed
qed

text \<open>A source as it is stored, its primary project in its workspace.\<close>

definition held :: "uuid \<Rightarrow> source_row \<Rightarrow> app_db \<Rightarrow> bool" where
  "held ws s db \<longleftrightarrow> get_source (so_id s) db = Some s \<and> so_workspace_id s = ws
     \<and> (\<forall>j. so_project_id s = Some j \<longrightarrow> project_in db j ws)"

definition kept_source :: "source_row \<Rightarrow> source_row \<Rightarrow> bool" where
  "kept_source s s' \<longleftrightarrow> so_id s' = so_id s \<and> so_workspace_id s' = so_workspace_id s \<and> so_project_id s' = so_project_id s"

lemma held_scoped: "scoped db \<Longrightarrow> get_source i db = Some s \<Longrightarrow> so_workspace_id s = ws \<Longrightarrow> held ws s db"
  using row_get_Some [of so_id i "ab_sources db" s] get_source_id [of i db s]
  by (auto simp: held_def scoped_def linked_db_def get_source_def)

lemma held_source_in: "held ws s db \<Longrightarrow> source_in db (so_id s) ws"
  using source_in_get by (auto simp: held_def)

lemma sound_held_put:
  assumes "held ws s db" "kept_source s s'"
  shows "sound ws db (put_source s' db)" "held ws s' (put_source s' db)"
proof -
  show "sound ws db (put_source s' db)"
    by (rule sound_put_source [of "so_id s" db s]) (use assms in \<open>auto simp: held_def kept_source_def\<close>)
  show "held ws s' (put_source s' db)"
    using assms by (auto simp: held_def kept_source_def get_source_put)
qed

lemma held_audit [simp]: "held ws s (add_audit_event st e db) \<longleftrightarrow> held ws s db"
  by (simp add: held_def)

lemma link_people_fields [simp]:
  "ab_projects (link_people st s P people db) = ab_projects db" "ab_people (link_people st s P people db) = ab_people db"
  "ab_sources (link_people st s P people db) = ab_sources db"
  by (simp_all add: link_people_def)

lemma link_projects_fields [simp]:
  "ab_projects (link_projects st s ids db) = ab_projects db" "ab_people (link_projects st s ids db) = ab_people db"
  "ab_sources (link_projects st s ids db) = ab_sources db"
  by (simp_all add: link_projects_def)

lemma get_source_links [simp]:
  "get_source i (link_people st s P people db) = get_source i db" "get_source i (link_projects st s ids db) = get_source i db"
  by (simp_all add: get_source_def)

lemma held_link_people [simp]: "held ws s (link_people st s' P people db) \<longleftrightarrow> held ws s db"
  by (simp add: held_def)

lemma sound_replace_projects:
  assumes "held ws s db" "replace_projects st s ids db = Inr (s1, db1)"
  shows "sound ws db db1" "held ws s1 db1" "so_id s1 = so_id s" "so_workspace_id s1 = ws" "ab_people db1 = ab_people db"
proof -
  let ?linked = "link_projects st s ids db"
  obtain r where r: "traverse (\<lambda>i. active_project (Some i) ws (so_owner_id s) db) ids = Inr r"
    and s1: "s1 = s\<lparr>so_project_id := (case ids of i # _ \<Rightarrow> Some i | [] \<Rightarrow> None)\<rparr>" and db1: "db1 = put_source s1 ?linked"
    using assms by (auto simp: replace_projects_def rbind_Inr_iff Let_def held_def split: if_splits)
  have ids: "project_in db j ws" if "j \<in> set ids" for j
    using traverse_member [OF r that] active_project_in by blast
  have "sound ws db ?linked"
    using held_source_in [OF assms(1)] assms(1) ids by (intro sound_link_projects) (simp_all add: held_def)
  moreover have "sound ws ?linked db1"
    unfolding db1 by (rule sound_put_source [of "so_id s" _ s])
      (use assms(1) ids s1 in \<open>auto simp: held_def split: list.splits\<close>)
  ultimately show "sound ws db db1"
    by (rule sound_trans)
  show "held ws s1 db1"
    using assms(1) ids s1 unfolding db1 by (auto simp: held_def get_source_put split: list.splits)
  show "so_id s1 = so_id s" "so_workspace_id s1 = ws" "ab_people db1 = ab_people db"
    using assms(1) by (simp_all add: s1 db1 held_def)
qed

text \<open>A handler on a source the workspace owns.\<close>

lemma source_bodyI:
  fixes body :: "source_row \<Rightarrow> workspace_row \<Rightarrow> app_db \<Rightarrow> http_error + 'a \<times> app_db"
  assumes "\<And>w db s x db'. wk_id w = ws \<Longrightarrow> fresh_stamp st db \<Longrightarrow> scoped db \<Longrightarrow> held ws s db \<Longrightarrow> so_id s = i
    \<Longrightarrow> body s w db = Inr (x, db') \<Longrightarrow> sound ws db db'"
    and "\<And>w db s. get w db = Inr s \<Longrightarrow> get_source i db = Some s \<and> so_workspace_id s = wk_id w"
  shows "body_sound ws st wk_id (\<lambda>w db. rbind (get w db) (\<lambda>s. body s w db))"
proof (rule body_soundI)
  fix w :: workspace_row and db x db'
  assume w: "wk_id w = ws" and fresh: "fresh_stamp st db" and run: "rbind (get w db) (\<lambda>s. body s w db) = Inr (x, db')"
  obtain s where s: "get w db = Inr s" "body s w db = Inr (x, db')"
    using run by (auto simp: rbind_Inr_iff)
  have stored: "get_source i db = Some s" "so_workspace_id s = ws"
    using assms(2) [OF s(1)] w by simp_all
  show "sound ws db db'"
  proof (rule soundI)
    assume "scoped db"
    then have "sound ws db db'"
      using assms(1) [OF w fresh _ held_scoped [OF _ stored] _ s(2)] get_source_id [OF stored(1)] by blast
    then show "scoped db' \<and> confined ws db db'"
      using \<open>scoped db\<close> by (simp add: sound_def)
  qed
qed

lemma sound_edit_associations:
  "body_sound ws st wk_id (edit_associations st i revision projects people)"
  unfolding edit_associations_def
proof (rule source_bodyI)
  fix w :: workspace_row and db s x db'
  assume w: "wk_id w = ws" and held: "held ws s db" and
    run: "(if so_association_revision s \<noteq> revision then Inl (http 409 ''Stale association revision'')
     else if \<not> distinct people then Inl (http 422 ''Duplicate person association'')
     else rbind (traverse (\<lambda>p. active_person (Some (fst p)) (wk_id w) (wk_owner_id w) db) people) (\<lambda>_.
       rbind (replace_projects st s projects db) (\<lambda>(s1, db1).
       let s2 = s1\<lparr>so_association_revision := so_association_revision s1 + 1,
             so_review_revision := (if so_kind s1 = MeetingKind \<and> so_review_state s1 \<noteq> Some RvConfirmed
               then so_review_revision s1 + 1 else so_review_revision s1)\<rparr>
       in Inr ((so_association_revision s2, projects, people),
            put_source s2 (link_people st s (\<lambda>_. True) people db1))))) = Inr (x, db')"
  let ?s2 = "\<lambda>s1. s1\<lparr>so_association_revision := so_association_revision s1 + 1,
    so_review_revision := (if so_kind s1 = MeetingKind \<and> so_review_state s1 \<noteq> Some RvConfirmed
      then so_review_revision s1 + 1 else so_review_revision s1)\<rparr>"
  have accepted: "so_association_revision s = revision" "distinct people"
    using run by (simp_all split: if_splits)
  obtain r s1 db1 where r: "traverse (\<lambda>p. active_person (Some (fst p)) ws (wk_owner_id w) db) people = Inr r"
    and moved: "replace_projects st s projects db = Inr (s1, db1)"
    and db': "db' = put_source (?s2 s1) (link_people st s (\<lambda>_. True) people db1)"
    using run w by (simp only: accepted simp_thms if_False rbind_Inr_iff Let_def split_paired_Ex case_prod_conv) auto
  have s2: "kept_source s1 (?s2 s1)"
    by (simp add: kept_source_def)
  note projects = sound_replace_projects [OF held moved]
  have "source_in db1 (so_id s) ws"
    using held_source_in [OF projects(2)] projects(3) by simp
  moreover have "person_in db1 (fst q) ws" if "q \<in> set people" for q
    using traverse_member [OF r that] active_person_in projects(5) by (metis (no_types))
  ultimately have "sound ws db1 (link_people st s (\<lambda>_. True) people db1)"
    using held by (intro sound_link_people) (simp_all add: held_def)
  moreover have "sound ws (link_people st s (\<lambda>_. True) people db1) db'"
    unfolding db' by (rule sound_held_put(1) [OF _ s2]) (simp add: projects(2))
  ultimately show "sound ws db db'"
    using projects(1) sound_trans by blast
qed (auto dest: owned_source_Inr)

lemma sound_edit_review: "body_sound ws st wk_id (edit_review st user i b)"
  unfolding edit_review_def
proof (rule source_bodyI)
  fix w :: workspace_row and db s x db'
  assume w: "wk_id w = ws" and held: "held ws s db" and run:
    "(if so_review_state s \<noteq> Some RvAwaitingReview then Inl (http 409 ''Meeting is not awaiting review'')
     else if so_review_revision s \<noteq> rp_revision b then Inl (http 409 ''Stale review revision'')
     else if \<not> distinct (map ut_id (rp_utterances b)) then Inl (http 422 ''Duplicate utterance ID'')
     else rbind (patched_projects b) (\<lambda>ids.
       rbind (validate_refs (wk_id w) (so_owner_id s) (rp_utterances b) db) (\<lambda>_.
       rbind (replace_projects st s ids db) (\<lambda>(s1, db1).
       let s2 = edited_source b (project_ids s db \<noteq> ids) s1
       in Inr (s2, put_source s2 (add_audit_event st (user_event (wk_id w) user ''transcript.edited'' ''source'' i
            [(lit ''revision'', JInt (so_review_revision s2)),
             (lit ''generationMethod'', JStr (lit ''direct_edit''))] None) db1)))))) = Inr (x, db')"
  obtain ids s1 db1 where moved: "replace_projects st s ids db = Inr (s1, db1)"
    and db': "db' = put_source (edited_source b (project_ids s db \<noteq> ids) s1) (add_audit_event st
      (user_event ws user ''transcript.edited'' ''source'' i
        [(lit ''revision'', JInt (so_review_revision (edited_source b (project_ids s db \<noteq> ids) s1))),
         (lit ''generationMethod'', JStr (lit ''direct_edit''))] None) db1)"
    using run w by (auto simp: rbind_Inr_iff Let_def split: if_splits prod.splits)
  note projects = sound_replace_projects [OF held moved]
  have "kept_source s1 (edited_source b m s1)" for m
    by (simp add: edited_source_def kept_source_def)
  then have "sound ws (add_audit_event st e db1) (put_source (edited_source b m s1) (add_audit_event st e db1))" for m e
    using sound_held_put(1) projects(2) held_audit by blast
  then show "sound ws db db'"
    unfolding db' using sound_then_audit [OF projects(1)] sound_trans user_event_home by blast
qed (auto dest: owned_meeting_Inr)

lemma sound_enqueue_transition:
  assumes "held ws s db"
  shows "sound ws db (snd (enqueue_transition st q s db))"
proof -
  have put: "sound ws db (put_source s' db)" "source_in (put_source s' db) (so_id s) ws" if "kept_source s s'" for s'
    using sound_held_put [OF assms that] held_source_in [of ws s' "put_source s' db"] that
    by (simp_all add: kept_source_def)
  show ?thesis
  proof (cases "qe_postgres q")
    case True
    let ?s = "s\<lparr>so_status := Queued\<rparr>"
    have "sound ws db (put_source ?s db)" "source_in (put_source ?s db) (so_id s) ws"
      by (rule put, simp add: kept_source_def)+
    from sound_trans [OF this(1) sound_enqueue [OF this(2)]] show ?thesis
      using True by (simp add: enqueue_transition_def Let_def)
  next
    case False
    then show ?thesis
      by (simp add: enqueue_transition_def Let_def) (auto intro!: put simp: kept_source_def)
  qed
qed

lemma sound_enqueue_after:
  assumes "held ws s db" "kept_source s s'"
  shows "sound ws db (snd (enqueue_transition st q s' (put_source s' db)))"
  using sound_trans [OF sound_held_put(1) [OF assms] sound_enqueue_transition [OF sound_held_put(2) [OF assms]]] .

lemma sound_release_confirmed:
  assumes held: "held ws s db" and w: "wk_id w = ws"
  shows "sound ws db (snd (release_confirmed st q user w s db))"
proof (cases "so_analysis_mode s = AgentMode")
  case True
  then show ?thesis
    using held by (auto simp: release_confirmed_def Let_def kept_source_def intro: sound_held_put(1))
next
  case False
  let ?e = "user_event ws user ''source.confirmed'' ''source'' (so_id s)
    [(lit ''analysisMode'', JStr (mode_value (so_analysis_mode s)))] None"
  have "sound ws (add_audit_event st ?e db) (snd (release_confirmed st q user w s db))"
    using False w held sound_enqueue_after [where s' = "s\<lparr>so_status := EnqueuePending, so_processing_stage := Confirmed,
      so_error_message := None\<rparr>" and db = "add_audit_event st ?e db" and s = s]
    by (simp add: release_confirmed_def Let_def kept_source_def)
  then show ?thesis
    by (rule sound_trans [rotated]) (rule sound_audit, simp)
qed

lemma traverse_image: "traverse f xs = Inr ys \<Longrightarrow> y \<in> set ys \<Longrightarrow> \<exists>x \<in> set xs. f x = Inr y"
  by (induction xs arbitrary: ys) (auto simp: rbind_Inr_iff)

lemma validated_person:
  assumes "validate_refs ws owner us db = Inr people" "(i, p) \<in> set people"
  shows "person_in db (pe_id p) ws"
proof -
  obtain j where j: "(case active_person (Some j) ws owner db of Inl e \<Rightarrow> Inl e | Inr (Some p) \<Rightarrow> Inr (j, p)
      | Inr None \<Rightarrow> Inl (http 500 ''AssertionError'')) = Inr (i, p)"
    using traverse_image [OF assms(1) [unfolded validate_refs_def] assms(2)] by blast
  then have "active_person (Some j) ws owner db = Inr (Some p)"
    by (cases "active_person (Some j) ws owner db") (auto split: option.splits)
  moreover from this have "pe_id p = j"
    using row_get_Some by (fastforce simp: active_person_def split: option.splits if_splits)
  ultimately show ?thesis
    using active_person_in by blast
qed

lemma sound_confirm_transcript:
  assumes held: "held ws s db" and w: "wk_id w = ws" and run: "confirm_transcript_review st w s db = Inr (s', db')"
  shows "sound ws db db'" "held ws s' db'"
proof -
  obtain us where us: "stored_utterances (so_review_utterances s) = Inr us"
    using run by (auto simp: confirm_transcript_review_def rbind_Inr_iff)
  let ?spoken = "filter (\<lambda>u. ut_text u \<noteq> []) us"
  have accepted: "distinct (map ut_id us)" "?spoken \<noteq> []"
    using run us by (auto simp: confirm_transcript_review_def Let_def split: if_splits)
  obtain people snap where people: "validate_refs ws (so_owner_id s) ?spoken db = Inr people"
    and s': "s' = confirmed_source st people snap ?spoken s"
    and db': "db' = put_source s' (link_people st s (\<lambda>r. r = Participant) (map (\<lambda>(i, p). (pe_id p, Participant)) people) db)"
    using run us w accepted by (simp add: confirm_transcript_review_def rbind_Inr_iff Let_def) metis
  have "person_in db (pe_id p) ws" if "(i, p) \<in> set people" for i p
    using validated_person [OF people that] .
  then have "sound ws db (link_people st s (\<lambda>r. r = Participant) (map (\<lambda>(i, p). (pe_id p, Participant)) people) db)"
    using held held_source_in [OF held] by (intro sound_link_people) (auto simp: held_def)
  moreover have kept: "kept_source s s'"
    by (simp add: s' confirmed_source_def Let_def kept_source_def)
  note put = sound_held_put [OF _ kept, of ws "link_people st s (\<lambda>r. r = Participant)
    (map (\<lambda>(i, p). (pe_id p, Participant)) people) db" for st]
  ultimately show "sound ws db db'"
    unfolding db' using held put(1) sound_trans held_link_people by blast
  show "held ws s' db'"
    unfolding db' using held put(2) held_link_people by blast
qed

lemma sound_confirm_body: "body_sound ws st wk_id (confirm_body st q user i revision)"
  unfolding confirm_body_def
proof (rule source_bodyI)
  fix w :: workspace_row and db s x db'
  assume w: "wk_id w = ws" and held: "held ws s db" and run:
    "(if so_review_revision s \<noteq> revision then Inl (http 409 ''Stale review revision'')
     else if so_review_state s = Some RvConfirmed then
       (if so_status s \<notin> {Failed, EnqueuePending} then Inr (Inr (job_payload s), db)
        else Inr (release_confirmed st q user w s db))
     else if so_review_state s = Some RvAwaitingReview then
       rbind (confirm_transcript_review st w s db) (\<lambda>(s', db'). Inr (release_confirmed st q user w s' db'))
     else Inl (http 409 ''Meeting is not awaiting review'')) = Inr (x, db')"
  then consider "db' = db" | "db' = snd (release_confirmed st q user w s db)"
    | s1 db1 where "confirm_transcript_review st w s db = Inr (s1, db1)" "db' = snd (release_confirmed st q user w s1 db1)"
    by (auto simp: rbind_Inr_iff split: if_splits)
  then show "sound ws db db'"
  proof cases
    case 3
    note confirmed = sound_confirm_transcript [OF held w 3(1)]
    show ?thesis
      unfolding 3(2) by (rule sound_trans [OF confirmed(1) sound_release_confirmed [OF confirmed(2) w]])
  qed (simp_all add: sound_release_confirmed [OF held w])
qed (auto dest: owned_meeting_Inr)

section \<open>New sources\<close>

lemma sound_add_source:
  assumes "add_source s db = Inr db1" "so_id s \<notin> so_id ` set (ab_sources db)" "so_workspace_id s = ws"
    and "\<And>i. so_project_id s = Some i \<Longrightarrow> project_in db i ws"
  shows "sound ws db db1" "held ws s db1" "ab_projects db1 = ab_projects db"
proof -
  have db1: "db1 = db\<lparr>ab_sources := ab_sources db @ [s]\<rparr>"
    using assms(1) by (simp add: add_source_def split: if_splits)
  show "sound ws db db1"
    unfolding db1 using assms(2-4) by (auto intro!: soundI simp: scoped_def keyed_db_def linked_db_def confined_def keys_append
        others_one refers_append)
  have "row_get so_id (so_id s) (ab_sources db) = None"
    using assms(2) unfolding row_get_None by (metis imageI)
  then show "held ws s db1"
    using assms(3,4) by (simp add: held_def db1 get_source_def row_get_append)
  show "ab_projects db1 = ab_projects db"
    by (simp add: db1)
qed

lemma sound_persist_and_enqueue:
  assumes "held ws s db"
  shows "sound ws db (snd (persist_and_enqueue_source st q s db))"
  using sound_enqueue [OF held_source_in [OF assms]] sound_held_put(1) [OF assms]
  by (auto simp: persist_and_enqueue_source_def kept_source_def)

lemma uploaded_row:
  assumes "upload uc up st w kind f = Inr s"
  shows "so_id s = st_fresh st 0" "so_workspace_id s = wk_id w" "so_project_id s = None"
  using assms by (auto simp: upload_def rbind_Inr_iff Let_def fresh_source_def split: if_splits)

lemma projects_exist_in:
  assumes "projects_exist ids w db = Inr u" "i \<in> set ids"
  shows "project_in db i (wk_id w)"
proof -
  obtain r where r: "traverse (\<lambda>i. active_project (Some i) (wk_id w) (wk_owner_id w) db) ids = Inr r"
    using assms(1) by (auto simp: projects_exist_def rbind_Inr_iff)
  show ?thesis
    using traverse_member [OF r assms(2)] active_project_in by blast
qed

lemma created_event_home [simp]: "ae_workspace_id (created_event ws user s extra) = ws"
  by (simp add: created_event_def)

lemma sound_upload_document: "body_sound ws st wk_id (upload_document_body uc up st user f)"
proof (rule body_soundI)
  fix w db x db'
  assume ws: "wk_id w = ws" and fresh: "fresh_stamp st db" and run: "upload_document_body uc up st user f w db = Inr (x, db')"
  obtain s db1 where s: "upload uc up st w DocumentKind f = Inr s" "add_source s db = Inr db1"
    and db': "db' = snd (persist_and_enqueue_source st (up_queueing up) s (add_audit_event st (created_event ws user s []) db1))"
    using run ws by (auto simp: upload_document_body_def rbind_Inr_iff)
  note row = uploaded_row [OF s(1)]
  have added: "sound ws db db1" "held ws s db1"
    by (rule sound_add_source [OF s(2)], use fresh_ids [OF fresh] row ws in simp_all)+
  let ?db2 = "add_audit_event st (created_event ws user s []) db1"
  have "sound ws db1 ?db2" "sound ws ?db2 db'"
    unfolding db' using sound_audit sound_persist_and_enqueue added(2) by simp_all
  then show "sound ws db db'"
    using added(1) sound_trans by blast
qed

text \<open>A source with its projects.\<close>

lemma sound_source_with_projects:
  assumes "add_source s db = Inr db1" "so_id s \<notin> so_id ` set (ab_sources db)" "so_workspace_id s = ws"
    and "so_project_id s = (case ids of i # _ \<Rightarrow> Some i | [] \<Rightarrow> None)" "\<And>i. i \<in> set ids \<Longrightarrow> project_in db i ws"
    and "replace_projects st s ids (add_audit_event st (created_event ws user s extra) db1) = Inr (s', db2)"
  shows "sound ws db db2" "held ws s' db2"
proof -
  have "project_in db i ws" if "so_project_id s = Some i" for i
    using that assms(4,5) by (auto split: list.splits)
  note added = sound_add_source [OF assms(1-3) this]
  have "sound ws db1 (add_audit_event st (created_event ws user s extra) db1)"
    by (simp add: sound_audit)
  moreover have "held ws s (add_audit_event st (created_event ws user s extra) db1)"
    using added(2) by simp
  ultimately show "sound ws db db2" "held ws s' db2"
    using added(1) sound_replace_projects(1,2) [OF _ assms(6)] sound_trans by blast+
qed

lemma sound_upload_recording: "body_sound ws st wk_id (upload_recording_body uc up st user b ids)"
proof (rule body_soundI)
  fix w db x db'
  assume ws: "wk_id w = ws" and fresh: "fresh_stamp st db" and run: "upload_recording_body uc up st user b ids w db = Inr (x, db')"
  obtain us s0 db1 s' db2 where exist: "projects_exist ids w db = Inr ()" and s0: "upload uc up st w MeetingKind (rf_file b) = Inr s0"
    and add: "add_source (recording_of ids us s0) db = Inr db1"
    and links: "replace_projects st (recording_of ids us s0) ids
      (add_audit_event st (created_event ws user (recording_of ids us s0) []) db1) = Inr (s', db2)"
    and db': "db' = snd (persist_and_enqueue_source st (up_queueing up) s' db2)"
    using run ws by (auto simp: upload_recording_body_def rbind_Inr_iff Let_def)
  have "sound ws db db2" "held ws s' db2"
    by (rule sound_source_with_projects [OF add _ _ _ _ links],
      use fresh_ids [OF fresh] uploaded_row [OF s0] projects_exist_in [OF exist] ws in \<open>simp_all add: recording_of_def\<close>)+
  then show "sound ws db db'"
    unfolding db' using sound_persist_and_enqueue sound_trans by blast
qed

lemma sound_create_transcript: "body_sound ws st wk_id (create_transcript_body up st user b)"
proof (rule body_soundI)
  fix w db x db'
  assume ws: "wk_id w = ws" and fresh: "fresh_stamp st db" and run: "create_transcript_body up st user b w db = Inr (x, db')"
  obtain ids us db1 s' where exist: "projects_exist ids w db = Inr ()"
    and add: "add_source (transcript_row up st w b ids us) db = Inr db1"
    and links: "replace_projects st (transcript_row up st w b ids us) ids (add_audit_event st
      (created_event ws user (transcript_row up st w b ids us) [(lit ''transcriptSource'', JStr (lit ''browser''))]) db1) = Inr (s', db')"
    using run ws by (auto simp: create_transcript_body_def rbind_Inr_iff Let_def)
  show "sound ws db db'"
    by (rule sound_source_with_projects(1) [OF add _ _ _ _ links],
      use fresh_ids [OF fresh] projects_exist_in [OF exist] ws in \<open>simp_all add: transcript_row_def fresh_source_def Let_def\<close>)
qed

lemma sound_retry_body: "body_sound ws st wk_id (retry_body st q i)"
  unfolding retry_body_def
proof (rule source_bodyI)
  fix w :: workspace_row and db and s :: source_row and x db'
  let ?s = "s\<lparr>so_status := EnqueuePending, so_processing_stage := Transcribing, so_error_message := None\<rparr>"
  assume held: "held ws s db" and run:
    "(if so_transcript_source s \<noteq> Some FromServer \<or> so_review_state s \<noteq> Some RvTranscribing
     then Inl (http 409 ''Meeting cannot be retranscribed'')
     else if so_status s \<in> {Queued, EnqueuePending, Processing} then Inr (Inr (job_payload s), db)
     else if so_status s \<noteq> Failed then Inl (http 409 ''Transcription has not failed'')
     else let s' = ?s in Inr (enqueue_transition st q s' (put_source s' db))) = Inr (x, db')"
  then have "db' = db \<or> db' = snd (enqueue_transition st q ?s (put_source ?s db))"
    by (auto simp: Let_def split: if_splits)
  then show "sound ws db db'"
    using sound_enqueue_after [OF held, of ?s] by (auto simp: kept_source_def)
qed (auto dest: owned_meeting_Inr)

section \<open>Members\<close>

lemma editable_member_Inr:
  "editable_member ws i db = Inr m \<Longrightarrow> row_get mb_id i (ab_members db) = Some m \<and> mb_id m = i \<and> mb_workspace_id m = ws"
  using row_get_Some by (fastforce simp: editable_member_def split: option.splits if_splits)

lemma permitted_change_role: "permitted uc st user ws Admin (change_role uc st ws user i role rid)"
  unfolding change_role_def
proof (rule permitted_access [OF body_soundI])
  fix a :: access_grant and db x db'
  assume run: "rbind (editable_member ws i db) (\<lambda>m.
       let m' = m\<lparr>mb_role := invited_member_role role\<rparr> in
       Inr (m', add_audit_event st (user_event ws user ''member.role_changed'' ''member'' i
         [(lit ''email'', JStr (mb_email m)), (lit ''before'', JStr (member_role_value (mb_role m))),
          (lit ''after'', JStr (member_role_value (mb_role m')))] rid)
         (db\<lparr>ab_members := row_upd mb_id i (\<lambda>_. m') (ab_members db)\<rparr>))) = Inr (x, db')"
  obtain m where m: "editable_member ws i db = Inr m"
    using run by (auto simp: rbind_Inr_iff)
  show "sound ws db db'"
    using run m editable_member_Inr [OF m]
    by (auto simp: Let_def intro!: sound_then_audit sound_put_member [where m = m])
qed simp

lemma permitted_remove_member: "permitted uc st user ws Admin (remove_member uc st ws user i rid)"
  unfolding remove_member_def
proof (rule permitted_access [OF body_soundI])
  fix a :: access_grant and db x db'
  assume run: "rbind (editable_member ws i db) (\<lambda>m.
       Inr ((), add_audit_event st (user_event ws user ''member.removed'' ''member'' i
         [(lit ''email'', JStr (mb_email m)), (lit ''role'', JStr (member_role_value (mb_role m)))] rid)
         (db\<lparr>ab_members := row_del mb_id i (ab_members db)\<rparr>))) = Inr (x, db')"
  obtain m where m: "editable_member ws i db = Inr m"
    using run by (auto simp: rbind_Inr_iff)
  show "sound ws db db'"
    using run m editable_member_Inr [OF m] by (auto intro!: sound_then_audit sound_del_member [where m = m])
qed simp

lemma permitted_invite: "permitted uc st user ws Admin (invite_member uc st ws user raw role rid)"
  unfolding invite_member_def
proof (rule permitted_option, rule permitted_access [OF body_soundI])
  fix email and a :: access_grant and db x db'
  assume fresh: "fresh_stamp st db" and run:
    "(let normalized = normalize_member_email uc email in
       if \<exists>m \<in> set (ab_members db). mb_workspace_id m = ws \<and> mb_email_normalized m = normalized
       then Inl (http 409 ''Member already invited'')
       else let m = \<lparr>mb_id = st_fresh st 0, mb_workspace_id = ws, mb_user_id = None, mb_email = email,
              mb_email_normalized = normalized, mb_role = invited_member_role role,
              mb_invited_by = us_id user, mb_joined_at = None, mb_created_at = st_now st\<rparr>
         in Inr (m, add_audit_event st (user_event ws user ''member.invited'' ''member'' (mb_id m)
              [(lit ''email'', JStr email), (lit ''role'', JStr (member_role_value (mb_role m)))] rid)
              (db\<lparr>ab_members := ab_members db @ [m]\<rparr>))) = Inr (x, db')"
  then show "sound ws db db'"
    using fresh_ids(1) [OF fresh]
    by (auto simp: Let_def intro!: sound_then_audit sound_add_member split: if_splits)
qed simp

section \<open>Every request\<close>

datatype web_request = ListMembers | InviteMember pystr invited_role | ChangeRole uuid invited_role | RemoveMember uuid
  | AuditEvents "pystr option" "uuid option" nat
  | ListPeople | CreatePerson person_input | UpdatePerson uuid person_patch
  | ListProjects | CreateProject project_input | UpdateProject uuid project_patch
  | ListParticipants uuid | ReplaceParticipants uuid int "uuid list"
  | GetAssociations uuid | PatchAssociations uuid int "uuid list" "(uuid \<times> source_person_role) list"
  | ListSources | GetWorkspace | UploadDocument upload_file | UploadRecording recording_form | CreateTranscript transcript_input
  | GetReview uuid | SaveReview uuid review_patch | ConfirmReview uuid int | RetryTranscription uuid

fun required_role :: "web_request \<Rightarrow> member_role" where
  "required_role (InviteMember email role) = Admin"
| "required_role (ChangeRole i role) = Admin"
| "required_role (RemoveMember i) = Admin"
| "required_role (CreatePerson b) = Editor"
| "required_role (UpdatePerson i b) = Editor"
| "required_role (CreateProject b) = Editor"
| "required_role (UpdateProject i b) = Editor"
| "required_role (ReplaceParticipants i revision people) = Editor"
| "required_role (PatchAssociations i revision projects people) = Editor"
| "required_role (UploadDocument f) = Editor"
| "required_role (UploadRecording b) = Editor"
| "required_role (CreateTranscript b) = Editor"
| "required_role (SaveReview i b) = Editor"
| "required_role (ConfirmReview i revision) = Editor"
| "required_role (RetryTranscription i) = Editor"
| "required_role r = Viewer"

definition answered :: "'a request \<Rightarrow> unit request" where
  "answered r db = (case r db of (Inl e, db') \<Rightarrow> (Inl e, db') | (Inr x, db') \<Rightarrow> (Inr (), db'))"

text \<open>The routes of the workspace, by what they ask for.\<close>

fun perform ::
  "unicode \<Rightarrow> upload_env \<Rightarrow> (pystr \<Rightarrow> uuid option) \<Rightarrow> stamp \<Rightarrow> auth_user \<Rightarrow> uuid \<Rightarrow> pystr option \<Rightarrow> web_request
    \<Rightarrow> unit request" where
  "perform uc up parse st user ws rid ListMembers = answered (list_members uc st ws user)"
| "perform uc up parse st user ws rid (InviteMember email role) = answered (invite_member uc st ws user email role rid)"
| "perform uc up parse st user ws rid (ChangeRole i role) = answered (change_role uc st ws user i role rid)"
| "perform uc up parse st user ws rid (RemoveMember i) = answered (remove_member uc st ws user i rid)"
| "perform uc up parse st user ws rid (AuditEvents action actor limit) =
     answered (audit_events uc st parse ws user action actor limit)"
| "perform uc up parse st user ws rid ListPeople = answered (list_people uc st ws user)"
| "perform uc up parse st user ws rid (CreatePerson b) = answered (create_person uc st ws user b)"
| "perform uc up parse st user ws rid (UpdatePerson i b) = answered (update_person uc st ws user i b)"
| "perform uc up parse st user ws rid ListProjects = answered (list_projects uc st ws user)"
| "perform uc up parse st user ws rid (CreateProject b) = answered (create_project uc st ws user b)"
| "perform uc up parse st user ws rid (UpdateProject i b) = answered (update_project uc st ws user i b)"
| "perform uc up parse st user ws rid (ListParticipants i) = answered (list_project_participants uc st ws user i)"
| "perform uc up parse st user ws rid (ReplaceParticipants i revision people) =
     answered (replace_project_participants uc st ws user i revision people)"
| "perform uc up parse st user ws rid (GetAssociations i) = answered (get_associations uc st ws user i)"
| "perform uc up parse st user ws rid (PatchAssociations i revision projects people) =
     answered (patch_associations uc st ws user i revision projects people)"
| "perform uc up parse st user ws rid ListSources = answered (list_workspace_sources uc st ws user)"
| "perform uc up parse st user ws rid GetWorkspace = answered (get_workspace uc st ws user)"
| "perform uc up parse st user ws rid (UploadDocument f) = answered (upload_document uc up st ws user f)"
| "perform uc up parse st user ws rid (UploadRecording b) = answered (upload_recording uc up st ws user b)"
| "perform uc up parse st user ws rid (CreateTranscript b) = answered (create_transcript_source uc up st ws user b)"
| "perform uc up parse st user ws rid (GetReview i) = answered (get_review uc st ws user i)"
| "perform uc up parse st user ws rid (SaveReview i b) = answered (save_review uc st ws user i b)"
| "perform uc up parse st user ws rid (ConfirmReview i revision) = answered (confirm_review uc st (up_queueing up) ws user i revision)"
| "perform uc up parse st user ws rid (RetryTranscription i) = answered (retry_transcription uc st (up_queueing up) ws user i)"

lemma permitted_answered: "permitted uc st user ws minimum r \<Longrightarrow> permitted uc st user ws minimum (answered r)"
  unfolding permitted_def answered_def by (auto split: prod.splits sum.splits)

lemma permitted_perform: "permitted uc st user ws (required_role req) (perform uc up parse st user ws rid req)"
proof (cases req)
  case (InviteMember email role)
  then show ?thesis by (simp add: permitted_answered permitted_invite)
next
  case (ChangeRole i role)
  then show ?thesis by (simp add: permitted_answered permitted_change_role)
next
  case (RemoveMember i)
  then show ?thesis by (simp add: permitted_answered permitted_remove_member)
next
  case (CreatePerson b)
  then show ?thesis
    by (simp add: create_person_def [abs_def] permitted_answered permitted_option permitted_owned sound_add_person_body)
next
  case (UpdatePerson i b)
  then show ?thesis
    by (simp add: update_person_def [abs_def] permitted_answered permitted_option permitted_owned sound_edit_person)
next
  case (CreateProject b)
  then show ?thesis
    by (simp add: create_project_def [abs_def] permitted_answered permitted_option permitted_owned sound_add_project_body)
next
  case (UpdateProject i b)
  then show ?thesis
    by (simp add: update_project_def [abs_def] permitted_answered permitted_if permitted_owned sound_edit_project)
next
  case (ReplaceParticipants i revision people)
  then show ?thesis
    by (simp add: replace_project_participants_def [abs_def] permitted_answered permitted_if permitted_owned
        sound_replace_participants)
next
  case (PatchAssociations i revision projects people)
  then show ?thesis
    by (simp add: patch_associations_def [abs_def] permitted_answered permitted_if permitted_owned sound_edit_associations)
next
  case (UploadDocument f)
  then show ?thesis
    by (simp add: upload_document_def permitted_answered permitted_after_commit permitted_owned sound_upload_document)
next
  case (UploadRecording b)
  then show ?thesis
    by (cases "form_projects b") (simp_all add: upload_recording_def [abs_def] permitted_answered permitted_after_commit
        permitted_owned sound_upload_recording permitted_refused)
next
  case (CreateTranscript b)
  then show ?thesis
    by (simp add: create_transcript_source_def [abs_def] permitted_answered permitted_if permitted_owned sound_create_transcript)
next
  case (SaveReview i b)
  then show ?thesis
    by (simp add: save_review_def [abs_def] permitted_answered permitted_option permitted_after_commit permitted_owned
        sound_edit_review)
next
  case (ConfirmReview i revision)
  then show ?thesis
    by (simp add: confirm_review_def [abs_def] permitted_answered permitted_if permitted_after_commit permitted_owned
        sound_confirm_body)
next
  case (RetryTranscription i)
  then show ?thesis
    by (simp add: retry_transcription_def permitted_answered permitted_after_commit permitted_owned sound_retry_body)
next
  case (AuditEvents action actor limit)
  then show ?thesis
    by (simp add: audit_events_def [abs_def]) (intro permitted_answered permitted_if permitted_reader,
      auto simp: reads_def Let_def)
qed (auto simp: list_members_def list_people_def list_projects_def list_project_participants_def get_associations_def
  get_review_def list_workspace_sources_def get_workspace_def reads_def rbind_Inr_iff intro!: permitted_answered permitted_reader permitted_owned_reader)

section \<open>Properties\<close>

text \<open>The tables after any number of requests, of any users, to any workspaces.\<close>

inductive served :: "unicode \<Rightarrow> upload_env \<Rightarrow> (pystr \<Rightarrow> uuid option) \<Rightarrow> app_db \<Rightarrow> app_db \<Rightarrow> bool"
  for uc up parse where
  served_start: "served uc up parse db db"
| served_step: "served uc up parse db db1 \<Longrightarrow> fresh_stamp st db1
    \<Longrightarrow> served uc up parse db (snd (perform uc up parse st user ws rid req db1))"

lemma perform_scoped:
  assumes "scoped db" "fresh_stamp st db"
  shows "scoped (snd (perform uc up parse st user ws rid req db))"
  using permitted_perform [of uc st user ws req up parse rid] assms unfolding permitted_def sound_def by auto

definition scope_db :: app_db where
  "scope_db = empty_db\<lparr>
     ab_workspaces := [\<lparr>wk_id = 1, wk_owner_id = 2, wk_name = lit ''team'', wk_model_settings = [], wk_created_at = 0\<rparr>],
     ab_people := [\<lparr>pe_id = 5, pe_workspace_id = 1, pe_owner_id = 2, pe_name = lit ''Ann'', pe_email = None,
       pe_email_normalized = None, pe_role = None, pe_aliases = [], pe_archived_at = None,
       pe_created_at = 0, pe_updated_at = 0\<rparr>]\<rparr>"

definition scope_queue :: upload_env where
  "scope_queue = \<lparr>up_queueing = \<lparr>qe_postgres = True, qe_publish = (\<lambda>_. True)\<rparr>, up_max_bytes = 100, up_token = lit ''t'',
     up_post = (\<lambda>_ _. Some 200), up_members = (\<lambda>_. None), up_decode_sig = (\<lambda>_. Some []), up_encode = (\<lambda>_. []),
     up_title = (\<lambda>_. [])\<rparr>"

definition scope_user :: auth_user where
  "scope_user = \<lparr>us_id = 2, us_email = None\<rparr>"

definition scope_request :: web_request where
  "scope_request = CreateProject \<lparr>qi_name = lit ''launch'', qi_goal = None, qi_description = None,
     qi_owner_person_id = Some 5, qi_starts_on = None, qi_ends_on = None\<rparr>"

lemma scope_db_scoped: "scoped scope_db"
  by (simp add: scope_db_def empty_db_def scoped_def keyed_db_def linked_db_def keys_unique_def)

lemma scope_db_fresh: "fresh_stamp example_stamp scope_db"
  by (simp add: scope_db_def empty_db_def fresh_stamp_def example_stamp_def)

lemma scope_run: "map pj_owner_person_id (ab_projects (snd (perform ascii_unicode scope_queue (\<lambda>_. None) example_stamp
    scope_user 1 None scope_request scope_db))) = [Some 5]"
  by code_simp





end
