(* ===== verification/GraphWriter.thy ===== *)
theory GraphWriter
  imports EntityResolution
begin

text \<open>
  The graph in Neo4j and the writer that merges a resolved graph into it
  (\<^verbatim>\<open>retrieval/infrastructure/graph_writer.py\<close>). Each Cypher statement is a function on the nodes and
  edges; a statement matches first and then writes. Identifiers are kept as UUIDs (their texts sort the
  same way) and instants as instants. The lemmas show that a write keeps the graph consistent: edges join
  nodes of one workspace, and the periods of one relation stay disjoint.
\<close>

section \<open>Nodes and edges\<close>

record graph_node =
  gn_id :: uuid
  gn_workspace_id :: uuid
  gn_kind :: pystr
  gn_name :: pystr
  gn_aliases :: "pystr list"
  gn_keys :: "pystr list"
  gn_identifiers :: "pystr list"
  gn_source_ids :: "uuid list"
  gn_evidence :: graph_evidence
  gn_superseded_by :: "uuid option"

record graph_edge =
  gd_id :: "uuid option"
  gd_workspace_id :: uuid
  gd_source :: uuid
  gd_target :: uuid
  gd_kind :: pystr
  gd_evidence :: graph_evidence
  gd_valid_from :: "instant option"
  gd_valid_to :: "instant option"

record graph_db =
  gb_nodes :: "graph_node list"
  gb_edges :: "graph_edge list"

section \<open>Statements on nodes\<close>

definition shares :: "'a list \<Rightarrow> 'a list \<Rightarrow> bool" where
  "shares xs ys \<longleftrightarrow> set xs \<inter> set ys \<noteq> {}"

text \<open>\<^verbatim>\<open>_FIND_EXISTING\<close>, for one row.\<close>

definition find_existing :: "uuid \<Rightarrow> graph_entity \<Rightarrow> graph_node list \<Rightarrow> graph_node list" where
  "find_existing ws e nodes = filter (\<lambda>n. gn_workspace_id n = ws \<and> gn_kind n = ge_kind e
     \<and> (shares (ge_keys e) (gn_keys n) \<or> shares (ge_identifiers e) (gn_identifiers n))) nodes"

text \<open>\<^verbatim>\<open>_UPSERT_ENTITIES\<close>: a row is the node it writes; what it does not say about a replacement stays.\<close>

definition upsert_entity :: "graph_node list \<Rightarrow> graph_node \<Rightarrow> graph_node list" where
  "upsert_entity nodes row = (if row_get gn_id (gn_id row) nodes = None then nodes @ [row]
     else row_upd gn_id (gn_id row)
       (\<lambda>n. row\<lparr>gn_superseded_by := or_else (gn_superseded_by row) (gn_superseded_by n)\<rparr>) nodes)"

text \<open>\<^verbatim>\<open>_SUPERSEDE\<close>: the pairs it matches, and their writes in order.\<close>

record supersede_row =
  sw_workspace_id :: uuid
  sw_new_id :: uuid
  sw_keys :: "pystr list"

definition supersede_matches :: "supersede_row list \<Rightarrow> graph_node list \<Rightarrow> (uuid \<times> uuid) list" where
  "supersede_matches rows nodes = concat (map (\<lambda>r. map (\<lambda>n. (sw_new_id r, gn_id n))
     (filter (\<lambda>n. gn_workspace_id n = sw_workspace_id r \<and> gn_kind n = entity_kind_value Decision
       \<and> shares (sw_keys r) (gn_keys n) \<and> gn_id n \<noteq> sw_new_id r
       \<and> (gn_superseded_by n = None \<or> gn_superseded_by n = Some (sw_new_id r))) nodes)) rows)"

definition supersede :: "supersede_row list \<Rightarrow> graph_node list \<Rightarrow> uuid list \<times> graph_node list" where
  "supersede rows nodes = (let found = supersede_matches rows nodes in
     (map fst found, foldl (\<lambda>ns (new, old). row_upd gn_id old (\<lambda>n. n\<lparr>gn_superseded_by := Some new\<rparr>) ns) nodes found))"

section \<open>Reconciling\<close>

definition directory_ids :: "pystr set \<Rightarrow> pystr set" where
  "directory_ids A = Set.filter (prefix (lit ''directory:'')) A"

definition disagree :: "'a set \<Rightarrow> 'a set \<Rightarrow> bool" where
  "disagree A B \<longleftrightarrow> A \<noteq> {} \<and> B \<noteq> {} \<and> A \<inter> B = {}"

definition found_nodes :: "pystr set \<Rightarrow> graph_node list \<Rightarrow> graph_node list" where
  "found_nodes own = filter (\<lambda>n. \<not> disagree (directory_ids own) (directory_ids (set (gn_identifiers n))))"

definition strong_nodes :: "pystr set \<Rightarrow> graph_node list \<Rightarrow> graph_node list" where
  "strong_nodes own = filter (\<lambda>n. own \<inter> set (gn_identifiers n) \<noteq> {})"

definition weak_nodes :: "pystr set \<Rightarrow> graph_node list \<Rightarrow> graph_node list" where
  "weak_nodes own found = filter (\<lambda>n. n \<notin> set (strong_nodes own found) \<and> directory_ids own = {}
     \<and> directory_ids (set (gn_identifiers n)) = {} \<and> \<not> (own \<noteq> {} \<and> gn_identifiers n \<noteq> [])) found"

definition chosen_nodes :: "graph_entity \<Rightarrow> graph_node list \<Rightarrow> graph_node list \<times> warning list" where
  "chosen_nodes e records = (let own = set (ge_identifiers e); found = found_nodes own records;
       strong = strong_nodes own found; weak = weak_nodes own found in
     if strong \<noteq> [] then (strong, [])
     else if own = {} \<and> length (filter (\<lambda>n. gn_identifiers n \<noteq> []) weak) > 1 then ([], [AmbiguousNode (ge_name e)])
     else (weak, []))"

record merged_entity =
  me_entity :: graph_entity
  me_sources :: "uuid set"

record reconcile_state =
  rc_merged :: "(uuid \<times> merged_entity) list"
  rc_ids :: "uuid \<Rightarrow> uuid option"
  rc_warnings :: "warning list"

definition identities_clash :: "pystr set \<Rightarrow> pystr set \<Rightarrow> bool" where
  "identities_clash own taken \<longleftrightarrow> disagree (directory_ids own) (directory_ids taken) \<or> disagree own taken"

text \<open>The node an entity goes to, the records it takes over and the extracted entity already there.\<close>

definition choose_target ::
  "graph_entity \<Rightarrow> graph_node list \<Rightarrow> (uuid \<times> merged_entity) list
    \<Rightarrow> uuid \<times> graph_node list \<times> merged_entity option" where
  "choose_target e chosen merged = (let target = (if chosen = [] then ge_id e else Min (gn_id ` set chosen)) in
     case map_of merged target of
       Some taken \<Rightarrow>
         if target \<noteq> ge_id e \<and> identities_clash (set (ge_identifiers e)) (set (ge_identifiers (me_entity taken)))
         then (ge_id e, [], map_of merged (ge_id e)) else (target, chosen, Some taken)
     | None \<Rightarrow> (target, chosen, None))"

definition merge_entity ::
  "unicode \<Rightarrow> graph_entity \<Rightarrow> uuid \<Rightarrow> graph_node list \<Rightarrow> merged_entity option \<Rightarrow> py_error + merged_entity" where
  "merge_entity uc e target chosen claimed = (let
       taken = filter (\<lambda>n. gn_id n = target) chosen;
       names = ge_name e # ge_aliases e @ concat (map (\<lambda>n. gn_name n # gn_aliases n) taken)
         @ (case claimed of None \<Rightarrow> [] | Some m \<Rightarrow> ge_name (me_entity m) # ge_aliases (me_entity m));
       keys = set (ge_keys e) \<union> (\<Union>n \<in> set taken. set (gn_keys n))
         \<union> (case claimed of None \<Rightarrow> {} | Some m \<Rightarrow> set (ge_keys (me_entity m)));
       identifiers = set (ge_identifiers e) \<union> (\<Union>n \<in> set taken. set (gn_identifiers n))
         \<union> (case claimed of None \<Rightarrow> {} | Some m \<Rightarrow> set (ge_identifiers (me_entity m)));
       sources = insert (gv_source_id (ge_evidence e)) (\<Union>n \<in> set taken. set (gn_source_ids n))
         \<union> (case claimed of None \<Rightarrow> {} | Some m \<Rightarrow> me_sources m)
     in case pick_canonical uc names (ge_kind e) of
       None \<Rightarrow> Inl ValueError
     | Some name \<Rightarrow> Inr \<lparr>me_entity = e\<lparr>ge_id := target, ge_name := name,
           ge_aliases := filter (\<lambda>n. n \<noteq> name) (fromkeys names),
           ge_keys := sorted_list_of_set keys, ge_identifiers := sorted_list_of_set identifiers\<rparr>,
         me_sources = sources\<rparr>)"

definition reconcile_entity ::
  "unicode \<Rightarrow> (graph_entity \<Rightarrow> graph_node list) \<Rightarrow> reconcile_state \<Rightarrow> graph_entity \<Rightarrow> py_error + reconcile_state" where
  "reconcile_entity uc records s e = (case chosen_nodes e (records e) of (chosen, warnings) \<Rightarrow>
     (case choose_target e chosen (rc_merged s) of (target, chosen', claimed) \<Rightarrow>
       rbind (merge_entity uc e target chosen' claimed) (\<lambda>m.
       Inr \<lparr>rc_merged = AList.update target m (rc_merged s), rc_ids = (rc_ids s)(ge_id e := Some target),
         rc_warnings = rc_warnings s @ warnings\<rparr>)))"

definition reconcile ::
  "unicode \<Rightarrow> graph_entity list \<Rightarrow> graph_node list \<Rightarrow> py_error + reconcile_state" where
  "reconcile uc es nodes = (let ws = ge_workspace_id (hd es) in
     foldr_result (reconcile_entity uc (\<lambda>e. concat (map (\<lambda>r. if ge_id r = ge_id e then find_existing ws r nodes else []) es)))
       \<lparr>rc_merged = [], rc_ids = (\<lambda>_. None), rc_warnings = []\<rparr> es)"

definition mapped_id :: "(uuid \<Rightarrow> uuid option) \<Rightarrow> uuid \<Rightarrow> uuid" where
  "mapped_id m i = (case m i of Some j \<Rightarrow> j | None \<Rightarrow> i)"

definition entity_row :: "(uuid \<Rightarrow> uuid option) \<Rightarrow> merged_entity \<Rightarrow> graph_node" where
  "entity_row ids m = (let e = me_entity m in
     \<lparr>gn_id = ge_id e, gn_workspace_id = ge_workspace_id e, gn_kind = ge_kind e, gn_name = ge_name e,
       gn_aliases = ge_aliases e, gn_keys = ge_keys e, gn_identifiers = ge_identifiers e,
       gn_source_ids = sorted_list_of_set (me_sources m), gn_evidence = ge_evidence e,
       gn_superseded_by = map_option (mapped_id ids) (ge_superseded_by e)\<rparr>)"

section \<open>Relations\<close>

text \<open>The relations of each kind, with the nodes their ends went to; a later one replaces an earlier one with the
  same identifier.\<close>

definition relation_kind_names :: "pystr list" where
  "relation_kind_names = map relation_kind_value [WORKS_ON, PARTICIPATED_IN, MENTIONED_IN, CREATED, ASSIGNED_TO,
     RELATED_TO, DECIDED_IN, RESULTED_IN, BLOCKED_BY, DUE_ON]"

definition mapped_relation :: "runtime \<Rightarrow> (uuid \<Rightarrow> uuid option) \<Rightarrow> graph_relation \<Rightarrow> graph_relation" where
  "mapped_relation rt ids r = (let s = mapped_id ids (gr_source_entity_id r); t = mapped_id ids (gr_target_entity_id r) in
     r\<lparr>gr_id := relation_id rt (gr_workspace_id r) s t (gr_kind r) (gr_valid_from r),
       gr_source_entity_id := s, gr_target_entity_id := t\<rparr>)"

definition group_relation ::
  "runtime \<Rightarrow> (uuid \<Rightarrow> uuid option) \<Rightarrow> (pystr \<times> (uuid \<times> graph_relation) list) list \<Rightarrow> graph_relation
    \<Rightarrow> py_error + (pystr \<times> (uuid \<times> graph_relation) list) list" where
  "group_relation rt ids d r = (if gr_kind r \<notin> set relation_kind_names then Inl ValueError
     else let r' = mapped_relation rt ids r in
       Inr (AList.update (gr_kind r) (AList.update (gr_id r') r'
         (case map_of d (gr_kind r) of Some rs \<Rightarrow> rs | None \<Rightarrow> [])) d))"

definition group_by_kind ::
  "runtime \<Rightarrow> graph_relation list \<Rightarrow> (uuid \<Rightarrow> uuid option) \<Rightarrow> py_error + (pystr \<times> graph_relation list) list" where
  "group_by_kind rt rs ids = rbind (foldr_result (group_relation rt ids) [] rs) (\<lambda>d.
     Inr (map (\<lambda>(kind, items). (kind, map snd items)) d))"

definition joins :: "pystr \<Rightarrow> uuid \<times> uuid \<Rightarrow> graph_edge \<Rightarrow> bool" where
  "joins kind p d \<longleftrightarrow> gd_kind d = kind \<and> (gd_source d, gd_target d) = p"

definition has_node :: "uuid \<Rightarrow> graph_node list \<Rightarrow> uuid \<Rightarrow> bool" where
  "has_node ws nodes i \<longleftrightarrow> (\<exists>n \<in> set nodes. gn_id n = i \<and> gn_workspace_id n = ws)"

definition has_ends :: "uuid \<Rightarrow> graph_node list \<Rightarrow> uuid \<times> uuid \<Rightarrow> bool" where
  "has_ends ws nodes p \<longleftrightarrow> has_node ws nodes (fst p) \<and> has_node ws nodes (snd p)"

definition edge_period :: "graph_edge \<Rightarrow> interval" where
  "edge_period d = \<lparr>valid_from = gd_valid_from d, valid_to = gd_valid_to d\<rparr>"

text \<open>\<^verbatim>\<open>_FIND_RELATIONS\<close> for one pair, \<^verbatim>\<open>_UPSERT_RELATIONS\<close> for one row, \<^verbatim>\<open>_DELETE_STALE_RELATIONS\<close>.\<close>

definition find_relations :: "uuid \<Rightarrow> pystr \<Rightarrow> uuid \<times> uuid \<Rightarrow> graph_db \<Rightarrow> interval list" where
  "find_relations ws kind p db = (if has_ends ws (gb_nodes db) p
     then map edge_period (filter (joins kind p) (gb_edges db)) else [])"

definition upsert_relation :: "graph_node list \<Rightarrow> graph_edge list \<Rightarrow> graph_edge \<Rightarrow> graph_edge list" where
  "upsert_relation nodes edges row = (let same = (\<lambda>d. joins (gd_kind row) (gd_source row, gd_target row) d
       \<and> gd_id d = gd_id row) in
     if \<not> has_ends (gd_workspace_id row) nodes (gd_source row, gd_target row) then edges
     else if \<exists>d \<in> set edges. same d then map (\<lambda>d. if same d then row else d) edges
     else edges @ [row])"

definition delete_stale ::
  "uuid \<Rightarrow> pystr \<Rightarrow> (uuid \<times> uuid) list \<Rightarrow> (uuid \<times> uuid \<Rightarrow> uuid list) \<Rightarrow> graph_node list \<Rightarrow> graph_edge list
    \<Rightarrow> graph_edge list" where
  "delete_stale ws kind pairs keep nodes edges = filter (\<lambda>d. \<not> (\<exists>p \<in> set pairs. has_ends ws nodes p \<and> joins kind p d
     \<and> (case gd_id d of None \<Rightarrow> True | Some i \<Rightarrow> i \<notin> set (keep p)))) edges"

definition ends_of :: "graph_relation \<Rightarrow> uuid \<times> uuid" where
  "ends_of r = (gr_source_entity_id r, gr_target_entity_id r)"

definition relation_row ::
  "runtime \<Rightarrow> uuid \<Rightarrow> pystr \<Rightarrow> graph_relation list \<Rightarrow> uuid \<times> uuid \<Rightarrow> interval \<Rightarrow> graph_edge" where
  "relation_row rt ws kind rs p i =
     \<lparr>gd_id = Some (relation_id rt ws (fst p) (snd p) kind (valid_from i)), gd_workspace_id = ws,
       gd_source = fst p, gd_target = snd p, gd_kind = kind,
       gd_evidence = gr_evidence (hd (filter (\<lambda>r. ends_of r = p) rs)),
       gd_valid_from = valid_from i, gd_valid_to = valid_to i\<rparr>"

definition pair_periods :: "graph_relation list \<Rightarrow> graph_db \<Rightarrow> uuid \<Rightarrow> pystr \<Rightarrow> uuid \<times> uuid \<Rightarrow> interval list" where
  "pair_periods rs db ws kind p = normalize (find_relations ws kind p db
     @ map span_of (filter (\<lambda>r. ends_of r = p) rs))"

definition write_relations :: "runtime \<Rightarrow> graph_db \<Rightarrow> pystr \<times> graph_relation list \<Rightarrow> graph_db" where
  "write_relations rt db = (\<lambda>(kind, rs). let ws = gr_workspace_id (hd rs);
       pairs = sorted_list_of_set (ends_of ` set rs);
       spans = pair_periods rs db ws kind;
       rows = concat (map (\<lambda>p. map (relation_row rt ws kind rs p) (spans p)) pairs);
       keep = (\<lambda>p. map (\<lambda>i. relation_id rt ws (fst p) (snd p) kind (valid_from i)) (spans p))
     in db\<lparr>gb_edges := delete_stale ws kind pairs keep (gb_nodes db)
       (foldl (upsert_relation (gb_nodes db)) (gb_edges db) rows)\<rparr>)"

section \<open>The writer\<close>

definition supersede_rows :: "uuid \<Rightarrow> (uuid \<Rightarrow> uuid option) \<Rightarrow> supersession list \<Rightarrow> supersede_row list" where
  "supersede_rows ws ids = map (\<lambda>x. \<lparr>sw_workspace_id = ws, sw_new_id = mapped_id ids (ss_new_id x), sw_keys = ss_old_keys x\<rparr>)"

definition write_supersessions ::
  "uuid \<Rightarrow> (uuid \<Rightarrow> uuid option) \<Rightarrow> supersession list \<Rightarrow> graph_db \<Rightarrow> warning list \<times> graph_db" where
  "write_supersessions ws ids xs db = (if xs = [] then ([], db) else
     (case supersede (supersede_rows ws ids xs) (gb_nodes db) of (replaced, nodes) \<Rightarrow>
       (List.map_filter (\<lambda>x. if mapped_id ids (ss_new_id x) \<notin> set replaced then Some (SupersededNotFound (ss_old_name x))
          else None) xs, db\<lparr>gb_nodes := nodes\<rparr>)))"

definition graph_write :: "runtime \<Rightarrow> resolved_graph \<Rightarrow> graph_db \<Rightarrow> (py_error + warning list) \<times> graph_db" where
  "graph_write rt g db = (if rg_entities g = [] then (Inr [], db)
     else case reconcile (rt_unicode rt) (rg_entities g) (gb_nodes db) of
       Inl e \<Rightarrow> (Inl e, db)
     | Inr s \<Rightarrow> (let db1 = db\<lparr>gb_nodes := foldl upsert_entity (gb_nodes db) (map (entity_row (rc_ids s) \<circ> snd) (rc_merged s))\<rparr> in
         case write_supersessions (ge_workspace_id (me_entity (snd (hd (rc_merged s))))) (rc_ids s) (rg_supersessions g) db1 of
           (warnings, db2) \<Rightarrow> (case group_by_kind rt (rg_relations g) (rc_ids s) of
             Inl e \<Rightarrow> (Inl e, db2)
           | Inr kinds \<Rightarrow> (Inr (rc_warnings s @ warnings), foldl (write_relations rt) db2 kinds))))"

section \<open>Edges under a write\<close>

definition edge_pair :: "graph_edge \<Rightarrow> uuid \<times> uuid" where
  "edge_pair d = (gd_source d, gd_target d)"

definition edge_key :: "graph_edge \<Rightarrow> pystr \<times> (uuid \<times> uuid) \<times> uuid option" where
  "edge_key d = (gd_kind d, edge_pair d, gd_id d)"

text \<open>Edges have distinct identifiers between two nodes, well-formed periods, and periods of one relation between
  the same nodes are disjoint.\<close>

definition edges_wf :: "graph_edge list \<Rightarrow> bool" where
  "edges_wf ds \<longleftrightarrow> distinct (map edge_key ds) \<and> (\<forall>d \<in> set ds. wf_interval (edge_period d))
     \<and> (\<forall>d \<in> set ds. \<forall>d' \<in> set ds. d \<noteq> d' \<and> gd_kind d = gd_kind d' \<and> edge_pair d = edge_pair d'
          \<longrightarrow> \<not> overlaps (edge_period d) (edge_period d'))"

definition row_ends :: "graph_node list \<Rightarrow> graph_edge \<Rightarrow> bool" where
  "row_ends nodes d \<longleftrightarrow> has_ends (gd_workspace_id d) nodes (edge_pair d)"

lemma joins_iff: "joins kind p d \<longleftrightarrow> gd_kind d = kind \<and> edge_pair d = p"
  by (simp add: joins_def edge_pair_def)

lemma upsert_relation_eq:
  "upsert_relation nodes edges row = (if \<not> row_ends nodes row then edges
     else if edge_key row \<in> edge_key ` set edges then row_upd edge_key (edge_key row) (\<lambda>_. row) edges
     else edges @ [row])"
proof -
  have same: "(joins (gd_kind row) (gd_source row, gd_target row) d \<and> gd_id d = gd_id row) = (edge_key d = edge_key row)" for d
    by (auto simp: joins_iff edge_key_def edge_pair_def)
  show ?thesis
    unfolding upsert_relation_def Let_def same
    unfolding row_ends_def edge_pair_def [symmetric] row_upd_def by (simp add: image_iff) metis
qed

lemma upsert_relation_distinct:
  "distinct (map edge_key edges) \<Longrightarrow> distinct (map edge_key (upsert_relation nodes edges row))"
  by (auto simp: upsert_relation_eq row_upd_def comp_def if_distrib [of edge_key] cong: map_cong if_cong)

lemma upsert_relation_member:
  "d \<in> set (upsert_relation nodes edges row) \<Longrightarrow> (d = row \<and> row_ends nodes row)
    \<or> (d \<in> set edges \<and> (row_ends nodes row \<longrightarrow> edge_key d \<noteq> edge_key row))"
  by (auto simp: upsert_relation_eq set_row_upd split: if_splits) (metis imageI)

lemma upsert_relations_distinct:
  "distinct (map edge_key edges) \<Longrightarrow> distinct (map edge_key (foldl (upsert_relation nodes) edges rows))"
  by (induction rows arbitrary: edges) (simp_all add: upsert_relation_distinct)

lemma upsert_relations_member:
  "d \<in> set (foldl (upsert_relation nodes) edges rows) \<Longrightarrow> (d \<in> set rows \<and> row_ends nodes d)
    \<or> (d \<in> set edges \<and> (\<forall>r \<in> set rows. row_ends nodes r \<longrightarrow> edge_key d \<noteq> edge_key r))"
proof (induction rows arbitrary: edges)
  case (Cons row rows)
  then show ?case
    using Cons.IH [of "upsert_relation nodes edges row"] upsert_relation_member [of d nodes edges row] by auto
qed simp

lemma separated_disjoint:
  assumes "separated xs" "i \<in> set xs" "j \<in> set xs" "i \<noteq> j"
  shows "\<not> overlaps i j"
proof -
  have "before i j \<or> before j i"
    using assms unfolding separated_def by (metis sorted_wrt_iff_nth_less in_set_conv_nth linorder_neqE_nat)
  then show ?thesis
    using before_not_overlaps overlaps_sym by blast
qed

section \<open>The relations of one kind\<close>

definition written_rows ::
  "runtime \<Rightarrow> graph_db \<Rightarrow> uuid \<Rightarrow> pystr \<Rightarrow> graph_relation list \<Rightarrow> graph_edge list" where
  "written_rows rt db ws kind rs = concat (map (\<lambda>p. map (relation_row rt ws kind rs p) (pair_periods rs db ws kind p))
     (sorted_list_of_set (ends_of ` set rs)))"

lemma relation_row_facts [simp]:
  "gd_kind (relation_row rt ws kind rs p i) = kind" "gd_workspace_id (relation_row rt ws kind rs p i) = ws"
  "edge_pair (relation_row rt ws kind rs p i) = p" "edge_period (relation_row rt ws kind rs p i) = i"
  "gd_id (relation_row rt ws kind rs p i) = Some (relation_id rt ws (fst p) (snd p) kind (valid_from i))"
  by (simp_all add: relation_row_def edge_pair_def edge_period_def)

lemma edge_pair_ends [simp]: "fst (edge_pair d) = gd_source d" "snd (edge_pair d) = gd_target d"
  by (simp_all add: edge_pair_def)

lemma set_written_rows: "set (written_rows rt db ws kind rs)
    = (\<Union>p \<in> ends_of ` set rs. relation_row rt ws kind rs p ` set (pair_periods rs db ws kind p))"
  by (simp add: written_rows_def)

lemma written_rows_member:
  "d \<in> set (written_rows rt db ws kind rs) \<Longrightarrow> gd_kind d = kind \<and> gd_workspace_id d = ws
    \<and> edge_pair d \<in> ends_of ` set rs \<and> edge_period d \<in> set (pair_periods rs db ws kind (edge_pair d))
    \<and> gd_id d = Some (relation_id rt ws (fst (edge_pair d)) (snd (edge_pair d)) kind (valid_from (edge_period d)))"
  unfolding set_written_rows by (auto simp del: edge_pair_ends)

lemma write_relations_eq:
  assumes "gr_workspace_id (hd rs) = ws"
  shows "gb_edges (write_relations rt db (kind, rs)) = filter (\<lambda>d. \<not> (gd_kind d = kind \<and> edge_pair d \<in> ends_of ` set rs
      \<and> has_ends ws (gb_nodes db) (edge_pair d) \<and> gd_id d \<notin> Some ` (\<lambda>i. relation_id rt ws (fst (edge_pair d)) (snd (edge_pair d)) kind
        (valid_from i)) ` set (pair_periods rs db ws kind (edge_pair d))))
    (foldl (upsert_relation (gb_nodes db)) (gb_edges db) (written_rows rt db ws kind rs))"
proof -
  have stale: "(case gd_id d of None \<Rightarrow> True | Some i \<Rightarrow> i \<notin> set (map f xs)) = (gd_id d \<notin> Some ` f ` set xs)"
    for d and f :: "interval \<Rightarrow> uuid" and xs
    by (auto split: option.splits)
  show ?thesis
    unfolding write_relations_def Let_def prod.case assms written_rows_def delete_stale_def stale joins_iff
    by (simp del: edge_pair_ends) (rule filter_cong, simp, auto simp del: edge_pair_ends)
qed

lemma write_relations_nodes [simp]: "gb_nodes (write_relations rt db (kind, rs)) = gb_nodes db"
  by (simp add: write_relations_def Let_def)

lemma pair_periods_separated:
  assumes "edges_wf (gb_edges db)" "\<forall>r \<in> set rs. wf_interval (span_of r)"
  shows "separated (pair_periods rs db ws kind p)"
  unfolding pair_periods_def
  by (rule normalize_separated) (use assms in \<open>auto simp: edges_wf_def find_relations_def\<close>)

lemma write_relations_member:
  assumes "d \<in> set (gb_edges (write_relations rt db (kind, rs)))" "gr_workspace_id (hd rs) = ws"
  shows "(d \<in> set (written_rows rt db ws kind rs) \<and> row_ends (gb_nodes db) d)
    \<or> (d \<in> set (gb_edges db)
       \<and> \<not> (gd_kind d = kind \<and> edge_pair d \<in> ends_of ` set rs \<and> has_ends ws (gb_nodes db) (edge_pair d)))"
proof -
  consider "d \<in> set (written_rows rt db ws kind rs)" "row_ends (gb_nodes db) d"
    | "d \<in> set (gb_edges db)" "\<forall>r \<in> set (written_rows rt db ws kind rs). row_ends (gb_nodes db) r \<longrightarrow> edge_key d \<noteq> edge_key r"
    using assms upsert_relations_member [of d "gb_nodes db" "gb_edges db"] by (auto simp: write_relations_eq [OF assms(2)])
  then show ?thesis
  proof cases
    case 2
    have False if stale: "gd_kind d = kind" "edge_pair d \<in> ends_of ` set rs" "has_ends ws (gb_nodes db) (edge_pair d)"
    proof -
      obtain i where i: "i \<in> set (pair_periods rs db ws kind (edge_pair d))"
        "gd_id d = Some (relation_id rt ws (fst (edge_pair d)) (snd (edge_pair d)) kind (valid_from i))"
        using assms(1) stale unfolding write_relations_eq [OF assms(2)] by auto
      let ?r = "relation_row rt ws kind rs (edge_pair d) i"
      have "?r \<in> set (written_rows rt db ws kind rs)"
        using stale(2) i(1) unfolding set_written_rows by blast
      moreover have "row_ends (gb_nodes db) ?r" "edge_key d = edge_key ?r"
        using stale i(2) by (simp_all add: row_ends_def edge_key_def)
      ultimately show False
        using 2(2) by blast
    qed
    then show ?thesis
      using 2(1) by blast
  qed blast
qed

lemma write_relations_wf:
  assumes wf: "edges_wf (gb_edges db)" and periods: "\<forall>r \<in> set rs. wf_interval (span_of r)"
    and ws: "gr_workspace_id (hd rs) = ws"
  shows "edges_wf (gb_edges (write_relations rt db (kind, rs)))"
proof -
  let ?edges = "gb_edges (write_relations rt db (kind, rs))"
  note sep = pair_periods_separated [OF wf periods, of ws kind]
  have distinct: "distinct (map edge_key ?edges)"
    using wf upsert_relations_distinct unfolding write_relations_eq [OF ws] edges_wf_def
    by (blast intro: distinct_map_filter)
  have "wf_interval (edge_period d)" if "d \<in> set ?edges" for d
    using write_relations_member [OF that ws] wf sep written_rows_member [of d rt db ws kind rs]
    unfolding edges_wf_def separated_def by blast
  moreover have "\<not> overlaps (edge_period d) (edge_period d')"
    if d: "d \<in> set ?edges" "d' \<in> set ?edges" "d \<noteq> d'" "gd_kind d = gd_kind d'" "edge_pair d = edge_pair d'" for d d'
  proof -
    have "edge_key d \<noteq> edge_key d'"
      using distinct d(1-3) by (auto simp: distinct_map inj_on_def)
    then have ids: "gd_id d \<noteq> gd_id d'"
      using d(4,5) by (simp add: edge_key_def)
    have ends: "has_ends ws (gb_nodes db) (edge_pair e)"
      if "e \<in> set (written_rows rt db ws kind rs)" "row_ends (gb_nodes db) e" for e
      using that written_rows_member [OF that(1)] by (simp add: row_ends_def)
    consider "d \<in> set (gb_edges db)" "d' \<in> set (gb_edges db)"
      | "d \<in> set (written_rows rt db ws kind rs)" "d' \<in> set (written_rows rt db ws kind rs)"
      using write_relations_member [OF d(1) ws] write_relations_member [OF d(2) ws] ends d(4,5)
        written_rows_member [of d rt db ws kind rs] written_rows_member [of d' rt db ws kind rs] by metis
    then show ?thesis
    proof cases
      case 1
      then show ?thesis
        using wf d(3-5) by (auto simp: edges_wf_def)
    next
      case 2
      note rows = written_rows_member [OF 2(1)] written_rows_member [OF 2(2)]
      have "edge_period d \<noteq> edge_period d'"
        using ids rows d(5) by metis
      then show ?thesis
        using separated_disjoint [OF sep] rows d(5) by metis
    qed
  qed
  ultimately show ?thesis
    using distinct unfolding edges_wf_def by blast
qed

section \<open>The graph and its workspaces\<close>

definition graph_wf :: "graph_db \<Rightarrow> bool" where
  "graph_wf db \<longleftrightarrow> keys_unique gn_id (gb_nodes db) \<and> edges_wf (gb_edges db)
     \<and> (\<forall>d \<in> set (gb_edges db). row_ends (gb_nodes db) d)"

definition foreign_nodes :: "uuid \<Rightarrow> graph_node list \<Rightarrow> graph_node list" where
  "foreign_nodes ws nodes = filter (\<lambda>n. gn_workspace_id n \<noteq> ws) nodes"

definition foreign_edges :: "uuid \<Rightarrow> graph_edge list \<Rightarrow> graph_edge list" where
  "foreign_edges ws ds = filter (\<lambda>d. gd_workspace_id d \<noteq> ws) ds"

lemma has_node_unique:
  assumes "keys_unique gn_id nodes" "has_node ws nodes i" "has_node ws' nodes i"
  shows "ws = ws'"
  using assms row_get_unique [OF assms(1)] unfolding has_node_def by (metis option.inject)

lemma row_ends_home:
  assumes "keys_unique gn_id nodes" "row_ends nodes d" "has_ends ws nodes (edge_pair d)"
  shows "gd_workspace_id d = ws"
  using assms(2,3) has_node_unique [OF assms(1)] unfolding row_ends_def has_ends_def by blast

lemma upsert_relation_ends:
  "\<forall>d \<in> set ds. row_ends nodes d \<Longrightarrow> \<forall>d \<in> set (foldl (upsert_relation nodes) ds rows). row_ends nodes d"
  using upsert_relations_member by blast

lemma upsert_relations_foreign:
  assumes unique: "keys_unique gn_id nodes"
  shows "\<forall>d \<in> set ds. row_ends nodes d \<Longrightarrow> \<forall>r \<in> set rows. gd_workspace_id r = ws
    \<Longrightarrow> foreign_edges ws (foldl (upsert_relation nodes) ds rows) = foreign_edges ws ds"
proof (induction rows arbitrary: ds)
  case (Cons r rows)
  have "foreign_edges ws (upsert_relation nodes ds r) = foreign_edges ws ds"
  proof (cases "row_ends nodes r \<and> edge_key r \<in> edge_key ` set ds")
    case True
    have "gd_workspace_id d = ws" if "d \<in> set ds" "edge_key d = edge_key r" for d
      using that True Cons.prems row_ends_home [OF unique, of d ws]
      by (auto simp: row_ends_def edge_key_def)
    moreover have "gd_workspace_id r = ws"
      using Cons.prems by simp
    ultimately have "foreign_edges ws (row_upd edge_key (edge_key r) (\<lambda>_. r) ds) = foreign_edges ws ds"
      unfolding foreign_edges_def row_upd_def by (induction ds) auto
    then show ?thesis
      using True by (simp add: upsert_relation_eq)
  qed (use Cons.prems in \<open>auto simp: upsert_relation_eq foreign_edges_def\<close>)
  moreover have "\<forall>d \<in> set (upsert_relation nodes ds r). row_ends nodes d"
    using upsert_relation_ends [OF Cons.prems(1), of "[r]"] by simp
  ultimately show ?case
    using Cons by simp
qed simp

lemma write_relations_keeps:
  assumes wf: "graph_wf db" and periods: "\<forall>r \<in> set rs. wf_interval (span_of r)" and ws: "gr_workspace_id (hd rs) = ws"
  shows "graph_wf (write_relations rt db (kind, rs))"
    and "foreign_edges ws (gb_edges (write_relations rt db (kind, rs))) = foreign_edges ws (gb_edges db)"
proof -
  let ?upserted = "foldl (upsert_relation (gb_nodes db)) (gb_edges db) (written_rows rt db ws kind rs)"
  have parts: "keys_unique gn_id (gb_nodes db)" "edges_wf (gb_edges db)" "\<forall>d \<in> set (gb_edges db). row_ends (gb_nodes db) d"
    using wf by (simp_all add: graph_wf_def)
  show "graph_wf (write_relations rt db (kind, rs))"
    unfolding graph_wf_def write_relations_nodes
    using write_relations_wf [OF parts(2) periods ws] parts write_relations_member [OF _ ws, of _ rt db kind] by blast
  have "foreign_edges ws (gb_edges (write_relations rt db (kind, rs))) = foreign_edges ws ?upserted"
    unfolding foreign_edges_def write_relations_eq [OF ws] filter_filter
    by (rule filter_cong)
      (use row_ends_home [OF parts(1)] upsert_relation_ends [OF parts(3)] in \<open>auto simp del: edge_pair_ends\<close>)
  also have "\<dots> = foreign_edges ws (gb_edges db)"
    by (rule upsert_relations_foreign [OF parts(1,3)]) (use written_rows_member in blast)
  finally show "foreign_edges ws (gb_edges (write_relations rt db (kind, rs))) = foreign_edges ws (gb_edges db)" .
qed

section \<open>Nodes under a write\<close>

lemma foreign_upd:
  assumes "\<And>n. n \<in> set nodes \<Longrightarrow> gn_id n = i \<Longrightarrow> gn_workspace_id n = ws \<and> gn_workspace_id (f n) = ws"
  shows "foreign_nodes ws (row_upd gn_id i f nodes) = foreign_nodes ws nodes"
  using assms unfolding foreign_nodes_def row_upd_def by (induction nodes) auto

lemma has_node_upd:
  assumes "\<And>n. n \<in> set nodes \<Longrightarrow> gn_id n = i \<Longrightarrow> gn_id (f n) = i \<and> gn_workspace_id (f n) = gn_workspace_id n"
  shows "has_node ws (row_upd gn_id i f nodes) j \<longleftrightarrow> has_node ws nodes j"
  unfolding has_node_def set_row_upd using assms by auto

lemma upsert_entity_keeps:
  assumes "keys_unique gn_id nodes" "gn_workspace_id row = ws" "\<forall>n \<in> set (foreign_nodes ws nodes). gn_id n \<noteq> gn_id row"
  shows "keys_unique gn_id (upsert_entity nodes row)" "foreign_nodes ws (upsert_entity nodes row) = foreign_nodes ws nodes"
    and "has_node v nodes j \<Longrightarrow> has_node v (upsert_entity nodes row) j"
proof -
  let ?f = "\<lambda>n. row\<lparr>gn_superseded_by := or_else (gn_superseded_by row) (gn_superseded_by n)\<rparr>"
  have home: "gn_workspace_id n = ws" if "n \<in> set nodes" "gn_id n = gn_id row" for n
    using assms(3) that by (auto simp: foreign_nodes_def)
  show "keys_unique gn_id (upsert_entity nodes row)"
    using assms(1) by (auto simp: upsert_entity_def keys_unique_def row_get_None row_upd_def comp_def image_iff
        if_distrib [of gn_id] cong: map_cong if_cong)
  show "foreign_nodes ws (upsert_entity nodes row) = foreign_nodes ws nodes"
    using foreign_upd [of nodes "gn_id row" ws ?f] home assms(2) by (auto simp: upsert_entity_def) (simp add: foreign_nodes_def)
  show "has_node v nodes j \<Longrightarrow> has_node v (upsert_entity nodes row) j"
    using has_node_upd [of nodes "gn_id row" ?f v j] home assms(2)
    by (auto simp: upsert_entity_def) (auto simp: has_node_def)
qed

lemma upsert_entities_keep:
  "keys_unique gn_id nodes \<Longrightarrow> \<forall>r \<in> set rows. gn_workspace_id r = ws
      \<and> (\<forall>n \<in> set (foreign_nodes ws nodes). gn_id n \<noteq> gn_id r)
    \<Longrightarrow> keys_unique gn_id (foldl upsert_entity nodes rows) \<and> foreign_nodes ws (foldl upsert_entity nodes rows) = foreign_nodes ws nodes
      \<and> (\<forall>v j. has_node v nodes j \<longrightarrow> has_node v (foldl upsert_entity nodes rows) j)"
proof (induction rows arbitrary: nodes)
  case (Cons r rows)
  have r: "gn_workspace_id r = ws" "\<forall>n \<in> set (foreign_nodes ws nodes). gn_id n \<noteq> gn_id r"
    using Cons.prems by simp_all
  note step = upsert_entity_keeps [OF Cons.prems(1) r]
  show ?case
    using Cons.IH [OF step(1)] Cons.prems(2) step(2,3) by simp
qed simp

lemma supersede_match_home:
  "(new, old) \<in> set (supersede_matches rows nodes) \<Longrightarrow> \<forall>r \<in> set rows. sw_workspace_id r = ws
    \<Longrightarrow> \<exists>n \<in> set nodes. gn_id n = old \<and> gn_workspace_id n = ws"
  by (auto simp: supersede_matches_def)

lemma supersede_writes_keep:
  "keys_unique gn_id nodes \<Longrightarrow> \<forall>(new, old) \<in> set found. has_node ws nodes old
    \<Longrightarrow> keys_unique gn_id (foldl (\<lambda>ns (new, old). row_upd gn_id old (\<lambda>n. n\<lparr>gn_superseded_by := Some new\<rparr>) ns) nodes found)
      \<and> foreign_nodes ws (foldl (\<lambda>ns (new, old). row_upd gn_id old (\<lambda>n. n\<lparr>gn_superseded_by := Some new\<rparr>) ns) nodes found)
        = foreign_nodes ws nodes
      \<and> (\<forall>v j. has_node v (foldl (\<lambda>ns (new, old). row_upd gn_id old (\<lambda>n. n\<lparr>gn_superseded_by := Some new\<rparr>) ns) nodes found) j
        = has_node v nodes j)"
proof (induction found arbitrary: nodes)
  case (Cons p found)
  obtain new old where p: "p = (new, old)"
    by fastforce
  let ?nodes = "row_upd gn_id old (\<lambda>n. n\<lparr>gn_superseded_by := Some new\<rparr>) nodes"
  have unique: "keys_unique gn_id ?nodes"
    using Cons.prems(1) by (simp add: keys_unique_upd)
  have same: "has_node v ?nodes j = has_node v nodes j" for v j
    by (rule has_node_upd) simp
  have "gn_workspace_id n = ws" if "n \<in> set nodes" "gn_id n = old" for n
    using Cons.prems p that has_node_unique [OF Cons.prems(1), of "gn_workspace_id n" old ws] by (auto simp: has_node_def)
  then have "foreign_nodes ws ?nodes = foreign_nodes ws nodes"
    by (intro foreign_upd) simp
  then show ?case
    using Cons.IH [OF unique] Cons.prems(2) p same by (auto simp: case_prod_beta)
qed simp

lemma write_supersessions_keep:
  assumes "keys_unique gn_id (gb_nodes db)" "write_supersessions ws ids xs db = (w, db')"
  shows "keys_unique gn_id (gb_nodes db')" "foreign_nodes ws (gb_nodes db') = foreign_nodes ws (gb_nodes db)"
    and "has_node v (gb_nodes db') j = has_node v (gb_nodes db) j" "gb_edges db' = gb_edges db"
proof -
  have "\<forall>(new, old) \<in> set (supersede_matches (supersede_rows ws ids xs) (gb_nodes db)). has_node ws (gb_nodes db) old"
    using supersede_match_home [of _ _ "supersede_rows ws ids xs" "gb_nodes db" ws]
    by (fastforce simp: supersede_rows_def has_node_def)
  note keep = supersede_writes_keep [OF assms(1) this]
  show "keys_unique gn_id (gb_nodes db')" "foreign_nodes ws (gb_nodes db') = foreign_nodes ws (gb_nodes db)"
    "has_node v (gb_nodes db') j = has_node v (gb_nodes db) j" "gb_edges db' = gb_edges db"
    using assms keep by (auto simp: write_supersessions_def supersede_def Let_def split: if_splits)
qed

section \<open>Reconciling stays in the workspace\<close>

lemma in_update: "x \<in> set (AList.update k v d) \<Longrightarrow> x = (k, v) \<or> x \<in> set d"
  by (induction d) (auto split: if_splits)

lemma update_not_Nil [simp]: "AList.update k v d \<noteq> []"
  by (cases d) (auto simp: split_beta)

definition target_in :: "uuid \<Rightarrow> uuid set \<Rightarrow> graph_node list \<Rightarrow> uuid \<Rightarrow> bool" where
  "target_in ws ids nodes t \<longleftrightarrow> t \<in> ids \<or> has_node ws nodes t"

definition merged_in :: "uuid \<Rightarrow> uuid set \<Rightarrow> graph_node list \<Rightarrow> (uuid \<times> merged_entity) list \<Rightarrow> bool" where
  "merged_in ws ids nodes d \<longleftrightarrow> (\<forall>(t, m) \<in> set d. ge_id (me_entity m) = t \<and> ge_workspace_id (me_entity m) = ws
     \<and> target_in ws ids nodes t)"

lemma chosen_subset: "set (fst (chosen_nodes e records)) \<subseteq> set records"
  by (auto simp: chosen_nodes_def Let_def strong_nodes_def weak_nodes_def found_nodes_def)

lemma choose_target_in:
  assumes "choose_target e chosen merged = (t, chosen', claimed)" "ge_id e \<in> ids" "\<forall>n \<in> set chosen. has_node ws nodes (gn_id n)"
  shows "target_in ws ids nodes t"
proof -
  let ?t = "if chosen = [] then ge_id e else Min (gn_id ` set chosen)"
  have "t = ge_id e \<or> t = ?t"
    using assms(1) by (auto simp: choose_target_def Let_def split: option.splits if_splits)
  moreover have "target_in ws ids nodes ?t"
  proof (cases "chosen = []")
    case False
    then have "Min (gn_id ` set chosen) \<in> gn_id ` set chosen"
      by (intro Min_in) simp_all
    then obtain n where "n \<in> set chosen" "Min (gn_id ` set chosen) = gn_id n"
      by blast
    then show ?thesis
      using assms(3) False by (simp add: target_in_def)
  qed (simp add: assms(2) target_in_def)
  ultimately show ?thesis
    using assms(2) by (auto simp: target_in_def)
qed

lemma merge_entity_shape:
  "merge_entity uc e t chosen claimed = Inr m \<Longrightarrow> ge_id (me_entity m) = t
    \<and> ge_workspace_id (me_entity m) = ge_workspace_id e"
  by (auto simp: merge_entity_def Let_def split: option.splits)

lemma reconcile_entity_in:
  assumes "reconcile_entity uc records s e = Inr s'" "merged_in ws ids nodes (rc_merged s)" "ge_id e \<in> ids"
    "ge_workspace_id e = ws" "\<forall>n \<in> set (records e). has_node ws nodes (gn_id n)"
  shows "merged_in ws ids nodes (rc_merged s') \<and> rc_merged s' \<noteq> []"
proof -
  obtain chosen w t chosen' claimed m where ch: "chosen_nodes e (records e) = (chosen, w)"
    and t: "choose_target e chosen (rc_merged s) = (t, chosen', claimed)"
    and m: "merge_entity uc e t chosen' claimed = Inr m" and s': "rc_merged s' = AList.update t m (rc_merged s)"
    using assms(1) by (auto simp: reconcile_entity_def rbind_Inr_iff split: prod.splits)
  have "\<forall>n \<in> set chosen. has_node ws nodes (gn_id n)"
    using chosen_subset [of e "records e"] ch assms(5) by auto
  then have "target_in ws ids nodes t"
    by (rule choose_target_in [OF t assms(3)])
  then show ?thesis
    using assms(2,4) merge_entity_shape [OF m] in_update [of _ t m "rc_merged s"] by (fastforce simp: s' merged_in_def)
qed

lemma reconcile_in:
  assumes "reconcile uc es nodes = Inr s" "es \<noteq> []" "\<forall>e \<in> set es. ge_workspace_id e = ws"
  shows "merged_in ws (ge_id ` set es) nodes (rc_merged s) \<and> rc_merged s \<noteq> []"
proof -
  define records where "records = (\<lambda>e :: graph_entity. concat (map (\<lambda>r. if ge_id r = ge_id e then find_existing ws r nodes else []) es))"
  have records: "\<forall>n \<in> set (records e). has_node ws nodes (gn_id n)" for e
    by (auto simp: records_def find_existing_def has_node_def split: if_splits)
  have hd: "ge_workspace_id (hd es) = ws"
    using assms(2,3) by simp
  obtain e es' where es: "es = e # es'"
    using assms(2) by (cases es) auto
  let ?start = "\<lparr>rc_merged = [], rc_ids = (\<lambda>_. None), rc_warnings = []\<rparr>"
  obtain s1 where s1: "reconcile_entity uc records ?start e = Inr s1" "foldr_result (reconcile_entity uc records) s1 es' = Inr s"
    using assms(1) unfolding reconcile_def hd Let_def records_def [symmetric] unfolding es by (auto simp: rbind_Inr_iff)
  have start: "merged_in ws (ge_id ` set es) nodes (rc_merged ?start)"
    by (simp add: merged_in_def)
  have first: "merged_in ws (ge_id ` set es) nodes (rc_merged s1) \<and> rc_merged s1 \<noteq> []"
    by (rule reconcile_entity_in [OF s1(1) start _ _ records]) (use es assms(3) in auto)
  show ?thesis
  proof (rule foldr_result_invariant [OF s1(2), where P = "\<lambda>s. merged_in ws (ge_id ` set es) nodes (rc_merged s) \<and> rc_merged s \<noteq> []"])
    fix u x u'
    assume "merged_in ws (ge_id ` set es) nodes (rc_merged u) \<and> rc_merged u \<noteq> []" "x \<in> set es'"
      "reconcile_entity uc records u x = Inr u'"
    then show "merged_in ws (ge_id ` set es) nodes (rc_merged u') \<and> rc_merged u' \<noteq> []"
      using reconcile_entity_in [of uc records u x u' ws "ge_id ` set es" nodes] records [of x] es assms(3) by simp
  qed (rule first)
qed

section \<open>The relations by kind\<close>

definition kind_group_ok :: "uuid \<Rightarrow> graph_relation list \<Rightarrow> bool" where
  "kind_group_ok ws rs \<longleftrightarrow> rs \<noteq> [] \<and> (\<forall>r \<in> set rs. gr_workspace_id r = ws \<and> wf_interval (span_of r))"

lemma group_by_kind_ok:
  assumes "group_by_kind rt rs ids = Inr kinds" "\<forall>r \<in> set rs. gr_workspace_id r = ws \<and> wf_interval (span_of r)"
  shows "\<forall>(kind, group) \<in> set kinds. kind_group_ok ws group"
proof -
  let ?P = "\<lambda>d. \<forall>(kind :: pystr, items :: (uuid \<times> graph_relation) list) \<in> set d. kind_group_ok ws (map snd items)"
  obtain d where d: "foldr_result (group_relation rt ids) [] rs = Inr d"
    and kinds: "kinds = map (\<lambda>(kind, items). (kind, map snd items)) d"
    using assms(1) by (auto simp: group_by_kind_def rbind_Inr_iff)
  have "?P d"
  proof (rule foldr_result_invariant [OF d])
    fix s r s'
    assume s: "?P s" and r: "r \<in> set rs" and run: "group_relation rt ids s r = Inr s'"
    let ?r = "mapped_relation rt ids r"
    define old where "old = (case map_of s (gr_kind r) of Some rs \<Rightarrow> rs | None \<Rightarrow> [])"
    have s': "s' = AList.update (gr_kind r) (AList.update (gr_id ?r) ?r old) s"
      using run by (simp add: group_relation_def Let_def old_def split: if_splits)
    have new: "gr_workspace_id ?r = ws" "wf_interval (span_of ?r)"
      using assms(2) r by (auto simp: mapped_relation_def span_of_def Let_def)
    have old: "gr_workspace_id (snd x) = ws \<and> wf_interval (span_of (snd x))" if "x \<in> set old" for x
    proof (cases "map_of s (gr_kind r)")
      case (Some items)
      then have "kind_group_ok ws (map snd items)"
        using s map_of_SomeD by fastforce
      then show ?thesis
        using that Some by (simp add: old_def kind_group_ok_def)
    qed (use that in \<open>simp add: old_def\<close>)
    have "gr_workspace_id (snd x) = ws \<and> wf_interval (span_of (snd x))"
      if "x \<in> set (AList.update (gr_id ?r) ?r old)" for x
      using in_update [OF that] new old by (elim disjE) simp_all
    then have group: "kind_group_ok ws (map snd (AList.update (gr_id ?r) ?r old))"
      by (simp add: kind_group_ok_def)
    show "?P s'"
    proof (intro ballI)
      fix x
      assume "x \<in> set s'"
      then have "x = (gr_kind r, AList.update (gr_id ?r) ?r old) \<or> x \<in> set s"
        unfolding s' by (rule in_update)
      then show "case x of (kind, items) \<Rightarrow> kind_group_ok ws (map snd items)"
        using group s by (elim disjE) simp_all
    qed
  qed simp
  then show ?thesis
    by (auto simp: kinds)
qed

lemma write_kinds_keep:
  "graph_wf db \<Longrightarrow> \<forall>(kind, group) \<in> set kinds. kind_group_ok ws group
    \<Longrightarrow> graph_wf (foldl (write_relations rt) db kinds)
      \<and> gb_nodes (foldl (write_relations rt) db kinds) = gb_nodes db
      \<and> foreign_edges ws (gb_edges (foldl (write_relations rt) db kinds)) = foreign_edges ws (gb_edges db)"
proof (induction kinds arbitrary: db)
  case (Cons k kinds)
  obtain kind rs where k: "k = (kind, rs)"
    by fastforce
  have "\<forall>r \<in> set rs. wf_interval (span_of r)" "gr_workspace_id (hd rs) = ws"
    using Cons.prems(2) k by (auto simp: kind_group_ok_def)
  note step = write_relations_keeps [OF Cons.prems(1) this, of rt kind]
  show ?case
    using Cons.IH [OF step(1)] Cons.prems(2) step(2) k by simp
qed simp

text \<open>What a graph must bring along to be written: one workspace and well-formed periods.\<close>

definition writable :: "uuid \<Rightarrow> resolved_graph \<Rightarrow> bool" where
  "writable ws g \<longleftrightarrow> (\<forall>e \<in> set (rg_entities g). ge_workspace_id e = ws)
     \<and> (\<forall>r \<in> set (rg_relations g). gr_workspace_id r = ws \<and> wf_interval (span_of r))"

definition own_ids :: "uuid \<Rightarrow> resolved_graph \<Rightarrow> graph_db \<Rightarrow> bool" where
  "own_ids ws g db \<longleftrightarrow> (\<forall>n \<in> set (foreign_nodes ws (gb_nodes db)). gn_id n \<notin> ge_id ` set (rg_entities g))"

lemma graph_write_keeps:
  assumes wf: "graph_wf db" and g: "writable ws g" and ids: "own_ids ws g db" and run: "graph_write rt g db = (r, db')"
  shows "graph_wf db' \<and> foreign_nodes ws (gb_nodes db') = foreign_nodes ws (gb_nodes db)
    \<and> foreign_edges ws (gb_edges db') = foreign_edges ws (gb_edges db)"
proof (cases "rg_entities g = [] \<or> (\<exists>e. reconcile (rt_unicode rt) (rg_entities g) (gb_nodes db) = Inl e)")
  case True
  then show ?thesis
    using wf run by (auto simp: graph_write_def split: sum.splits if_splits)
next
  case False
  then obtain s where s: "reconcile (rt_unicode rt) (rg_entities g) (gb_nodes db) = Inr s" and entities: "rg_entities g \<noteq> []"
    by (cases "reconcile (rt_unicode rt) (rg_entities g) (gb_nodes db)") auto
  have unique: "keys_unique gn_id (gb_nodes db)"
    using wf by (simp add: graph_wf_def)
  have merged: "merged_in ws (ge_id ` set (rg_entities g)) (gb_nodes db) (rc_merged s)" "rc_merged s \<noteq> []"
    using reconcile_in [OF s entities] g by (auto simp: writable_def)
  define rows where "rows = map (entity_row (rc_ids s) \<circ> snd) (rc_merged s)"
  define db1 where "db1 = db\<lparr>gb_nodes := foldl upsert_entity (gb_nodes db) rows\<rparr>"
  have home: "ge_workspace_id (me_entity (snd (hd (rc_merged s)))) = ws"
    using merged by (cases "rc_merged s") (auto simp: merged_in_def)
  have apart: "gn_id n \<noteq> t" if "n \<in> set (foreign_nodes ws (gb_nodes db))" "target_in ws (ge_id ` set (rg_entities g)) (gb_nodes db) t" for n t
    using that ids has_node_unique [OF unique, of "gn_workspace_id n" t ws]
    by (auto simp: own_ids_def target_in_def foreign_nodes_def has_node_def)
  have "\<forall>r \<in> set rows. gn_workspace_id r = ws \<and> (\<forall>n \<in> set (foreign_nodes ws (gb_nodes db)). gn_id n \<noteq> gn_id r)"
    using merged(1) apart unfolding merged_in_def rows_def by (fastforce simp: entity_row_def Let_def)
  note nodes = upsert_entities_keep [OF unique this]
  obtain w db2 where db2: "write_supersessions ws (rc_ids s) (rg_supersessions g) db1 = (w, db2)"
    by fastforce
  have "keys_unique gn_id (gb_nodes db1)"
    using nodes by (simp add: db1_def)
  note superseded = write_supersessions_keep [OF this db2]
  have "graph_wf db2"
    using wf superseded nodes unfolding graph_wf_def db1_def by (simp add: row_ends_def has_ends_def)
  moreover have "foreign_nodes ws (gb_nodes db2) = foreign_nodes ws (gb_nodes db)"
    using superseded(2) nodes by (simp add: db1_def)
  moreover have "gb_edges db2 = gb_edges db"
    using superseded(4) by (simp add: db1_def)
  moreover have "db' = db2 \<or> (\<exists>kinds. group_by_kind rt (rg_relations g) (rc_ids s) = Inr kinds
      \<and> db' = foldl (write_relations rt) db2 kinds)"
    using run entities s db2 unfolding graph_write_def rows_def [symmetric] db1_def [symmetric] home
    by (auto simp: Let_def rows_def [symmetric] db1_def [symmetric] home split: sum.splits)
  ultimately show ?thesis
    using write_kinds_keep [of db2 _ ws rt] group_by_kind_ok [of rt "rg_relations g" "rc_ids s" _ ws] g
    unfolding writable_def by auto
qed

section \<open>What the resolution brings along\<close>

lemma map_superseded: "map ge_workspace_id (es[i := (es ! i)\<lparr>ge_superseded_by := v\<rparr>]) = map ge_workspace_id es"
  by (cases "i < length es"; simp add: map_update list_update_same_conv list_update_beyond)

lemma link_supersession_workspace:
  assumes "link_supersession uc lookup s e = Inr s'" "\<forall>x \<in> set (ln_entities s). ge_workspace_id x = ws"
  shows "\<forall>x \<in> set (ln_entities s'). ge_workspace_id x = ws"
proof -
  have "map ge_workspace_id (ln_entities s') = map ge_workspace_id (ln_entities s)"
    using assms(1) by (auto simp: link_supersession_def Let_def warn_link_def map_superseded split: option.splits if_splits)
  then have "ge_workspace_id ` set (ln_entities s') = ge_workspace_id ` set (ln_entities s)"
    by (metis list.set_map)
  then show ?thesis
    using assms(2) by (auto simp: image_iff set_eq_iff)
qed

lemma resolved_writable:
  assumes run: "resolve_extraction rt result ws src chunk ts trusted = Inr rg"
    and "calendar_parser (rt_fromisoformat rt)" "calendar_time ts"
  shows "writable ws rg"
proof -
  obtain ms where ms: "mentions rt trusted result = Inr ms"
    using run by (auto simp: resolve_extraction_def rbind_Inr_iff)
  obtain groups w0 where g: "group_mentions (rt_unicode rt) ms = (groups, w0)"
    by fastforce
  obtain fallback where fb: "as_utc ts = Inr fallback" "in_range_opt fallback"
    using as_utc_calendar [OF assms(3)] by auto
  obtain es ln intervals w1 where es: "traverse (group_entity rt ws src chunk ts) groups = Inr es"
    and ln: "link_supersessions (rt_unicode rt) (entity_lookup es) result es w0 = Inr ln"
    and rel: "foldr_result (resolve_relation rt (entity_lookup es) fallback)
      ([], ln_warnings ln) (xr_relations result) = Inr (intervals, w1)"
    and ents: "rg_entities rg = ln_entities ln"
    and rels: "rg_relations rg = span_relations rt ws \<lparr>gv_source_id = src, gv_chunk_id = chunk, gv_timestamp = ts\<rparr> intervals"
    using run ms g fb(1) by (auto simp: resolve_extraction_def rbind_Inr_iff Let_def)
  have "ge_workspace_id e = ws" if "e \<in> set es" for e
    using traverse_members [OF es that] by (auto simp: group_entity_def split: option.splits)
  then have entities: "\<forall>e \<in> set (rg_entities rg). ge_workspace_id e = ws"
    using foldr_result_invariant [OF ln [unfolded link_supersessions_def],
        where P = "\<lambda>s. \<forall>e \<in> set (ln_entities s). ge_workspace_id e = ws"] link_supersession_workspace
    unfolding ents by (metis (no_types, lifting) link_state.select_convs(1))
  have inv: "relations_inv (ge_id ` set es) intervals"
    using resolve_relations_inv [OF rel _ assms(2) fb(2)] by (simp add: relations_inv_def)
  have "wf_interval (span_of r)" if r: "r \<in> set (rg_relations rg)" for r
  proof -
    obtain spans where spans: "(triple_of r, spans) \<in> set intervals" "span_of r \<in> set (normalize spans)"
      using span_relations_triples r unfolding rels by blast
    then have "\<forall>i \<in> set spans. wf_interval i"
      using inv by (cases "triple_of r") (auto simp: relations_inv_def)
    then show ?thesis
      using normalize_separated spans(2) by (auto simp: separated_def)
  qed
  moreover have "gr_workspace_id r = ws" if "r \<in> set (rg_relations rg)" for r
    using that unfolding rels by (auto simp: span_relations_def span_relation_def split: prod.splits)
  ultimately show ?thesis
    using entities by (simp add: writable_def)
qed

section \<open>Concrete graphs\<close>

definition sample_evidence :: "uuid \<Rightarrow> graph_evidence" where
  "sample_evidence source = \<lparr>gv_source_id = source, gv_chunk_id = None, gv_timestamp = None\<rparr>"

definition sample_node :: "uuid \<Rightarrow> entity_kind \<Rightarrow> string \<Rightarrow> string list \<Rightarrow> string list \<Rightarrow> uuid list \<Rightarrow> graph_node" where
  "sample_node i kind name keys identifiers sources = \<lparr>gn_id = i, gn_workspace_id = 1, gn_kind = entity_kind_value kind,
     gn_name = lit name, gn_aliases = [], gn_keys = map lit keys, gn_identifiers = map lit identifiers,
     gn_source_ids = sources, gn_evidence = sample_evidence 8, gn_superseded_by = None\<rparr>"

definition sample_graph_entity :: "uuid \<Rightarrow> entity_kind \<Rightarrow> string \<Rightarrow> uuid option \<Rightarrow> graph_entity" where
  "sample_graph_entity i kind name superseded = \<lparr>ge_id = i, ge_workspace_id = 1, ge_kind = entity_kind_value kind,
     ge_name = lit name, ge_evidence = sample_evidence 9, ge_aliases = [], ge_keys = [lit name],
     ge_identifiers = [], ge_superseded_by = superseded\<rparr>"

definition sample_resolved :: "graph_entity list \<Rightarrow> resolved_graph" where
  "sample_resolved es = \<lparr>rg_entities = es, rg_relations = [], rg_warnings = [], rg_supersessions = []\<rparr>"

text \<open>A person mentioned again by a name two identified people share: the node that holds its earlier
  mentions is overwritten, and with it the source they came from.\<close>

lemma ambiguous_mention_loses_source:
  "map (\<lambda>n. (gn_id n, gn_source_ids n)) (gb_nodes (snd (graph_write toy_runtime
      (sample_resolved [sample_graph_entity 5 Person ''kim'' None])
      \<lparr>gb_nodes = [sample_node 3 Person ''kim'' [''kim''] [''a@x''] [7], sample_node 4 Person ''kim'' [''kim''] [''b@x''] [7],
         sample_node 5 Person ''kim'' [''kim''] [] [7]], gb_edges = []\<rparr>)))
   = [(3, [7]), (4, [7]), (5, [9])]"
  by code_simp

text \<open>Two decisions of a source that both match one stored node, the first replaced by the second: the node is
  recorded as its own replacement.\<close>

definition two_decisions :: "graph_entity list" where
  "two_decisions = [sample_graph_entity 6 Decision ''ship'' None, sample_graph_entity 5 Decision ''wait'' (Some 6)]"

definition one_decision :: graph_node where
  "one_decision = sample_node 3 Decision ''ship'' [''ship'', ''wait''] [] [7]"

lemma node_supersedes_itself:
  "map (\<lambda>n. (gn_id n, gn_superseded_by n)) (gb_nodes (snd (graph_write toy_runtime (sample_resolved two_decisions)
     \<lparr>gb_nodes = [one_decision], gb_edges = []\<rparr>))) = [(3, Some 3)]"
proof -
  have "map_sum id (\<lambda>s. map (\<lambda>m. (gn_id (entity_row (rc_ids s) (snd m)), gn_superseded_by (entity_row (rc_ids s) (snd m))))
      (rc_merged s)) (reconcile ascii_unicode two_decisions [one_decision]) = Inr [(3, Some 3)]"
    by code_simp
  then obtain s m where s: "reconcile ascii_unicode two_decisions [one_decision] = Inr s" "rc_merged s = [m]"
    and row: "gn_id (entity_row (rc_ids s) (snd m)) = 3" "gn_superseded_by (entity_row (rc_ids s) (snd m)) = Some 3"
    by (cases "reconcile ascii_unicode two_decisions [one_decision]") auto
  have known: "gn_id one_decision = 3" "two_decisions \<noteq> []" "rt_unicode toy_runtime = ascii_unicode"
    by (simp_all add: one_decision_def sample_node_def two_decisions_def toy_runtime_def)
  show ?thesis
    using s row known by (simp add: graph_write_def sample_resolved_def write_supersessions_def group_by_kind_def
        upsert_entity_def row_upd_def)
qed

section \<open>Properties\<close>

text \<open>C28: the graph stays consistent under every write of a resolved extraction. Node identifiers stay unique,
  every edge joins two nodes of its own workspace, and the validity periods of one relation between the same two
  nodes stay well formed and pairwise disjoint, whatever was stored before; the nodes and edges of every other
  workspace are untouched. Entity identifiers must not be those of another workspace's nodes.\<close>
theorem graph_stays_consistent:
  assumes "graph_wf db" "resolve_extraction rt result ws src chunk ts trusted = Inr rg"
    and "calendar_parser (rt_fromisoformat rt)" "calendar_time ts" "own_ids ws rg db"
    and "graph_write rt rg db = (r, db')"
  shows "keys_unique gn_id (gb_nodes db')
    \<and> (\<forall>d \<in> set (gb_edges db'). has_node (gd_workspace_id d) (gb_nodes db') (gd_source d)
        \<and> has_node (gd_workspace_id d) (gb_nodes db') (gd_target d) \<and> wf_interval (edge_period d))
    \<and> (\<forall>d \<in> set (gb_edges db'). \<forall>d' \<in> set (gb_edges db'). d \<noteq> d' \<and> gd_kind d = gd_kind d' \<and> edge_pair d = edge_pair d'
        \<longrightarrow> gd_id d \<noteq> gd_id d' \<and> \<not> overlaps (edge_period d) (edge_period d'))
    \<and> foreign_nodes ws (gb_nodes db') = foreign_nodes ws (gb_nodes db)
    \<and> foreign_edges ws (gb_edges db') = foreign_edges ws (gb_edges db)"
proof -
  note keep = graph_write_keeps [OF assms(1) resolved_writable [OF assms(2-4)] assms(5,6)]
  have "gd_id d \<noteq> gd_id d'" if "d \<in> set (gb_edges db')" "d' \<in> set (gb_edges db')" "d \<noteq> d'" "gd_kind d = gd_kind d'"
    "edge_pair d = edge_pair d'" for d d'
    using keep that unfolding graph_wf_def edges_wf_def distinct_map inj_on_def edge_key_def by (metis prod.inject)
  then show ?thesis
    using keep unfolding graph_wf_def edges_wf_def row_ends_def has_ends_def edge_pair_ends by blast
qed

theorem graph_stays_consistent_witness:
  "\<exists>rg db'. resolve_extraction toy_runtime sample_extraction 1 2 None None {} = Inr rg
    \<and> db' = snd (graph_write toy_runtime rg \<lparr>gb_nodes = [], gb_edges = []\<rparr>) \<and> keys_unique gn_id (gb_nodes db')"
proof -
  let ?db = "\<lparr>gb_nodes = [], gb_edges = []\<rparr> :: graph_db"
  obtain rg where rg: "resolve_extraction toy_runtime sample_extraction 1 2 None None {} = Inr rg"
    using resolve_total [OF toy_parse_total, of None sample_extraction 1 2 None "{}"] by auto
  have "graph_wf ?db" "own_ids 1 rg ?db" "calendar_time None"
    by (simp_all add: graph_wf_def keys_unique_def edges_wf_def own_ids_def foreign_nodes_def)
  have "keys_unique gn_id (gb_nodes (snd (graph_write toy_runtime rg ?db)))"
    by (rule conjunct1 [OF graph_stays_consistent [OF \<open>graph_wf ?db\<close> rg toy_calendar_parser \<open>calendar_time None\<close>
      \<open>own_ids 1 rg ?db\<close> surjective_pairing]])
  then show ?thesis
    using rg by blast
qed

end
