(* ===== verification/Retrieval.thy ===== *)
theory Retrieval
  imports GraphWriter Indexing Access
begin

text \<open>
  Finding evidence for a question: keyword search (\<^verbatim>\<open>retrieval/application/lexical.py\<close>), the reads of the
  graph (\<^verbatim>\<open>graph_neighborhood.py\<close>, \<^verbatim>\<open>graph_reader.py\<close>) and the hybrid retriever (\<^verbatim>\<open>hybrid.py\<close>).
  \<^verbatim>\<open>lower\<close> and \<^verbatim>\<open>ln\<close> of the database and the distance of the vector extension are arguments; an average over no
  text is 0, which no row observes. The lemmas show that only approved sources of the workspace become
  evidence.
\<close>

section \<open>Query terms\<close>

definition max_tokens :: nat where "max_tokens = 8"
definition max_text :: nat where "max_text = 1200"
definition max_results :: nat where "max_results = 8"

definition stop_words :: "pystr list" where
  "stop_words = [[52572, 44540], [50612, 46500], [47924, 50631], [47952, 44032], [50780], [50612, 46523, 44172],
     [51080, 45208, 50836], [50508, 47140, 51480], [54644, 51480]]"

definition latin :: "nat \<Rightarrow> bool" where
  "latin c \<longleftrightarrow> 97 \<le> c \<and> c \<le> 122 \<or> 48 \<le> c \<and> c \<le> 57"

definition hangul :: "nat \<Rightarrow> bool" where
  "hangul c \<longleftrightarrow> 44032 \<le> c \<and> c \<le> 55203"

text \<open>The matches of \<^verbatim>\<open>re.findall\<close>: maximal runs of either class.\<close>

function word_runs :: "pystr \<Rightarrow> pystr list" where
  "word_runs [] = []"
| "word_runs (c # s) = (if latin c then (c # takeWhile latin s) # word_runs (dropWhile latin s)
     else if hangul c then (c # takeWhile hangul s) # word_runs (dropWhile hangul s) else word_runs s)"
  by pat_completeness auto
termination
  by (relation "measure length") (auto simp: le_imp_less_Suc length_dropWhile_le)

definition word_pairs :: "pystr \<Rightarrow> pystr list" where
  "word_pairs w = map (\<lambda>i. take 2 (drop i w)) [0..<length w - 1]"

fun collect_terms :: "pystr list \<Rightarrow> pystr list \<Rightarrow> pystr list" where
  "collect_terms terms [] = terms"
| "collect_terms terms (t # ts) = (let terms' = if t \<in> set terms then terms else terms @ [t] in
     if max_tokens \<le> length terms' then terms' else collect_terms terms' ts)"

definition query_terms :: "unicode \<Rightarrow> pystr \<Rightarrow> pystr list" where
  "query_terms uc question = (let ws = filter (\<lambda>w. 2 \<le> length w \<and> w \<notin> set stop_words) (word_runs (uc_lower uc question)) in
     collect_terms [] (ws @ concat (map word_pairs (filter (\<lambda>w. list_all hangul w \<and> 2 < length w) ws))))"

section \<open>Ranking\<close>

record sql_functions =
  sq_lower :: "pystr \<Rightarrow> pystr"
  sq_ln :: "py_float \<Rightarrow> py_float"

text \<open>\<^verbatim>\<open>(length(s) - length(replace(s, t, ''))) / len(t)\<close>: the occurrences that do not overlap.\<close>

function occurrences :: "pystr \<Rightarrow> pystr \<Rightarrow> nat" where
  "occurrences t [] = 0"
| "occurrences t (c # s) = (if t \<noteq> [] \<and> prefix t (c # s) then Suc (occurrences t (drop (length t) (c # s)))
     else occurrences t s)"
  by pat_completeness auto
termination
  by (relation "measure (\<lambda>(t, s). length s)") auto

record 'k corpus_row =
  co_id :: 'k
  co_text :: pystr
  co_len :: nat

definition average_length :: "'k corpus_row list \<Rightarrow> py_float" where
  "average_length corpus = of_nat (sum_list (map co_len corpus)) / of_nat (length corpus)"

definition document_frequency :: "'k corpus_row list \<Rightarrow> pystr \<Rightarrow> py_float" where
  "document_frequency corpus t = of_nat (length (filter (\<lambda>r. contains t (co_text r)) corpus))"

definition bm25_score :: "sql_functions \<Rightarrow> 'k corpus_row list \<Rightarrow> pystr \<Rightarrow> 'k corpus_row \<Rightarrow> py_float" where
  "bm25_score sq corpus t r = (let f = of_nat (occurrences t (co_text r)); df = document_frequency corpus t in
     sq_ln sq (1 + (of_nat (length corpus) - df + 1 / 2) / (df + 1 / 2))
     * (f * 22 / 10 / (f + 12 / 10 * (1 / 4 + 3 / 4 * of_nat (co_len r) / average_length corpus))
        + (if 0 < f then 1 else 0)))"

definition bm25 :: "sql_functions \<Rightarrow> 'k corpus_row list \<Rightarrow> pystr list \<Rightarrow> 'k corpus_row \<Rightarrow> py_float" where
  "bm25 sq corpus terms r = sum_list (map (\<lambda>t. bm25_score sq corpus t r) terms)"

definition matches_any :: "pystr list \<Rightarrow> pystr \<Rightarrow> bool" where
  "matches_any terms txt \<longleftrightarrow> (\<exists>t \<in> set terms. contains t txt)"

section \<open>Keyword search\<close>

record lexical_match =
  lx_source_id :: uuid
  lx_chunk_id :: "uuid option"
  lx_kind :: source_kind
  lx_title :: pystr
  lx_text :: pystr
  lx_timestamp :: "py_float option"

definition in_scope :: "uuid \<Rightarrow> uuid \<Rightarrow> uuid list option \<Rightarrow> source_row \<Rightarrow> bool" where
  "in_scope ws owner source_ids s \<longleftrightarrow> so_workspace_id s = ws \<and> so_owner_id s = owner
     \<and> (case source_ids of None \<Rightarrow> True | Some ids \<Rightarrow> so_id s \<in> set ids)"

definition searchable :: "source_row \<Rightarrow> bool" where
  "searchable s \<longleftrightarrow> so_status s = Succeeded \<and> (so_review_state s = None \<or> so_review_state s = Some RvConfirmed)"

definition source_ready :: "source_row \<Rightarrow> bool" where
  "source_ready s \<longleftrightarrow> so_kind s = MeetingKind \<and> so_review_state s = Some RvConfirmed
       \<and> so_processing_stage s \<in> {Confirmed, Analyzing, Graphing, Completed}
     \<or> so_kind s = DocumentKind \<and> so_processing_stage s \<in> {Analyzing, Graphing, Completed}"

definition source_text :: "source_row \<Rightarrow> pystr option" where
  "source_text s = (if so_kind s = MeetingKind then so_transcript_text s else so_content_text s)"

definition readable :: "source_row \<Rightarrow> bool" where
  "readable s \<longleftrightarrow> source_ready s \<and> so_status s \<noteq> AwaitingReview
     \<and> (case source_text s of None \<Rightarrow> False | Some txt \<Rightarrow> \<exists>c \<in> set txt. c \<noteq> 32)"

text \<open>The chunks of searchable sources, each with its source.\<close>

definition eligible_chunks :: "uuid \<Rightarrow> uuid \<Rightarrow> uuid list option \<Rightarrow> app_db \<Rightarrow> (chunk_row \<times> source_row) list" where
  "eligible_chunks ws owner source_ids db = List.map_filter (\<lambda>k. if ck_workspace_id k \<noteq> ws \<or> ck_owner_id k \<noteq> owner then None
     else (case get_source (ck_source_id k) db of None \<Rightarrow> None
       | Some s \<Rightarrow> if in_scope ws owner source_ids s \<and> searchable s then Some (k, s) else None)) (ab_chunks db)"

definition chunk_matches ::
  "sql_functions \<Rightarrow> pystr list \<Rightarrow> nat \<Rightarrow> (chunk_row \<times> source_row) list \<Rightarrow> lexical_match list" where
  "chunk_matches sq terms limit rows = (let
       entry = (\<lambda>(k, s). \<lparr>co_id = ck_id k, co_text = sq_lower sq (ck_content k), co_len = length (ck_content k)\<rparr>);
       corpus = map entry rows;
       found = filter (\<lambda>r. matches_any terms (co_text (entry r))) rows
     in map (\<lambda>(k, s). \<lparr>lx_source_id = ck_source_id k, lx_chunk_id = Some (ck_id k), lx_kind = so_kind s,
           lx_title = so_title s, lx_text = take max_text (ck_content k), lx_timestamp = ck_start_seconds k\<rparr>)
       (take limit (sort_key (\<lambda>(k, s). (- bm25 sq corpus terms (entry (k, s)), - ck_created_at k, ck_id k)) found)))"

text \<open>\<^verbatim>\<open>strpos\<close>, from 1; 0 where the text does not occur.\<close>

fun strpos :: "pystr \<Rightarrow> pystr \<Rightarrow> nat" where
  "strpos t [] = (if t = [] then 1 else 0)"
| "strpos t (c # s) = (if prefix t (c # s) then 1 else (case strpos t s of 0 \<Rightarrow> 0 | Suc n \<Rightarrow> Suc (Suc n)))"

definition excerpt_of :: "sql_functions \<Rightarrow> pystr list \<Rightarrow> pystr \<Rightarrow> pystr" where
  "excerpt_of sq terms txt = (let low = sq_lower sq txt;
       position = (case find (\<lambda>t. contains t low) terms of Some t \<Rightarrow> strpos t low | None \<Rightarrow> 1)
     in take max_text (drop (max 1 (position - 100) - 1) txt))"

definition source_matches ::
  "sql_functions \<Rightarrow> pystr list \<Rightarrow> nat \<Rightarrow> uuid set \<Rightarrow> source_row list \<Rightarrow> lexical_match list" where
  "source_matches sq terms limit represented rows = (let
       entry = (\<lambda>s. let txt = the (source_text s) in \<lparr>co_id = so_id s, co_text = sq_lower sq txt, co_len = length txt\<rparr>);
       corpus = map entry rows;
       found = filter (\<lambda>s. matches_any terms (co_text (entry s)) \<and> so_id s \<notin> represented) rows
     in map (\<lambda>s. \<lparr>lx_source_id = so_id s, lx_chunk_id = None, lx_kind = so_kind s, lx_title = so_title s,
           lx_text = excerpt_of sq terms (the (source_text s)), lx_timestamp = None\<rparr>)
       (take limit (sort_key (\<lambda>s. (- bm25 sq corpus terms (entry s), - so_created_at s, so_id s)) found)))"

definition search_lexically ::
  "unicode \<Rightarrow> sql_functions \<Rightarrow> app_db \<Rightarrow> uuid \<Rightarrow> uuid \<Rightarrow> pystr \<Rightarrow> nat \<Rightarrow> uuid list option \<Rightarrow> lexical_match list" where
  "search_lexically uc sq db ws owner question limit source_ids = (let terms = query_terms uc question in
     if terms = [] \<or> limit = 0 \<or> source_ids = Some [] then []
     else let limit = min limit max_results;
          matches = chunk_matches sq terms limit (eligible_chunks ws owner source_ids db);
          more = source_matches sq terms (max (limit - length matches) (min limit 2)) (lx_source_id ` set matches)
            (filter (\<lambda>s. in_scope ws owner source_ids s \<and> readable s) (ab_sources db))
       in take (limit - length more) matches @ more)"

section \<open>The neighbourhood in the graph\<close>

record known_entity =
  ke_name :: pystr
  ke_kind :: pystr
  ke_keys :: "pystr list"
  ke_source_ids :: "uuid list"
  ke_superseded :: bool

definition graph_entities :: "uuid \<Rightarrow> graph_db \<Rightarrow> known_entity list" where
  "graph_entities ws g = map (\<lambda>n. \<lparr>ke_name = gn_name n, ke_kind = gn_kind n, ke_keys = gn_keys n,
     ke_source_ids = gn_source_ids n, ke_superseded = (gn_superseded_by n \<noteq> None)\<rparr>)
     (filter (\<lambda>n. gn_workspace_id n = ws) (gb_nodes g))"

definition valid_at :: "instant \<Rightarrow> graph_edge \<Rightarrow> bool" where
  "valid_at t d \<longleftrightarrow> (case gd_valid_from d of None \<Rightarrow> True | Some a \<Rightarrow> a \<le> t)
     \<and> (case gd_valid_to d of None \<Rightarrow> True | Some b \<Rightarrow> t \<le> b)"

text \<open>Relationships on a path of one or two hops from a seed; a path does not use an edge twice.\<close>

fun other_ends :: "uuid \<Rightarrow> graph_edge \<Rightarrow> uuid list" where
  "other_ends i d = (if gd_source d = i then [gd_target d] else []) @ (if gd_target d = i then [gd_source d] else [])"

definition two_hops :: "uuid \<Rightarrow> graph_db \<Rightarrow> uuid \<Rightarrow> nat set" where
  "two_hops ws g seed = (let es = gb_edges g; inside = (\<lambda>i. has_node ws (gb_nodes g) i) in
     set (filter (\<lambda>i. list_ex inside (other_ends seed (es ! i))) [0..<length es])
     \<union> (\<Union>i \<in> set [0..<length es]. \<Union>m \<in> set (other_ends seed (es ! i)).
         \<Union>j \<in> set (filter (\<lambda>j. j \<noteq> i \<and> list_ex inside (other_ends m (es ! j))) [0..<length es]). {i, j}))"

record graph_fact_row =
  gf_source :: pystr
  gf_kind :: pystr
  gf_target :: pystr
  gf_source_ids :: "uuid list"
  gf_superseded :: "pystr list"

definition fact_row :: "graph_node list \<Rightarrow> graph_edge \<Rightarrow> graph_fact_row option" where
  "fact_row nodes d = (case (row_get gn_id (gd_source d) nodes, row_get gn_id (gd_target d) nodes) of
     (Some a, Some b) \<Rightarrow> Some \<lparr>gf_source = gn_name a, gf_kind = gd_kind d, gf_target = gn_name b,
       gf_source_ids = gn_source_ids a @ gn_source_ids b,
       gf_superseded = map gn_name (filter (\<lambda>x. gn_superseded_by x \<noteq> None) [a, b])\<rparr>
   | _ \<Rightarrow> None)"

definition graph_facts :: "uuid \<Rightarrow> pystr list \<Rightarrow> instant \<Rightarrow> nat \<Rightarrow> graph_db \<Rightarrow> graph_fact_row list" where
  "graph_facts ws keys t limit g = (let
       seeds = filter (\<lambda>n. gn_workspace_id n = ws \<and> shares keys (gn_keys n)) (gb_nodes g);
       on_path = (\<Union>n \<in> set seeds. two_hops ws g (gn_id n))
     in take limit (List.map_filter (\<lambda>(i, d). if i \<in> on_path \<and> gd_kind d \<in> set relation_kind_names \<and> valid_at t d
         then fact_row (gb_nodes g) d else None) (enumerate 0 (gb_edges g))))"

section \<open>Hybrid retrieval\<close>

record answer_source =
  as_index :: nat
  as_source_id :: uuid
  as_chunk_id :: "uuid option"
  as_kind :: source_kind
  as_title :: pystr
  as_excerpt :: pystr
  as_timestamp :: "py_float option"

record evidence =
  ed_source :: answer_source
  ed_text :: pystr

record retrieval_result =
  rx_evidence :: "evidence list"
  rx_facts :: "graph_fact_row list"
  rx_entities :: "pystr list"

text \<open>What the retriever is built from; \<open>None\<close> of a graph read is an exception.\<close>

record graph_reads =
  gh_entities :: "uuid \<Rightarrow> known_entity list option"
  gh_facts :: "uuid \<Rightarrow> pystr list \<Rightarrow> instant \<Rightarrow> graph_fact_row list option"

record retriever =
  hy_embed :: "pystr \<Rightarrow> index_error + py_float list"
  hy_search :: "py_float list \<Rightarrow> uuid list option \<Rightarrow> nat \<Rightarrow> (chunk_row \<times> py_float) list"
  hy_load_sources :: "uuid list \<Rightarrow> source_row list"
  hy_graph :: "graph_reads option"
  hy_lexical :: "(pystr \<Rightarrow> uuid list option \<Rightarrow> nat \<Rightarrow> lexical_match list) option"
  hy_vector_limit :: nat
  hy_graph_limit :: nat
  hy_max_evidence :: nat

definition named_entities :: "unicode \<Rightarrow> pystr \<Rightarrow> known_entity list \<Rightarrow> known_entity list" where
  "named_entities uc question es = (let q = normalize_name uc question (entity_kind_value Event) in
     filter (\<lambda>e. \<exists>k \<in> set (ke_keys e). 2 \<le> length k \<and> contains k q) es)"

definition graph_expansion ::
  "unicode \<Rightarrow> graph_reads option \<Rightarrow> uuid \<Rightarrow> pystr \<Rightarrow> instant \<Rightarrow> uuid list \<times> graph_fact_row list \<times> pystr list" where
  "graph_expansion uc graph ws question now = (case graph of
     None \<Rightarrow> ([], [], [])
   | Some g \<Rightarrow> (case gh_entities g ws of
       None \<Rightarrow> ([], [], [])
     | Some all \<Rightarrow> (let es = named_entities uc question all in
         if es = [] then ([], [], [])
         else (case gh_facts g ws (sorted_list_of_set (\<Union>e \<in> set es. set (ke_keys e))) now of
           None \<Rightarrow> ([], [], [])
         | Some rows \<Rightarrow> (sorted_list_of_set ((\<Union>e \<in> set es. set (ke_source_ids e)) \<union> (\<Union>r \<in> set rows. set (gf_source_ids r))),
             rows, map ke_name es)))))"

definition first_chunks :: "chunk_row list \<Rightarrow> chunk_row list" where
  "first_chunks ks = foldl (\<lambda>acc k. if ck_id k \<in> ck_id ` set acc then acc else acc @ [k]) [] ks"

definition chunk_evidence :: "source_row \<Rightarrow> chunk_row \<Rightarrow> evidence" where
  "chunk_evidence s k = \<lparr>ed_source = \<lparr>as_index = 0, as_source_id = ck_source_id k, as_chunk_id = Some (ck_id k),
       as_kind = so_kind s, as_title = so_title s, as_excerpt = take 300 (strip (ck_content k)),
       as_timestamp = ck_start_seconds k\<rparr>,
     ed_text = take max_text (strip (ck_content k))\<rparr>"

definition vector_evidence :: "(uuid list \<Rightarrow> source_row list) \<Rightarrow> chunk_row list \<Rightarrow> evidence list" where
  "vector_evidence load ks = (let sources = (if ks = [] then [] else filter searchable (load (fromkeys (map ck_source_id ks)))) in
     List.map_filter (\<lambda>k. map_option (\<lambda>s. chunk_evidence s k) (row_get so_id (ck_source_id k) sources)) ks)"

definition evidence_key :: "evidence \<Rightarrow> uuid \<times> uuid option" where
  "evidence_key e = (as_source_id (ed_source e), as_chunk_id (ed_source e))"

definition match_evidence :: "lexical_match \<Rightarrow> evidence" where
  "match_evidence m = (let txt = take max_text (strip (lx_text m)) in
     \<lparr>ed_source = \<lparr>as_index = 0, as_source_id = lx_source_id m, as_chunk_id = lx_chunk_id m, as_kind = lx_kind m,
        as_title = lx_title m, as_excerpt = take 300 txt, as_timestamp = lx_timestamp m\<rparr>, ed_text = txt\<rparr>)"

fun lexical_evidence :: "(uuid \<times> uuid option) set \<Rightarrow> lexical_match list \<Rightarrow> evidence list" where
  "lexical_evidence seen [] = []"
| "lexical_evidence seen (m # ms) = (let key = (lx_source_id m, lx_chunk_id m) in
     if key \<in> seen \<or> blank (lx_text m) then lexical_evidence seen ms
     else match_evidence m # lexical_evidence (insert key seen) ms)"

definition numbered :: "evidence list \<Rightarrow> evidence list" where
  "numbered es = map (\<lambda>(n, e). e\<lparr>ed_source := (ed_source e)\<lparr>as_index := n\<rparr>\<rparr>) (enumerate 1 es)"

text \<open>Up to two keyword citations lead, sources without a chunk first.\<close>

definition mixed_evidence :: "nat \<Rightarrow> evidence list \<Rightarrow> lexical_match list \<Rightarrow> evidence list" where
  "mixed_evidence limit vector matches = (let lexical = sort_key (\<lambda>e. as_chunk_id (ed_source e) \<noteq> None)
         (lexical_evidence (set (map evidence_key vector)) matches);
       lead = min 2 limit
     in take limit (take lead lexical @ vector @ drop lead lexical))"

definition question_vector :: "retriever \<Rightarrow> pystr \<Rightarrow> index_error + py_float list option" where
  "question_vector h question = (case hy_embed h question of
     Inr v \<Rightarrow> Inr (Some v)
   | Inl (IndexPyError x) \<Rightarrow> Inl (IndexPyError x)
   | Inl (IndexError x) \<Rightarrow> if hy_lexical h = None then Inl (IndexError x) else Inr None)"

definition chunk_hits :: "retriever \<Rightarrow> py_float list option \<Rightarrow> uuid list \<Rightarrow> chunk_row list" where
  "chunk_hits h embedding sources = (case embedding of None \<Rightarrow> []
   | Some v \<Rightarrow> map fst (hy_search h v None (hy_vector_limit h)
       @ (if sources = [] then [] else hy_search h v (Some sources) (hy_graph_limit h))))"

definition gathered_evidence :: "retriever \<Rightarrow> py_float list option \<Rightarrow> uuid list \<Rightarrow> pystr \<Rightarrow> evidence list" where
  "gathered_evidence h embedding sources question = (let
       vector = vector_evidence (hy_load_sources h) (take (hy_max_evidence h) (first_chunks (chunk_hits h embedding sources)))
     in case hy_lexical h of
       None \<Rightarrow> vector
     | Some keyword \<Rightarrow> mixed_evidence (hy_max_evidence h) vector (keyword question None (hy_max_evidence h)
           @ (if sources = [] then [] else keyword question (Some sources) (hy_max_evidence h))))"

definition retrieve ::
  "unicode \<Rightarrow> retriever \<Rightarrow> uuid \<Rightarrow> pystr \<Rightarrow> instant \<Rightarrow> index_error + retrieval_result" where
  "retrieve uc h ws question now = rbind (question_vector h question) (\<lambda>embedding.
     case graph_expansion uc (hy_graph h) ws question now of (sources, facts, names) \<Rightarrow>
       Inr \<lparr>rx_evidence = numbered (gathered_evidence h embedding sources question), rx_facts = facts,
         rx_entities = names\<rparr>)"

section \<open>The retriever of a question\<close>

text \<open>\<^verbatim>\<open>ask\<close> of \<^verbatim>\<open>api/ask/router.py\<close> builds it on the tables of the workspace's owner and the requester's providers.\<close>

definition load_sources :: "app_db \<Rightarrow> uuid \<Rightarrow> uuid \<Rightarrow> uuid list \<Rightarrow> source_row list" where
  "load_sources db ws owner ids = filter (\<lambda>s. so_id s \<in> set ids \<and> so_workspace_id s = ws \<and> so_owner_id s = owner) (ab_sources db)"

definition stored_graph :: "graph_db \<Rightarrow> graph_reads" where
  "stored_graph g = \<lparr>gh_entities = (\<lambda>ws. Some (graph_entities ws g)),
     gh_facts = (\<lambda>ws keys t. Some (graph_facts ws keys t 40 g))\<rparr>"

definition ask_retriever ::
  "unicode \<Rightarrow> sql_functions \<Rightarrow> (py_float list \<Rightarrow> py_float list \<Rightarrow> py_float) \<Rightarrow> provider_env \<Rightarrow> app_db
    \<Rightarrow> graph_reads option \<Rightarrow> uuid \<Rightarrow> uuid \<Rightarrow> uuid \<Rightarrow> retriever" where
  "ask_retriever uc sq cosine env db graph ws owner user =
     \<lparr>hy_embed = embed_query env db ws user,
      hy_search = (\<lambda>v ids limit. search_by_embedding cosine db ws owner v limit ids),
      hy_load_sources = load_sources db ws owner, hy_graph = graph,
      hy_lexical = Some (\<lambda>question ids limit. search_lexically uc sq db ws owner question limit ids),
      hy_vector_limit = 6, hy_graph_limit = 4, hy_max_evidence = 8\<rparr>"

section \<open>Evidence quotes approved sources\<close>

definition approved :: "app_db \<Rightarrow> uuid \<Rightarrow> uuid \<Rightarrow> source_row \<Rightarrow> bool" where
  "approved db ws owner s \<longleftrightarrow> s \<in> set (ab_sources db) \<and> so_workspace_id s = ws \<and> so_owner_id s = owner
     \<and> (searchable s \<or> readable s)"

definition quotes :: "app_db \<Rightarrow> source_row \<Rightarrow> uuid option \<Rightarrow> pystr \<Rightarrow> bool" where
  "quotes db s cid txt \<longleftrightarrow> (case cid of
     Some i \<Rightarrow> \<exists>k \<in> set (ab_chunks db). ck_id k = i \<and> ck_source_id k = so_id s \<and> contains txt (ck_content k)
   | None \<Rightarrow> \<exists>whole. source_text s = Some whole \<and> contains txt whole)"

definition sound_evidence :: "app_db \<Rightarrow> uuid \<Rightarrow> uuid \<Rightarrow> evidence \<Rightarrow> bool" where
  "sound_evidence db ws owner e \<longleftrightarrow> length (ed_text e) \<le> max_text \<and> prefix (as_excerpt (ed_source e)) (ed_text e)
     \<and> (\<exists>s. approved db ws owner s \<and> so_id s = as_source_id (ed_source e) \<and> as_kind (ed_source e) = so_kind s
        \<and> as_title (ed_source e) = so_title s \<and> quotes db s (as_chunk_id (ed_source e)) (ed_text e))"

definition sound_match :: "app_db \<Rightarrow> uuid \<Rightarrow> uuid \<Rightarrow> lexical_match \<Rightarrow> bool" where
  "sound_match db ws owner m \<longleftrightarrow> (\<exists>s. approved db ws owner s \<and> so_id s = lx_source_id m \<and> lx_kind m = so_kind s
     \<and> lx_title m = so_title s \<and> quotes db s (lx_chunk_id m) (lx_text m))"

lemma contains_take [simp]: "contains (take n s) s"
  unfolding contains_def by (simp add: sublist_take)

lemma contains_drop: "contains (drop n s) s"
  unfolding contains_def by (simp add: suffix_drop suffix_imp_sublist)

lemma quotes_within: "quotes db s cid txt \<Longrightarrow> contains sub txt \<Longrightarrow> quotes db s cid sub"
  using contains_trans by (fastforce simp: quotes_def split: option.splits)

lemma get_source_row: "get_source i db = Some s \<Longrightarrow> s \<in> set (ab_sources db) \<and> so_id s = i"
  unfolding get_source_def by (rule row_get_Some)

lemma in_map_filter: "y \<in> set (List.map_filter f xs) \<longleftrightarrow> (\<exists>x \<in> set xs. f x = Some y)"
  by (induction xs) (auto simp: map_filter_simps split: option.splits)

lemma chunk_matches_sound:
  assumes "m \<in> set (chunk_matches sq terms n (eligible_chunks ws owner ids db))"
  shows "sound_match db ws owner m"
proof -
  obtain k s where ks: "(k, s) \<in> set (eligible_chunks ws owner ids db)"
    and m: "m = \<lparr>lx_source_id = ck_source_id k, lx_chunk_id = Some (ck_id k), lx_kind = so_kind s,
      lx_title = so_title s, lx_text = take max_text (ck_content k), lx_timestamp = ck_start_seconds k\<rparr>"
    using assms by (auto simp: chunk_matches_def Let_def dest!: in_set_takeD)
  have "k \<in> set (ab_chunks db)" "get_source (ck_source_id k) db = Some s" "in_scope ws owner ids s" "searchable s"
    using ks by (auto simp: eligible_chunks_def in_map_filter split: if_splits option.splits)
  then show ?thesis
    using get_source_row [of "ck_source_id k" db s]
    by (auto simp: sound_match_def approved_def quotes_def in_scope_def m intro!: exI [of _ s])
qed

lemma source_matches_sound:
  assumes "m \<in> set (source_matches sq terms n represented
    (filter (\<lambda>s. in_scope ws owner ids s \<and> readable s) (ab_sources db)))"
  shows "sound_match db ws owner m"
proof -
  obtain s where s: "s \<in> set (ab_sources db)" "in_scope ws owner ids s" "readable s"
    and m: "m = \<lparr>lx_source_id = so_id s, lx_chunk_id = None, lx_kind = so_kind s, lx_title = so_title s,
      lx_text = excerpt_of sq terms (the (source_text s)), lx_timestamp = None\<rparr>"
    using assms by (auto simp: source_matches_def Let_def dest!: in_set_takeD)
  obtain whole where whole: "source_text s = Some whole"
    using s(3) by (auto simp: readable_def split: option.splits)
  have "contains (excerpt_of sq terms whole) whole"
    unfolding excerpt_of_def Let_def using contains_trans [OF contains_take contains_drop] by blast
  then show ?thesis
    using s whole by (auto simp: sound_match_def approved_def quotes_def in_scope_def m intro!: exI [of _ s])
qed

lemma search_lexically_sound: "m \<in> set (search_lexically uc sq db ws owner question n ids) \<Longrightarrow> sound_match db ws owner m"
  by (auto simp: search_lexically_def Let_def split: if_splits dest!: in_set_takeD
      intro: chunk_matches_sound source_matches_sound)

lemma match_evidence_sound:
  assumes "sound_match db ws owner m"
  shows "sound_evidence db ws owner (match_evidence m)"
proof -
  obtain s where s: "approved db ws owner s" "so_id s = lx_source_id m" "lx_kind m = so_kind s" "lx_title m = so_title s"
    and q: "quotes db s (lx_chunk_id m) (lx_text m)"
    using assms by (auto simp: sound_match_def)
  have "quotes db s (lx_chunk_id m) (take max_text (strip (lx_text m)))"
    by (rule quotes_within [OF q contains_trans [OF contains_take contains_strip]])
  then show ?thesis
    using s take_is_prefix [of 300 "take max_text (strip (lx_text m))"]
    by (auto simp: sound_evidence_def match_evidence_def Let_def intro!: exI [of _ s])
qed

lemma vector_evidence_sound:
  assumes "e \<in> set (vector_evidence (load_sources db ws owner) ks)" "set ks \<subseteq> set (ab_chunks db)"
  shows "sound_evidence db ws owner e"
proof -
  obtain k s where k: "k \<in> set ks" "e = chunk_evidence s k"
    and s: "row_get so_id (ck_source_id k) (filter searchable (load_sources db ws owner (fromkeys (map ck_source_id ks)))) = Some s"
    using assms(1) by (auto simp: vector_evidence_def in_map_filter split: if_splits)
  have "approved db ws owner s" "so_id s = ck_source_id k"
    using row_get_Some [OF s] by (auto simp: approved_def load_sources_def)
  moreover have "contains (take max_text (strip (ck_content k))) (ck_content k)"
    by (rule contains_trans [OF contains_take contains_strip])
  ultimately show ?thesis
    using k assms(2) by (auto simp: sound_evidence_def chunk_evidence_def quotes_def max_text_def
        intro!: exI [of _ s] bexI [of _ k] take_is_prefix) (auto simp: prefix_def min_def intro!: exI [of _ "take 900 (drop 300 (strip (ck_content k)))"] simp flip: take_add)
qed

section \<open>Evidence is numbered and never repeated\<close>

lemma first_chunks_distinct: "distinct (map ck_id (first_chunks ks)) \<and> set (first_chunks ks) \<subseteq> set ks"
proof -
  have "distinct (map ck_id acc) \<Longrightarrow> set acc \<subseteq> A \<Longrightarrow> set ks \<subseteq> A \<Longrightarrow>
    distinct (map ck_id (foldl (\<lambda>acc k. if ck_id k \<in> ck_id ` set acc then acc else acc @ [k]) acc ks))
      \<and> set (foldl (\<lambda>acc k. if ck_id k \<in> ck_id ` set acc then acc else acc @ [k]) acc ks) \<subseteq> A" for acc A
    by (induction ks arbitrary: acc) auto
  from this [of "[]" "set ks"] show ?thesis
    by (simp add: first_chunks_def)
qed

lemma chunk_evidence_key: "snd (evidence_key (chunk_evidence s k)) = Some (ck_id k)"
  by (simp add: evidence_key_def chunk_evidence_def)

lemma vector_evidence_keys:
  assumes "distinct (map ck_id ks)"
  shows "distinct (map evidence_key (vector_evidence load ks))"
proof -
  have "distinct (map evidence_key (List.map_filter (\<lambda>k. map_option (\<lambda>s. chunk_evidence s k) (f k)) ks))
    \<and> (\<forall>e \<in> set (List.map_filter (\<lambda>k. map_option (\<lambda>s. chunk_evidence s k) (f k)) ks).
        snd (evidence_key e) \<in> Some ` ck_id ` set ks)"
    for f :: "chunk_row \<Rightarrow> source_row option"
    using assms
  proof (induction ks)
    case (Cons k ks)
    then show ?case
      by (cases "f k") (auto simp: map_filter_simps chunk_evidence_key dest!: arg_cong [where f = snd])
  qed (simp add: map_filter_simps)
  then show ?thesis
    unfolding vector_evidence_def Let_def by (rule conjunct1)
qed

lemma lexical_evidence_keys:
  "distinct (map evidence_key (lexical_evidence seen ms)) \<and> evidence_key ` set (lexical_evidence seen ms) \<inter> seen = {}
    \<and> set (lexical_evidence seen ms) \<subseteq> match_evidence ` set ms"
proof (induction ms arbitrary: seen)
  case (Cons m ms)
  have "evidence_key (match_evidence m) = (lx_source_id m, lx_chunk_id m)"
    by (simp add: evidence_key_def match_evidence_def Let_def)
  then show ?case
    using Cons [of seen] Cons [of "insert (lx_source_id m, lx_chunk_id m) seen"] by (auto simp: Let_def)
qed simp

lemma mixed_evidence_mset:
  fixes vector :: "evidence list" and matches :: "lexical_match list"
  defines "lexical \<equiv> lexical_evidence (set (map evidence_key vector)) matches"
  shows "\<exists>xs. mixed_evidence n vector matches = take n xs \<and> mset xs = mset (vector @ lexical)"
proof -
  let ?sorted = "sort_key (\<lambda>e. as_chunk_id (ed_source e) \<noteq> None) lexical"
  have "mset (take (min 2 n) ?sorted) + mset (drop (min 2 n) ?sorted) = mset lexical"
    by (simp only: mset_append [symmetric] append_take_drop_id mset_sort)
  then have "mset (take (min 2 n) ?sorted @ vector @ drop (min 2 n) ?sorted) = mset (vector @ lexical)"
    unfolding mset_append by (simp only: add.left_commute)
  then show ?thesis
    unfolding mixed_evidence_def Let_def lexical_def by blast
qed

lemma mixed_evidence_members: "set (mixed_evidence n vector matches) \<subseteq> set vector \<union> match_evidence ` set matches"
proof -
  obtain xs where xs: "mixed_evidence n vector matches = take n xs"
    "mset xs = mset (vector @ lexical_evidence (set (map evidence_key vector)) matches)"
    using mixed_evidence_mset [of n vector matches] by blast
  have "set xs = set vector \<union> set (lexical_evidence (set (map evidence_key vector)) matches)"
    using mset_eq_setD [OF xs(2)] by simp
  then show ?thesis
    using lexical_evidence_keys [of "set (map evidence_key vector)" matches] set_take_subset [of n xs]
    unfolding xs(1) by blast
qed

lemma mixed_evidence_keys:
  assumes "distinct (map evidence_key vector)"
  shows "distinct (map evidence_key (mixed_evidence n vector matches))"
proof -
  let ?lexical = "lexical_evidence (set (map evidence_key vector)) matches"
  obtain xs where xs: "mixed_evidence n vector matches = take n xs" "mset xs = mset (vector @ ?lexical)"
    using mixed_evidence_mset [of n vector matches] by blast
  have "mset (map evidence_key xs) = mset (map evidence_key (vector @ ?lexical))"
    using xs(2) by (metis mset_map)
  moreover have "distinct (map evidence_key (vector @ ?lexical))"
    using assms lexical_evidence_keys [of "set (map evidence_key vector)" matches] by auto
  ultimately have "distinct (map evidence_key xs)"
    using mset_eq_imp_distinct_iff by blast
  then show ?thesis
    unfolding xs(1) by (simp add: take_map [symmetric])
qed

lemma numbered_evidence:
  "map (as_index \<circ> ed_source) (numbered es) = [1..<length es + 1]"
  "map evidence_key (numbered es) = map evidence_key es"
  "(\<forall>e \<in> set (numbered es). sound_evidence db ws owner e) \<longleftrightarrow> (\<forall>e \<in> set es. sound_evidence db ws owner e)"
proof -
  show "map (as_index \<circ> ed_source) (numbered es) = [1..<length es + 1]"
    by (rule nth_equalityI) (simp_all add: numbered_def nth_enumerate_eq nth_append del: upt_Suc)
  show "map evidence_key (numbered es) = map evidence_key es"
    by (rule nth_equalityI) (simp_all add: numbered_def nth_enumerate_eq evidence_key_def)
  have "sound_evidence db ws owner (e\<lparr>ed_source := (ed_source e)\<lparr>as_index := i\<rparr>\<rparr>) = sound_evidence db ws owner e" for e i
    by (simp add: sound_evidence_def)
  then show "(\<forall>e \<in> set (numbered es). sound_evidence db ws owner e) \<longleftrightarrow> (\<forall>e \<in> set es. sound_evidence db ws owner e)"
    by (auto simp: numbered_def in_set_enumerate_eq all_set_conv_all_nth nth_enumerate_eq)
qed

section \<open>Degraded retrieval\<close>

text \<open>A graph that cannot be read answers like no graph; an embedding that cannot be had, like one that finds nothing.\<close>

lemma graph_irrelevant:
  "question_vector (h\<lparr>hy_graph := g\<rparr>) question = question_vector h question"
  "gathered_evidence (h\<lparr>hy_graph := g\<rparr>) embedding sources question = gathered_evidence h embedding sources question"
  by (auto simp: question_vector_def gathered_evidence_def chunk_hits_def Let_def
      split: sum.split index_error.split option.split)

lemma unreadable_graph_is_no_graph:
  assumes "gh_entities g ws = None \<or> (\<forall>keys t. gh_facts g ws keys t = None)"
  shows "retrieve uc (h\<lparr>hy_graph := Some g\<rparr>) ws question now = retrieve uc (h\<lparr>hy_graph := None\<rparr>) ws question now"
proof -
  have "graph_expansion uc (Some g) ws question now = ([], [], [])"
    using assms by (auto simp: graph_expansion_def Let_def split: option.splits)
  then show ?thesis
    by (simp add: retrieve_def graph_irrelevant) (simp add: graph_expansion_def)
qed

lemma failed_embedding_is_no_hit:
  assumes "hy_embed h question = Inl (IndexError x)" "hy_lexical h \<noteq> None"
  shows "retrieve uc h ws question now
    = retrieve uc (h\<lparr>hy_embed := (\<lambda>_. Inr v), hy_search := (\<lambda>_ _ _. [])\<rparr>) ws question now"
proof -
  obtain keyword where "hy_lexical h = Some keyword"
    using assms(2) by blast
  then show ?thesis
    using assms(1) by (simp add: retrieve_def question_vector_def gathered_evidence_def chunk_hits_def Let_def
        split: prod.split)
qed

section \<open>Properties\<close>

lemma search_by_embedding_rows:
  "fst ` set (search_by_embedding cosine db ws owner v n ids) \<subseteq> set (ab_chunks db)"
  by (auto simp: search_by_embedding_def dest!: in_set_takeD)

lemma ask_evidence:
  fixes db :: app_db
  assumes "retrieve uc (ask_retriever uc sq cosine env db graph ws owner user) ws question now = Inr r"
  obtains ks ms where "rx_evidence r = numbered (mixed_evidence 8
        (vector_evidence (load_sources db ws owner) (take 8 (first_chunks ks))) ms)"
    and "set ks \<subseteq> set (ab_chunks db)" "\<And>m. m \<in> set ms \<Longrightarrow> sound_match db ws owner m"
proof -
  let ?h = "ask_retriever uc sq cosine env db graph ws owner user"
  obtain sources facts names where g: "graph_expansion uc (hy_graph ?h) ws question now = (sources, facts, names)"
    by (rule prod_cases3)
  obtain embedding where e: "rx_evidence r = numbered (gathered_evidence ?h embedding sources question)"
    using assms unfolding retrieve_def g by (auto simp: rbind_Inr_iff)
  let ?keyword = "\<lambda>ids. search_lexically uc sq db ws owner question 8 ids"
  let ?matches = "?keyword None @ (if sources = [] then [] else ?keyword (Some sources))"
  have "gathered_evidence ?h embedding sources question = mixed_evidence 8
      (vector_evidence (load_sources db ws owner) (take 8 (first_chunks (chunk_hits ?h embedding sources)))) ?matches"
    by (simp add: gathered_evidence_def ask_retriever_def)
  moreover have "set (chunk_hits ?h embedding sources) \<subseteq> set (ab_chunks db)"
    using search_by_embedding_rows [of cosine db ws owner]
    by (cases embedding) (auto simp: chunk_hits_def ask_retriever_def split: if_splits)
  moreover have "sound_match db ws owner m" if "m \<in> set ?matches" for m
    using that search_lexically_sound by (auto split: if_splits)
  ultimately show thesis
    using that e by metis
qed

text \<open>What an answer may cite is approved and quoted. Of a question in a workspace, whatever the embedding, the
  vector distance, the keyword ranking and the graph say, the evidence is numbered 1, 2, ... without gaps, at most eight
  pieces long, never the same passage twice, and every piece is a verbatim passage of a chunk or of the text of a source of
  that workspace that was processed, or confirmed where it is reviewed, under the title and kind of that source, and the
  excerpt shown is a prefix of the passage the model reads.\<close>
theorem evidence_is_approved:
  assumes "retrieve uc (ask_retriever uc sq cosine env db graph ws owner user) ws question now = Inr r"
  shows "map (as_index \<circ> ed_source) (rx_evidence r) = [1..<length (rx_evidence r) + 1]
    \<and> length (rx_evidence r) \<le> 8 \<and> distinct (map evidence_key (rx_evidence r))
    \<and> (\<forall>e \<in> set (rx_evidence r). sound_evidence db ws owner e)"
proof -
  obtain ks ms where r: "rx_evidence r = numbered (mixed_evidence 8
        (vector_evidence (load_sources db ws owner) (take 8 (first_chunks ks))) ms)"
    and ks: "set ks \<subseteq> set (ab_chunks db)" and ms: "\<And>m. m \<in> set ms \<Longrightarrow> sound_match db ws owner m"
    using ask_evidence [OF assms] by metis
  let ?vector = "vector_evidence (load_sources db ws owner) (take 8 (first_chunks ks))"
  let ?mixed = "mixed_evidence 8 ?vector ms"
  have first: "distinct (map ck_id (take 8 (first_chunks ks)))" "set (take 8 (first_chunks ks)) \<subseteq> set (ab_chunks db)"
    using first_chunks_distinct [of ks] ks by (auto simp flip: take_map dest!: in_set_takeD)
  have "sound_evidence db ws owner e" if "e \<in> set ?mixed" for e
    using mixed_evidence_members [of 8 ?vector ms] that vector_evidence_sound [OF _ first(2)] ms match_evidence_sound by blast
  moreover have "length ?mixed \<le> 8"
    using mixed_evidence_mset [of 8 ?vector ms] by auto
  moreover have "distinct (map evidence_key ?mixed)"
    by (rule mixed_evidence_keys [OF vector_evidence_keys [OF first(1)]])
  moreover have "length (numbered ?mixed) = length ?mixed"
    by (simp add: numbered_def)
  ultimately show ?thesis
    unfolding r using numbered_evidence [of ?mixed] by simp
qed

definition sample_document :: source_row where
  "sample_document = example_source\<lparr>so_content_text := Some (lit ''the budget was agreed''),
     so_status := Succeeded, so_processing_stage := Completed\<rparr>"

definition no_functions :: sql_functions where
  "no_functions = \<lparr>sq_lower = id, sq_ln = id\<rparr>"

lemma sample_evidence_texts:
  "map ed_text (numbered (mixed_evidence 8 (vector_evidence load (take 8 (first_chunks [])))
     [\<lparr>lx_source_id = 9, lx_chunk_id = None, lx_kind = DocumentKind, lx_title = lit ''notes'',
      lx_text = lit ''the budget was agreed'', lx_timestamp = None\<rparr>])) = [lit ''the budget was agreed'']"
  by code_simp

end
