(* ===== verification/Answering.thy ===== *)
theory Answering
  imports Retrieval ContextStore
begin

text \<open>
  Answering a question (\<^verbatim>\<open>retrieval/application/answer.py\<close>, \<^verbatim>\<open>api/ask/router.py\<close>): the prompt, the filter of
  citations in a streamed answer, the events sent and the request around them. A stream is the pieces it
  yields and how it ends; \<^verbatim>\<open>str.isdigit\<close> is an argument. The lemmas relate the character-wise filter to a function of the
  whole text.
\<close>

section \<open>The prompt\<close>

text \<open>The texts of the module, as code points.\<close>

definition no_evidence_text :: pystr where
  "no_evidence_text =
     [51656, 47928, 44284, 32, 44288, 47144, 46108, 32, 44540, 44144, 47484, 32, 52286, 51648, 32, 47803,
      54664, 49845, 45768, 45796, 46, 32, 54924, 51032, 45208, 32, 47928, 49436, 47484, 32, 50732, 47536, 32,
      46244, 32, 45796, 49884, 32, 47932, 50612, 48400, 32, 51452, 49464, 50836, 46]"

definition empty_answer_text :: pystr where
  "empty_answer_text =
     [47784, 45944, 51060, 32, 45813, 48320, 51012, 32, 47564, 46308, 51648, 32, 47803, 54664, 49845, 45768,
      45796, 46, 32, 51104, 49884, 32, 54980, 32, 45796, 49884, 32, 49884, 46020, 54644, 32, 51452, 49464,
      50836, 46]"

definition system_prompt :: pystr where
  "system_prompt =
     [45817, 49888, 51008, 32, 39, 47589, 46973, 51060, 39, 51077, 45768, 45796, 46, 32, 54016, 51032, 32,
      54924, 51032, 50752, 32, 47928, 49436, 50640, 49436, 32, 48977, 51008, 32, 44540, 44144, 47564, 51004,
      47196, 32, 51656, 47928, 50640, 32, 45813, 54633, 45768, 45796, 46, 10, 44508, 52825, 58, 10, 49, 46, 32,
      50500, 47000, 32, 91, 44540, 44144, 93, 50640, 32, 51201, 55180, 32, 45236, 50857, 51004, 47196, 47564,
      32, 45813, 54633, 45768, 45796, 46, 32, 44540, 44144, 50640, 32, 50630, 45716, 32, 49324, 49892, 44, 32,
      45812, 45817, 51088, 44, 32, 45216, 51676, 44, 32, 51060, 50976, 45716, 32, 47564, 46308, 51648, 32,
      50506, 49845, 45768, 45796, 46, 32, 44540, 44144, 44032, 32, 48512, 51313, 54616, 47732, 32, 48512,
      51313, 54616, 45796, 44256, 32, 47568, 54633, 45768, 45796, 46, 10, 50, 46, 32, 44540, 44144, 47484, 32,
      51064, 50857, 54624, 32, 46412, 47560, 45796, 32, 47928, 51109, 32, 45149, 50640, 32, 91, 49, 93, 52376,
      47100, 32, 44540, 44144, 32, 48264, 54840, 47484, 32, 48537, 51077, 45768, 45796, 46, 32, 47785, 47197,
      50640, 32, 50630, 45716, 32, 48264, 54840, 45716, 32, 50416, 51648, 32, 50506, 49845, 45768, 45796, 46,
      10, 51, 46, 32, 91, 54788, 51116, 32, 49345, 54889, 93, 51032, 32, 39, 50976, 54952, 54620, 32, 44208,
      51221, 39, 50640, 32, 50630, 45716, 32, 44208, 51221, 44, 32, 46608, 45716, 32, 39, 45824, 52404, 46120,
      39, 51004, 47196, 32, 54364, 49884, 46108, 32, 44208, 51221, 51008, 32, 51648, 44552, 51032, 32, 48169,
      52840, 51060, 46972, 44256, 32, 45800, 51221, 54616, 51648, 32, 50506, 49845, 45768, 45796, 46, 32,
      51060, 54980, 32, 48148, 45068, 50632, 51012, 32, 49688, 32, 51080, 45796, 44256, 32, 48157, 55176,
      44256, 44, 32, 47924, 50631, 51004, 47196, 32, 45824, 52404, 46096, 45716, 51648, 32, 44540, 44144,
      44032, 32, 51080, 51004, 47732, 32, 54632, 44760, 32, 47568, 54633, 45768, 45796, 46, 10, 52, 46, 32, 91,
      54788, 51116, 32, 49345, 54889, 93, 44284, 32, 91, 44288, 44228, 93, 45716, 32, 48169, 54693, 51012, 32,
      51105, 45716, 32, 52280, 44256, 51068, 32, 49104, 51077, 45768, 45796, 46, 32, 49324, 49892, 32, 51452,
      51109, 51008, 32, 48152, 46300, 49884, 32, 91, 44540, 44144, 93, 47196, 32, 46263, 48155, 52840, 54633,
      45768, 45796, 46, 10, 53, 46, 32, 54620, 44397, 50612, 47196, 44, 32, 51687, 44256, 32, 48516, 47749,
      54616, 44172, 32, 45813, 54633, 45768, 45796, 46, 10, 54, 46, 32, 91, 51060, 51204, 32, 45824, 54868, 93,
      45716, 32, 45824, 47749, 49324, 50752, 32, 51656, 47928, 32, 51032, 46020, 47484, 32, 51060, 54644,
      54616, 45716, 32, 52280, 44256, 51068, 32, 49104, 32, 49324, 49892, 51032, 32, 44540, 44144, 44032, 32,
      50500, 45785, 45768, 45796, 46, 32, 54788, 51116, 32, 91, 44540, 44144, 93, 47196, 32, 54869, 51064,
      46104, 51648, 32, 50506, 51008, 32, 44284, 44144, 32, 45813, 48320, 51032, 32, 45236, 50857, 51008, 32,
      49324, 49892, 47196, 32, 48152, 48373, 54616, 51648, 32, 50506, 49845, 45768, 45796, 46]"

definition pad2 :: "int \<Rightarrow> pystr" where
  "pad2 n = (if n < 0 then 45 # nat_str (nat (- n))
     else let s = nat_str (nat n) in if length s < 2 then 48 # s else s)"

definition truncated :: "py_float \<Rightarrow> int" where
  "truncated x = (if 0 \<le> x then \<lfloor>x\<rfloor> else \<lceil>x\<rceil>)"

definition format_time :: "py_float option \<Rightarrow> pystr" where
  "format_time time = (case time of None \<Rightarrow> []
   | Some x \<Rightarrow> lit '', '' @ pad2 (truncated x div 60) @ lit '':'' @ pad2 (truncated x mod 60))"

definition listed :: "pystr list \<Rightarrow> pystr" where
  "listed titles = (let s = join (lit '', '') titles in if s = [] then [50630, 51020] else s)"

definition store_section :: "context_store_state option \<Rightarrow> pystr" where
  "store_section store = (case store of
     None \<Rightarrow> [40, 50500, 51649, 32, 51221, 47532, 46108, 32, 54788, 51116, 32, 49345, 54889, 51060, 32, 50630, 49845, 45768, 45796, 46, 41]
   | Some s \<Rightarrow> if cs_current_state s = [] \<and> cs_decisions s = [] \<and> cs_open_issues s = []
       then [40, 50500, 51649, 32, 51221, 47532, 46108, 32, 54788, 51116, 32, 49345, 54889, 51060, 32, 50630, 49845, 45768, 45796, 46, 41]
       else join [10] (([54532, 47196, 51229, 53944, 58, 32] @ cs_subject s)
         # (if cs_current_state s = [] then [] else [[54788, 51116, 32, 49345, 53468, 58, 32] @ cs_current_state s])
         @ [[50976, 54952, 54620, 32, 44208, 51221, 58, 32] @ listed (map si_title (cs_decisions s)),
            [50676, 47536, 32, 51060, 49800, 58, 32] @ listed (map si_title (cs_open_issues s)),
            [45796, 51020, 32, 54624, 32, 51068, 58, 32] @ listed (map si_title (cs_next_actions s))]))"

definition facts_section :: "graph_fact_row list \<Rightarrow> pystr" where
  "facts_section facts = (if facts = [] then [40, 52286, 51008, 32, 44288, 44228, 44032, 32, 50630, 49845, 45768, 45796, 46, 41]
     else join [10] (map (\<lambda>f. lit ''- '' @ gf_source f @ lit '' -'' @ gf_kind f @ lit ''-> '' @ gf_target f
       @ (if gf_superseded f = [] then [] else [32, 40, 45824, 52404, 46120, 58, 32] @ join (lit '', '') (gf_superseded f) @ lit '')'')) facts))"

definition evidence_entry :: "evidence \<Rightarrow> pystr" where
  "evidence_entry e = (let s = ed_source e in
     [91] @ nat_str (as_index s) @ lit ''] ('' @ (if as_kind s = MeetingKind then [54924, 51032] else [47928, 49436])
       @ lit '': '' @ as_title s @ format_time (as_timestamp s) @ [41, 10] @ ed_text e)"

definition last_turns :: "'a list \<Rightarrow> 'a list" where
  "last_turns h = drop (length h - 6) h"

definition previous_turns :: "(pystr \<times> pystr) list \<Rightarrow> pystr" where
  "previous_turns h = (let s = join [10] (map (\<lambda>(q, a). [51656, 47928, 58, 32] @ q @ [10] @ [45813, 48320, 58, 32] @ a) (last_turns h)) in
     if s = [] then [40, 50630, 51020, 41] else s)"

definition build_messages ::
  "pystr \<Rightarrow> retrieval_result \<Rightarrow> context_store_state option \<Rightarrow> (pystr \<times> pystr) list \<Rightarrow> chat_message list" where
  "build_messages question r store history =
     [\<lparr>cm_role = lit ''system'', cm_content = system_prompt\<rparr>,
      \<lparr>cm_role = lit ''user'', cm_content =
        [91, 51060, 51204, 32, 45824, 54868, 93, 10] @ previous_turns history @ [10, 10] @ [91, 54788, 51116, 32, 49345, 54889, 93, 10] @ store_section store @ [10, 10] @ [91, 44288, 44228, 93, 10] @ facts_section (rx_facts r) @ [10, 10]
        @ [91, 44540, 44144, 93, 10] @ join [10, 10] (map evidence_entry (rx_evidence r)) @ [10, 10] @ [51656, 47928, 58, 32] @ question\<rparr>]"

section \<open>The citation filter\<close>

definition max_pending :: nat where "max_pending = 16"

text \<open>\<^verbatim>\<open>re.findall(r"\d+", s)\<close>\<close>

function number_runs :: "unicode \<Rightarrow> pystr \<Rightarrow> pystr list" where
  "number_runs uc [] = []"
| "number_runs uc (c # s) = (let digit = (\<lambda>c. uc_decimal uc c \<noteq> None) in
     if digit c then (c # takeWhile digit s) # number_runs uc (dropWhile digit s) else number_runs uc s)"
  by pat_completeness auto
termination
  by (relation "measure (length \<circ> snd)") (auto simp: le_imp_less_Suc length_dropWhile_le)

definition number_of :: "unicode \<Rightarrow> pystr \<Rightarrow> nat" where
  "number_of uc s = foldl (\<lambda>n c. 10 * n + the (uc_decimal uc c)) 0 s"

definition resolve_citation :: "unicode \<Rightarrow> nat set \<Rightarrow> pystr \<Rightarrow> pystr" where
  "resolve_citation uc valid candidate = (let numbers = number_runs uc candidate;
       kept = filter (\<lambda>n. number_of uc n \<in> valid) numbers in
     if numbers = [] then candidate
     else if length kept = length numbers then candidate
     else if kept \<noteq> [] then [91] @ join (lit '', '') kept @ [93] else [])"

definition cite_char :: "(nat \<Rightarrow> bool) \<Rightarrow> nat \<Rightarrow> bool" where
  "cite_char isdigit c \<longleftrightarrow> isdigit c \<or> c = 44 \<or> c = 32"

text \<open>One character: what is held back and what has been let through so far.\<close>

definition feed_char ::
  "unicode \<Rightarrow> (nat \<Rightarrow> bool) \<Rightarrow> nat set \<Rightarrow> pystr \<times> pystr \<Rightarrow> nat \<Rightarrow> pystr \<times> pystr" where
  "feed_char uc isdigit valid = (\<lambda>(pending, out) c.
     if pending \<noteq> [] then (let held = pending @ [c] in
       if c = 93 then ([], out @ resolve_citation uc valid held)
       else if c = 91 then ([c], out @ butlast held)
       else if \<not> cite_char isdigit c \<or> max_pending < length held then ([], out @ held)
       else (held, out))
     else if c = 91 then ([c], out) else ([], out @ [c]))"

definition feed ::
  "unicode \<Rightarrow> (nat \<Rightarrow> bool) \<Rightarrow> nat set \<Rightarrow> pystr \<Rightarrow> pystr \<Rightarrow> pystr \<times> pystr" where
  "feed uc isdigit valid pending s = foldl (feed_char uc isdigit valid) (pending, []) s"

section \<open>Events\<close>

datatype answer_event = SourcesEvent "answer_source list" | TokenEvent pystr | DoneEvent
  | ErrorEvent pystr "string option"

datatype stream_end = StreamDone | StreamFailed pystr | StreamUnsupported | StreamCrashed

type_synonym chat_stream = "chat_request \<Rightarrow> pystr list \<times> stream_end"

definition generate :: "adapter \<Rightarrow> chat_stream \<Rightarrow> chat_stream" where
  "generate a stream request = (case stream request of
     (pieces, StreamUnsupported) \<Rightarrow> (case ad_chat a request of
         Inr r \<Rightarrow> (pieces @ [cr_text r], StreamDone)
       | Inl e \<Rightarrow> (pieces, StreamFailed (provider_message e)))
   | outcome \<Rightarrow> outcome)"

fun token_events :: "unicode \<Rightarrow> (nat \<Rightarrow> bool) \<Rightarrow> nat set \<Rightarrow> pystr \<Rightarrow> pystr list \<Rightarrow> answer_event list" where
  "token_events uc isdigit valid pending [] = []"
| "token_events uc isdigit valid pending (p # ps) = (case feed uc isdigit valid pending p of (pending', s) \<Rightarrow>
     (if s = [] then [] else [TokenEvent s]) @ token_events uc isdigit valid pending' ps)"

text \<open>The events an answer yields and whether it then raises.\<close>

definition answer_events ::
  "unicode \<Rightarrow> (nat \<Rightarrow> bool) \<Rightarrow> adapter \<Rightarrow> chat_stream \<Rightarrow> pystr \<Rightarrow> pystr \<Rightarrow> (pystr \<times> pystr) list
    \<Rightarrow> retrieval_result \<Rightarrow> context_store_state option \<Rightarrow> answer_event list \<times> bool" where
  "answer_events uc isdigit a stream model question history r store =
     (if rx_evidence r = [] then ([ErrorEvent no_evidence_text (Some ''no_evidence'')], False)
      else let sources = SourcesEvent (map ed_source (rx_evidence r));
          request = \<lparr>cq_messages = build_messages question r store history, cq_model = model,
            cq_temperature = Some (1 / 5), cq_max_tokens = None, cq_provider_options = []\<rparr>
        in case generate a stream request of (pieces, outcome) \<Rightarrow>
          let tokens = token_events uc isdigit (as_index ` ed_source ` set (rx_evidence r)) [] pieces in
          case outcome of
            StreamDone \<Rightarrow> (sources # tokens @ [if tokens = [] then ErrorEvent empty_answer_text None else DoneEvent], False)
          | StreamFailed message \<Rightarrow> (sources # tokens @ [ErrorEvent message None], False)
          | _ \<Rightarrow> (sources # tokens, True))"

datatype stream_line = DataLine answer_event | DoneLine

definition internal_error_text :: pystr where
  "internal_error_text =
     [45813, 48320, 51012, 32, 47564, 46300, 45716, 32, 51473, 32, 47928, 51228, 44032, 32, 49373, 44220,
      49845, 45768, 45796, 46, 32, 51104, 49884, 32, 54980, 32, 45796, 49884, 32, 49884, 46020, 54644, 32,
      51452, 49464, 50836, 46]"

definition sse :: "answer_event list \<times> bool \<Rightarrow> stream_line list" where
  "sse = (\<lambda>(events, raised). map DataLine (events @ (if raised then [ErrorEvent internal_error_text None] else [])) @ [DoneLine])"

section \<open>The request\<close>

record ask_request =
  kq_question :: pystr
  kq_history :: "(pystr \<times> pystr) list"
  kq_credential_id :: "uuid option"

definition ask_input :: "pystr \<Rightarrow> (pystr \<times> pystr) list \<Rightarrow> uuid option \<Rightarrow> ask_request option" where
  "ask_input question history credential = (if length question \<le> 2000 \<and> \<not> blank question \<and> length history \<le> 6
       \<and> (\<forall>(q, a) \<in> set history. q \<noteq> [] \<and> length q \<le> 2000 \<and> a \<noteq> [] \<and> length a \<le> 4000)
     then Some \<lparr>kq_question = strip question, kq_history = history, kq_credential_id = credential\<rparr> else None)"

definition retrieval_query :: "ask_request \<Rightarrow> pystr" where
  "retrieval_query q = (if kq_history q \<noteq> [] \<and> length (kq_question q) < 80
     then kq_question q @ [32] @ fst (last (kq_history q)) else kq_question q)"

definition load_store :: "app_db \<Rightarrow> uuid \<Rightarrow> uuid \<Rightarrow> context_store_state option" where
  "load_store db ws owner = map_option state_from_record
     (find (\<lambda>r. sr_workspace_id r = ws \<and> sr_owner_id r = owner) (db_stores (ab_context db)))"

definition asked_event :: "uuid \<Rightarrow> auth_user \<Rightarrow> ask_request \<Rightarrow> resolved_provider \<Rightarrow> audit_event" where
  "asked_event ws user q p = user_event ws user ''ask.asked'' ''workspace'' ws
     [(lit ''questionLength'', JInt (int (length (kq_question q)))), (lit ''historyTurns'', JInt (int (length (kq_history q)))),
      (lit ''provider'', JStr (ad_id (rv_adapter p))), (lit ''model'', JStr (rv_model p)),
      (lit ''credentialScope'', JStr (lit (if rv_workspace_scope p then ''workspace'' else ''account''))),
      (lit ''credentialId'', JStr (uuid_str (rv_credential_id p))),
      (lit ''generationMethod'', JStr (lit ''service_model'')), (lit ''provenanceTrust'', JStr (lit ''verified_runtime''))] None"

record answer_env =
  aw_unicode :: unicode
  aw_isdigit :: "nat \<Rightarrow> bool"
  aw_sql :: sql_functions
  aw_cosine :: "py_float list \<Rightarrow> py_float list \<Rightarrow> py_float"
  aw_providers :: provider_env
  aw_stream :: "adapter \<Rightarrow> pystr \<Rightarrow> chat_stream"

definition answer_body ::
  "answer_env \<Rightarrow> graph_db option \<Rightarrow> stamp \<Rightarrow> auth_user \<Rightarrow> uuid \<Rightarrow> ask_request \<Rightarrow> access_grant \<Rightarrow> stream_line list body" where
  "answer_body env graph st user ws q access db = (let owner = wk_owner_id (wa_workspace access) in
     case provider_with_model (aw_providers env) db ws (us_id user) RoleAnswer (kq_credential_id q) of
       Inl _ \<Rightarrow> Inl unprocessable
     | Inr p \<Rightarrow> (case retrieve (aw_unicode env) (ask_retriever (aw_unicode env) (aw_sql env) (aw_cosine env) (aw_providers env)
             db (map_option stored_graph graph) ws owner (us_id user)) ws (retrieval_query q) (st_now st) of
         Inl (IndexError _) \<Rightarrow> Inl unprocessable
       | Inl (IndexPyError _) \<Rightarrow> Inl (http 500 ''Internal'')
       | Inr r \<Rightarrow> Inr (sse (answer_events (aw_unicode env) (aw_isdigit env) (rv_adapter p)
             (aw_stream env (rv_adapter p) (rv_api_key p)) (rv_model p) (kq_question q) (kq_history q) r
             (load_store db ws owner)), add_audit_event st (asked_event ws user q p) db)))"

definition ask ::
  "answer_env \<Rightarrow> graph_db option \<Rightarrow> stamp \<Rightarrow> auth_user \<Rightarrow> uuid \<Rightarrow> ask_request \<Rightarrow> stream_line list request" where
  "ask env graph st user ws q = with_access (aw_unicode env) st ws user Viewer (answer_body env graph st user ws q)"


section \<open>The filter as a function of the whole text\<close>

definition cite_body :: "(nat \<Rightarrow> bool) \<Rightarrow> pystr \<Rightarrow> pystr" where
  "cite_body isdigit s = takeWhile (cite_char isdigit) s"

text \<open>A short bracket of digits, commas and spaces is resolved when it is closed and dropped when the text ends in it;
  everything else is copied.\<close>

function cleaned :: "unicode \<Rightarrow> (nat \<Rightarrow> bool) \<Rightarrow> nat set \<Rightarrow> pystr \<Rightarrow> pystr" where
  "cleaned uc isdigit valid [] = []"
| "cleaned uc isdigit valid (c # s) = (let body = cite_body isdigit s; rest = drop (length body) s in
     if c \<noteq> 91 \<or> max_pending \<le> length body then c # cleaned uc isdigit valid s
     else (case rest of
         [] \<Rightarrow> []
       | d # rest' \<Rightarrow> if d = 93 then resolve_citation uc valid (c # body @ [d]) @ cleaned uc isdigit valid rest'
           else c # cleaned uc isdigit valid s))"
  by pat_completeness auto
termination
proof (relation "measure (\<lambda>(uc, isdigit, valid, s). length s)", goal_cases)
  case (3 uc isdigit valid c s body rest d rest')
  then have "length (d # rest') = length s - length (cite_body isdigit s)"
    by simp
  then show ?case
    by simp
qed auto

declare cleaned.simps(2) [simp del]

text \<open>What the proofs use of the character database: brackets and separators are not digits.\<close>

definition citation_chars :: "unicode \<Rightarrow> (nat \<Rightarrow> bool) \<Rightarrow> bool" where
  "citation_chars uc isdigit \<longleftrightarrow> \<not> isdigit 91 \<and> \<not> isdigit 93 \<and> (\<forall>c \<in> {91, 93, 44, 32}. uc_decimal uc c = None)"

lemma not_cite: "citation_chars uc isdigit \<Longrightarrow> \<not> cite_char isdigit 91 \<and> \<not> cite_char isdigit 93"
  by (simp add: cite_char_def citation_chars_def)

lemma clean_other: "c \<noteq> 91 \<Longrightarrow> cleaned uc isdigit valid (c # s) = c # cleaned uc isdigit valid s"
  by (simp add: cleaned.simps(2) Let_def)

lemma clean_copies: "91 \<notin> set b \<Longrightarrow> cleaned uc isdigit valid (b @ s) = b @ cleaned uc isdigit valid s"
  by (induction b) (simp_all add: clean_other)

lemma cite_no_bracket:
  "citation_chars uc isdigit \<Longrightarrow> list_all (cite_char isdigit) b \<Longrightarrow> 91 \<notin> set b \<and> 93 \<notin> set b"
  by (metis list_all_iff not_cite)

lemma body_exact: "list_all (cite_char isdigit) b \<Longrightarrow> \<not> cite_char isdigit d \<Longrightarrow> cite_body isdigit (b @ d # s) = b"
  by (simp add: cite_body_def takeWhile_append2 list_all_iff)

lemma clean_open:
  assumes "citation_chars uc isdigit" "list_all (cite_char isdigit) b" "length b < max_pending"
  shows "cleaned uc isdigit valid (91 # b) = []"
    and "cleaned uc isdigit valid (91 # b @ 93 # s) = resolve_citation uc valid (91 # b @ [93]) @ cleaned uc isdigit valid s"
    and "\<not> cite_char isdigit d \<Longrightarrow> d \<noteq> 93 \<Longrightarrow>
      cleaned uc isdigit valid (91 # b @ d # s) = 91 # b @ cleaned uc isdigit valid (d # s)"
proof -
  have body: "cite_body isdigit b = b"
    using assms(2) by (simp add: cite_body_def list_all_iff)
  then show "cleaned uc isdigit valid (91 # b) = []"
    using assms(3) by (simp add: cleaned.simps(2) Let_def)
  show "cleaned uc isdigit valid (91 # b @ 93 # s) = resolve_citation uc valid (91 # b @ [93]) @ cleaned uc isdigit valid s"
    using body_exact [OF assms(2), of 93 s] assms not_cite [OF assms(1)] by (simp add: cleaned.simps(2) Let_def)
  show "cleaned uc isdigit valid (91 # b @ d # s) = 91 # b @ cleaned uc isdigit valid (d # s)"
    if "\<not> cite_char isdigit d" "d \<noteq> 93"
    using body_exact [OF assms(2) that(1), of s] assms that cite_no_bracket [OF assms(1,2)]
    by (simp add: cleaned.simps(2) Let_def clean_copies)
qed

lemma clean_long:
  assumes "citation_chars uc isdigit" "list_all (cite_char isdigit) b" "length b = max_pending"
  shows "cleaned uc isdigit valid (91 # b @ s) = 91 # b @ cleaned uc isdigit valid s"
proof -
  have "max_pending \<le> length (cite_body isdigit (b @ s))"
    using assms by (simp add: cite_body_def takeWhile_append2 list_all_iff)
  then show ?thesis
    using cite_no_bracket [OF assms(1,2)] by (simp add: cleaned.simps(2) Let_def clean_copies)
qed

lemma feed_char_out: "feed_char uc isdigit valid (p, out) c
    = (fst (feed_char uc isdigit valid (p, []) c), out @ snd (feed_char uc isdigit valid (p, []) c))"
  by (simp add: feed_char_def Let_def)

lemma feed_out: "foldl (feed_char uc isdigit valid) (p, out) s
    = (fst (feed uc isdigit valid p s), out @ snd (feed uc isdigit valid p s))"
proof (induction s arbitrary: p out)
  case (Cons c s)
  obtain p' d where step: "feed_char uc isdigit valid (p, []) c = (p', d)"
    by fastforce
  then have "feed_char uc isdigit valid (p, out) c = (p', out @ d)"
    by (subst feed_char_out) simp
  then show ?case
    unfolding feed_def foldl_Cons step by (simp add: Cons.IH)
qed (simp add: feed_def)

lemma feed_Nil: "snd (feed uc isdigit valid p []) = []"
  by (simp add: feed_def)

lemma feed_Cons:
  assumes "feed_char uc isdigit valid (p, []) c = (p', d)"
  shows "feed uc isdigit valid p (c # s) = (fst (feed uc isdigit valid p' s), d @ snd (feed uc isdigit valid p' s))"
  by (subst feed_def) (simp add: assms feed_out)

lemma feed_plain: "c \<noteq> 91 \<Longrightarrow> feed_char uc isdigit valid ([], []) c = ([], [c])"
  and feed_open: "feed_char uc isdigit valid ([], []) 91 = ([91], [])"
  and feed_close: "feed_char uc isdigit valid (91 # b, []) 93 = ([], resolve_citation uc valid (91 # b @ [93]))"
  and feed_reopen: "feed_char uc isdigit valid (91 # b, []) 91 = ([91], 91 # b)"
  and feed_hold: "cite_char isdigit c \<Longrightarrow> c \<noteq> 91 \<Longrightarrow> c \<noteq> 93 \<Longrightarrow> Suc (length b) < max_pending \<Longrightarrow>
    feed_char uc isdigit valid (91 # b, []) c = (91 # b @ [c], [])"
  and feed_release: "\<not> cite_char isdigit c \<or> max_pending \<le> Suc (length b) \<Longrightarrow> c \<noteq> 91 \<Longrightarrow> c \<noteq> 93 \<Longrightarrow>
    feed_char uc isdigit valid (91 # b, []) c = ([], 91 # b @ [c])"
  by (auto simp: feed_char_def Let_def butlast_append)

lemma fed_text:
  assumes chars: "citation_chars uc isdigit"
  shows "snd (feed uc isdigit valid [] s) = cleaned uc isdigit valid s
    \<and> (\<forall>b. list_all (cite_char isdigit) b \<longrightarrow> length b < max_pending
         \<longrightarrow> snd (feed uc isdigit valid (91 # b) s) = cleaned uc isdigit valid (91 # b @ s))"
proof (induction s)
  case Nil
  then show ?case
    by (simp add: feed_Nil clean_open [OF chars])
next
  case (Cons c s)
  have plain: "snd (feed uc isdigit valid [] s) = cleaned uc isdigit valid s"
    using Cons by blast
  have opened: "snd (feed uc isdigit valid (91 # b) s) = cleaned uc isdigit valid (91 # b @ s)"
      if "list_all (cite_char isdigit) b" "length b < max_pending" for b
    using Cons that by blast
  have first: "snd (feed uc isdigit valid [91] s) = cleaned uc isdigit valid (91 # s)"
    using opened [of "[]"] by (simp add: max_pending_def)
  note feed_cite = feed_Cons [OF feed_close] feed_Cons [OF feed_reopen] feed_Cons [OF feed_hold] feed_Cons [OF feed_release, of isdigit c]
  have "snd (feed uc isdigit valid (91 # b) (c # s)) = cleaned uc isdigit valid (91 # b @ c # s)"
    if b: "list_all (cite_char isdigit) b" "length b < max_pending" for b
  proof -
    consider "c = 93" | "c = 91" | "cite_char isdigit c" "Suc (length b) < max_pending"
      | "cite_char isdigit c" "Suc (length b) = max_pending" | "\<not> cite_char isdigit c" "c \<noteq> 91" "c \<noteq> 93"
      using b(2) by fastforce
    then show ?thesis
    proof cases
      case 1
      then show ?thesis
        using feed_cite clean_open(2) [OF chars b] plain by simp
    next
      case 2
      then show ?thesis
        using feed_cite clean_open(3) [OF chars b, of 91] first not_cite [OF chars] by simp
    next
      case 3
      then have "c \<noteq> 91" "c \<noteq> 93"
        using not_cite [OF chars] by auto
      then show ?thesis
        using feed_cite opened [of "b @ [c]"] b 3 by simp
    next
      case 4
      then have "c \<noteq> 91" "c \<noteq> 93" "list_all (cite_char isdigit) (b @ [c])"
        using not_cite [OF chars] b by auto
      then show ?thesis
        using feed_cite clean_long [OF chars, of "b @ [c]" valid s] plain 4 by simp
    next
      case 5
      then show ?thesis
        using feed_cite clean_open(3) [OF chars b, of c] plain by (simp add: clean_other)
    qed
  qed
  moreover have "snd (feed uc isdigit valid [] (c # s)) = cleaned uc isdigit valid (c # s)"
    using feed_Cons [OF feed_open] feed_Cons [OF feed_plain] plain first by (cases "c = 91") (simp_all add: clean_other)
  ultimately show ?case
    by blast
qed

fun token_text :: "answer_event \<Rightarrow> pystr" where
  "token_text (TokenEvent s) = s"
| "token_text _ = []"

lemma feed_append: "feed uc isdigit valid p (s @ s')
    = (case feed uc isdigit valid p s of (p', d) \<Rightarrow> (fst (feed uc isdigit valid p' s'), d @ snd (feed uc isdigit valid p' s')))"
proof -
  obtain p' d where step: "foldl (feed_char uc isdigit valid) (p, []) s = (p', d)"
    by fastforce
  then have "feed uc isdigit valid p (s @ s') = foldl (feed_char uc isdigit valid) (p', d) s'"
    by (simp add: feed_def)
  also have "\<dots> = (fst (feed uc isdigit valid p' s'), d @ snd (feed uc isdigit valid p' s'))"
    by (rule feed_out)
  finally show ?thesis
    using step by (simp add: feed_def [of uc isdigit valid p s])
qed

lemma token_texts:
  "concat (map token_text (token_events uc isdigit valid p ps)) = snd (feed uc isdigit valid p (concat ps))"
proof (induction ps arbitrary: p)
  case (Cons s ps)
  then show ?case
    by (cases "feed uc isdigit valid p s") (simp add: feed_append)
qed (simp add: feed_Nil)

lemma token_events_are_tokens: "e \<in> set (token_events uc isdigit valid p ps) \<Longrightarrow> \<exists>s. e = TokenEvent s \<and> s \<noteq> []"
  by (induction ps arbitrary: p) (auto split: prod.splits if_splits)

section \<open>Citations of the cleaned text\<close>

text \<open>The numbers cited: those in a short bracket of the text.\<close>

definition cited :: "unicode \<Rightarrow> (nat \<Rightarrow> bool) \<Rightarrow> pystr \<Rightarrow> nat \<Rightarrow> bool" where
  "cited uc isdigit s n \<longleftrightarrow> (\<exists>before body after. s = before @ 91 # body @ 93 # after \<and> list_all (cite_char isdigit) body
     \<and> length body < max_pending \<and> n \<in> number_of uc ` set (number_runs uc body))"

text \<open>No bracket opens inside another one.\<close>

fun flat :: "bool \<Rightarrow> pystr \<Rightarrow> bool" where
  "flat opened [] = True"
| "flat opened (c # s) = (if c = 91 then \<not> opened \<and> flat True s else flat (opened \<and> c \<noteq> 93) s)"

lemma flat_closed: "flat opened s \<Longrightarrow> flat False s"
proof (induction s arbitrary: opened)
  case (Cons c s)
  then show ?case
    by (cases "c = 91") auto
qed simp

lemma flat_append: "91 \<notin> set b \<Longrightarrow> flat opened (b @ s) = flat (opened \<and> 93 \<notin> set b) s"
  by (induction b arbitrary: opened) (auto intro: arg_cong2 [where f = flat])

lemma number_runs_digits: "list_all (\<lambda>c. uc_decimal uc c \<noteq> None) k \<Longrightarrow> k \<noteq> [] \<Longrightarrow> uc_decimal uc d = None
    \<Longrightarrow> number_runs uc (k @ d # s) = k # number_runs uc s"
  by (cases k) (auto simp: Let_def takeWhile_append2 dropWhile_append2 list_all_iff)

lemma number_runs_members:
  "k \<in> set (number_runs uc s) \<Longrightarrow> k \<noteq> [] \<and> list_all (\<lambda>c. uc_decimal uc c \<noteq> None) k"
proof (induction uc s rule: number_runs.induct)
  case (2 uc c s)
  let ?digit = "\<lambda>c. uc_decimal uc c \<noteq> None"
  show ?case
  proof (cases "?digit c")
    case True
    then have "k = c # takeWhile ?digit s \<or> k \<in> set (number_runs uc (dropWhile ?digit s))"
      using 2(3) by (simp add: Let_def)
    moreover have "list_all ?digit (c # takeWhile ?digit s)"
      using True by (auto simp: list_all_iff dest: set_takeWhileD)
    ultimately show ?thesis
      using 2(1) [OF refl] True by blast
  next
    case False
    then show ?thesis
      using 2(2) [OF refl] 2(3) by (simp add: Let_def)
  qed
qed simp

lemma number_runs_join:
  assumes "citation_chars uc isdigit"
  shows "\<forall>k \<in> set ks. k \<noteq> [] \<and> list_all (\<lambda>c. uc_decimal uc c \<noteq> None) k \<Longrightarrow> number_runs uc (join (lit '', '') ks @ [93]) = ks"
proof (induction ks rule: induct_list012)
  case (3 x y ys)
  then show ?case
    using assms number_runs_digits [of uc x 44 "32 # join (lit '', '') (y # ys) @ [93]"]
    by (simp add: citation_chars_def lit_def)
qed (use assms number_runs_digits [of uc _ 93 "[]"] in \<open>auto simp: citation_chars_def\<close>)

lemma join_chars: "c \<in> set (join sep ks) \<Longrightarrow> c \<in> set sep \<or> (\<exists>k \<in> set ks. c \<in> set k)"
  by (induction sep ks rule: join.induct) auto

lemma number_runs_snoc: "uc_decimal uc d = None \<Longrightarrow> number_runs uc (s @ [d]) = number_runs uc s"
proof (induction uc s rule: number_runs.induct)
  case (2 uc c s)
  let ?digit = "\<lambda>c. uc_decimal uc c \<noteq> None"
  have "takeWhile ?digit (s @ [d]) = takeWhile ?digit s" "dropWhile ?digit (s @ [d]) = dropWhile ?digit s @ [d]"
    using 2(3) by (simp_all add: takeWhile_tail) (induction s; simp)
  then show ?case
    using 2(1) [OF refl _ 2(3)] 2(2) [OF refl _ 2(3)] by (simp add: Let_def)
qed simp

lemma cited_other: "c \<noteq> 91 \<Longrightarrow> cited uc isdigit (c # s) n = cited uc isdigit s n"
  unfolding cited_def by (auto simp: Cons_eq_append_conv)

lemma cited_copied: "91 \<notin> set b \<Longrightarrow> cited uc isdigit (b @ s) n = cited uc isdigit s n"
  by (induction b) (simp_all add: cited_other)

lemma cited_open:
  assumes "cited uc isdigit (91 # s) n"
  shows "cited uc isdigit s n \<or> (\<exists>body after. s = body @ 93 # after \<and> list_all (cite_char isdigit) body
     \<and> length body < max_pending \<and> n \<in> number_of uc ` set (number_runs uc body))"
  using assms unfolding cited_def by (auto simp: Cons_eq_append_conv)

lemma same_close: "b @ 93 # s = body @ 93 # after \<Longrightarrow> 93 \<notin> set b \<Longrightarrow> 93 \<notin> set body \<Longrightarrow> b = body"
  for b :: pystr
proof -
  have "takeWhile (\<lambda>c. c \<noteq> 93) (x @ 93 # y) = x" if "93 \<notin> set x" for x y :: pystr
    using that by (induction x) auto
  then show "b @ 93 # s = body @ 93 # after \<Longrightarrow> 93 \<notin> set b \<Longrightarrow> 93 \<notin> set body \<Longrightarrow> b = body"
    by metis
qed

lemma cited_bracket:
  assumes "citation_chars uc isdigit" "91 \<notin> set b" "93 \<notin> set b" "cited uc isdigit (91 # b @ 93 # s) n"
  shows "n \<in> number_of uc ` set (number_runs uc b) \<or> cited uc isdigit s n"
  using cited_open [OF assms(4)]
proof
  assume "cited uc isdigit (b @ 93 # s) n"
  then show ?thesis
    using assms(2) by (simp add: cited_copied cited_other)
next
  assume "\<exists>body after. b @ 93 # s = body @ 93 # after \<and> list_all (cite_char isdigit) body
     \<and> length body < max_pending \<and> n \<in> number_of uc ` set (number_runs uc body)"
  then show ?thesis
    using same_close assms(3) cite_no_bracket [OF assms(1)] by blast
qed

lemma resolve_shape:
  assumes chars: "citation_chars uc isdigit" and b: "list_all (cite_char isdigit) b"
  obtains "resolve_citation uc valid (91 # b @ [93]) = []"
  | b' where "resolve_citation uc valid (91 # b @ [93]) = 91 # b' @ [93]" "91 \<notin> set b'" "93 \<notin> set b'"
      "number_of uc ` set (number_runs uc b') \<subseteq> valid"
proof -
  have none: "uc_decimal uc 91 = None" "uc_decimal uc 93 = None"
    using chars by (simp_all add: citation_chars_def)
  have runs: "number_runs uc (91 # b @ [93]) = number_runs uc b"
    using none by (simp add: number_runs_snoc)
  let ?kept = "filter (\<lambda>n. number_of uc n \<in> valid) (number_runs uc b)"
  consider "resolve_citation uc valid (91 # b @ [93]) = []"
    | "resolve_citation uc valid (91 # b @ [93]) = 91 # b @ [93]" "number_of uc ` set (number_runs uc b) \<subseteq> valid"
    | "resolve_citation uc valid (91 # b @ [93]) = 91 # join (lit '', '') ?kept @ [93]"
  proof (cases "\<forall>k \<in> set (number_runs uc b). number_of uc k \<in> valid")
    case True
    then have "resolve_citation uc valid (91 # b @ [93]) = 91 # b @ [93]"
      unfolding resolve_citation_def runs Let_def by simp
    then show ?thesis
      using that(2) True by blast
  next
    case False
    then obtain k where "k \<in> set (number_runs uc b)" "number_of uc k \<notin> valid"
      by blast
    then have "length ?kept < length (number_runs uc b)" "number_runs uc b \<noteq> []"
      by (auto intro: length_filter_less)
    then show ?thesis
      using that(1,3) unfolding resolve_citation_def runs Let_def by (cases "?kept = []") simp_all
  qed
  then show thesis
  proof cases
    case 2
    then show thesis
      using that(2) cite_no_bracket [OF chars b] by blast
  next
    case 3
    have kept: "\<forall>k \<in> set ?kept. k \<noteq> [] \<and> list_all (\<lambda>c. uc_decimal uc c \<noteq> None) k"
      using number_runs_members [of _ uc b] by simp
    have "91 \<notin> set k \<and> 93 \<notin> set k" if "k \<in> set ?kept" for k
    proof -
      have "list_all (\<lambda>c. uc_decimal uc c \<noteq> None) k"
        using kept that by blast
      then show ?thesis
        using none by (auto simp: list_all_iff)
    qed
    then have "91 \<notin> set (join (lit '', '') ?kept)" "93 \<notin> set (join (lit '', '') ?kept)"
      using join_chars [of 91 "lit '', ''" ?kept] join_chars [of 93 "lit '', ''" ?kept] by (auto simp: lit_def)
    moreover have "number_runs uc (join (lit '', '') ?kept) = ?kept"
      using number_runs_join [OF chars kept] none by (simp add: number_runs_snoc)
    ultimately show thesis
      using that(2) [OF 3] by auto
  qed (use that(1) in blast)
qed

lemma flat_first:
  assumes "flat True s"
  obtains "91 \<notin> set s" "93 \<notin> set s" | p q where "s = p @ 93 # q" "91 \<notin> set p" "93 \<notin> set p"
proof (cases "93 \<in> set s")
  case True
  then obtain p q where s: "s = p @ 93 # q" "93 \<notin> set p"
    by (meson split_list_first)
  moreover have "91 \<notin> set p"
    using assms s by (induction p arbitrary: s) (auto split: if_splits)
  ultimately show thesis
    using that(2) by blast
next
  case False
  have "91 \<notin> set s"
    using assms False by (induction s) (auto split: if_splits)
  then show thesis
    using that(1) False by blast
qed

lemma clean_cites_valid:
  assumes "citation_chars uc isdigit"
  shows "flat False s \<Longrightarrow> cited uc isdigit (cleaned uc isdigit valid s) n \<Longrightarrow> n \<in> valid"
proof (induction "length s" arbitrary: s rule: less_induct)
  case less
  show ?case
  proof (cases s)
    case Nil
    then show ?thesis
      using less.prems(2) by (simp add: cited_def)
  next
    case (Cons c s')
    let ?body = "cite_body isdigit s'"
    have IH: "cited uc isdigit (cleaned uc isdigit valid s') n \<Longrightarrow> flat False s' \<Longrightarrow> n \<in> valid"
      using less.hyps [of s'] Cons by simp
    have body: "list_all (cite_char isdigit) ?body"
      by (simp add: cite_body_def list_all_iff) (meson set_takeWhileD)
    have s': "s' = ?body @ drop (length ?body) s'"
      by (metis append_take_drop_id cite_body_def takeWhile_eq_take)
    consider (other) "c \<noteq> 91" | (dropped) "c = 91" "cleaned uc isdigit valid s = []"
      | (closed) rest where "c = 91" "drop (length ?body) s' = 93 # rest" "length ?body < max_pending"
      | (kept) "c = 91" "cleaned uc isdigit valid s = 91 # cleaned uc isdigit valid s'"
          "max_pending \<le> length ?body \<or> (\<forall>rest. drop (length ?body) s' \<noteq> 93 # rest)"
    proof (cases "c = 91 \<and> length ?body < max_pending")
      case True
      then have run: "cleaned uc isdigit valid s = (case drop (length ?body) s' of [] \<Rightarrow> []
        | d # rest' \<Rightarrow> if d = 93 then resolve_citation uc valid (c # ?body @ [d]) @ cleaned uc isdigit valid rest'
            else c # cleaned uc isdigit valid s')"
        unfolding Cons by (auto simp: cleaned.simps(2) Let_def split: list.split)
      show ?thesis
      proof (cases "drop (length ?body) s'")
        case Nil
        then show ?thesis
          using dropped True run by simp
      next
        case (Cons d rest)
        then show ?thesis
          using closed kept True run by (cases "d = 93") simp_all
      qed
    next
      case False
      then show ?thesis
        using other kept unfolding Cons by (cases "c = 91") (simp_all add: cleaned.simps(2) Let_def)
    qed
    then show ?thesis
    proof cases
      case other
      then show ?thesis
        using less.prems IH Cons by (auto simp: clean_other cited_other)
    next
      case dropped
      then show ?thesis
        using less.prems(2) by (simp add: cited_def)
    next
      case (closed rest)
      have s: "s = 91 # ?body @ 93 # rest"
        using Cons closed(1,2) s' by simp
      have "length rest < length s" "flat False rest"
        using less.prems(1) cite_no_bracket [OF assms body] unfolding s by (simp_all add: flat_append)
      then have rest: "cited uc isdigit (cleaned uc isdigit valid rest) n \<Longrightarrow> n \<in> valid"
        using less.hyps by blast
      have out: "cleaned uc isdigit valid s = resolve_citation uc valid (91 # ?body @ [93]) @ cleaned uc isdigit valid rest"
        by (subst s) (rule clean_open(2) [OF assms body closed(3)])
      show ?thesis
      proof (cases rule: resolve_shape [OF assms body, of valid])
        case 1
        then show ?thesis
          using less.prems(2) rest out by simp
      next
        case (2 b')
        then show ?thesis
          using cited_bracket [OF assms 2(2,3), of "cleaned uc isdigit valid rest" n] less.prems(2) rest out by auto
      qed
    next
      case kept
      have flat: "flat True s'"
        using less.prems(1) Cons kept(1) by simp
      have "\<nexists>body after. cleaned uc isdigit valid s' = body @ 93 # after \<and> list_all (cite_char isdigit) body
        \<and> length body < max_pending"
      proof (cases rule: flat_first [OF flat])
        case 1
        then show ?thesis
          using clean_copies [of s' uc isdigit valid "[]"] by fastforce
      next
        case (2 p q)
        have "cleaned uc isdigit valid s' = p @ 93 # cleaned uc isdigit valid q"
          using 2 by (simp add: clean_copies clean_other)
        moreover have "\<not> (list_all (cite_char isdigit) p \<and> length p < max_pending)"
          using kept(3) body_exact [of isdigit p 93 q] not_cite [OF assms] 2(1) by auto
        ultimately show ?thesis
          using same_close [of p _ _] 2(3) cite_no_bracket [OF assms] by metis
      qed
      then show ?thesis
        using cited_open [of uc isdigit "cleaned uc isdigit valid s'" n] less.prems(2) IH flat_closed [OF flat] kept(2) by auto
    qed
  qed
qed

section \<open>Properties\<close>

text \<open>C31: the filter that runs on a streamed answer character by character, whatever pieces the provider sends it in,
  lets through what the function \<open>cleaned\<close> makes of the whole text: each closed bracket of fewer than 16 digits, commas
  and spaces is resolved, a last one left open is dropped, all other text is copied.\<close>
theorem streaming_is_cleaning:
  assumes "citation_chars uc isdigit"
  shows "concat (map token_text (token_events uc isdigit valid [] pieces)) = cleaned uc isdigit valid (concat pieces)"
  using fed_text [OF assms] by (simp add: token_texts)

text \<open>The digits of ASCII.\<close>

definition ascii_isdigit :: "nat \<Rightarrow> bool" where
  "ascii_isdigit c \<longleftrightarrow> 48 \<le> c \<and> c \<le> 57"

lemma ascii_citation_chars: "citation_chars ascii_unicode ascii_isdigit"
  by (simp add: citation_chars_def ascii_isdigit_def ascii_unicode_def ascii_decimal_def)

theorem streaming_is_cleaning_witness:
  "concat (map token_text (token_events ascii_unicode ascii_isdigit {1} [] [lit ''ok ['', lit ''1, '', lit ''9] [9'']))
     = cleaned ascii_unicode ascii_isdigit {1} (lit ''ok [1, 9] [9'')
   \<and> cleaned ascii_unicode ascii_isdigit {1} (lit ''ok [1, 9] [9'') = lit ''ok [1] ''"
proof
  show "cleaned ascii_unicode ascii_isdigit {1} (lit ''ok [1, 9] [9'') = lit ''ok [1] ''"
    by code_simp
  show "concat (map token_text (token_events ascii_unicode ascii_isdigit {1} [] [lit ''ok ['', lit ''1, '', lit ''9] [9'']))
     = cleaned ascii_unicode ascii_isdigit {1} (lit ''ok [1, 9] [9'')"
    using streaming_is_cleaning [OF ascii_citation_chars, of "{1}" "[lit ''ok ['', lit ''1, '', lit ''9] [9'']"]
    by (simp add: lit_def)
qed


definition sample_answer_source :: answer_source where
  "sample_answer_source = \<lparr>as_index = 1, as_source_id = 9, as_chunk_id = None, as_kind = DocumentKind,
     as_title = lit ''notes'', as_excerpt = lit ''agreed'', as_timestamp = None\<rparr>"

definition sample_retrieval :: retrieval_result where
  "sample_retrieval = \<lparr>rx_evidence = [\<lparr>ed_source = sample_answer_source, ed_text = lit ''agreed''\<rparr>], rx_facts = [], rx_entities = []\<rparr>"

lemma sample_tokens:
  "token_events ascii_unicode ascii_isdigit {1} [] [lit ''yes ['', lit ''1][2]''] = [TokenEvent (lit ''yes ''), TokenEvent (lit ''[1]'')]"
  by code_simp


section \<open>The answer to a member\<close>

definition sound_source :: "app_db \<Rightarrow> uuid \<Rightarrow> uuid \<Rightarrow> answer_source \<Rightarrow> bool" where
  "sound_source db ws owner x \<longleftrightarrow> (\<exists>s. approved db ws owner s \<and> so_id s = as_source_id x \<and> as_kind x = so_kind s
     \<and> as_title x = so_title s \<and> quotes db s (as_chunk_id x) (as_excerpt x))"

lemma sound_evidence_source: "sound_evidence db ws owner e \<Longrightarrow> sound_source db ws owner (ed_source e)"
  unfolding sound_evidence_def sound_source_def
  by (metis quotes_within contains_def prefix_imp_sublist)

lemma answer_sources:
  assumes "SourcesEvent xs \<in> set (fst (answer_events uc isdigit a stream model question history r store))"
  shows "xs = map ed_source (rx_evidence r)"
proof -
  obtain pieces outcome where g: "generate a stream \<lparr>cq_messages = build_messages question r store history, cq_model = model,
      cq_temperature = Some (1 / 5), cq_max_tokens = None, cq_provider_options = []\<rparr> = (pieces, outcome)"
    by fastforce
  have "SourcesEvent xs \<notin> set (token_events uc isdigit valid [] pieces)" for valid
    using token_events_are_tokens by blast
  then show ?thesis
    using assms g by (cases outcome) (auto simp: answer_events_def Let_def split: if_splits)
qed

lemma sse_sources: "DataLine (SourcesEvent xs) \<in> set (sse (events, raised)) \<Longrightarrow> SourcesEvent xs \<in> set events"
  by (auto simp: sse_def split: if_splits)


definition sample_tables :: app_db where
  "sample_tables = empty_db\<lparr>ab_workspaces := [\<lparr>wk_id = 1, wk_owner_id = 2, wk_name = [], wk_model_settings = [], wk_created_at = 0\<rparr>],
     ab_credentials := [example_credential 51 None], ab_sources := [sample_document]\<rparr>"

definition sample_answer_env :: answer_env where
  "sample_answer_env = \<lparr>aw_unicode = ascii_unicode, aw_isdigit = ascii_isdigit, aw_sql = no_functions,
     aw_cosine = (\<lambda>_ _. 0), aw_providers = example_env, aw_stream = (\<lambda>_ _ _. ([lit ''agreed [1]''], StreamDone))\<rparr>"

definition sample_ask :: ask_request where
  "sample_ask = \<lparr>kq_question = lit ''budget'', kq_history = [], kq_credential_id = None\<rparr>"

lemma sample_tables_provider:
  "\<exists>p. provider_with_model example_env sample_tables 1 2 RoleAnswer None = Inr p"
  by (simp add: provider_with_model_def selection_of_def candidate_credentials_def usable_credentials_def
      sample_tables_def empty_db_def example_credential_def credential_order_def in_workspace_def
      try_credential_def example_env_def resolve_credential_secret_def default_model_def
      example_settings_def Let_def lit_def)

lemma sample_tables_search:
  "search_lexically ascii_unicode no_functions sample_tables 1 2 (lit ''budget'') 8 None
   = [\<lparr>lx_source_id = 9, lx_chunk_id = None, lx_kind = DocumentKind, lx_title = lit ''notes'',
      lx_text = lit ''the budget was agreed'', lx_timestamp = None\<rparr>]"
  by code_simp

lemma sample_tables_embedding:
  "case embed_query example_env sample_tables 1 2 (lit ''budget'') of Inr v \<Rightarrow> True | Inl e \<Rightarrow> False"
  by code_simp

lemma sample_tables_retrieval:
  "\<exists>r. retrieve ascii_unicode (ask_retriever ascii_unicode no_functions (\<lambda>_ _. 0) example_env sample_tables None 1 2 2)
     1 (lit ''budget'') 77 = Inr r \<and> length (rx_evidence r) = 1"
proof -
  let ?h = "ask_retriever ascii_unicode no_functions (\<lambda>_ _. 0) example_env sample_tables None 1 2 2"
  obtain v where "embed_query example_env sample_tables 1 2 (lit ''budget'') = Inr v"
    using sample_tables_embedding by (auto split: sum.splits)
  then have vector: "question_vector ?h (lit ''budget'') = Inr (Some v)"
    by (simp add: question_vector_def ask_retriever_def)
  have "chunk_hits ?h (Some v) [] = []"
    by (simp add: chunk_hits_def ask_retriever_def search_by_embedding_def sample_tables_def empty_db_def)
  then have "gathered_evidence ?h (Some v) [] (lit ''budget'') = mixed_evidence 8 (vector_evidence (load_sources sample_tables 1 2)
      (take 8 (first_chunks []))) (search_lexically ascii_unicode no_functions sample_tables 1 2 (lit ''budget'') 8 None)"
    by (simp add: gathered_evidence_def) (simp add: ask_retriever_def)
  then have "length (numbered (gathered_evidence ?h (Some v) [] (lit ''budget''))) = 1"
    using arg_cong [OF sample_evidence_texts, of length] by (simp add: sample_tables_search)
  moreover have "graph_expansion ascii_unicode (hy_graph ?h) 1 (lit ''budget'') 77 = ([], [], [])"
    by (simp add: graph_expansion_def ask_retriever_def)
  ultimately show ?thesis
    by (simp add: retrieve_def vector)
qed

lemma sample_tables_access:
  "workspace_access ascii_unicode example_stamp 1 \<lparr>us_id = 2, us_email = None\<rparr> Viewer sample_tables
   = (Inr \<lparr>wa_workspace = \<lparr>wk_id = 1, wk_owner_id = 2, wk_name = [], wk_model_settings = [], wk_created_at = 0\<rparr>,
       wa_member = owner_member ascii_unicode example_stamp
         \<lparr>wk_id = 1, wk_owner_id = 2, wk_name = [], wk_model_settings = [], wk_created_at = 0\<rparr> \<lparr>us_id = 2, us_email = None\<rparr>\<rparr>, sample_tables)"
  by (simp add: workspace_access_def claim_pending_memberships_def grant_def sample_tables_def row_get_def)


section \<open>What the filter lets through\<close>

text \<open>A citation of missing evidence survives inside an outer bracket, and in a list of sixteen characters or more.\<close>

lemma nested_citation_survives:
  "cleaned ascii_unicode ascii_isdigit {1} (lit ''[[9]7]'') = lit ''[7]''"
  by code_simp

lemma long_citation_list_survives:
  "cleaned ascii_unicode ascii_isdigit {1, 2, 3, 4, 5} (lit ''[1, 2, 3, 4, 5, 9]'') = lit ''[1, 2, 3, 4, 5, 9]''"
  by code_simp

end
