(* ===== verification/Credentials.thy ===== *)
theory Credentials
  imports Indexing Access
begin

text \<open>
  The connections to model providers of a workspace and of an account
  (\<^verbatim>\<open>api/workspaces/credentials.py\<close>, \<^verbatim>\<open>core/credentials.py\<close>). A request runs on the tables and the vault, which
  commit together. The vault, the validation of a key with its provider and the normal form of a server
  address are arguments. The second access check of \<^verbatim>\<open>_owned_workspace\<close> repeats the first and is left out. The lemmas
  show which connections are the defaults, that secrets stay with their connection, and that a stored key never
  moves to another server.
\<close>

section \<open>The vault\<close>

record 'v vault_api =
  va_create :: "pystr \<Rightarrow> 'v \<Rightarrow> uuid \<times> 'v"
  va_update :: "uuid \<Rightarrow> pystr \<Rightarrow> 'v \<Rightarrow> 'v"
  va_delete :: "uuid \<Rightarrow> 'v \<Rightarrow> 'v"
  va_reveal :: "uuid \<Rightarrow> 'v \<Rightarrow> pystr option"

text \<open>What Supabase Vault promises of one secret and of all the others.\<close>

definition vault_laws :: "'v vault_api \<Rightarrow> bool" where
  "vault_laws va \<longleftrightarrow>
     (\<forall>s v j. va_reveal va j (snd (va_create va s v)) = (if j = fst (va_create va s v) then Some s else va_reveal va j v))
   \<and> (\<forall>i s v j. va_reveal va i v \<noteq> None \<longrightarrow>
        va_reveal va j (va_update va i s v) = (if j = i then Some s else va_reveal va j v))
   \<and> (\<forall>i v j. va_reveal va j (va_delete va i v) = (if j = i then None else va_reveal va j v))"

record 'v credential_env =
  ce_unicode :: unicode
  ce_vault :: "'v vault_api"
  ce_providers :: provider_env
  ce_normalize_url :: "pystr \<Rightarrow> pystr option"
  ce_validate :: "pystr \<Rightarrow> pystr \<Rightarrow> pystr option \<Rightarrow> bool \<times> string"

type_synonym ('v, 'a) vault_body = "app_db \<times> 'v \<Rightarrow> http_error + 'a \<times> app_db \<times> 'v"

type_synonym ('v, 'a) vault_request = "app_db \<times> 'v \<Rightarrow> (http_error + 'a) \<times> app_db \<times> 'v"

section \<open>Inputs\<close>

abbreviation ollama :: pystr where
  "ollama \<equiv> lit ''ollama''"

record credential_input =
  ci_provider :: pystr
  ci_api_key :: "pystr option"
  ci_base_url :: "pystr option"
  ci_label :: pystr

definition key_or_empty :: "pystr option \<Rightarrow> pystr" where
  "key_or_empty s = (case s of None \<Rightarrow> [] | Some t \<Rightarrow> t)"

definition credential_key :: "pystr \<Rightarrow> pystr option \<Rightarrow> http_error + pystr" where
  "credential_key provider v = (if provider = ollama then Inr (key_or_empty v)
     else (case truthy v of None \<Rightarrow> Inl (http 422 ''API key is required'') | Some k \<Rightarrow> Inr k))"

definition checked_base_url ::
  "(pystr \<Rightarrow> pystr option) \<Rightarrow> pystr \<Rightarrow> pystr option \<Rightarrow> pystr option \<Rightarrow> http_error + pystr option" where
  "checked_base_url normal provider v existing =
     (if provider \<noteq> ollama then (if v \<noteq> None then Inl (http 422 ''baseUrl is only for Ollama'') else Inr None)
      else (case v of
          None \<Rightarrow> (case existing of None \<Rightarrow> Inl (http 422 ''Ollama baseUrl is required'') | Some u \<Rightarrow> Inr (Some u))
        | Some u \<Rightarrow> (case normal u of None \<Rightarrow> Inl (http 422 ''Invalid Ollama baseUrl'') | Some n \<Rightarrow> Inr (Some n))))"

definition key_hint_of :: "pystr \<Rightarrow> pystr \<Rightarrow> pystr" where
  "key_hint_of provider key = (if provider = ollama then (if key \<noteq> [] then lit ''configured'' else lit ''none'')
     else drop (length key - 4) key)"

definition recent_auth_window :: instant where
  "recent_auth_window = 600000000"

definition recent_authentication :: "instant \<Rightarrow> instant option \<Rightarrow> http_error + unit" where
  "recent_authentication now signed_in = (case signed_in of
     None \<Rightarrow> Inl (http 403 ''Recent authentication required'')
   | Some t \<Rightarrow> guard (now - t \<le> recent_auth_window) (http 403 ''Recent authentication required''))"

definition endpoint_changed :: "credential_row \<Rightarrow> pystr option \<Rightarrow> bool" where
  "endpoint_changed c url \<longleftrightarrow> cd_provider c = ollama \<and> url \<noteq> cd_base_url c"

definition endpoint_guard ::
  "instant \<Rightarrow> instant option \<Rightarrow> credential_row \<Rightarrow> pystr option \<Rightarrow> pystr option \<Rightarrow> http_error + unit" where
  "endpoint_guard now signed_in c url key = (if endpoint_changed c url
     then rbind (recent_authentication now signed_in) (\<lambda>_.
       guard (truthy key \<noteq> None) (http 422 ''Changing an Ollama endpoint requires a new API key''))
     else Inr ())"

definition validated :: "'v credential_env \<Rightarrow> pystr \<Rightarrow> pystr \<Rightarrow> pystr option \<Rightarrow> http_error + unit" where
  "validated ce provider key url = (case ce_validate ce provider key (if provider = ollama then url else None) of
     (valid, message) \<Rightarrow> guard valid (http 422 message))"

definition validate_key :: "'v credential_env \<Rightarrow> credential_input \<Rightarrow> bool \<times> string" where
  "validate_key ce b = (case rbind (credential_key (ci_provider b) (ci_api_key b)) (\<lambda>key.
       rbind (checked_base_url (ce_normalize_url ce) (ci_provider b) (ci_base_url b) None) (\<lambda>url. Inr (key, url))) of
     Inl e \<Rightarrow> (False, he_detail e)
   | Inr (key, url) \<Rightarrow> ce_validate ce (ci_provider b) key (if ci_provider b = ollama then url else None))"

section \<open>Secrets\<close>

definition set_secret :: "'v vault_api \<Rightarrow> credential_row \<Rightarrow> pystr \<Rightarrow> 'v \<Rightarrow> credential_row \<times> 'v" where
  "set_secret va c key v = (case (if key \<noteq> [] then (case cd_vault_secret_id c of
         None \<Rightarrow> (case va_create va key v of (i, v') \<Rightarrow> (Some i, v'))
       | Some i \<Rightarrow> (Some i, va_update va i key v))
     else (case cd_vault_secret_id c of None \<Rightarrow> (None, v) | Some i \<Rightarrow> (None, va_delete va i v))) of
       (secret, v') \<Rightarrow> (c\<lparr>cd_vault_secret_id := secret, cd_encrypted_secret := None,
         cd_key_hint := key_hint_of (cd_provider c) key\<rparr>, v'))"

definition stored_secret :: "'v credential_env \<Rightarrow> 'v \<Rightarrow> credential_row \<Rightarrow> http_error + pystr" where
  "stored_secret ce v c = (case resolve_credential_secret
       ((ce_providers ce)\<lparr>pv_reveal := (\<lambda>i. va_reveal (ce_vault ce) i v)\<rparr>) c of
     None \<Rightarrow> Inl (http 500 ''CredentialUnavailableError'') | Some key \<Rightarrow> Inr key)"

section \<open>Scopes\<close>

text \<open>An account is the scope of its owner, a workspace that of its own connections.\<close>

definition in_credential_scope :: "uuid option \<Rightarrow> uuid \<Rightarrow> credential_row \<Rightarrow> bool" where
  "in_credential_scope ws user c \<longleftrightarrow> cd_workspace_id c = ws \<and> (ws = None \<longrightarrow> cd_owner_id c = user)"

definition workspace_credentials :: "uuid option \<Rightarrow> uuid \<Rightarrow> app_db \<Rightarrow> credential_row list" where
  "workspace_credentials ws user db = sort_key cd_created_at (filter (in_credential_scope ws user) (ab_credentials db))"

definition owned_credential :: "uuid option \<Rightarrow> uuid \<Rightarrow> uuid \<Rightarrow> app_db \<Rightarrow> http_error + credential_row" where
  "owned_credential ws i user db = (case row_get cd_id i (ab_credentials db) of
     Some c \<Rightarrow> if in_credential_scope ws user c then Inr c else Inl (http 404 ''Credential not found'')
   | None \<Rightarrow> Inl (http 404 ''Credential not found''))"

definition vault_respond :: "('v, 'a) vault_body \<Rightarrow> ('v, 'a) vault_request" where
  "vault_respond body t = (case body t of Inl e \<Rightarrow> (Inl e, t) | Inr (x, t') \<Rightarrow> (Inr x, t'))"

definition in_scope_of ::
  "'v credential_env \<Rightarrow> stamp \<Rightarrow> auth_user \<Rightarrow> member_role \<Rightarrow> uuid option \<Rightarrow> ('v, 'a) vault_body \<Rightarrow> ('v, 'a) vault_request" where
  "in_scope_of ce st user minimum scope body t = (case scope of
     None \<Rightarrow> vault_respond body t
   | Some ws \<Rightarrow> (case workspace_access (ce_unicode ce) st ws user minimum (fst t) of
       (Inl e, db1) \<Rightarrow> (Inl e, db1, snd t)
     | (Inr _, db1) \<Rightarrow> vault_respond body (db1, snd t)))"

definition credential_event :: "uuid \<Rightarrow> auth_user \<Rightarrow> string \<Rightarrow> credential_row \<Rightarrow> audit_event" where
  "credential_event ws user action c = user_event ws user action ''provider_credential'' (cd_id c)
     [(lit ''provider'', JStr (cd_provider c)), (lit ''label'', JStr (cd_label c))] None"

definition audited ::
  "stamp \<Rightarrow> uuid option \<Rightarrow> auth_user \<Rightarrow> string \<Rightarrow> credential_row \<Rightarrow> app_db \<Rightarrow> app_db" where
  "audited st scope user action c db = (case scope of None \<Rightarrow> db
   | Some ws \<Rightarrow> add_audit_event st (credential_event ws user action c) db)"

text \<open>The unique indexes and the check of the table.\<close>

definition scope_of :: "credential_row \<Rightarrow> uuid + uuid" where
  "scope_of c = (case cd_workspace_id c of None \<Rightarrow> Inl (cd_owner_id c) | Some w \<Rightarrow> Inr w)"

lemma scope_of_update [simp]:
  "scope_of (c\<lparr>cd_is_default := b\<rparr>) = scope_of c" "scope_of (c\<lparr>cd_base_url := u\<rparr>) = scope_of c"
  "scope_of (c\<lparr>cd_status := s\<rparr>) = scope_of c" "scope_of (c\<lparr>cd_updated_at := t\<rparr>) = scope_of c"
  by (auto simp: scope_of_def split: option.split)

definition credential_indexes :: "credential_row list \<Rightarrow> bool" where
  "credential_indexes cs \<longleftrightarrow> distinct (map (\<lambda>c. (scope_of c, cd_provider c, cd_label c)) cs)
     \<and> distinct (map scope_of (filter cd_is_default cs)) \<and> list_all credential_has_secret cs"

definition commit_credentials :: "'a \<Rightarrow> credential_row list \<Rightarrow> app_db \<Rightarrow> 'v \<Rightarrow> http_error + 'a \<times> app_db \<times> 'v" where
  "commit_credentials x cs db v = (if credential_indexes cs then Inr (x, db\<lparr>ab_credentials := cs\<rparr>, v)
     else Inl (http 500 ''IntegrityError''))"

section \<open>Requests\<close>

definition new_credential ::
  "stamp \<Rightarrow> uuid option \<Rightarrow> auth_user \<Rightarrow> credential_input \<Rightarrow> pystr \<Rightarrow> pystr option \<Rightarrow> bool \<Rightarrow> credential_row" where
  "new_credential st scope user b key url is_default = \<lparr>cd_id = st_fresh st 0, cd_workspace_id = scope,
     cd_owner_id = us_id user, cd_provider = ci_provider b, cd_label = ci_label b, cd_vault_secret_id = None,
     cd_base_url = url, cd_encrypted_secret = None, cd_key_hint = key_hint_of (ci_provider b) key,
     cd_status = lit ''active'', cd_is_default = is_default, cd_created_at = st_now st, cd_updated_at = st_now st\<rparr>"

definition with_secret :: "'v vault_api \<Rightarrow> credential_row \<Rightarrow> pystr \<Rightarrow> 'v \<Rightarrow> credential_row \<times> 'v" where
  "with_secret va c key v = (if key \<noteq> [] then set_secret va c key v else (c, v))"

definition add_body ::
  "'v credential_env \<Rightarrow> stamp \<Rightarrow> auth_user \<Rightarrow> uuid option \<Rightarrow> credential_input \<Rightarrow> ('v, credential_row) vault_body" where
  "add_body ce st user scope b = (\<lambda>(db, v).
     rbind (credential_key (ci_provider b) (ci_api_key b)) (\<lambda>key.
     rbind (checked_base_url (ce_normalize_url ce) (ci_provider b) (ci_base_url b) None) (\<lambda>url.
     rbind (validated ce (ci_provider b) key url) (\<lambda>_.
     let cs = workspace_credentials scope (us_id user) db in
     rbind (guard (\<not> (\<exists>c \<in> set cs. cd_provider c = ci_provider b \<and> cd_label c = ci_label b))
       (http 409 ''Credential label already exists'')) (\<lambda>_.
     case with_secret (ce_vault ce) (new_credential st scope user b key url (\<not> (\<exists>c \<in> set cs. cd_is_default c))) key v of
       (c, v') \<Rightarrow> commit_credentials c (row_add c (ab_credentials db))
         (audited st scope user ''credential.created'' c db) v')))))"

definition add_credential ::
  "'v credential_env \<Rightarrow> stamp \<Rightarrow> auth_user \<Rightarrow> uuid option \<Rightarrow> credential_input \<Rightarrow> ('v, credential_row) vault_request" where
  "add_credential ce st user scope b = in_scope_of ce st user Admin scope (add_body ce st user scope b)"

text \<open>A rotation says whether a key was sent, and which; \<open>Some None\<close> is an explicit null.\<close>

definition sent_key :: "pystr option option \<Rightarrow> pystr option" where
  "sent_key sent = (case sent of None \<Rightarrow> None | Some k \<Rightarrow> k)"

definition rotate_body ::
  "'v credential_env \<Rightarrow> stamp \<Rightarrow> auth_user \<Rightarrow> instant option \<Rightarrow> uuid option \<Rightarrow> uuid \<Rightarrow> pystr option option \<Rightarrow> pystr option
    \<Rightarrow> ('v, credential_row) vault_body" where
  "rotate_body ce st user signed_in scope i sent url = (\<lambda>(db, v).
     rbind (owned_credential scope i (us_id user) db) (\<lambda>c.
     rbind (if url \<noteq> None then checked_base_url (ce_normalize_url ce) (cd_provider c) url (cd_base_url c)
       else Inr (cd_base_url c)) (\<lambda>base.
     rbind (endpoint_guard (st_now st) signed_in c base (sent_key sent)) (\<lambda>_.
     rbind (if cd_provider c = ollama \<and> sent = None then stored_secret ce v c
       else credential_key (cd_provider c) (sent_key sent)) (\<lambda>key.
     rbind (validated ce (cd_provider c) key base) (\<lambda>_.
     case (if cd_provider c \<noteq> ollama \<or> sent \<noteq> None then set_secret (ce_vault ce) c key v else (c, v)) of
       (c', v') \<Rightarrow> let new = c'\<lparr>cd_base_url := base, cd_status := lit ''active'', cd_updated_at := st_now st\<rparr> in
         commit_credentials new (row_upd cd_id i (\<lambda>_. new) (ab_credentials db))
           (audited st scope user ''credential.rotated'' new db) v'))))))"

definition rotate_credential ::
  "'v credential_env \<Rightarrow> stamp \<Rightarrow> auth_user \<Rightarrow> instant option \<Rightarrow> uuid option \<Rightarrow> uuid \<Rightarrow> pystr option option \<Rightarrow> pystr option
    \<Rightarrow> ('v, credential_row) vault_request" where
  "rotate_credential ce st user signed_in scope i sent url =
     in_scope_of ce st user Admin scope (rotate_body ce st user signed_in scope i sent url)"

definition choose_default_body ::
  "stamp \<Rightarrow> auth_user \<Rightarrow> uuid option \<Rightarrow> uuid \<Rightarrow> ('v, credential_row) vault_body" where
  "choose_default_body st user scope i = (\<lambda>(db, v).
     rbind (owned_credential scope i (us_id user) db) (\<lambda>c.
     rbind (guard (cd_status c = lit ''active'') (http 409 ''Credential is not active'')) (\<lambda>_.
     let new = c\<lparr>cd_is_default := True, cd_updated_at := st_now st\<rparr> in
     commit_credentials new (map (\<lambda>x. if cd_id x = i then new
         else if in_credential_scope scope (us_id user) x then x\<lparr>cd_is_default := False\<rparr> else x) (ab_credentials db))
       (audited st scope user ''credential.default_changed'' new db) v)))"

definition choose_default_credential ::
  "'v credential_env \<Rightarrow> stamp \<Rightarrow> auth_user \<Rightarrow> uuid option \<Rightarrow> uuid \<Rightarrow> ('v, credential_row) vault_request" where
  "choose_default_credential ce st user scope i = in_scope_of ce st user Admin scope (choose_default_body st user scope i)"

definition selections_in :: "uuid option \<Rightarrow> uuid \<Rightarrow> app_db \<Rightarrow> json list" where
  "selections_in scope user db = concat (map (\<lambda>w. filter (\<lambda>x. case x of JObj _ \<Rightarrow> True | _ \<Rightarrow> False) (map snd (wk_model_settings w)))
     (case scope of None \<Rightarrow> filter (\<lambda>w. wk_owner_id w = user) (ab_workspaces db)
      | Some ws \<Rightarrow> (case row_get wk_id ws (ab_workspaces db) of Some w \<Rightarrow> [w] | None \<Rightarrow> [])))"

definition remove_body :: "'v credential_env \<Rightarrow> stamp \<Rightarrow> auth_user \<Rightarrow> uuid option \<Rightarrow> uuid \<Rightarrow> ('v, unit) vault_body" where
  "remove_body ce st user scope i = (\<lambda>(db, v).
     rbind (owned_credential scope i (us_id user) db) (\<lambda>c.
     let cs = workspace_credentials scope (us_id user) db; chosen = selections_in scope (us_id user) db in
     rbind (guard (\<not> (cd_is_default c \<and> 1 < length cs)) (http 409 ''Choose another default before deletion'')) (\<lambda>_.
     rbind (guard (\<not> (\<exists>x \<in> set chosen. jfield x (lit ''credentialId'') = Some (JStr (uuid_str i))))
       (http 409 ''This credential is selected by a workspace model'')) (\<lambda>_.
     rbind (guard (\<not> ((\<exists>x \<in> set chosen. jfield x (lit ''provider'') = Some (JStr (cd_provider c)))
         \<and> \<not> (\<exists>x \<in> set cs. cd_id x \<noteq> i \<and> cd_provider x = cd_provider c \<and> cd_status x = lit ''active'')))
       (http 409 ''This is the last active credential for a selected model provider'')) (\<lambda>_.
     commit_credentials () (row_del cd_id i (ab_credentials db)) (audited st scope user ''credential.deleted'' c db)
       (case cd_vault_secret_id c of None \<Rightarrow> v | Some s \<Rightarrow> va_delete (ce_vault ce) s v))))))"

definition remove_credential ::
  "'v credential_env \<Rightarrow> stamp \<Rightarrow> auth_user \<Rightarrow> uuid option \<Rightarrow> uuid \<Rightarrow> ('v, unit) vault_request" where
  "remove_credential ce st user scope i = in_scope_of ce st user Admin scope (remove_body ce st user scope i)"

definition upsert_key ::
  "'v credential_env \<Rightarrow> 'v \<Rightarrow> credential_row option \<Rightarrow> credential_input \<Rightarrow> http_error + pystr" where
  "upsert_key ce v found b = (case found of
     Some c \<Rightarrow> if ci_provider b = ollama \<and> ci_api_key b = None then stored_secret ce v c
       else credential_key (ci_provider b) (ci_api_key b)
   | None \<Rightarrow> credential_key (ci_provider b) (ci_api_key b))"

definition upsert_url ::
  "(pystr \<Rightarrow> pystr option) \<Rightarrow> credential_row option \<Rightarrow> credential_input \<Rightarrow> http_error + pystr option" where
  "upsert_url normal found b = (case found of
     Some c \<Rightarrow> if ci_base_url b \<noteq> None \<or> ci_provider b \<noteq> ollama
       then checked_base_url normal (ci_provider b) (ci_base_url b) (cd_base_url c) else Inr (cd_base_url c)
   | None \<Rightarrow> checked_base_url normal (ci_provider b) (ci_base_url b) None)"

definition upsert_row ::
  "'v credential_env \<Rightarrow> stamp \<Rightarrow> auth_user \<Rightarrow> uuid \<Rightarrow> credential_row option \<Rightarrow> credential_input \<Rightarrow> pystr \<Rightarrow> pystr option
    \<Rightarrow> 'v \<Rightarrow> credential_row \<times> 'v" where
  "upsert_row ce st user ws found b key url v = (case found of
     None \<Rightarrow> with_secret (ce_vault ce) (new_credential st (Some ws) user b key url True) key v
   | Some c \<Rightarrow> (case (if ci_provider b \<noteq> ollama \<or> ci_api_key b \<noteq> None then set_secret (ce_vault ce) c key v else (c, v)) of
       (c', v') \<Rightarrow> (c'\<lparr>cd_base_url := url, cd_status := lit ''active'', cd_is_default := True, cd_updated_at := st_now st\<rparr>, v')))"

definition upsert_body ::
  "'v credential_env \<Rightarrow> stamp \<Rightarrow> auth_user \<Rightarrow> instant option \<Rightarrow> uuid \<Rightarrow> credential_input \<Rightarrow> ('v, credential_row) vault_body" where
  "upsert_body ce st user signed_in ws b = (\<lambda>(db, v).
     let found = find (\<lambda>c. cd_workspace_id c = Some ws \<and> cd_provider c = ci_provider b \<and> cd_label c = ci_label b) (ab_credentials db) in
     rbind (upsert_url (ce_normalize_url ce) found b) (\<lambda>url.
     rbind (case found of None \<Rightarrow> Inr () | Some c \<Rightarrow> endpoint_guard (st_now st) signed_in c url (ci_api_key b)) (\<lambda>_.
     rbind (upsert_key ce v found b) (\<lambda>key.
     rbind (validated ce (ci_provider b) key url) (\<lambda>_.
     case upsert_row ce st user ws found b key url v of (new, v') \<Rightarrow>
       let cleared = map (\<lambda>x. if cd_workspace_id x = Some ws then x\<lparr>cd_is_default := False\<rparr> else x) (ab_credentials db) in
       commit_credentials new (if found = None then row_add new cleared else row_upd cd_id (cd_id new) (\<lambda>_. new) cleared) db v')))))"

definition upsert_default_credential ::
  "'v credential_env \<Rightarrow> stamp \<Rightarrow> auth_user \<Rightarrow> instant option \<Rightarrow> uuid \<Rightarrow> credential_input \<Rightarrow> ('v, credential_row) vault_request" where
  "upsert_default_credential ce st user signed_in ws b =
     in_scope_of ce st user Admin (Some ws) (upsert_body ce st user signed_in ws b)"

definition list_credentials :: "'v credential_env \<Rightarrow> stamp \<Rightarrow> auth_user \<Rightarrow> uuid option \<Rightarrow> ('v, credential_row list) vault_request" where
  "list_credentials ce st user scope = in_scope_of ce st user Viewer scope
     (\<lambda>(db, v). Inr (workspace_credentials scope (us_id user) db, db, v))"

definition get_default_credential ::
  "'v credential_env \<Rightarrow> stamp \<Rightarrow> auth_user \<Rightarrow> uuid \<Rightarrow> ('v, credential_row option) vault_request" where
  "get_default_credential ce st user ws = in_scope_of ce st user Viewer (Some ws) (\<lambda>(db, v).
     Inr (case find (\<lambda>c. cd_workspace_id c = Some ws \<and> cd_is_default c) (ab_credentials db) of
         Some c \<Rightarrow> Some c
       | None \<Rightarrow> find (\<lambda>c. cd_workspace_id c = None \<and> cd_owner_id c = us_id user \<and> cd_is_default c) (ab_credentials db), db, v))"

section \<open>One step\<close>

datatype credential_request =
    AddCredential "uuid option" credential_input
  | RotateCredential "uuid option" uuid "pystr option option" "pystr option"
  | ChooseDefault "uuid option" uuid
  | RemoveCredential "uuid option" uuid
  | UpsertDefault uuid credential_input

fun run_request ::
  "'v credential_env \<Rightarrow> stamp \<Rightarrow> auth_user \<Rightarrow> instant option \<Rightarrow> credential_request \<Rightarrow> app_db \<times> 'v \<Rightarrow> app_db \<times> 'v" where
  "run_request ce st user signed_in (AddCredential scope b) t = snd (add_credential ce st user scope b t)"
| "run_request ce st user signed_in (RotateCredential scope i sent url) t = snd (rotate_credential ce st user signed_in scope i sent url t)"
| "run_request ce st user signed_in (ChooseDefault scope i) t = snd (choose_default_credential ce st user scope i t)"
| "run_request ce st user signed_in (RemoveCredential scope i) t = snd (remove_credential ce st user scope i t)"
| "run_request ce st user signed_in (UpsertDefault ws b) t = snd (upsert_default_credential ce st user signed_in ws b t)"

lemma access_keeps_credentials:
  "workspace_access uc st ws user minimum db = (r, db1) \<Longrightarrow> ab_credentials db1 = ab_credentials db"
  by (auto simp: workspace_access_def claim_pending_memberships_def Let_def split: option.splits sum.splits if_splits)

lemma scoped_step:
  assumes "snd (in_scope_of ce st user minimum scope body (db, v)) = (db1, v1)"
  obtains "ab_credentials db1 = ab_credentials db" "v1 = v"
  | db0 x where "ab_credentials db0 = ab_credentials db" "body (db0, v) = Inr (x, db1, v1)"
proof (cases scope)
  case None
  then show thesis
    using assms that by (cases "body (db, v)") (auto simp: in_scope_of_def vault_respond_def)
next
  case (Some ws)
  obtain r db0 where access: "workspace_access (ce_unicode ce) st ws user minimum db = (r, db0)"
    by fastforce
  show thesis
    using assms that access_keeps_credentials [OF access] access Some
    by (cases r; cases "body (db0, v)") (auto simp: in_scope_of_def vault_respond_def)
qed

section \<open>References to secrets\<close>

definition secret_refs :: "credential_row list \<Rightarrow> (uuid \<times> uuid) set" where
  "secret_refs cs = {(cd_id c, s) | c s. c \<in> set cs \<and> cd_vault_secret_id c = Some s}"

text \<open>Every reference finds a secret, and no two connections share one.\<close>

definition secrets_ok :: "'v vault_api \<Rightarrow> 'v \<Rightarrow> (uuid \<times> uuid) set \<Rightarrow> bool" where
  "secrets_ok va v R \<longleftrightarrow> (\<forall>(i, s) \<in> R. \<exists>k. va_reveal va s v = Some k \<and> k \<noteq> [])
     \<and> (\<forall>(i, s) \<in> R. \<forall>(j, t) \<in> R. s = t \<longrightarrow> i = j)"

definition own_refs :: "credential_row \<Rightarrow> (uuid \<times> uuid) set" where
  "own_refs c = (case cd_vault_secret_id c of None \<Rightarrow> {} | Some s \<Rightarrow> {(cd_id c, s)})"

lemma refs_upd:
  assumes "row_get cd_id i cs = Some c" "cd_id new = i"
  shows "secret_refs (row_upd cd_id i (\<lambda>_. new) cs) = {p \<in> secret_refs cs. fst p \<noteq> i} \<union> own_refs new"
proof -
  have "c \<in> set cs" "cd_id c = i"
    using row_get_Some [OF assms(1)] by auto
  then show ?thesis
    using assms(2) by (auto simp: secret_refs_def own_refs_def set_row_upd image_iff split: option.splits if_splits)
      (rule exI [of _ new]; auto)
qed

lemma refs_add: "secret_refs (row_add c cs) = secret_refs cs \<union> own_refs c"
  by (auto simp: secret_refs_def own_refs_def row_add_def split: option.splits)

lemma refs_del: "secret_refs (row_del cd_id i cs) = {p \<in> secret_refs cs. fst p \<noteq> i}"
  by (auto simp: secret_refs_def row_del_def)

lemma refs_cong:
  assumes "map (\<lambda>c. (cd_id c, cd_vault_secret_id c)) cs = map (\<lambda>c. (cd_id c, cd_vault_secret_id c)) cs'"
  shows "secret_refs cs = secret_refs cs'"
proof -
  have refs: "secret_refs xs = {(i, s). (i, Some s) \<in> set (map (\<lambda>c. (cd_id c, cd_vault_secret_id c)) xs)}" for xs
    by (auto simp: secret_refs_def image_iff)
  show ?thesis
    by (simp only: refs assms)
qed

lemma secrets_ok_subset: "secrets_ok va v R \<Longrightarrow> S \<subseteq> R \<Longrightarrow> secrets_ok va v S"
  unfolding secrets_ok_def by blast

text \<open>The identifier the vault would give a new secret is not in use.\<close>

definition vault_fresh :: "'v vault_api \<Rightarrow> 'v \<Rightarrow> bool" where
  "vault_fresh va v \<longleftrightarrow> (\<forall>s. va_reveal va (fst (va_create va s v)) v = None)"

lemma set_secret_ok:
  assumes laws: "vault_laws va" and fresh: "vault_fresh va v" and ok: "secrets_ok va v R" and own: "own_refs c \<subseteq> R"
    and R: "\<forall>(i, s) \<in> R. i = cd_id c \<longrightarrow> cd_vault_secret_id c = Some s"
    and run: "set_secret va c key v = (c', v')"
  shows "secrets_ok va v' ({p \<in> R. fst p \<noteq> cd_id c} \<union> own_refs c')"
    and "\<forall>(i, s) \<in> R. i \<noteq> cd_id c \<longrightarrow> va_reveal va s v' = va_reveal va s v"
    and "key \<noteq> [] \<Longrightarrow> \<exists>s. cd_vault_secret_id c' = Some s \<and> va_reveal va s v' = Some key"
    and "c' = c\<lparr>cd_vault_secret_id := cd_vault_secret_id c', cd_encrypted_secret := None,
      cd_key_hint := key_hint_of (cd_provider c) key\<rparr>"
proof -
  obtain s1 where c': "c' = c\<lparr>cd_vault_secret_id := s1, cd_encrypted_secret := None, cd_key_hint := key_hint_of (cd_provider c) key\<rparr>"
    and effect: "(if key \<noteq> [] then (case cd_vault_secret_id c of
         None \<Rightarrow> (case va_create va key v of (i, v') \<Rightarrow> (Some i, v'))
       | Some i \<Rightarrow> (Some i, va_update va i key v))
     else (case cd_vault_secret_id c of None \<Rightarrow> (None, v) | Some i \<Rightarrow> (None, va_delete va i v))) = (s1, v')"
    using run by (auto simp: set_secret_def split: prod.splits)
  show "c' = c\<lparr>cd_vault_secret_id := cd_vault_secret_id c', cd_encrypted_secret := None,
      cd_key_hint := key_hint_of (cd_provider c) key\<rparr>"
    by (simp add: c')
  consider (create) i where "key \<noteq> []" "cd_vault_secret_id c = None" "s1 = Some i" "va_create va key v = (i, v')"
    | (update) i where "key \<noteq> []" "cd_vault_secret_id c = Some i" "s1 = Some i" "v' = va_update va i key v"
    | (gone) "key = []" "cd_vault_secret_id c = None" "s1 = None" "v' = v"
    | (delete) i where "key = []" "cd_vault_secret_id c = Some i" "s1 = None" "v' = va_delete va i v"
    using effect by (auto split: if_splits option.splits prod.splits)
  then have "secrets_ok va v' ({p \<in> R. fst p \<noteq> cd_id c} \<union> own_refs c')
    \<and> (\<forall>(i, s) \<in> R. i \<noteq> cd_id c \<longrightarrow> va_reveal va s v' = va_reveal va s v)
    \<and> (key \<noteq> [] \<longrightarrow> (\<exists>s. cd_vault_secret_id c' = Some s \<and> va_reveal va s v' = Some key))"
  proof cases
    case (create i)
    have new: "va_reveal va i v = None" "\<And>j. va_reveal va j v' = (if j = i then Some key else va_reveal va j v)"
      using fresh laws create(4) unfolding vault_fresh_def vault_laws_def by (metis fst_conv, metis fst_conv snd_conv)
    then show ?thesis
      using ok create unfolding secrets_ok_def c' own_refs_def by fastforce
  next
    case (update i)
    then have mine: "(cd_id c, i) \<in> R"
      using own by (simp add: own_refs_def)
    then have new: "\<And>j. va_reveal va j v' = (if j = i then Some key else va_reveal va j v)"
      using laws ok update(4) unfolding vault_laws_def secrets_ok_def by fastforce
    have "s \<noteq> i" if "(j, s) \<in> R" "j \<noteq> cd_id c" for j s
      using ok mine that unfolding secrets_ok_def by blast
    then show ?thesis
      using ok update new unfolding secrets_ok_def c' own_refs_def by fastforce
  next
    case gone
    then show ?thesis
      using ok unfolding secrets_ok_def c' own_refs_def by fastforce
  next
    case (delete i)
    then have mine: "(cd_id c, i) \<in> R"
      using own by (simp add: own_refs_def)
    have new: "\<And>j. va_reveal va j v' = (if j = i then None else va_reveal va j v)"
      using laws delete(4) unfolding vault_laws_def by simp
    have "s \<noteq> i" if "(j, s) \<in> R" "j \<noteq> cd_id c" for j s
      using ok mine that unfolding secrets_ok_def by blast
    then show ?thesis
      using ok delete new unfolding secrets_ok_def c' own_refs_def by fastforce
  qed
  then show "secrets_ok va v' ({p \<in> R. fst p \<noteq> cd_id c} \<union> own_refs c')"
    and "\<forall>(i, s) \<in> R. i \<noteq> cd_id c \<longrightarrow> va_reveal va s v' = va_reveal va s v"
    and "key \<noteq> [] \<Longrightarrow> \<exists>s. cd_vault_secret_id c' = Some s \<and> va_reveal va s v' = Some key"
    by blast+
qed

section \<open>Defaults\<close>

definition scope_key :: "uuid option \<Rightarrow> uuid \<Rightarrow> uuid + uuid" where
  "scope_key scope user = (case scope of None \<Rightarrow> Inl user | Some w \<Rightarrow> Inr w)"

lemma in_scope_iff: "in_credential_scope scope user c \<longleftrightarrow> scope_of c = scope_key scope user"
  by (auto simp: in_credential_scope_def scope_of_def scope_key_def split: option.splits)

definition has_default :: "credential_row list \<Rightarrow> bool" where
  "has_default cs \<longleftrightarrow> (\<forall>c \<in> set cs. \<exists>d \<in> set cs. scope_of d = scope_of c \<and> cd_is_default d)"

lemma set_workspace_credentials:
  "set (workspace_credentials scope user db) = {c \<in> set (ab_credentials db). scope_of c = scope_key scope user}"
  by (auto simp: workspace_credentials_def in_scope_iff)

lemma has_default_add:
  "has_default cs \<Longrightarrow> cd_is_default c \<or> (\<exists>d \<in> set cs. scope_of d = scope_of c \<and> cd_is_default d) \<Longrightarrow> has_default (row_add c cs)"
  unfolding has_default_def row_add_def by fastforce

lemma same_row:
  assumes "row_get cd_id i cs = Some c" "keys_unique cd_id cs" "x \<in> set cs"
  shows "cd_id x = i \<longleftrightarrow> x = c"
  using row_get_unique [OF assms(2,3)] row_get_Some [OF assms(1)] assms(1) by (metis option.inject)

lemma has_default_del:
  assumes "has_default cs" "row_get cd_id i cs = Some c" "keys_unique cd_id cs"
    and "\<not> cd_is_default c \<or> (\<forall>x \<in> set cs. scope_of x = scope_of c \<longrightarrow> x = c)"
  shows "has_default (row_del cd_id i cs)"
  unfolding has_default_def
proof
  fix x
  assume "x \<in> set (row_del cd_id i cs)"
  then have x: "x \<in> set cs" "x \<noteq> c"
    using same_row [OF assms(2,3)] by (auto simp: row_del_def)
  then obtain d where d: "d \<in> set cs" "scope_of d = scope_of x" "cd_is_default d"
    using assms(1) by (auto simp: has_default_def)
  then have "d \<noteq> c"
    using x assms(4) by metis
  then have "d \<in> set (row_del cd_id i cs)"
    using d(1) same_row [OF assms(2,3) d(1)] by (simp add: row_del_def)
  then show "\<exists>d \<in> set (row_del cd_id i cs). scope_of d = scope_of x \<and> cd_is_default d"
    using d by blast
qed

lemma has_default_only:
  assumes "has_default cs" "set ds = (\<lambda>c. f c) ` set cs" "\<And>c. c \<in> set cs \<Longrightarrow> scope_of (f c) = scope_of c"
    and "\<And>c. c \<in> set cs \<Longrightarrow> scope_of c \<noteq> k \<Longrightarrow> f c = c"
    and "(\<exists>c \<in> set cs. scope_of c = k) \<longrightarrow> (\<exists>c \<in> set cs. scope_of c = k \<and> cd_is_default (f c))"
  shows "has_default ds"
proof -
  have "\<exists>d \<in> set cs. scope_of d = scope_of c \<and> cd_is_default (f d)" if c: "c \<in> set cs" for c
  proof (cases "scope_of c = k")
    case False
    obtain d where d: "d \<in> set cs" "scope_of d = scope_of c" "cd_is_default d"
      using assms(1) c by (auto simp: has_default_def)
    then show ?thesis
      using assms(4) [OF d(1)] False by auto
  qed (use assms(5) c in auto)
  note found = this
  show ?thesis
    unfolding has_default_def
  proof
    fix y
    assume "y \<in> set ds"
    then obtain c where c: "c \<in> set cs" "y = f c"
      using assms(2) by auto
    obtain d where d: "d \<in> set cs" "scope_of d = scope_of c" "cd_is_default (f d)"
      using found [OF c(1)] by blast
    have "f d \<in> set ds" "scope_of (f d) = scope_of y"
      using assms(2,3) c d by auto
    then show "\<exists>d \<in> set ds. scope_of d = scope_of y \<and> cd_is_default d"
      using d(3) by blast
  qed
qed

lemma has_default_upd:
  assumes "has_default cs" "row_get cd_id i cs = Some c" "keys_unique cd_id cs"
    and "scope_of new = scope_of c" "cd_is_default c \<longrightarrow> cd_is_default new"
  shows "has_default (row_upd cd_id i (\<lambda>_. new) cs)"
proof (rule has_default_only [OF assms(1) set_row_upd, where k = "scope_of c"])
  note same = same_row [OF assms(2,3)]
  show "scope_of (if cd_id x = i then new else x) = scope_of x" if "x \<in> set cs" for x
    using same [OF that] assms(4) by simp
  show "(if cd_id x = i then new else x) = x" if "x \<in> set cs" "scope_of x \<noteq> scope_of c" for x
    using same [OF that(1)] that(2) by auto
  obtain d where "d \<in> set cs" "scope_of d = scope_of c" "cd_is_default d"
    using assms(1) row_get_Some [OF assms(2)] by (auto simp: has_default_def)
  then show "(\<exists>x \<in> set cs. scope_of x = scope_of c)
      \<longrightarrow> (\<exists>x \<in> set cs. scope_of x = scope_of c \<and> cd_is_default (if cd_id x = i then new else x))"
    using same assms(5) by (intro impI bexI [of _ d]) auto
qed

section \<open>What a request does to the table\<close>

lemma own_in_refs: "c \<in> set cs \<Longrightarrow> own_refs c \<subseteq> secret_refs cs"
  by (auto simp: own_refs_def secret_refs_def split: option.splits)

lemma refs_only:
  assumes "row_get cd_id i cs = Some c" "keys_unique cd_id cs"
  shows "\<forall>(j, s) \<in> secret_refs cs. j = cd_id c \<longrightarrow> cd_vault_secret_id c = Some s"
  using same_row [OF assms] row_get_Some [OF assms(1)] by (fastforce simp: secret_refs_def)

text \<open>A row with a new secret, or with the one it had.\<close>

definition resecret ::
  "'v vault_api \<Rightarrow> credential_row \<Rightarrow> pystr option \<Rightarrow> 'v \<Rightarrow> credential_row \<times> 'v" where
  "resecret va c key v = (case key of None \<Rightarrow> (c, v) | Some k \<Rightarrow> set_secret va c k v)"

lemma resecret_row:
  assumes "resecret va c key v = (c', v')"
  shows "cd_id c' = cd_id c" "scope_of c' = scope_of c" "cd_is_default c' = cd_is_default c"
    "cd_provider c' = cd_provider c" "cd_base_url c' = cd_base_url c" "cd_workspace_id c' = cd_workspace_id c"
  using assms by (auto simp: resecret_def set_secret_def scope_of_def split: option.splits prod.splits if_splits)

lemma resecret_refs:
  assumes laws: "vault_laws va" and fresh: "vault_fresh va v" and ok: "secrets_ok va v (secret_refs cs)"
    and c: "row_get cd_id i cs = Some c" and unique: "keys_unique cd_id cs"
    and run: "resecret va c key v = (c', v')" and new: "cd_id new = i" "cd_vault_secret_id new = cd_vault_secret_id c'"
  shows "secrets_ok va v' (secret_refs (row_upd cd_id i (\<lambda>_. new) cs))"
    and "\<forall>(j, s) \<in> secret_refs cs. j \<noteq> i \<longrightarrow> va_reveal va s v' = va_reveal va s v"
proof -
  have i: "cd_id c = i" "c \<in> set cs"
    using row_get_Some [OF c] by auto
  have "own_refs new = own_refs c'"
    using new resecret_row(1) [OF run] i(1) by (simp add: own_refs_def split: option.split)
  then have refs: "secret_refs (row_upd cd_id i (\<lambda>_. new) cs) = {p \<in> secret_refs cs. fst p \<noteq> i} \<union> own_refs c'"
    using refs_upd [OF c new(1)] by simp
  have "secrets_ok va v' ({p \<in> secret_refs cs. fst p \<noteq> i} \<union> own_refs c')
    \<and> (\<forall>(j, s) \<in> secret_refs cs. j \<noteq> i \<longrightarrow> va_reveal va s v' = va_reveal va s v)"
  proof (cases key)
    case None
    then have "c' = c" "v' = v"
      using run by (simp_all add: resecret_def)
    then show ?thesis
      using secrets_ok_subset [OF ok] own_in_refs [OF i(2)] by auto
  next
    case (Some k)
    then have "set_secret va c k v = (c', v')"
      using run by (simp add: resecret_def)
    from set_secret_ok [OF laws fresh ok own_in_refs [OF i(2)] refs_only [OF c unique] this] show ?thesis
      unfolding i(1) by blast
  qed
  then show "secrets_ok va v' (secret_refs (row_upd cd_id i (\<lambda>_. new) cs))"
    and "\<forall>(j, s) \<in> secret_refs cs. j \<noteq> i \<longrightarrow> va_reveal va s v' = va_reveal va s v"
    unfolding refs by blast+
qed

lemma with_secret_row:
  assumes "with_secret va c key v = (c', v')"
  shows "cd_id c' = cd_id c" "scope_of c' = scope_of c" "cd_is_default c' = cd_is_default c"
  using assms by (auto simp: with_secret_def set_secret_def scope_of_def split: option.splits prod.splits if_splits)

lemma with_secret_refs:
  assumes laws: "vault_laws va" and fresh: "vault_fresh va v" and ok: "secrets_ok va v (secret_refs cs)"
    and new: "row_get cd_id (cd_id c) cs = None" "cd_vault_secret_id c = None" and run: "with_secret va c key v = (c', v')"
  shows "secrets_ok va v' (secret_refs (row_add c' cs))"
    and "\<forall>(j, s) \<in> secret_refs cs. va_reveal va s v' = va_reveal va s v"
proof -
  have other: "\<forall>(j, s) \<in> secret_refs cs. j \<noteq> cd_id c"
    using new(1) by (auto simp: secret_refs_def row_get_None)
  have "secrets_ok va v' (secret_refs cs \<union> own_refs c')
    \<and> (\<forall>(j, s) \<in> secret_refs cs. va_reveal va s v' = va_reveal va s v)"
  proof (cases "key = []")
    case True
    then show ?thesis
      using run new ok by (auto simp: with_secret_def own_refs_def)
  next
    case False
    then have run': "set_secret va c key v = (c', v')"
      using run by (simp add: with_secret_def)
    have "own_refs c \<subseteq> secret_refs cs" "\<forall>(j, s) \<in> secret_refs cs. j = cd_id c \<longrightarrow> cd_vault_secret_id c = Some s"
      using new other by (auto simp: own_refs_def)
    note set = set_secret_ok [OF laws fresh ok this run']
    have "{p \<in> secret_refs cs. fst p \<noteq> cd_id c} = secret_refs cs"
      using other by fastforce
    then show ?thesis
      using set(1,2) other by fastforce
  qed
  then show "secrets_ok va v' (secret_refs (row_add c' cs))"
    and "\<forall>(j, s) \<in> secret_refs cs. va_reveal va s v' = va_reveal va s v"
    unfolding refs_add by blast+
qed

definition credentials_wf :: "'v vault_api \<Rightarrow> app_db \<times> 'v \<Rightarrow> bool" where
  "credentials_wf va = (\<lambda>(db, v). keys_unique cd_id (ab_credentials db) \<and> credential_indexes (ab_credentials db)
     \<and> has_default (ab_credentials db) \<and> secrets_ok va v (secret_refs (ab_credentials db)))"

lemma commit_Inr: "commit_credentials x cs db v = Inr (y, db', v')
    \<longleftrightarrow> credential_indexes cs \<and> y = x \<and> db' = db\<lparr>ab_credentials := cs\<rparr> \<and> v' = v"
  by (auto simp: commit_credentials_def)

lemma audited_credentials [simp]: "ab_credentials (audited st scope user action c db) = ab_credentials db"
  by (simp add: audited_def split: option.split)

lemma owned_credential_Inr: "owned_credential scope i user db = Inr c
    \<longleftrightarrow> row_get cd_id i (ab_credentials db) = Some c \<and> scope_of c = scope_key scope user"
  by (auto simp: owned_credential_def in_scope_iff split: option.splits if_splits)

text \<open>Each body, where it succeeds, as the change of rows and secrets it makes.\<close>

lemma add_effect:
  assumes "add_body ce st user scope b (db, v) = Inr (x, db', v')"
  obtains c key where "with_secret (ce_vault ce) c key v = (x, v')" "cd_id c = st_fresh st 0" "cd_vault_secret_id c = None"
    and "ab_credentials db' = row_add x (ab_credentials db)" "credential_indexes (ab_credentials db')"
    and "cd_is_default c \<or> (\<exists>d \<in> set (ab_credentials db). scope_of d = scope_of c \<and> cd_is_default d)"
proof -
  obtain key url where run: "(case with_secret (ce_vault ce) (new_credential st scope user b key url
        (\<not> (\<exists>c \<in> set (workspace_credentials scope (us_id user) db). cd_is_default c))) key v of
       (c, v') \<Rightarrow> commit_credentials c (row_add c (ab_credentials db))
         (audited st scope user ''credential.created'' c db) v') = Inr (x, db', v')"
    using assms by (auto simp: add_body_def rbind_Inr_iff Let_def)
  let ?c = "new_credential st scope user b key url (\<not> (\<exists>c \<in> set (workspace_credentials scope (us_id user) db). cd_is_default c))"
  have "scope_of ?c = scope_key scope (us_id user)"
    by (simp add: new_credential_def scope_of_def scope_key_def split: option.split)
  then have "cd_is_default ?c \<or> (\<exists>d \<in> set (ab_credentials db). scope_of d = scope_of ?c \<and> cd_is_default d)"
    by (auto simp: new_credential_def set_workspace_credentials)
  moreover have "with_secret (ce_vault ce) ?c key v = (x, v')" "ab_credentials db' = row_add x (ab_credentials db)"
    "credential_indexes (ab_credentials db')"
    using run by (auto simp: commit_Inr split: prod.splits)
  ultimately show thesis
    using that [of ?c key] by (simp add: new_credential_def)
qed

lemma rotate_effect:
  assumes "rotate_body ce st user signed_in scope i sent url (db, v) = Inr (x, db', v')"
  obtains c c' key where "row_get cd_id i (ab_credentials db) = Some c" "scope_of c = scope_key scope (us_id user)"
    and "resecret (ce_vault ce) c key v = (c', v')" "key \<noteq> None \<longrightarrow> key = Some (key_or_empty (sent_key sent))"
    and "x = c'\<lparr>cd_base_url := cd_base_url x, cd_status := lit ''active'', cd_updated_at := st_now st\<rparr>"
    and "ab_credentials db' = row_upd cd_id i (\<lambda>_. x) (ab_credentials db)" "credential_indexes (ab_credentials db')"
    and "endpoint_guard (st_now st) signed_in c (cd_base_url x) (sent_key sent) = Inr ()"
    and "cd_provider c = ollama \<and> sent = None \<longrightarrow> key = None" "\<not> (cd_provider c = ollama \<and> sent = None) \<longrightarrow> key \<noteq> None"
proof -
  obtain c base key where c: "row_get cd_id i (ab_credentials db) = Some c" "scope_of c = scope_key scope (us_id user)"
    and guard: "endpoint_guard (st_now st) signed_in c base (sent_key sent) = Inr ()"
    and key: "(if cd_provider c = ollama \<and> sent = None then stored_secret ce v c
       else credential_key (cd_provider c) (sent_key sent)) = Inr key"
    and run: "(case (if cd_provider c \<noteq> ollama \<or> sent \<noteq> None then set_secret (ce_vault ce) c key v else (c, v)) of
       (c', v') \<Rightarrow> let new = c'\<lparr>cd_base_url := base, cd_status := lit ''active'', cd_updated_at := st_now st\<rparr> in
         commit_credentials new (row_upd cd_id i (\<lambda>_. new) (ab_credentials db))
           (audited st scope user ''credential.rotated'' new db) v') = Inr (x, db', v')"
    using assms by (auto simp: rotate_body_def rbind_Inr_iff owned_credential_Inr)
  define k where "k = (if cd_provider c \<noteq> ollama \<or> sent \<noteq> None then Some key else None)"
  obtain c' where "resecret (ce_vault ce) c k v = (c', v')"
    and x: "x = c'\<lparr>cd_base_url := base, cd_status := lit ''active'', cd_updated_at := st_now st\<rparr>"
    and "ab_credentials db' = row_upd cd_id i (\<lambda>_. x) (ab_credentials db)" "credential_indexes (ab_credentials db')"
    using run by (auto simp: k_def resecret_def commit_Inr Let_def split: prod.splits if_splits)
  moreover have "k \<noteq> None \<longrightarrow> k = Some (key_or_empty (sent_key sent))"
    using key by (auto simp: k_def credential_key_def key_or_empty_def split: if_splits option.splits)
      (metis truthy.simps(2,3) option.inject option.simps(3) truthy.elims)+
  moreover have "cd_base_url x = base"
    by (simp add: x)
  ultimately show thesis
    using that [of c k c'] c guard by (auto simp: k_def split: if_splits)
qed

lemma choose_effect:
  assumes "choose_default_body st user scope i (db, v) = Inr (x, db', v')"
  obtains c where "row_get cd_id i (ab_credentials db) = Some c" "scope_of c = scope_key scope (us_id user)"
    and "x = c\<lparr>cd_is_default := True, cd_updated_at := st_now st\<rparr>" "v' = v" "credential_indexes (ab_credentials db')"
    and "ab_credentials db' = map (\<lambda>y. if cd_id y = i then x
         else if scope_of y = scope_key scope (us_id user) then y\<lparr>cd_is_default := False\<rparr> else y) (ab_credentials db)"
  using assms that unfolding choose_default_body_def in_scope_iff
  by (auto simp: rbind_Inr_iff owned_credential_Inr commit_Inr Let_def)

lemma remove_effect:
  assumes "remove_body ce st user scope i (db, v) = Inr (x, db', v')"
  obtains c where "row_get cd_id i (ab_credentials db) = Some c" "credential_indexes (ab_credentials db')"
    and "ab_credentials db' = row_del cd_id i (ab_credentials db)"
    and "v' = (case cd_vault_secret_id c of None \<Rightarrow> v | Some s \<Rightarrow> va_delete (ce_vault ce) s v)"
    and "cd_is_default c \<longrightarrow> length (filter (\<lambda>y. scope_of y = scope_of c) (ab_credentials db)) \<le> 1"
proof -
  have "length (workspace_credentials scope (us_id user) db)
      = length (filter (\<lambda>y. scope_of y = scope_key scope (us_id user)) (ab_credentials db))"
    unfolding workspace_credentials_def in_scope_iff [abs_def] by simp
  then show thesis
    using assms that by (auto simp: remove_body_def rbind_Inr_iff owned_credential_Inr commit_Inr Let_def)
qed

definition cleared :: "uuid \<Rightarrow> credential_row list \<Rightarrow> credential_row list" where
  "cleared ws = map (\<lambda>y. if cd_workspace_id y = Some ws then y\<lparr>cd_is_default := False\<rparr> else y)"

lemma upsert_effect:
  assumes "upsert_body ce st user signed_in ws b (db, v) = Inr (x, db', v')"
  obtains (new) c key where "with_secret (ce_vault ce) c key v = (x, v')" "cd_id c = st_fresh st 0" "cd_vault_secret_id c = None"
      "scope_of c = Inr ws" "cd_is_default c"
      "ab_credentials db' = row_add x (cleared ws (ab_credentials db))" "credential_indexes (ab_credentials db')"
  | (old) c c' key where "c \<in> set (ab_credentials db)" "cd_workspace_id c = Some ws"
      "resecret (ce_vault ce) c key v = (c', v')" "key \<noteq> None \<longrightarrow> key = Some (key_or_empty (ci_api_key b))"
      "x = c'\<lparr>cd_base_url := cd_base_url x, cd_status := lit ''active'', cd_is_default := True, cd_updated_at := st_now st\<rparr>"
      "ab_credentials db' = row_upd cd_id (cd_id x) (\<lambda>_. x) (cleared ws (ab_credentials db))" "credential_indexes (ab_credentials db')"
      "endpoint_guard (st_now st) signed_in c (cd_base_url x) (ci_api_key b) = Inr ()"
      "key = None \<longrightarrow> ci_api_key b = None" "key = None \<longrightarrow> cd_provider c = ollama"
proof -
  define found where "found = find (\<lambda>c. cd_workspace_id c = Some ws \<and> cd_provider c = ci_provider b \<and> cd_label c = ci_label b)
    (ab_credentials db)"
  obtain url key where guard: "(case found of None \<Rightarrow> Inr () | Some c \<Rightarrow> endpoint_guard (st_now st) signed_in c url (ci_api_key b)) = Inr ()"
    and key: "upsert_key ce v found b = Inr key"
    and run: "(case upsert_row ce st user ws found b key url v of (new, v') \<Rightarrow>
       commit_credentials new (if found = None then row_add new (cleared ws (ab_credentials db))
         else row_upd cd_id (cd_id new) (\<lambda>_. new) (cleared ws (ab_credentials db))) db v') = Inr (x, db', v')"
    using assms by (auto simp: upsert_body_def rbind_Inr_iff Let_def found_def [symmetric] cleared_def [symmetric])
  have rows: "upsert_row ce st user ws found b key url v = (x, v')"
    "ab_credentials db' = (if found = None then row_add x (cleared ws (ab_credentials db))
       else row_upd cd_id (cd_id x) (\<lambda>_. x) (cleared ws (ab_credentials db)))" "credential_indexes (ab_credentials db')"
    using run by (auto simp: commit_Inr split: prod.splits)
  show thesis
  proof (cases found)
    case None
    then show thesis
      using rows new [of "new_credential st (Some ws) user b key url True" key]
      by (simp add: upsert_row_def new_credential_def scope_of_def)
  next
    case (Some c)
    then have c: "c \<in> set (ab_credentials db)" "cd_workspace_id c = Some ws" "cd_provider c = ci_provider b"
      unfolding found_def by (auto simp: find_Some_iff)
    define k where "k = (if ci_provider b \<noteq> ollama \<or> ci_api_key b \<noteq> None then Some key else None)"
    obtain c' where "resecret (ce_vault ce) c k v = (c', v')"
      and x: "x = c'\<lparr>cd_base_url := url, cd_status := lit ''active'', cd_is_default := True, cd_updated_at := st_now st\<rparr>"
      using rows(1) Some by (auto simp: upsert_row_def k_def resecret_def split: prod.splits if_splits)
    moreover have "k \<noteq> None \<longrightarrow> k = Some (key_or_empty (ci_api_key b))"
      using key Some by (auto simp: k_def upsert_key_def credential_key_def key_or_empty_def split: if_splits option.splits)
        (metis truthy.simps(2,3) option.inject option.simps(3) truthy.elims)+
    moreover have "cd_base_url x = url" "k = None \<longrightarrow> ci_api_key b = None" "k = None \<longrightarrow> cd_provider c = ollama"
      using c(3) by (simp_all add: x k_def)
    ultimately show thesis
      using old [of c k c'] c guard rows(2,3) Some by auto
  qed
qed

text \<open>Well-formedness, request by request.\<close>

lemma add_wf:
  assumes "vault_laws (ce_vault ce)" "vault_fresh (ce_vault ce) v" "row_get cd_id (st_fresh st 0) (ab_credentials db) = None"
    and wf: "credentials_wf (ce_vault ce) (db, v)" and run: "add_body ce st user scope b (db, v) = Inr (x, db', v')"
  shows "credentials_wf (ce_vault ce) (db', v')"
    and "\<forall>(j, s) \<in> secret_refs (ab_credentials db). va_reveal (ce_vault ce) s v' = va_reveal (ce_vault ce) s v"
proof -
  obtain c key where c: "with_secret (ce_vault ce) c key v = (x, v')" "cd_id c = st_fresh st 0" "cd_vault_secret_id c = None"
    and rows: "ab_credentials db' = row_add x (ab_credentials db)" "credential_indexes (ab_credentials db')"
    and default: "cd_is_default c \<or> (\<exists>d \<in> set (ab_credentials db). scope_of d = scope_of c \<and> cd_is_default d)"
    by (rule add_effect [OF run])
  have old: "keys_unique cd_id (ab_credentials db)" "has_default (ab_credentials db)"
    "secrets_ok (ce_vault ce) v (secret_refs (ab_credentials db))"
    using wf by (simp_all add: credentials_wf_def)
  note x = with_secret_row [OF c(1)]
  have fresh: "row_get cd_id (cd_id c) (ab_credentials db) = None"
    using assms(3) c(2) by simp
  note refs = with_secret_refs [OF assms(1,2) old(3) fresh c(3,1)]
  have "has_default (row_add x (ab_credentials db))" "keys_unique cd_id (row_add x (ab_credentials db))"
    using has_default_add [OF old(2)] default x fresh old(1) by (simp_all add: keys_unique_add)
  then show "credentials_wf (ce_vault ce) (db', v')"
    using refs(1) rows by (simp add: credentials_wf_def)
  show "\<forall>(j, s) \<in> secret_refs (ab_credentials db). va_reveal (ce_vault ce) s v' = va_reveal (ce_vault ce) s v"
    by (rule refs(2))
qed

lemma rotate_wf:
  assumes "vault_laws (ce_vault ce)" "vault_fresh (ce_vault ce) v"
    and wf: "credentials_wf (ce_vault ce) (db, v)" and run: "rotate_body ce st user signed_in scope i sent url (db, v) = Inr (x, db', v')"
  shows "credentials_wf (ce_vault ce) (db', v')"
    and "\<forall>(j, s) \<in> secret_refs (ab_credentials db). j \<noteq> i \<longrightarrow> va_reveal (ce_vault ce) s v' = va_reveal (ce_vault ce) s v"
proof -
  obtain c c' key where c: "row_get cd_id i (ab_credentials db) = Some c" and c': "resecret (ce_vault ce) c key v = (c', v')"
    and x: "x = c'\<lparr>cd_base_url := cd_base_url x, cd_status := lit ''active'', cd_updated_at := st_now st\<rparr>"
    and rows: "ab_credentials db' = row_upd cd_id i (\<lambda>_. x) (ab_credentials db)" "credential_indexes (ab_credentials db')"
    by (rule rotate_effect [OF run])
  have old: "keys_unique cd_id (ab_credentials db)" "has_default (ab_credentials db)"
    "secrets_ok (ce_vault ce) v (secret_refs (ab_credentials db))"
    using wf by (simp_all add: credentials_wf_def)
  have same: "cd_id x = cd_id c'" "cd_vault_secret_id x = cd_vault_secret_id c'" "scope_of x = scope_of c'" "cd_is_default x = cd_is_default c'"
    by (subst x, simp)+
  note row = resecret_row [OF c']
  have i: "cd_id x = i"
    using same(1) row(1) row_get_Some [OF c] by simp
  note refs = resecret_refs [OF assms(1,2) old(3) c old(1) c' i same(2)]
  have "has_default (row_upd cd_id i (\<lambda>_. x) (ab_credentials db))"
    using has_default_upd [OF old(2) c old(1)] same row by simp
  moreover have "keys_unique cd_id (row_upd cd_id i (\<lambda>_. x) (ab_credentials db))"
    using old(1) i by (auto simp: keys_unique_def row_upd_def comp_def if_distrib [of cd_id] cong: map_cong if_cong)
  ultimately show "credentials_wf (ce_vault ce) (db', v')"
    using refs(1) rows by (simp add: credentials_wf_def)
  show "\<forall>(j, s) \<in> secret_refs (ab_credentials db). j \<noteq> i \<longrightarrow> va_reveal (ce_vault ce) s v' = va_reveal (ce_vault ce) s v"
    by (rule refs(2))
qed

lemma choose_wf:
  assumes wf: "credentials_wf va (db, v)" and run: "choose_default_body st user scope i (db, v) = Inr (x, db', v')"
  shows "credentials_wf va (db', v') \<and> v' = v \<and> secret_refs (ab_credentials db') = secret_refs (ab_credentials db)"
proof -
  obtain c where c: "row_get cd_id i (ab_credentials db) = Some c" "scope_of c = scope_key scope (us_id user)"
    and x: "x = c\<lparr>cd_is_default := True, cd_updated_at := st_now st\<rparr>" "v' = v" "credential_indexes (ab_credentials db')"
    and rows: "ab_credentials db' = map (\<lambda>y. if cd_id y = i then x
         else if scope_of y = scope_key scope (us_id user) then y\<lparr>cd_is_default := False\<rparr> else y) (ab_credentials db)"
    by (rule choose_effect [OF run])
  let ?f = "\<lambda>y. if cd_id y = i then x else if scope_of y = scope_key scope (us_id user) then y\<lparr>cd_is_default := False\<rparr> else y"
  have old: "keys_unique cd_id (ab_credentials db)" "has_default (ab_credentials db)" "secrets_ok va v (secret_refs (ab_credentials db))"
    using wf by (simp_all add: credentials_wf_def)
  note same = same_row [OF c(1) old(1)]
  have keep: "cd_id (?f y) = cd_id y \<and> cd_vault_secret_id (?f y) = cd_vault_secret_id y \<and> scope_of (?f y) = scope_of y"
    if "y \<in> set (ab_credentials db)" for y
    using same [OF that] by (auto simp: x(1))
  have "has_default (ab_credentials db')"
  proof (rule has_default_only [OF old(2), where f = ?f and k = "scope_key scope (us_id user)"])
    show "set (ab_credentials db') = ?f ` set (ab_credentials db)"
      by (simp add: rows)
    show "scope_of (?f y) = scope_of y" if "y \<in> set (ab_credentials db)" for y
      using keep [OF that] by blast
    show "?f y = y" if "y \<in> set (ab_credentials db)" "scope_of y \<noteq> scope_key scope (us_id user)" for y
      using same [OF that(1)] that(2) c(2) by auto
    have "c \<in> set (ab_credentials db)" "cd_is_default (?f c)"
      using row_get_Some [OF c(1)] by (auto simp: x(1))
    then show "(\<exists>y \<in> set (ab_credentials db). scope_of y = scope_key scope (us_id user))
      \<longrightarrow> (\<exists>y \<in> set (ab_credentials db). scope_of y = scope_key scope (us_id user) \<and> cd_is_default (?f y))"
      using c(2) by blast
  qed
  moreover have ids: "map cd_id (ab_credentials db') = map cd_id (ab_credentials db)"
    unfolding rows map_map comp_def by (rule map_cong [OF refl]) (use keep in blast)
  have "map (\<lambda>c. (cd_id c, cd_vault_secret_id c)) (ab_credentials db') = map (\<lambda>c. (cd_id c, cd_vault_secret_id c)) (ab_credentials db)"
    unfolding rows map_map comp_def by (rule map_cong [OF refl]) (use keep in blast)
  note refs = refs_cong [OF this]
  ultimately show ?thesis
    using old x(2,3) ids refs by (simp add: credentials_wf_def keys_unique_def)
qed

lemma remove_wf:
  assumes laws: "vault_laws (ce_vault ce)"
    and wf: "credentials_wf (ce_vault ce) (db, v)" and run: "remove_body ce st user scope i (db, v) = Inr (x, db', v')"
  shows "credentials_wf (ce_vault ce) (db', v')"
    and "\<forall>(j, s) \<in> secret_refs (ab_credentials db). j \<noteq> i \<longrightarrow> va_reveal (ce_vault ce) s v' = va_reveal (ce_vault ce) s v"
proof -
  obtain c where c: "row_get cd_id i (ab_credentials db) = Some c" and rows: "credential_indexes (ab_credentials db')"
      "ab_credentials db' = row_del cd_id i (ab_credentials db)"
    and v': "v' = (case cd_vault_secret_id c of None \<Rightarrow> v | Some s \<Rightarrow> va_delete (ce_vault ce) s v)"
    and alone: "cd_is_default c \<longrightarrow> length (filter (\<lambda>y. scope_of y = scope_of c) (ab_credentials db)) \<le> 1"
    by (rule remove_effect [OF run])
  have old: "keys_unique cd_id (ab_credentials db)" "has_default (ab_credentials db)"
    "secrets_ok (ce_vault ce) v (secret_refs (ab_credentials db))"
    using wf by (simp_all add: credentials_wf_def)
  have i: "c \<in> set (ab_credentials db)" "cd_id c = i"
    using row_get_Some [OF c] by auto
  have other: "s \<noteq> t" if "(j, s) \<in> secret_refs (ab_credentials db)" "j \<noteq> i" "cd_vault_secret_id c = Some t" for j s t
    using old(3) own_in_refs [OF i(1)] that i(2) unfolding secrets_ok_def own_refs_def by fastforce
  have keep: "\<forall>(j, s) \<in> secret_refs (ab_credentials db). j \<noteq> i \<longrightarrow> va_reveal (ce_vault ce) s v' = va_reveal (ce_vault ce) s v"
    using laws other by (auto simp: v' vault_laws_def split: option.split)
  then show "\<forall>(j, s) \<in> secret_refs (ab_credentials db). j \<noteq> i \<longrightarrow> va_reveal (ce_vault ce) s v' = va_reveal (ce_vault ce) s v" .
  have "secrets_ok (ce_vault ce) v' (secret_refs (ab_credentials db'))"
    using old(3) keep unfolding rows(2) refs_del secrets_ok_def by fastforce
  moreover have "x = c" if "cd_is_default c" "x \<in> set (ab_credentials db)" "scope_of x = scope_of c" for x
  proof -
    have "{x, c} \<subseteq> set (filter (\<lambda>y. scope_of y = scope_of c) (ab_credentials db))"
      using that i(1) by simp
    then show ?thesis
      using alone that(1) by (cases "filter (\<lambda>y. scope_of y = scope_of c) (ab_credentials db)") auto
  qed
  then have "has_default (ab_credentials db')"
    unfolding rows(2) by (intro has_default_del [OF old(2) c old(1)]) blast
  ultimately show "credentials_wf (ce_vault ce) (db', v')"
    using rows keys_unique_del [OF old(1)] by (simp add: credentials_wf_def)
qed

lemma cleared_rows: "map cd_id (cleared ws cs) = map cd_id cs"
  "map (\<lambda>c. (cd_id c, cd_vault_secret_id c)) (cleared ws cs) = map (\<lambda>c. (cd_id c, cd_vault_secret_id c)) cs"
  by (auto simp: cleared_def comp_def)

lemma in_workspace_scope: "cd_workspace_id c = Some ws \<longleftrightarrow> scope_of c = Inr ws"
  by (simp add: scope_of_def split: option.split)

lemma upsert_new_default:
  assumes "has_default cs" "scope_of x = Inr ws" "cd_is_default x"
  shows "has_default (row_add x (cleared ws cs))"
  unfolding has_default_def
proof
  fix y
  assume "y \<in> set (row_add x (cleared ws cs))"
  show "\<exists>d \<in> set (row_add x (cleared ws cs)). scope_of d = scope_of y \<and> cd_is_default d"
  proof (cases "scope_of y = Inr ws")
    case True
    then show ?thesis
      using assms(2,3) by (intro bexI [of _ x]) (simp_all add: row_add_def)
  next
    case False
    then have "y \<in> set cs"
      using \<open>y \<in> set (row_add x (cleared ws cs))\<close> assms(2) by (auto simp: row_add_def cleared_def in_workspace_scope split: if_splits)
    then obtain d where d: "d \<in> set cs" "scope_of d = scope_of y" "cd_is_default d"
      using assms(1) by (auto simp: has_default_def)
    then have "d \<in> set (cleared ws cs)"
      using False by (force simp: cleared_def in_workspace_scope)
    then show ?thesis
      using d by (intro bexI [of _ d]) (simp_all add: row_add_def)
  qed
qed

lemma upsert_old_default:
  assumes "has_default cs" "c \<in> set cs" "cd_workspace_id c = Some ws" "keys_unique cd_id cs"
    and "cd_id x = cd_id c" "scope_of x = scope_of c" "cd_is_default x"
  shows "has_default (row_upd cd_id (cd_id x) (\<lambda>_. x) (cleared ws cs))"
proof -
  define f where "f = (\<lambda>y. if cd_id y = cd_id x then x else if cd_workspace_id y = Some ws then y\<lparr>cd_is_default := False\<rparr> else y)"
  note same = same_row [OF row_get_unique [OF assms(4,2)] assms(4)]
  show ?thesis
  proof (rule has_default_only [OF assms(1), of _ f "Inr ws"])
    show "set (row_upd cd_id (cd_id x) (\<lambda>_. x) (cleared ws cs)) = f ` set cs"
      unfolding set_row_upd cleared_def set_map image_image by (rule image_cong [OF refl]) (simp add: f_def)
    show "scope_of (f y) = scope_of y" if "y \<in> set cs" for y
      using same [OF that] assms(5,6) by (simp add: f_def)
    show "f y = y" if "y \<in> set cs" "scope_of y \<noteq> Inr ws" for y
      using same [OF that(1)] that(2) assms(3,5) by (auto simp: f_def in_workspace_scope)
    show "(\<exists>y \<in> set cs. scope_of y = Inr ws) \<longrightarrow> (\<exists>y \<in> set cs. scope_of y = Inr ws \<and> cd_is_default (f y))"
      using assms(2,3,5,7) by (intro impI bexI [of _ c]) (simp_all add: f_def in_workspace_scope)
  qed
qed

lemma upsert_wf:
  assumes "vault_laws (ce_vault ce)" "vault_fresh (ce_vault ce) v" "row_get cd_id (st_fresh st 0) (ab_credentials db) = None"
    and wf: "credentials_wf (ce_vault ce) (db, v)" and run: "upsert_body ce st user signed_in ws b (db, v) = Inr (x, db', v')"
  shows "credentials_wf (ce_vault ce) (db', v')"
    and "\<forall>(j, s) \<in> secret_refs (ab_credentials db). j \<noteq> cd_id x \<longrightarrow> va_reveal (ce_vault ce) s v' = va_reveal (ce_vault ce) s v"
proof -
  let ?cs = "ab_credentials db"
  have old: "keys_unique cd_id ?cs" "has_default ?cs" "secrets_ok (ce_vault ce) v (secret_refs ?cs)"
    using wf by (simp_all add: credentials_wf_def)
  have unique: "keys_unique cd_id (cleared ws ?cs)"
    using old(1) by (simp add: keys_unique_def cleared_rows)
  note refs0 = refs_cong [OF cleared_rows(2), of ws ?cs]
  have "credentials_wf (ce_vault ce) (db', v') \<and> (\<forall>(j, s) \<in> secret_refs ?cs. j \<noteq> cd_id x \<longrightarrow>
      va_reveal (ce_vault ce) s v' = va_reveal (ce_vault ce) s v)"
  proof (cases rule: upsert_effect [OF run])
    case (1 c key)
    note x = with_secret_row [OF 1(1)]
    have fresh: "row_get cd_id (cd_id c) (cleared ws ?cs) = None"
      using assms(3) 1(2) by (auto simp: row_get_None cleared_def)
    have "secrets_ok (ce_vault ce) v (secret_refs (cleared ws ?cs))"
      using old(3) refs0 by simp
    note refs = with_secret_refs [OF assms(1,2) this fresh 1(3,1)]
    have "has_default (ab_credentials db')"
      unfolding 1(6) using upsert_new_default [OF old(2)] x 1(4,5) by simp
    moreover have "keys_unique cd_id (ab_credentials db')"
      unfolding 1(6) using unique fresh x(1) by (simp add: keys_unique_add)
    moreover have "secrets_ok (ce_vault ce) v' (secret_refs (ab_credentials db'))"
      unfolding 1(6) by (rule refs(1))
    ultimately show ?thesis
      using 1(7) refs(2) refs0 by (simp add: credentials_wf_def) blast
  next
    case (2 c c' key)
    note row = resecret_row [OF 2(3)]
    have same: "cd_id x = cd_id c'" "cd_vault_secret_id x = cd_vault_secret_id c'" "scope_of x = scope_of c'" "cd_is_default x"
      by (subst 2(5), simp)+
    have c: "row_get cd_id (cd_id c) ?cs = Some c"
      by (rule row_get_unique [OF old(1) 2(1)])
    have i: "cd_id x = cd_id c"
      using same(1) row(1) by simp
    note refs = resecret_refs [OF assms(1,2) old(3) c old(1) 2(3) i same(2)]
    have pairs: "map (\<lambda>c. (cd_id c, cd_vault_secret_id c)) (row_upd cd_id (cd_id x) (\<lambda>_. x) (cleared ws ?cs))
        = map (\<lambda>c. (cd_id c, cd_vault_secret_id c)) (row_upd cd_id (cd_id c) (\<lambda>_. x) ?cs)"
      unfolding row_upd_def cleared_def map_map comp_def i by (rule map_cong [OF refl]) auto
    have "has_default (ab_credentials db')"
      unfolding 2(6) using upsert_old_default [OF old(2) 2(1,2) old(1) i] same row by simp
    moreover have "keys_unique cd_id (ab_credentials db')"
      unfolding 2(6) using unique
      by (auto simp: keys_unique_def row_upd_def comp_def if_distrib [of cd_id] cong: map_cong if_cong)
    moreover have "secrets_ok (ce_vault ce) v' (secret_refs (ab_credentials db'))"
      unfolding 2(6) refs_cong [OF pairs] by (rule refs(1))
    ultimately show ?thesis
      using 2(7) refs(2) i by (simp add: credentials_wf_def)
  qed
  then show "credentials_wf (ce_vault ce) (db', v')"
    and "\<forall>(j, s) \<in> secret_refs (ab_credentials db). j \<noteq> cd_id x \<longrightarrow> va_reveal (ce_vault ce) s v' = va_reveal (ce_vault ce) s v"
    by blast+
qed

section \<open>Requests as a whole\<close>

lemma run_request_cases:
  assumes "run_request ce st user signed_in req (db, v) = (db', v')"
  obtains (same) "ab_credentials db' = ab_credentials db" "v' = v"
  | (add) scope b db0 x where "req = AddCredential scope b" "ab_credentials db0 = ab_credentials db"
      "add_body ce st user scope b (db0, v) = Inr (x, db', v')"
  | (rotate) scope i sent url db0 x where "req = RotateCredential scope i sent url" "ab_credentials db0 = ab_credentials db"
      "rotate_body ce st user signed_in scope i sent url (db0, v) = Inr (x, db', v')"
  | (choose) scope i db0 x where "req = ChooseDefault scope i" "ab_credentials db0 = ab_credentials db"
      "choose_default_body st user scope i (db0, v) = Inr (x, db', v')"
  | (remove) scope i db0 x where "req = RemoveCredential scope i" "ab_credentials db0 = ab_credentials db"
      "remove_body ce st user scope i (db0, v) = Inr (x, db', v')"
  | (upsert) ws b db0 x where "req = UpsertDefault ws b" "ab_credentials db0 = ab_credentials db"
      "upsert_body ce st user signed_in ws b (db0, v) = Inr (x, db', v')"
proof (cases req)
  case (AddCredential scope b)
  then have "snd (in_scope_of ce st user Admin scope (add_body ce st user scope b) (db, v)) = (db', v')"
    using assms by (simp add: add_credential_def)
  then show thesis
    by (cases rule: scoped_step) (use same add AddCredential in auto)
next
  case (RotateCredential scope i sent url)
  then have "snd (in_scope_of ce st user Admin scope (rotate_body ce st user signed_in scope i sent url) (db, v)) = (db', v')"
    using assms by (simp add: rotate_credential_def)
  then show thesis
    by (cases rule: scoped_step) (use same rotate RotateCredential in auto)
next
  case (ChooseDefault scope i)
  then have "snd (in_scope_of ce st user Admin scope (choose_default_body st user scope i) (db, v)) = (db', v')"
    using assms by (simp add: choose_default_credential_def)
  then show thesis
    by (cases rule: scoped_step) (use same choose ChooseDefault in auto)
next
  case (RemoveCredential scope i)
  then have "snd (in_scope_of ce st user Admin scope (remove_body ce st user scope i) (db, v)) = (db', v')"
    using assms by (simp add: remove_credential_def)
  then show thesis
    by (cases rule: scoped_step) (use same remove RemoveCredential in auto)
next
  case (UpsertDefault ws b)
  then have "snd (in_scope_of ce st user Admin (Some ws) (upsert_body ce st user signed_in ws b) (db, v)) = (db', v')"
    using assms by (simp add: upsert_default_credential_def)
  then show thesis
    by (cases rule: scoped_step) (use same upsert UpsertDefault in auto)
qed

lemma wf_table: "ab_credentials db0 = ab_credentials db \<Longrightarrow> credentials_wf va (db0, v) = credentials_wf va (db, v)"
  by (simp add: credentials_wf_def)

lemma request_wf:
  assumes "vault_laws (ce_vault ce)" "vault_fresh (ce_vault ce) v" "row_get cd_id (st_fresh st 0) (ab_credentials db) = None"
    and wf: "credentials_wf (ce_vault ce) (db, v)" and run: "run_request ce st user signed_in req (db, v) = (db', v')"
  shows "credentials_wf (ce_vault ce) (db', v')"
proof (cases rule: run_request_cases [OF run])
  case 1
  then show ?thesis
    using wf by (simp add: credentials_wf_def)
next
  case (2 scope b db0 x)
  then have "row_get cd_id (st_fresh st 0) (ab_credentials db0) = None"
    using assms(3) by simp
  then show ?thesis
    using add_wf(1) [OF assms(1,2) _ _ 2(3)] wf wf_table [OF 2(2), of "ce_vault ce" v] by blast
next
  case (3 scope i sent url db0 x)
  then show ?thesis
    using rotate_wf(1) [OF assms(1,2) _ 3(3)] wf wf_table [OF 3(2), of "ce_vault ce" v] by blast
next
  case (4 scope i db0 x)
  then show ?thesis
    using choose_wf [OF _ 4(3)] wf wf_table [OF 4(2), of "ce_vault ce" v] by blast
next
  case (5 scope i db0 x)
  then show ?thesis
    using remove_wf(1) [OF assms(1) _ 5(3)] wf wf_table [OF 5(2), of "ce_vault ce" v] by blast
next
  case (6 ws b db0 x)
  then have "row_get cd_id (st_fresh st 0) (ab_credentials db0) = None"
    using assms(3) by simp
  then show ?thesis
    using upsert_wf(1) [OF assms(1,2) _ _ 6(3)] wf wf_table [OF 6(2), of "ce_vault ce" v] by blast
qed

lemma only_default:
  assumes "credentials_wf va (db, v)" "c \<in> set (ab_credentials db)"
  shows "\<exists>!d. d \<in> set (ab_credentials db) \<and> scope_of d = scope_of c \<and> cd_is_default d"
proof -
  have distinct: "distinct (map scope_of (filter cd_is_default (ab_credentials db)))" and some: "has_default (ab_credentials db)"
    using assms(1) by (simp_all add: credentials_wf_def credential_indexes_def)
  obtain d where d: "d \<in> set (ab_credentials db)" "scope_of d = scope_of c" "cd_is_default d"
    using some assms(2) unfolding has_default_def by blast
  have "e = d" if "e \<in> set (ab_credentials db)" "scope_of e = scope_of c" "cd_is_default e" for e
    using distinct d that unfolding distinct_map inj_on_def by auto
  then show ?thesis
    using d by blast
qed

section \<open>Secrets and servers\<close>

fun request_key :: "credential_request \<Rightarrow> pystr option" where
  "request_key (RotateCredential scope i sent url) = sent_key sent"
| "request_key (UpsertDefault ws b) = ci_api_key b"
| "request_key _ = None"

lemma resecret_outcome:
  assumes laws: "vault_laws va" and fresh: "vault_fresh va v" and ok: "secrets_ok va v (secret_refs cs)"
    and c: "row_get cd_id i cs = Some c" and unique: "keys_unique cd_id cs" and run: "resecret va c key v = (c', v')"
  obtains "key = None" "c' = c" "v' = v" | "key = Some []" "cd_vault_secret_id c' = None"
  | k s where "key = Some k" "k \<noteq> []" "cd_vault_secret_id c' = Some s" "va_reveal va s v' = Some k"
proof (cases key)
  case None
  then show thesis
    using run that(1) by (simp add: resecret_def)
next
  case (Some k)
  have i: "c \<in> set cs"
    using row_get_Some [OF c] by simp
  have run': "set_secret va c k v = (c', v')"
    using run Some by (simp add: resecret_def)
  show thesis
  proof (cases "k = []")
    case True
    then have "cd_vault_secret_id c' = None"
      using run' by (auto simp: set_secret_def split: option.splits)
    then show thesis
      using that(2) Some True by simp
  next
    case False
    then show thesis
      using set_secret_ok(3) [OF laws fresh ok own_in_refs [OF i] refs_only [OF c unique] run'] that(3) Some by blast
  qed
qed

text \<open>What a request leaves of the secret and the server of one connection.\<close>

definition kept_or_sent :: "'v vault_api \<Rightarrow> instant \<Rightarrow> instant option \<Rightarrow> pystr option \<Rightarrow> 'v \<Rightarrow> 'v \<Rightarrow> credential_row \<Rightarrow> credential_row \<Rightarrow> bool" where
  "kept_or_sent va now signed_in key v v' c c' \<longleftrightarrow>
     (cd_provider c = ollama \<and> cd_base_url c' \<noteq> cd_base_url c \<longrightarrow> (\<exists>t k s. signed_in = Some t \<and> now - t \<le> recent_auth_window
        \<and> key = Some k \<and> k \<noteq> [] \<and> cd_vault_secret_id c' = Some s \<and> va_reveal va s v' = Some k))
   \<and> (\<forall>s. cd_vault_secret_id c' = Some s \<longrightarrow> va_reveal va s v' = key
        \<or> cd_vault_secret_id c = Some s \<and> va_reveal va s v' = va_reveal va s v)"

lemma kept_row:
  assumes "cd_base_url c' = cd_base_url c" "cd_vault_secret_id c' = cd_vault_secret_id c"
    and "\<forall>s. cd_vault_secret_id c = Some s \<longrightarrow> va_reveal va s v' = va_reveal va s v"
  shows "kept_or_sent va now signed_in key v v' c c'"
  using assms by (simp add: kept_or_sent_def)

lemma resecret_kept_or_sent:
  assumes laws: "vault_laws va" and fresh: "vault_fresh va v" and ok: "secrets_ok va v (secret_refs cs)"
    and c: "row_get cd_id i cs = Some c" and unique: "keys_unique cd_id cs" and run: "resecret va c key v = (c', v')"
    and key: "key \<noteq> None \<longrightarrow> key = Some (key_or_empty sent)" "key = None \<longrightarrow> cd_provider c = ollama \<and> sent = None"
    and guard: "endpoint_guard now signed_in c (cd_base_url x) sent = Inr ()" and x: "cd_vault_secret_id x = cd_vault_secret_id c'"
  shows "kept_or_sent va now signed_in sent v v' c x"
proof -
  have moved: "\<exists>t k. signed_in = Some t \<and> now - t \<le> recent_auth_window \<and> sent = Some k \<and> k \<noteq> []"
    if "cd_provider c = ollama" "cd_base_url x \<noteq> cd_base_url c"
  proof -
    have "truthy sent \<noteq> None"
      using guard that by (auto simp: endpoint_guard_def endpoint_changed_def rbind_Inr_iff)
    then obtain k where "sent = Some k" "k \<noteq> []"
      by (cases sent rule: truthy.cases) auto
    then show ?thesis
      using guard that by (auto simp: endpoint_guard_def endpoint_changed_def rbind_Inr_iff recent_authentication_def split: option.splits)
  qed
  show ?thesis
  proof (cases rule: resecret_outcome [OF laws fresh ok c unique run])
    case 1
    then have "cd_base_url x = cd_base_url c"
      using key(2) moved by auto
    then show ?thesis
      using x 1 by (intro kept_row) auto
  next
    case 2
    then have "key_or_empty sent = []"
      using key(1) by simp
    then have "cd_provider c = ollama \<longrightarrow> cd_base_url x = cd_base_url c"
      using moved by (auto simp: key_or_empty_def split: option.splits)
    then show ?thesis
      using 2 x by (simp add: kept_or_sent_def)
  next
    case (3 k s)
    then have "sent = Some k"
      using key(1) by (auto simp: key_or_empty_def split: option.splits)
    then show ?thesis
      using 3 x moved by (auto simp: kept_or_sent_def)
  qed
qed

lemma credentials_wfD:
  assumes "credentials_wf va (db, v)"
  shows "keys_unique cd_id (ab_credentials db)" "secrets_ok va v (secret_refs (ab_credentials db))"
    "\<And>c d. c \<in> set (ab_credentials db) \<Longrightarrow> d \<in> set (ab_credentials db) \<Longrightarrow> cd_id d = cd_id c \<Longrightarrow> d = c"
  using assms unfolding credentials_wf_def keys_unique_def distinct_map inj_on_def by auto

text \<open>A connection the request does not write keeps its server, and its secret if no other of its kind does.\<close>

lemma untouched:
  assumes "\<forall>(j, s) \<in> secret_refs cs. j \<noteq> i \<longrightarrow> va_reveal va s v' = va_reveal va s v"
    and "c \<in> set cs" "cd_id c \<noteq> i" "cd_base_url c' = cd_base_url c" "cd_vault_secret_id c' = cd_vault_secret_id c"
  shows "kept_or_sent va now signed_in key v v' c c'"
  using assms own_in_refs [OF assms(2)] by (intro kept_row) (auto simp: own_refs_def)

lemma in_row_upd: "x \<in> set (row_upd cd_id i (\<lambda>_. y) cs) \<Longrightarrow> x = y \<or> x \<in> set cs \<and> cd_id x \<noteq> i"
  by (auto simp: set_row_upd split: if_splits)

lemma add_keeps_or_sends:
  assumes laws: "vault_laws (ce_vault ce)" "vault_fresh (ce_vault ce) v" and id: "row_get cd_id (st_fresh st 0) (ab_credentials db) = None"
    and wf: "credentials_wf (ce_vault ce) (db, v)" and run: "add_body ce st user scope b (db, v) = Inr (x, db', v')"
    and rows: "c \<in> set (ab_credentials db)" "c' \<in> set (ab_credentials db')" "cd_id c' = cd_id c"
  shows "kept_or_sent (ce_vault ce) now signed_in key v v' c c'"
proof -
  obtain c0 key0 where c0: "with_secret (ce_vault ce) c0 key0 v = (x, v')" "cd_id c0 = st_fresh st 0"
    and table: "ab_credentials db' = row_add x (ab_credentials db)"
    by (rule add_effect [OF run])
  have "cd_id c \<noteq> cd_id x"
    using with_secret_row(1) [OF c0(1)] c0(2) id rows(1) by (auto simp: row_get_None)
  then have "c' = c"
    using credentials_wfD(3) [OF wf rows(1)] rows(2,3) table by (auto simp: row_add_def)
  then show ?thesis
    using add_wf(2) [OF laws id wf run] own_in_refs [OF rows(1)] by (intro kept_row) (auto simp: own_refs_def)
qed

lemma rotate_keeps_or_sends:
  assumes laws: "vault_laws (ce_vault ce)" "vault_fresh (ce_vault ce) v"
    and wf: "credentials_wf (ce_vault ce) (db, v)" and run: "rotate_body ce st user signed_in scope i sent url (db, v) = Inr (x, db', v')"
    and rows: "c \<in> set (ab_credentials db)" "c' \<in> set (ab_credentials db')" "cd_id c' = cd_id c"
  shows "kept_or_sent (ce_vault ce) (st_now st) signed_in (sent_key sent) v v' c c'"
proof -
  obtain d d' key where d: "row_get cd_id i (ab_credentials db) = Some d" and d': "resecret (ce_vault ce) d key v = (d', v')"
    and key: "key \<noteq> None \<longrightarrow> key = Some (key_or_empty (sent_key sent))"
    and x: "x = d'\<lparr>cd_base_url := cd_base_url x, cd_status := lit ''active'', cd_updated_at := st_now st\<rparr>"
    and table: "ab_credentials db' = row_upd cd_id i (\<lambda>_. x) (ab_credentials db)"
    and guard: "endpoint_guard (st_now st) signed_in d (cd_base_url x) (sent_key sent) = Inr ()"
    and none: "cd_provider d = ollama \<and> sent = None \<longrightarrow> key = None" "\<not> (cd_provider d = ollama \<and> sent = None) \<longrightarrow> key \<noteq> None"
    by (rule rotate_effect [OF run])
  have xi: "cd_id x = i" "cd_vault_secret_id x = cd_vault_secret_id d'"
    using resecret_row(1) [OF d'] row_get_Some [OF d] by (subst x, simp)+
  show ?thesis
  proof (cases "cd_id c = i")
    case True
    then have "d = c"
      using rows(1) same_row [OF d credentials_wfD(1) [OF wf]] by simp
    moreover have "c' = x"
      using in_row_upd [of c' i x "ab_credentials db"] rows(2,3) True table by auto
    moreover have "key = None \<longrightarrow> cd_provider d = ollama \<and> sent_key sent = None"
      using none by (auto simp: sent_key_def)
    ultimately show ?thesis
      using resecret_kept_or_sent [OF laws credentials_wfD(2) [OF wf] d credentials_wfD(1) [OF wf] d' key _ guard xi(2)] by simp
  next
    case False
    then have "c' \<in> set (ab_credentials db)"
      using in_row_upd [of c' i x "ab_credentials db"] rows(2,3) table xi(1) by auto
    then have "c' = c"
      using credentials_wfD(3) [OF wf rows(1)] rows(3) by simp
    then show ?thesis
      by (intro untouched [OF rotate_wf(2) [OF laws wf run] rows(1) False]) simp_all
  qed
qed

lemma choose_keeps_or_sends:
  assumes wf: "credentials_wf (ce_vault ce) (db, v)" and run: "choose_default_body st user scope i (db, v) = Inr (x, db', v')"
    and rows: "c \<in> set (ab_credentials db)" "c' \<in> set (ab_credentials db')" "cd_id c' = cd_id c"
  shows "kept_or_sent (ce_vault ce) now signed_in key v v' c c'"
proof -
  obtain d where d: "row_get cd_id i (ab_credentials db) = Some d"
    and x: "x = d\<lparr>cd_is_default := True, cd_updated_at := st_now st\<rparr>" "v' = v"
    and table: "ab_credentials db' = map (\<lambda>y. if cd_id y = i then x
         else if scope_of y = scope_key scope (us_id user) then y\<lparr>cd_is_default := False\<rparr> else y) (ab_credentials db)"
    by (rule choose_effect [OF run])
  obtain y where y: "c' = (if cd_id y = i then x
         else if scope_of y = scope_key scope (us_id user) then y\<lparr>cd_is_default := False\<rparr> else y)"
      and member: "y \<in> set (ab_credentials db)"
    using rows(2) unfolding table set_map by (rule imageE)
  have "cd_id y = i \<longleftrightarrow> y = d"
    by (rule same_row [OF d credentials_wfD(1) [OF wf] member])
  then have same: "cd_id c' = cd_id y" "cd_base_url c' = cd_base_url y" "cd_vault_secret_id c' = cd_vault_secret_id y"
    unfolding y x(1) by (simp_all split: if_split)
  have "y = c"
    by (rule credentials_wfD(3) [OF wf rows(1) member]) (simp only: same(1) [symmetric] rows(3))
  then show ?thesis
    using x(2) same by (intro kept_row) simp_all
qed

lemma remove_keeps_or_sends:
  assumes laws: "vault_laws (ce_vault ce)"
    and wf: "credentials_wf (ce_vault ce) (db, v)" and run: "remove_body ce st user scope i (db, v) = Inr (x, db', v')"
    and rows: "c \<in> set (ab_credentials db)" "c' \<in> set (ab_credentials db')" "cd_id c' = cd_id c"
  shows "kept_or_sent (ce_vault ce) now signed_in key v v' c c'"
proof -
  obtain d where table: "ab_credentials db' = row_del cd_id i (ab_credentials db)"
    by (rule remove_effect [OF run])
  then have same: "c' = c" "cd_id c \<noteq> i"
    using credentials_wfD(3) [OF wf rows(1)] rows by (auto simp: row_del_def)
  show ?thesis
    by (intro untouched [OF remove_wf(2) [OF laws wf run] rows(1) same(2)]) (simp_all add: same(1))
qed

lemma upsert_keeps_or_sends:
  assumes laws: "vault_laws (ce_vault ce)" "vault_fresh (ce_vault ce) v" and id: "row_get cd_id (st_fresh st 0) (ab_credentials db) = None"
    and wf: "credentials_wf (ce_vault ce) (db, v)" and run: "upsert_body ce st user signed_in ws b (db, v) = Inr (x, db', v')"
    and rows: "c \<in> set (ab_credentials db)" "c' \<in> set (ab_credentials db')" "cd_id c' = cd_id c"
  shows "kept_or_sent (ce_vault ce) (st_now st) signed_in (ci_api_key b) v v' c c'"
proof -
  have other: ?thesis if c': "c' \<in> set (cleared ws (ab_credentials db))" and x: "cd_id c \<noteq> cd_id x"
  proof -
    obtain y where y: "c' = (if cd_workspace_id y = Some ws then y\<lparr>cd_is_default := False\<rparr> else y)"
        and member: "y \<in> set (ab_credentials db)"
      using c' unfolding cleared_def set_map by (rule imageE)
    have same: "cd_id c' = cd_id y"
      unfolding y by simp
    have "y = c"
      by (rule credentials_wfD(3) [OF wf rows(1) member]) (simp only: same [symmetric] rows(3))
    then have "c' = c \<or> c' = c\<lparr>cd_is_default := False\<rparr>"
      unfolding y by simp
    then show ?thesis
      by (intro untouched [OF upsert_wf(2) [OF laws id wf run] rows(1) x]) auto
  qed
  show ?thesis
  proof (cases rule: upsert_effect [OF run])
    case (1 c0 key)
    then have "cd_id c \<noteq> cd_id x"
      using with_secret_row(1) [OF 1(1)] id rows(1) by (auto simp: row_get_None)
    then show ?thesis
      using other rows(2,3) 1(6) by (auto simp: row_add_def)
  next
    case (2 d d' key)
    have same: "cd_vault_secret_id x = cd_vault_secret_id d'" "cd_id x = cd_id d'"
      by (subst 2(5), simp)+
    have d: "row_get cd_id (cd_id d) (ab_credentials db) = Some d"
      by (rule row_get_unique [OF credentials_wfD(1) [OF wf] 2(1)])
    have row: "c' = x \<or> c' \<in> set (cleared ws (ab_credentials db)) \<and> cd_id c' \<noteq> cd_id x"
      using rows(2) unfolding 2(6) by (rule in_row_upd)
    show ?thesis
    proof (cases "cd_id c = cd_id x")
      case True
      have "d = c"
        using same_row [OF d credentials_wfD(1) [OF wf] rows(1)] same(2) resecret_row(1) [OF 2(3)] True by simp
      moreover have "c' = x"
        using row rows(3) True by simp
      moreover have "key = None \<longrightarrow> cd_provider d = ollama \<and> ci_api_key b = None"
        using 2(9,10) by simp
      ultimately show ?thesis
        using resecret_kept_or_sent [OF laws credentials_wfD(2) [OF wf] d credentials_wfD(1) [OF wf] 2(3,4) _ 2(8) same(1)] by simp
    next
      case False
      then show ?thesis
        using other row rows(3) by auto
    qed
  qed
qed

lemma request_keeps_or_sends:
  assumes laws: "vault_laws (ce_vault ce)" "vault_fresh (ce_vault ce) v" and id: "row_get cd_id (st_fresh st 0) (ab_credentials db) = None"
    and wf: "credentials_wf (ce_vault ce) (db, v)" and run: "run_request ce st user signed_in req (db, v) = (db', v')"
    and rows: "c \<in> set (ab_credentials db)" "c' \<in> set (ab_credentials db')" "cd_id c' = cd_id c"
  shows "kept_or_sent (ce_vault ce) (st_now st) signed_in (request_key req) v v' c c'"
proof (cases rule: run_request_cases [OF run])
  case 1
  then have "c' = c"
    using credentials_wfD(3) [OF wf rows(1)] rows by simp
  then show ?thesis
    using 1 by (intro kept_row) simp_all
next
  case (2 scope b db0 x)
  note wf0 = iffD2 [OF wf_table [OF 2(2)] wf]
  show ?thesis
    by (rule add_keeps_or_sends [OF laws id [folded 2(2)] wf0 2(3) rows(1) [folded 2(2)] rows(2,3)])
next
  case (3 scope i sent url db0 x)
  note wf0 = iffD2 [OF wf_table [OF 3(2)] wf]
  show ?thesis
    using rotate_keeps_or_sends [OF laws wf0 3(3) rows(1) [folded 3(2)] rows(2,3)] by (simp only: 3(1) request_key.simps)
next
  case (4 scope i db0 x)
  note wf0 = iffD2 [OF wf_table [OF 4(2)] wf]
  show ?thesis
    by (rule choose_keeps_or_sends [OF wf0 4(3) rows(1) [folded 4(2)] rows(2,3)])
next
  case (5 scope i db0 x)
  note wf0 = iffD2 [OF wf_table [OF 5(2)] wf]
  show ?thesis
    by (rule remove_keeps_or_sends [OF laws(1) wf0 5(3) rows(1) [folded 5(2)] rows(2,3)])
next
  case (6 ws b db0 x)
  note wf0 = iffD2 [OF wf_table [OF 6(2)] wf]
  show ?thesis
    using upsert_keeps_or_sends [OF laws id [folded 6(2)] wf0 6(3) rows(1) [folded 6(2)] rows(2,3)] by (simp only: 6(1) request_key.simps)
qed

section \<open>Histories\<close>

text \<open>Requests of any users one after another, each with identifiers that are not in use.\<close>

inductive managed :: "'v credential_env \<Rightarrow> app_db \<times> 'v \<Rightarrow> app_db \<times> 'v \<Rightarrow> bool" for ce where
  managed_start: "managed ce t t"
| managed_step: "managed ce t t1 \<Longrightarrow> vault_fresh (ce_vault ce) (snd t1)
    \<Longrightarrow> row_get cd_id (st_fresh st 0) (ab_credentials (fst t1)) = None
    \<Longrightarrow> managed ce t (run_request ce st user signed_in req t1)"

lemma managed_wf:
  "managed ce t t' \<Longrightarrow> vault_laws (ce_vault ce) \<Longrightarrow> credentials_wf (ce_vault ce) t \<Longrightarrow> credentials_wf (ce_vault ce) t'"
proof (induction rule: managed.induct)
  case (managed_step t t1 st user signed_in req)
  then have "credentials_wf (ce_vault ce) (fst t1, snd t1)"
    by simp
  from request_wf [OF managed_step.prems(1) managed_step.hyps(2,3) this, of user signed_in req] show ?case
    by (metis prod.collapse)
qed

section \<open>Properties\<close>

definition list_vault :: "(uuid \<times> pystr) list vault_api" where
  "list_vault = \<lparr>va_create = (\<lambda>s v. (7, (7, s) # v)), va_update = (\<lambda>i s v. (i, s) # v),
     va_delete = (\<lambda>i v. filter (\<lambda>p. fst p \<noteq> i) v), va_reveal = (\<lambda>i v. map_of v i)\<rparr>"

lemma list_vault_laws: "vault_laws list_vault"
proof -
  have "map_of (filter (\<lambda>p. fst p \<noteq> i) v) j = (if j = i then None else map_of v j)" for i j and v :: "(uuid \<times> pystr) list"
    by (induction v) auto
  then show ?thesis
    by (simp add: vault_laws_def list_vault_def)
qed

definition list_env :: "(uuid \<times> pystr) list credential_env" where
  "list_env = \<lparr>ce_unicode = ascii_unicode, ce_vault = list_vault, ce_providers = example_env,
     ce_normalize_url = Some, ce_validate = (\<lambda>_ _ _. (True, ''''))\<rparr>"

definition list_user :: auth_user where
  "list_user = \<lparr>us_id = 2, us_email = None\<rparr>"

definition local_credential :: credential_row where
  "local_credential = (example_credential 50 None)\<lparr>cd_provider := ollama, cd_base_url := Some (lit ''a''), cd_is_default := True\<rparr>"

definition list_state :: "app_db \<times> (uuid \<times> pystr) list" where
  "list_state = (empty_db\<lparr>ab_credentials := [local_credential]\<rparr>, [(5, lit ''old'')])"

definition list_request :: credential_request where
  "list_request = RotateCredential None 50 (Some (Some (lit ''new''))) (Some (lit ''b''))"

lemma list_state_wf: "credentials_wf list_vault list_state"
  by (simp add: credentials_wf_def list_state_def local_credential_def example_credential_def empty_db_def list_vault_def
      keys_unique_def credential_indexes_def credential_has_secret_def has_default_def secrets_ok_def secret_refs_def lit_def)

lemma list_fresh: "vault_fresh list_vault (snd list_state)"
    "row_get cd_id (st_fresh example_stamp 0) (ab_credentials (fst list_state)) = None"
  by (simp_all add: vault_fresh_def list_vault_def list_state_def example_stamp_def local_credential_def
      example_credential_def empty_db_def row_get_def)

lemma list_run:
  "map cd_base_url (ab_credentials (fst (run_request list_env example_stamp list_user (Some 0) list_request list_state))) = [Some (lit ''b'')]"
  "snd (run_request list_env example_stamp list_user (Some 0) list_request list_state) = [(5, lit ''new''), (5, lit ''old'')]"
  by code_simp+

text \<open>C32: the table of connections stays sound. Whatever requests users send, in any order, every account and every
  workspace that has connections has exactly one default among them, no two connections of a scope share a provider
  and a label, every connection but an Ollama one has a secret, every reference to the vault finds a secret that is
  not empty, and no two connections share one.\<close>
theorem credentials_stay_sound:
  assumes "managed ce t t'" "vault_laws (ce_vault ce)" "credentials_wf (ce_vault ce) t"
  shows "credentials_wf (ce_vault ce) t' \<and> (\<forall>c \<in> set (ab_credentials (fst t')).
    \<exists>!d. d \<in> set (ab_credentials (fst t')) \<and> scope_of d = scope_of c \<and> cd_is_default d)"
proof -
  have wf: "credentials_wf (ce_vault ce) (fst t', snd t')"
    using managed_wf [OF assms] by simp
  show ?thesis
    using wf only_default [OF wf] by simp
qed

theorem credentials_stay_sound_witness:
  "credentials_wf list_vault (run_request list_env example_stamp list_user (Some 0) list_request list_state)
    \<and> map cd_base_url (ab_credentials (fst (run_request list_env example_stamp list_user (Some 0) list_request list_state))) = [Some (lit ''b'')]"
proof -
  have vault: "ce_vault list_env = list_vault"
    by (simp add: list_env_def)
  have "managed list_env list_state (run_request list_env example_stamp list_user (Some 0) list_request list_state)"
    by (rule managed_step [OF managed_start]) (simp_all only: vault list_fresh)
  from credentials_stay_sound [OF this] show ?thesis
    unfolding vault using list_vault_laws list_state_wf list_run(1) by blast
qed

text \<open>C33: a stored key never reaches another server. After any request, a connection that was there holds the secret
  it held or the key the request sent; and the server of an Ollama connection changes only if the user signed in
  within ten minutes and sent a new key, which is the key the connection then holds.\<close>
theorem keys_stay_with_their_server:
  assumes "vault_laws (ce_vault ce)" "vault_fresh (ce_vault ce) v" "row_get cd_id (st_fresh st 0) (ab_credentials db) = None"
    and "credentials_wf (ce_vault ce) (db, v)" "run_request ce st user signed_in req (db, v) = (db', v')"
    and "c \<in> set (ab_credentials db)" "c' \<in> set (ab_credentials db')" "cd_id c' = cd_id c"
  shows "(cd_provider c = ollama \<and> cd_base_url c' \<noteq> cd_base_url c \<longrightarrow> (\<exists>t k s. signed_in = Some t
        \<and> st_now st - t \<le> recent_auth_window \<and> request_key req = Some k \<and> k \<noteq> []
        \<and> cd_vault_secret_id c' = Some s \<and> va_reveal (ce_vault ce) s v' = Some k))
    \<and> (\<forall>s. cd_vault_secret_id c' = Some s \<longrightarrow> va_reveal (ce_vault ce) s v' = request_key req
        \<or> cd_vault_secret_id c = Some s \<and> va_reveal (ce_vault ce) s v' = va_reveal (ce_vault ce) s v)"
  using request_keeps_or_sends [OF assms] unfolding kept_or_sent_def .

theorem keys_stay_with_their_server_witness:
  "\<exists>c' s. ab_credentials (fst (run_request list_env example_stamp list_user (Some 0) list_request list_state)) = [c']
    \<and> cd_vault_secret_id c' = Some s \<and> va_reveal list_vault s [(5, lit ''new''), (5, lit ''old'')] = Some (lit ''new'')"
proof -
  obtain db v db' v' where t: "list_state = (db, v)" and run: "run_request list_env example_stamp list_user (Some 0) list_request (db, v) = (db', v')"
    by (metis prod.exhaust)
  have vault: "ce_vault list_env = list_vault" and v': "v' = [(5, lit ''new''), (5, lit ''old'')]"
    using list_run(2) run t by (simp_all add: list_env_def)
  obtain c' where c': "ab_credentials db' = [c']" "cd_base_url c' = Some (lit ''b'')"
    using list_run(1) run t by auto
  have "map cd_id (ab_credentials (fst (run_request list_env example_stamp list_user (Some 0) list_request list_state))) = [50]"
    by code_simp
  then have "cd_id c' = cd_id local_credential"
    using c' run t by (simp add: local_credential_def example_credential_def)
  moreover have "local_credential \<in> set (ab_credentials db)"
    using t by (auto simp: list_state_def)
  moreover have "cd_provider local_credential = ollama" "cd_base_url c' \<noteq> cd_base_url local_credential"
    using c'(2) by (simp_all add: local_credential_def lit_def)
  moreover have "request_key list_request = Some (lit ''new'')"
    by (simp add: list_request_def sent_key_def)
  ultimately obtain k s where "k = lit ''new''" "cd_vault_secret_id c' = Some s" "va_reveal list_vault s v' = Some k"
    using keys_stay_with_their_server [of list_env v example_stamp db list_user "Some 0" list_request db' v' local_credential c']
      list_vault_laws list_fresh list_state_wf run c'(1) unfolding vault t by auto
  then show ?thesis
    using run t c'(1) v' by simp
qed

end
