(* ===== verification/ModelSettings.thy ===== *)
theory ModelSettings
  imports ModelCatalog Credentials
begin

text \<open>
  The model choices of a workspace (\<^verbatim>\<open>api/ai/models.py\<close>): the models a key offers before a workspace exists, the
  options and the stored choices of a workspace, and their update. The embedding model is fixed once it is chosen or
  anything is indexed; the lemmas follow that through histories of updates and of indexing. Korean messages are
  rendered in English.
\<close>

section \<open>Responses\<close>

record role_models =
  rl_role :: model_role
  rl_options :: "model_option list"
  rl_selected :: "model_option option"
  rl_locked :: bool

definition models_response ::
  "(pystr \<Rightarrow> uuid option) \<Rightarrow> role_options \<Rightarrow> (pystr \<times> json) list option \<Rightarrow> model_role set \<Rightarrow> role_models list" where
  "models_response parse options chosen locked = map (\<lambda>role. \<lparr>rl_role = role, rl_options = options role,
     rl_selected = selection_of parse chosen role, rl_locked = (role \<in> locked)\<rparr>) role_order"

definition locked_roles :: "provider_env \<Rightarrow> app_db \<Rightarrow> workspace_row \<Rightarrow> model_role set" where
  "locked_roles env db w = (if selection_of (pv_parse_uuid env) (Some (wk_model_settings w)) RoleEmbedding \<noteq> None
     \<or> has_indexed_chunks (wk_id w) db then {RoleEmbedding} else {})"

section \<open>The models of a key\<close>

record key_models_request =
  km_provider :: "pystr option"
  km_credential_id :: "uuid option"
  km_api_key :: pystr
  km_base_url :: "pystr option"

record model_env =
  me_registry :: "pystr \<Rightarrow> pystr option \<Rightarrow> adapter option"
  me_adapters :: "pystr list"
  me_prices :: "price_map option"

text \<open>The connection a request means: its provider, key, address and identifier.\<close>

definition requested_connection ::
  "'v credential_env \<Rightarrow> auth_user \<Rightarrow> key_models_request \<Rightarrow> app_db
    \<Rightarrow> http_error + pystr \<times> pystr \<times> pystr option \<times> uuid option" where
  "requested_connection ce user b db = (case km_credential_id b of
     Some i \<Rightarrow> (case row_get cd_id i (ab_credentials db) of
         None \<Rightarrow> Inl (http 404 ''Credential not found'')
       | Some c \<Rightarrow>
           rbind (guard (cd_owner_id c = us_id user \<and> cd_status c = lit ''active'') (http 404 ''Credential not found'')) (\<lambda>_.
           rbind (guard (km_provider b = None \<or> km_provider b = Some (cd_provider c)) (http 422 ''Provider mismatch'')) (\<lambda>_.
           case resolve_credential_secret (ce_providers ce) c of
             None \<Rightarrow> Inl (http 422 ''Saved credential is unavailable'')
           | Some key \<Rightarrow> Inr (cd_provider c, key, cd_base_url c, Some i))))
   | None \<Rightarrow> (case km_provider b of
         None \<Rightarrow> Inl (http 422 ''credentialId or provider is required'')
       | Some provider \<Rightarrow> rbind (checked_base_url (ce_normalize_url ce) provider (km_base_url b) None) (\<lambda>url.
           Inr (provider, km_api_key b, url, None))))"

definition list_key_models ::
  "'v credential_env \<Rightarrow> model_env \<Rightarrow> auth_user \<Rightarrow> key_models_request \<Rightarrow> app_db \<Rightarrow> http_error + role_models list" where
  "list_key_models ce me user b db =
     rbind (requested_connection ce user b db) (\<lambda>(provider, key, url, cid).
     rbind (validated ce provider key url) (\<lambda>_.
       Inr (models_response (pv_parse_uuid (ce_providers ce))
         (options_for_key (ce_unicode ce) (me_registry me) (me_prices me) (ce_providers ce) provider key url cid) None {})))"

section \<open>The models of a workspace\<close>

definition workspace_options :: "'v credential_env \<Rightarrow> model_env \<Rightarrow> app_db \<Rightarrow> workspace_row \<Rightarrow> pystr option \<Rightarrow> role_options" where
  "workspace_options ce me db w provider =
     options_for_workspace (ce_unicode ce) (me_prices me) (ce_providers ce) db (wk_id w) (wk_owner_id w) provider"

definition get_workspace_models ::
  "'v credential_env \<Rightarrow> model_env \<Rightarrow> stamp \<Rightarrow> auth_user \<Rightarrow> uuid \<Rightarrow> pystr option \<Rightarrow> role_models list request" where
  "get_workspace_models ce me st user ws provider = with_access (ce_unicode ce) st ws user Viewer (\<lambda>a db.
     rbind (guard (case provider of None \<Rightarrow> True | Some p \<Rightarrow> p \<in> set (me_adapters me)) (http 422 ''Unknown provider'')) (\<lambda>_.
       let w = wa_workspace a in
       Inr (models_response (pv_parse_uuid (ce_providers ce)) (workspace_options ce me db w provider)
         (Some (wk_model_settings w)) (locked_roles (ce_providers ce) db w), db)))"

text \<open>Whether a requested embedding model is the one in use: the stored choice, or, for chunks indexed without
  one, the model that indexing resolves.\<close>

definition embedding_unchanged :: "provider_env \<Rightarrow> app_db \<Rightarrow> workspace_row \<Rightarrow> model_option \<Rightarrow> bool" where
  "embedding_unchanged env db w requested =
     (case selection_of (pv_parse_uuid env) (Some (wk_model_settings w)) RoleEmbedding of
       Some current \<Rightarrow> requested = current
     | None \<Rightarrow> (case provider_with_model env db (wk_id w) (wk_owner_id w) RoleEmbedding None of
         Inl _ \<Rightarrow> False
       | Inr legacy \<Rightarrow> requested = \<lparr>mo_provider = ad_id (rv_adapter legacy), mo_model = rv_model legacy, mo_credential_id = None\<rparr>))"

definition store_selections :: "(pystr \<times> model_option) list \<Rightarrow> (pystr \<times> json) list \<Rightarrow> (pystr \<times> json) list" where
  "store_selections selections old =
     foldl (\<lambda>d (k, v). AList.update k v d) old (map (\<lambda>(role, choice). (role, dump_option choice)) selections)"

definition update_models_body ::
  "'v credential_env \<Rightarrow> model_env \<Rightarrow> (pystr \<times> model_option) list \<Rightarrow> access_grant \<Rightarrow> role_models list body" where
  "update_models_body ce me selections a db =
     (let w = wa_workspace a; options = workspace_options ce me db w None; locked = locked_roles (ce_providers ce) db w in
     rbind (guard (invalid_selections selections options = []) (http 422 ''Invalid model selections'')) (\<lambda>_.
     rbind (case map_of selections (model_role_value RoleEmbedding) of
         None \<Rightarrow> Inr ()
       | Some requested \<Rightarrow> guard (RoleEmbedding \<in> locked \<longrightarrow> embedding_unchanged (ce_providers ce) db w requested)
           (http 409 ''The embedding model is fixed when the workspace is created'')) (\<lambda>_.
     let new = w\<lparr>wk_model_settings := store_selections selections (wk_model_settings w)\<rparr> in
     Inr (models_response (pv_parse_uuid (ce_providers ce)) options (Some (wk_model_settings new)) locked,
       db\<lparr>ab_workspaces := row_upd wk_id (wk_id w) (\<lambda>_. new) (ab_workspaces db)\<rparr>))))"

definition update_workspace_models ::
  "'v credential_env \<Rightarrow> model_env \<Rightarrow> stamp \<Rightarrow> auth_user \<Rightarrow> uuid \<Rightarrow> (pystr \<times> model_option) list \<Rightarrow> role_models list request" where
  "update_workspace_models ce me st user ws selections =
     with_access (ce_unicode ce) st ws user Admin (update_models_body ce me selections)"

section \<open>The embedding model in use\<close>

definition embedding_locked :: "provider_env \<Rightarrow> app_db \<Rightarrow> uuid \<Rightarrow> bool" where
  "embedding_locked env db ws \<longleftrightarrow> stored_choice env db ws RoleEmbedding \<noteq> None \<or> has_indexed_chunks ws db"

definition embedding_model :: "provider_env \<Rightarrow> app_db \<Rightarrow> uuid \<Rightarrow> pystr" where
  "embedding_model env db ws = (case stored_choice env db ws RoleEmbedding of
     None \<Rightarrow> se_embedding_model (pv_settings env) | Some x \<Rightarrow> mo_model x)"

lemma resolved_model:
  assumes "provider_with_model env db ws owner RoleEmbedding None = Inr p"
  shows "rv_model p = embedding_model env db ws"
proof (cases rule: provider_with_model_cases [of env db ws owner RoleEmbedding None])
  case (found c p' needs)
  then have "p' = p"
    using assms by simp
  then show ?thesis
    using try_credential_Some [OF found(3)] by (auto simp: embedding_model_def default_model_def split: option.splits)
qed (use assms in simp)

lemma locked_embedding:
  "row_get wk_id ws (ab_workspaces db) = Some w \<Longrightarrow> RoleEmbedding \<in> locked_roles env db w \<longleftrightarrow> embedding_locked env db ws"
  by (auto simp: locked_roles_def embedding_locked_def stored_choice_def dest: row_get_Some)

lemma map_of_dumps:
  "map_of (map (\<lambda>(role, choice). (role, dump_option choice)) selections) k = map_option dump_option (map_of selections k)"
  by (induction selections) auto

lemma selection_after:
  assumes "\<And>u. parse (uuid_str u) = Some u" "distinct (map fst selections)"
  shows "selection_of parse (Some (store_selections selections old)) role =
    (case map_of selections (model_role_value role) of None \<Rightarrow> selection_of parse (Some old) role | Some x \<Rightarrow> Some x)"
proof -
  have "distinct (map fst (map (\<lambda>(role, choice). (role, dump_option choice)) selections))"
    using assms(2) by (simp add: comp_def case_prod_beta)
  then have at_role: "map_of (store_selections selections old) (model_role_value role)
      = (case map_of selections (model_role_value role) of None \<Rightarrow> map_of old (model_role_value role) | Some x \<Rightarrow> Some (dump_option x))"
    by (simp add: store_selections_def map_of_updates map_of_dumps map_add_def split: option.split)
  show ?thesis
  proof (cases "map_of selections (model_role_value role)")
    case None
    then show ?thesis
      using at_role by (simp add: selection_of_def)
  next
    case (Some x)
    then have "map_of (store_selections selections old) (model_role_value role) = Some (dump_option x)"
      using at_role by simp
    from selection_of_dump [OF assms(1) this] show ?thesis
      using Some by simp
  qed
qed

lemma access_keeps:
  "workspace_access uc st ws user minimum db = (r, db1)
    \<Longrightarrow> ab_workspaces db1 = ab_workspaces db \<and> ab_chunks db1 = ab_chunks db \<and> ab_credentials db1 = ab_credentials db"
  by (auto simp: workspace_access_def claim_pending_memberships_def Let_def split: option.splits sum.splits if_splits)

lemma access_workspace:
  "workspace_access uc st ws user minimum db = (Inr a, db1) \<Longrightarrow> row_get wk_id ws (ab_workspaces db1) = Some (wa_workspace a)"
  by (auto simp: workspace_access_def grant_def split: option.splits sum.splits if_splits)

lemma update_effect:
  assumes "snd (update_workspace_models ce me st user ws selections db) = db'"
  obtains "ab_workspaces db' = ab_workspaces db" "ab_chunks db' = ab_chunks db"
  | w where "row_get wk_id ws (ab_workspaces db) = Some w" "ab_chunks db' = ab_chunks db"
      "ab_workspaces db' = row_upd wk_id ws (\<lambda>_. w\<lparr>wk_model_settings := store_selections selections (wk_model_settings w)\<rparr>) (ab_workspaces db)"
      "\<And>x. map_of selections (model_role_value RoleEmbedding) = Some x \<Longrightarrow> RoleEmbedding \<in> locked_roles (ce_providers ce) db w
        \<Longrightarrow> (case selection_of (pv_parse_uuid (ce_providers ce)) (Some (wk_model_settings w)) RoleEmbedding of
            Some current \<Rightarrow> x = current | None \<Rightarrow> mo_model x = se_embedding_model (pv_settings (ce_providers ce)))"
proof -
  obtain r db1 where access: "workspace_access (ce_unicode ce) st ws user Admin db = (r, db1)"
    by fastforce
  note same = access_keeps [OF access]
  show thesis
  proof (cases r)
    case (Inl e)
    then show thesis
      using assms access same that(1) by (simp add: update_workspace_models_def with_access_def)
  next
    case (Inr a)
    define w where "w = wa_workspace a"
    have w: "row_get wk_id ws (ab_workspaces db1) = Some w"
      using access_workspace access Inr by (simp add: w_def)
    then have ws: "wk_id w = ws"
      using row_get_Some by fastforce
    show thesis
    proof (cases "update_models_body ce me selections a db1")
      case (Inl e)
      then show thesis
        using assms access same that(1) Inr by (simp add: update_workspace_models_def with_access_def respond_def)
    next
      case body: (Inr y)
      then have db': "db' = snd y"
        using assms access Inr by (cases y) (simp add: update_workspace_models_def with_access_def respond_def)
      have table: "db' = db1\<lparr>ab_workspaces := row_upd wk_id ws
          (\<lambda>_. w\<lparr>wk_model_settings := store_selections selections (wk_model_settings w)\<rparr>) (ab_workspaces db1)\<rparr>"
        and ok: "map_of selections (model_role_value RoleEmbedding) = Some x \<Longrightarrow> RoleEmbedding \<in> locked_roles (ce_providers ce) db1 w
          \<Longrightarrow> embedding_unchanged (ce_providers ce) db1 w x" for x
        using body ws unfolding db' by (auto simp: update_models_body_def w_def [symmetric] Let_def rbind_Inr_iff)
      have locked: "locked_roles (ce_providers ce) db1 w = locked_roles (ce_providers ce) db w"
        using same by (simp add: locked_roles_def has_indexed_chunks_def)
      show thesis
      proof (rule that(2) [of w])
        fix x
        assume "map_of selections (model_role_value RoleEmbedding) = Some x" "RoleEmbedding \<in> locked_roles (ce_providers ce) db w"
        then have "embedding_unchanged (ce_providers ce) db1 w x"
          using ok locked by simp
        then show "case selection_of (pv_parse_uuid (ce_providers ce)) (Some (wk_model_settings w)) RoleEmbedding of
            Some current \<Rightarrow> x = current | None \<Rightarrow> mo_model x = se_embedding_model (pv_settings (ce_providers ce))"
          using resolved_model [of "ce_providers ce" db1 "wk_id w" "wk_owner_id w"] w ws
          by (auto simp: embedding_unchanged_def embedding_model_def stored_choice_def split: option.splits sum.splits)
      qed (use same w table in simp_all)
    qed
  qed
qed

section \<open>Histories\<close>

lemma index_keeps_indexed:
  assumes run: "index_source env uuid5 st c s segments language db = Inr (n, db')"
    and home: "\<forall>k \<in> set (ab_chunks db). ck_source_id k = so_id s \<longrightarrow> ck_workspace_id k = so_workspace_id s"
    and indexed: "has_indexed_chunks ws db"
  shows "has_indexed_chunks ws db'"
proof (cases rule: index_source_Inr [OF run])
  case (1 normalized es event)
  let ?chunks = "chunk c normalized"
  let ?rows = "map (chunk_row_of st s) (enumerate 0 (zip ?chunks es))"
  have len: "length es = length ?chunks"
    using choose_embeddings_Inr [OF 1(2)] by blast
  obtain k where k: "k \<in> set (ab_chunks db)" "ck_workspace_id k = ws" "ck_embedding k \<noteq> None"
    using indexed by (auto simp: has_indexed_chunks_def)
  have rows: "set (ab_chunks db') = {k \<in> set (ab_chunks db). ck_source_id k \<noteq> so_id s} \<union> set ?rows"
    by (simp add: 1(3) replace_chunks_def add_audit_event_def Let_def)
  show ?thesis
  proof (cases "ck_source_id k = so_id s")
    case False
    then show ?thesis
      using k rows by (auto simp: has_indexed_chunks_def)
  next
    case True
    then have ws: "ws = so_workspace_id s"
      using home k by auto
    then obtain e rest where es: "es = e # rest" "e \<noteq> None"
      using choose_embeddings_Inr [OF 1(2)] len 1(5) indexed by (cases es) auto
    have "map ck_embedding ?rows = es"
      by (rule replaced_chunks(4) [OF len])
    then obtain r rest' where r: "?rows = r # rest'" "ck_embedding r = e"
      using es by (cases ?rows) auto
    have "\<forall>x \<in> set ?rows. ck_workspace_id x = so_workspace_id s"
      by (auto simp: chunk_row_of_def)
    then have "r \<in> set (ab_chunks db')" "ck_workspace_id r = ws"
      using r(1) rows ws by auto
    then show ?thesis
      using r(2) es(2) by (auto simp: has_indexed_chunks_def)
  qed
qed

text \<open>Updates of model choices by any users and indexing of any sources, one after another. The selections of an
  update have distinct roles, and the chunks of a source lie in its workspace.\<close>

inductive model_history :: "'v credential_env \<Rightarrow> model_env \<Rightarrow> app_db \<Rightarrow> app_db \<Rightarrow> bool" for ce me where
  history_start: "model_history ce me db db"
| history_update: "model_history ce me db db1 \<Longrightarrow> distinct (map fst selections)
    \<Longrightarrow> model_history ce me db (snd (update_workspace_models ce me st user ws selections db1))"
| history_index: "model_history ce me db db1
    \<Longrightarrow> \<forall>k \<in> set (ab_chunks db1). ck_source_id k = so_id s \<longrightarrow> ck_workspace_id k = so_workspace_id s
    \<Longrightarrow> index_source (ce_providers ce) uuid5 st c s segments language db1 = Inr (n, db2)
    \<Longrightarrow> model_history ce me db db2"

definition same_embedding :: "provider_env \<Rightarrow> uuid \<Rightarrow> app_db \<Rightarrow> app_db \<Rightarrow> bool" where
  "same_embedding env ws db db' \<longleftrightarrow> embedding_locked env db' ws \<and> embedding_model env db' ws = embedding_model env db ws
     \<and> (\<forall>x. stored_choice env db ws RoleEmbedding = Some x \<longrightarrow> stored_choice env db' ws RoleEmbedding = Some x)"

lemma update_keeps_embedding:
  assumes parse: "\<And>u. pv_parse_uuid (ce_providers ce) (uuid_str u) = Some u" and roles: "distinct (map fst selections)"
    and locked: "embedding_locked (ce_providers ce) db ws"
  shows "same_embedding (ce_providers ce) ws db (snd (update_workspace_models ce me st user ws' selections db))"
    (is "same_embedding ?env ws db ?db'")
proof (cases rule: update_effect [OF refl, of ce me st user ws' selections db])
  case 1
  then show ?thesis
    using locked by (simp add: same_embedding_def embedding_locked_def embedding_model_def stored_choice_def has_indexed_chunks_def)
next
  case (2 w)
  have indexed: "has_indexed_chunks ws ?db' = has_indexed_chunks ws db"
    using 2(2) by (simp add: has_indexed_chunks_def)
  show ?thesis
  proof (cases "ws' = ws")
    case False
    moreover have "wk_id w = ws'"
      using row_get_Some [OF 2(1)] by simp
    ultimately have "row_get wk_id ws (ab_workspaces ?db') = row_get wk_id ws (ab_workspaces db)"
      unfolding 2(3) using False by (subst row_get_put) simp_all
    then have "stored_choice ?env ?db' ws RoleEmbedding = stored_choice ?env db ws RoleEmbedding"
      by (simp add: stored_choice_def)
    then show ?thesis
      using locked indexed by (simp add: same_embedding_def embedding_locked_def embedding_model_def)
  next
    case True
    let ?old = "selection_of (pv_parse_uuid ?env) (Some (wk_model_settings w)) RoleEmbedding"
    have before: "stored_choice ?env db ws RoleEmbedding = ?old"
      using 2(1) True by (simp add: stored_choice_def)
    have after: "stored_choice ?env ?db' ws RoleEmbedding = (case map_of selections (model_role_value RoleEmbedding) of
        None \<Rightarrow> ?old | Some x \<Rightarrow> Some x)"
      using 2(1,3) True selection_after [OF parse roles] row_get_Some [OF 2(1)] by (simp add: stored_choice_def table_simps)
    have fixed: "RoleEmbedding \<in> locked_roles ?env db w"
      using locked locked_embedding 2(1) True by simp
    show ?thesis
    proof (cases "map_of selections (model_role_value RoleEmbedding)")
      case None
      then show ?thesis
        using locked indexed before after by (simp add: same_embedding_def embedding_locked_def embedding_model_def)
    next
      case (Some x)
      then show ?thesis
        using 2(4) [OF Some fixed] before after
        by (cases ?old) (simp_all add: same_embedding_def embedding_locked_def embedding_model_def)
    qed
  qed
qed

lemma index_keeps_embedding:
  assumes run: "index_source env uuid5 st c s segments language db = Inr (n, db')"
    and home: "\<forall>k \<in> set (ab_chunks db). ck_source_id k = so_id s \<longrightarrow> ck_workspace_id k = so_workspace_id s"
    and locked: "embedding_locked env db ws"
  shows "same_embedding env ws db db'"
proof -
  have "db' = (db\<lparr>ab_chunks := ab_chunks db', ab_audit := ab_audit db'\<rparr>)"
    using index_source_facts [OF run] by blast
  then have "ab_workspaces db' = ab_workspaces db"
    by (metis app_db.select_convs(1) app_db.surjective app_db.update_convs(11,13))
  then have "stored_choice env db' ws RoleEmbedding = stored_choice env db ws RoleEmbedding"
    by (simp add: stored_choice_def)
  then show ?thesis
    using locked index_keeps_indexed [OF run home] by (auto simp: same_embedding_def embedding_locked_def embedding_model_def)
qed

lemma same_embedding_trans: "same_embedding env ws a b \<Longrightarrow> same_embedding env ws b c \<Longrightarrow> same_embedding env ws a c"
  by (simp add: same_embedding_def)

lemma history_keeps_embedding:
  "model_history ce me db db' \<Longrightarrow> \<forall>u. pv_parse_uuid (ce_providers ce) (uuid_str u) = Some u
    \<Longrightarrow> embedding_locked (ce_providers ce) db ws \<Longrightarrow> same_embedding (ce_providers ce) ws db db'"
proof (induction rule: model_history.induct)
  case (history_start db)
  then show ?case
    by (simp add: same_embedding_def)
next
  case (history_update db db1 selections st user ws')
  note so_far = history_update.IH [OF history_update.prems]
  have "same_embedding (ce_providers ce) ws db1 (snd (update_workspace_models ce me st user ws' selections db1))"
    by (rule update_keeps_embedding) (use history_update.hyps(2) history_update.prems(1) so_far in \<open>simp_all add: same_embedding_def\<close>)
  then show ?case
    by (rule same_embedding_trans [OF so_far])
next
  case (history_index db db1 s uuid5 st c segments language n db2)
  note so_far = history_index.IH [OF history_index.prems]
  have "same_embedding (ce_providers ce) ws db1 db2"
    using index_keeps_embedding [OF history_index.hyps(3,2)] so_far by (simp add: same_embedding_def)
  then show ?case
    by (rule same_embedding_trans [OF so_far])
qed

text \<open>Where chunks were indexed without a stored choice, an option is refused under the identifier it is listed with,
  even if it is the model in use: only the same option without an identifier is recorded.\<close>

lemma listed_embedding_refused:
  assumes "selection_of (pv_parse_uuid env) (Some (wk_model_settings w)) RoleEmbedding = None"
    and "requested \<in> set (options_for_workspace uc prices env db ws owner provider RoleEmbedding)"
  shows "\<not> embedding_unchanged env db w requested"
proof -
  obtain a infos cid where l: "(a, infos, cid) \<in> set (workspace_listings env db ws owner provider)" "mo_credential_id requested = cid"
    using assms(2) unfolding options_for_workspace_def Let_def by (blast dest: bspec [OF conjunct1 [OF options_offered]])
  then obtain c where "listing_of env c = Some (a, infos, cid)"
    by (auto simp: set_workspace_listings)
  then have "cid \<noteq> None"
    unfolding listing_of_def by (cases "pv_adapter env c"; cases "resolve_credential_secret env c") auto
  then show ?thesis
    using assms(1) l(2) by (auto simp: embedding_unchanged_def split: sum.splits)
qed

section \<open>Properties\<close>

definition chosen_settings :: "(pystr \<times> json) list" where
  "chosen_settings = [(lit ''embedding'', dump_option \<lparr>mo_provider = ad_id sample_adapter, mo_model = lit ''old'', mo_credential_id = None\<rparr>)]"

definition chosen_db :: app_db where
  "chosen_db = example_db\<lparr>ab_workspaces := [\<lparr>wk_id = 1, wk_owner_id = 2, wk_name = [], wk_model_settings = chosen_settings, wk_created_at = 0\<rparr>]\<rparr>"

text \<open>A reading of identifiers that undoes \<^verbatim>\<open>str\<close> on every identifier.\<close>

definition read_env :: "(uuid \<times> pystr) list credential_env" where
  "read_env = list_env\<lparr>ce_providers := example_env\<lparr>pv_parse_uuid := inverse_uuid_str\<rparr>\<rparr>"

definition plain_models :: model_env where
  "plain_models = \<lparr>me_registry = (\<lambda>_ _. None), me_adapters = [], me_prices = None\<rparr>"

text \<open>C34: vectors of two models never meet in a workspace. Once a workspace has chosen its embedding model, or anything
  in it is indexed, no history of model updates by any users and of indexing changes the stored choice, and every
  connection that is resolved for embedding from then on uses the model it used before.\<close>
theorem embedding_model_is_fixed:
  assumes "model_history ce me db db'" "\<And>u. pv_parse_uuid (ce_providers ce) (uuid_str u) = Some u"
    and "stored_choice (ce_providers ce) db ws RoleEmbedding \<noteq> None \<or> has_indexed_chunks ws db"
  shows "(\<forall>x. stored_choice (ce_providers ce) db ws RoleEmbedding = Some x
        \<longrightarrow> stored_choice (ce_providers ce) db' ws RoleEmbedding = Some x)
    \<and> (\<forall>owner p. provider_with_model (ce_providers ce) db' ws owner RoleEmbedding None = Inr p \<longrightarrow> rv_model p =
        (case stored_choice (ce_providers ce) db ws RoleEmbedding of
          None \<Rightarrow> se_embedding_model (pv_settings (ce_providers ce)) | Some x \<Rightarrow> mo_model x))"
proof -
  have "same_embedding (ce_providers ce) ws db db'"
    using history_keeps_embedding [OF assms(1)] assms(2,3) by (simp add: embedding_locked_def)
  then show ?thesis
    using resolved_model [of "ce_providers ce" db' ws] unfolding same_embedding_def embedding_model_def by metis
qed

lemma read_uuid: "pv_parse_uuid (ce_providers read_env) (uuid_str u) = Some u"
proof -
  have "inj uuid_str"
    by (simp add: inj_def uuid_str_inj)
  then show ?thesis
    by (simp add: read_env_def inverse_uuid_str_def)
qed

lemma chosen_choice: "stored_choice (ce_providers read_env) chosen_db 1 RoleEmbedding
    = Some \<lparr>mo_provider = ad_id sample_adapter, mo_model = lit ''old'', mo_credential_id = None\<rparr>"
  using selection_of_dump [of "pv_parse_uuid (ce_providers read_env)" chosen_settings RoleEmbedding] read_uuid
  by (simp add: stored_choice_def chosen_db_def chosen_settings_def)

theorem embedding_model_is_fixed_witness:
  "stored_choice (ce_providers read_env) (snd (update_workspace_models read_env plain_models example_stamp list_user 1
      [(lit ''embedding'', \<lparr>mo_provider = ad_id sample_adapter, mo_model = lit ''e'', mo_credential_id = None\<rparr>)] chosen_db))
      1 RoleEmbedding = Some \<lparr>mo_provider = ad_id sample_adapter, mo_model = lit ''old'', mo_credential_id = None\<rparr>"
proof -
  let ?new = "[(lit ''embedding'', \<lparr>mo_provider = ad_id sample_adapter, mo_model = lit ''e'', mo_credential_id = None\<rparr>)]"
  have "model_history read_env plain_models chosen_db
      (snd (update_workspace_models read_env plain_models example_stamp list_user 1 ?new chosen_db))"
    by (intro history_update history_start) simp
  from embedding_model_is_fixed [OF this read_uuid, of 1] show ?thesis
    using chosen_choice by simp
qed

end
