(* ===== verification/OllamaEndpoint.thy ===== *)
theory OllamaEndpoint
  imports SourceProcessing
begin

text \<open>
  Outbound connections to a workspace's Ollama server (\<^verbatim>\<open>core/ollama_endpoint.py\<close>): the normal form of a server
  address, the network policy on every answer of the resolver, and the client that reaches one checked address
  only. The Python library is spelled out where the code rests on it: \<^verbatim>\<open>urlsplit\<close> on the texts the code gives it,
  and the address classes of \<^verbatim>\<open>ipaddress\<close> (of Python 3.12) on 32 and 128 bit words. Reading and printing an address
  and the IDNA codec are arguments. Every \<^verbatim>\<open>ValueError\<close> is \<open>None\<close>.
\<close>

section \<open>Addresses\<close>

datatype ip_address = V4 "32 word" | V6 "128 word" "pystr option"

definition ipv4 :: "int \<Rightarrow> int \<Rightarrow> int \<Rightarrow> int \<Rightarrow> 32 word" where
  "ipv4 a b c d = word_of_int (((a * 256 + b) * 256 + c) * 256 + d)"

text \<open>A network is its address and the length of its prefix.\<close>

definition in_net :: "'a::len word \<Rightarrow> 'a word \<times> nat \<Rightarrow> bool" where
  "in_net a = (\<lambda>(base, prefix). uint a div 2 ^ (LENGTH('a) - prefix) = uint base div 2 ^ (LENGTH('a) - prefix))"

definition in_any :: "'a::len word \<Rightarrow> ('a word \<times> nat) list \<Rightarrow> bool" where
  "in_any a nets \<longleftrightarrow> (\<exists>n \<in> set nets. in_net a n)"

text \<open>The first sixteen-bit groups of an address of the newer kind.\<close>

definition ipv6 :: "int list \<Rightarrow> 128 word" where
  "ipv6 groups = word_of_int (foldl (\<lambda>n g. n * 65536 + g) 0 groups * 65536 ^ (8 - length groups))"

definition private_v4 :: "(32 word \<times> nat) list" where
  "private_v4 = [(ipv4 0 0 0 0, 8), (ipv4 10 0 0 0, 8), (ipv4 127 0 0 0, 8), (ipv4 169 254 0 0, 16), (ipv4 172 16 0 0, 12),
     (ipv4 192 0 0 0, 24), (ipv4 192 0 0 170, 31), (ipv4 192 0 2 0, 24), (ipv4 192 168 0 0, 16), (ipv4 198 18 0 0, 15),
     (ipv4 198 51 100 0, 24), (ipv4 203 0 113 0, 24), (ipv4 240 0 0 0, 4), (ipv4 255 255 255 255, 32)]"

definition global_v4 :: "32 word \<Rightarrow> bool" where
  "global_v4 a \<longleftrightarrow> \<not> in_net a (ipv4 100 64 0 0, 10)
     \<and> \<not> (in_any a private_v4 \<and> \<not> in_any a [(ipv4 192 0 0 9, 32), (ipv4 192 0 0 10, 32)])"

definition private_v6 :: "(128 word \<times> nat) list" where
  "private_v6 = [(1, 128), (0, 128), (ipv6 [0, 0, 0, 0, 0, 65535], 96), (ipv6 [100, 65435, 1], 48), (ipv6 [256], 64),
     (ipv6 [8193], 23), (ipv6 [8193, 3512], 32), (ipv6 [8194], 16), (ipv6 [64512], 7), (ipv6 [65152], 10)]"

definition public_v6 :: "(128 word \<times> nat) list" where
  "public_v6 = [(ipv6 [8193, 1, 0, 0, 0, 0, 0, 1], 128), (ipv6 [8193, 1, 0, 0, 0, 0, 0, 2], 128), (ipv6 [8193, 3], 32),
     (ipv6 [8193, 4, 274], 48), (ipv6 [8193, 32], 28), (ipv6 [8193, 48], 28)]"

definition mapped_v4 :: "128 word \<Rightarrow> 32 word option" where
  "mapped_v4 a = (if uint a div 2 ^ 32 = 65535 then Some (ucast a) else None)"

definition global_v6 :: "128 word \<Rightarrow> bool" where
  "global_v6 a \<longleftrightarrow> \<not> (in_any a private_v6 \<and> \<not> in_any a public_v6)"

definition reserved_v6 :: "(128 word \<times> nat) list" where
  "reserved_v6 = [(0, 8), (ipv6 [256], 8), (ipv6 [512], 7), (ipv6 [1024], 6), (ipv6 [2048], 5), (ipv6 [4096], 4),
     (ipv6 [16384], 3), (ipv6 [24576], 3), (ipv6 [32768], 3), (ipv6 [40960], 3), (ipv6 [49152], 3), (ipv6 [57344], 4),
     (ipv6 [61440], 5), (ipv6 [63488], 6), (ipv6 [65024], 9)]"

section \<open>The network policy\<close>

definition private_networks_v4 :: "(32 word \<times> nat) list" where
  "private_networks_v4 = [(ipv4 10 0 0 0, 8), (ipv4 172 16 0 0, 12), (ipv4 192 168 0 0, 16)]"

definition private_networks_v6 :: "(128 word \<times> nat) list" where
  "private_networks_v6 = [(ipv6 [64512], 7)]"

definition blocked_transitions :: "(128 word \<times> nat) list" where
  "blocked_transitions = [(ipv6 [100, 65435], 96), (ipv6 [100, 65435, 1], 48), (ipv6 [8193], 32), (ipv6 [8194], 16)]"

definition metadata_v4 :: "32 word list" where
  "metadata_v4 = [ipv4 100 100 100 200, ipv4 168 63 129 16, ipv4 192 0 0 192]"

definition metadata_v6 :: "128 word list" where
  "metadata_v6 = [ipv6 [64768, 3778, 0, 0, 0, 0, 0, 596], ipv6 [64800, 206, 0, 0, 0, 0, 0, 596]]"

definition safe_v4 :: "bool \<Rightarrow> 32 word \<Rightarrow> bool" where
  "safe_v4 allow_private a =
     (if a \<in> set metadata_v4 \<or> in_net a (ipv4 169 254 0 0, 16) \<or> in_net a (ipv4 224 0 0 0, 4) \<or> a = 0
        \<or> in_net a (ipv4 240 0 0 0, 4) \<and> \<not> in_net a (ipv4 127 0 0 0, 8) then False
      else if global_v4 a then True
      else allow_private \<and> (in_net a (ipv4 127 0 0 0, 8) \<or> in_any a private_networks_v4))"

definition safe_v6 :: "bool \<Rightarrow> 128 word \<Rightarrow> bool" where
  "safe_v6 allow_private a =
     (if a \<in> set metadata_v6 \<or> in_net a (ipv6 [65152], 10) \<or> in_net a (ipv6 [65280], 8) \<or> a = 0
        \<or> in_any a reserved_v6 \<and> a \<noteq> 1 then False
      else if global_v6 a then True
      else allow_private \<and> (a = 1 \<or> in_any a private_networks_v6))"

fun safe_ip :: "bool \<Rightarrow> ip_address \<Rightarrow> bool" where
  "safe_ip allow_private (V4 a) = safe_v4 allow_private a"
| "safe_ip allow_private (V6 a scope) =
     (if scope \<noteq> None then False
      else if in_any a blocked_transitions then False
      else (case mapped_v4 a of Some b \<Rightarrow> safe_v4 allow_private b | None \<Rightarrow> safe_v6 allow_private a))"

fun public_ip :: "ip_address \<Rightarrow> bool" where
  "public_ip (V4 a) = global_v4 a"
| "public_ip (V6 a scope) = (case mapped_v4 a of Some b \<Rightarrow> global_v4 b | None \<Rightarrow> global_v6 a)"

record net_lib =
  nl_unicode :: unicode
  nl_parse :: "pystr \<Rightarrow> ip_address option"
  nl_print :: "ip_address \<Rightarrow> pystr"
  nl_idna :: "pystr \<Rightarrow> pystr option"

definition safe_address :: "net_lib \<Rightarrow> bool \<Rightarrow> pystr \<Rightarrow> bool" where
  "safe_address lib allow_private v = (case nl_parse lib v of None \<Rightarrow> False | Some a \<Rightarrow> safe_ip allow_private a)"

definition is_public_address :: "net_lib \<Rightarrow> pystr \<Rightarrow> bool option" where
  "is_public_address lib v = map_option public_ip (nl_parse lib v)"

section \<open>Texts of addresses\<close>

definition upto_char :: "nat \<Rightarrow> pystr \<Rightarrow> pystr" where
  "upto_char c s = takeWhile (\<lambda>x. x \<noteq> c) s"

definition after_char :: "nat \<Rightarrow> pystr \<Rightarrow> pystr" where
  "after_char c s = drop 1 (dropWhile (\<lambda>x. x \<noteq> c) s)"

definition ascii_alpha :: "nat \<Rightarrow> bool" where
  "ascii_alpha c \<longleftrightarrow> 65 \<le> c \<and> c \<le> 90 \<or> 97 \<le> c \<and> c \<le> 122"

definition ascii_digit :: "nat \<Rightarrow> bool" where
  "ascii_digit c \<longleftrightarrow> 48 \<le> c \<and> c \<le> 57"

definition scheme_char :: "nat \<Rightarrow> bool" where
  "scheme_char c \<longleftrightarrow> ascii_alpha c \<or> ascii_digit c \<or> c \<in> {43, 45, 46}"

definition split_scheme :: "pystr \<Rightarrow> pystr \<times> pystr" where
  "split_scheme v = (let s = upto_char 58 v in
     if 58 \<in> set v \<and> s \<noteq> [] \<and> ascii_alpha (hd s) \<and> list_all scheme_char s
     then (map ascii_lower s, after_char 58 v) else ([], v))"

definition split_netloc :: "pystr \<Rightarrow> pystr \<times> pystr" where
  "split_netloc v = (if take 2 v = [47, 47] then (upto_char 47 (drop 2 v), dropWhile (\<lambda>x. x \<noteq> 47) (drop 2 v)) else ([], v))"

definition hex_char :: "nat \<Rightarrow> bool" where
  "hex_char c \<longleftrightarrow> ascii_digit c \<or> 65 \<le> c \<and> c \<le> 70 \<or> 97 \<le> c \<and> c \<le> 102"

text \<open>\<^verbatim>\<open>\Av[a-fA-F0-9]+\..+\Z\<close>\<close>

definition future_host :: "pystr \<Rightarrow> bool" where
  "future_host h \<longleftrightarrow> (let rest = dropWhile hex_char (tl h) in
     takeWhile hex_char (tl h) \<noteq> [] \<and> 2 \<le> length rest \<and> hd rest = 46 \<and> 10 \<notin> set rest)"

definition bracketed_ok :: "net_lib \<Rightarrow> pystr \<Rightarrow> bool" where
  "bracketed_ok lib h = (if h \<noteq> [] \<and> hd h = 118 then future_host h
     else (case nl_parse lib h of Some (V6 a scope) \<Rightarrow> True | _ \<Rightarrow> False))"

definition brackets_ok :: "net_lib \<Rightarrow> pystr \<Rightarrow> bool" where
  "brackets_ok lib netloc \<longleftrightarrow> (91 \<in> set netloc \<longleftrightarrow> 93 \<in> set netloc)
     \<and> (91 \<in> set netloc \<longrightarrow> bracketed_ok lib (upto_char 93 (after_char 91 netloc)))"

definition nfkc_ok :: "net_lib \<Rightarrow> pystr \<Rightarrow> bool" where
  "nfkc_ok lib netloc \<longleftrightarrow> (\<forall>c \<in> set netloc. c < 128)
     \<or> (let n = filter (\<lambda>c. c \<notin> {64, 58, 35, 63}) netloc; k = uc_nfkc (nl_unicode lib) n in
        n = k \<or> (\<forall>c \<in> set k. c \<notin> {47, 63, 35, 64, 58}))"

text \<open>\<^verbatim>\<open>urlsplit\<close> of a text without control characters, blanks around it, \<^verbatim>\<open>?\<close> and \<^verbatim>\<open>#\<close>.\<close>

definition url_split :: "net_lib \<Rightarrow> pystr \<Rightarrow> (pystr \<times> pystr \<times> pystr) option" where
  "url_split lib v = (case split_scheme v of (scheme, rest) \<Rightarrow> (case split_netloc rest of (netloc, path) \<Rightarrow>
     if brackets_ok lib netloc \<and> nfkc_ok lib netloc then Some (scheme, netloc, path) else None))"

definition host_info :: "pystr \<Rightarrow> pystr \<times> pystr" where
  "host_info netloc = (let info = rev (takeWhile (\<lambda>c. c \<noteq> 64) (rev netloc)) in
     if 91 \<in> set info then (upto_char 93 (after_char 91 info), after_char 58 (after_char 93 (after_char 91 info)))
     else (upto_char 58 info, after_char 58 info))"

definition host_name :: "net_lib \<Rightarrow> pystr \<Rightarrow> pystr" where
  "host_name lib netloc = (let h = fst (host_info netloc) in
     uc_lower (nl_unicode lib) (upto_char 37 h) @ dropWhile (\<lambda>c. c \<noteq> 37) h)"

definition digits_nat :: "pystr \<Rightarrow> nat" where
  "digits_nat s = foldl (\<lambda>n c. n * 10 + (c - 48)) 0 s"

definition port_of :: "pystr \<Rightarrow> nat option option" where
  "port_of netloc = (let p = snd (host_info netloc) in
     if p = [] then Some None
     else if list_all ascii_digit p \<and> digits_nat p \<le> 65535 then Some (Some (digits_nat p)) else None)"

section \<open>The normal form\<close>

definition label_char :: "nat \<Rightarrow> bool" where
  "label_char c \<longleftrightarrow> 97 \<le> c \<and> c \<le> 122 \<or> ascii_digit c"

definition host_label :: "pystr \<Rightarrow> bool" where
  "host_label l \<longleftrightarrow> l \<noteq> [] \<and> length l \<le> 63 \<and> label_char (hd l) \<and> label_char (last l)
     \<and> list_all (\<lambda>c. label_char c \<or> c = 45) l"

definition canonical_host :: "net_lib \<Rightarrow> pystr \<Rightarrow> pystr option" where
  "canonical_host lib h = (if h = [] \<or> 37 \<in> set h \<or> last h = 46 then None
     else (case nl_parse lib h of
         Some a \<Rightarrow> Some (nl_print lib a)
       | None \<Rightarrow> (case nl_idna lib h of
           None \<Rightarrow> None
         | Some t \<Rightarrow> let a = map ascii_lower t in
             if 253 < length a \<or> \<not> list_all host_label (split_on 46 a) then None else Some a)))"

definition utf8_size :: "pystr \<Rightarrow> nat option" where
  "utf8_size s = (if \<exists>c \<in> set s. 55296 \<le> c \<and> c \<le> 57343 then None
     else Some (sum_list (map (\<lambda>c. if c < 128 then 1 else if c < 2048 then 2 else if c < 65536 then 3 else 4) s)))"

definition sendable_text :: "pystr \<Rightarrow> bool" where
  "sendable_text v \<longleftrightarrow> length v \<le> 2048 \<and> (case utf8_size v of None \<Rightarrow> False | Some n \<Rightarrow> n \<le> 2048) \<and> v \<noteq> [] \<and> strip v = v
     \<and> list_all (\<lambda>c. 33 \<le> c \<and> c \<noteq> 127 \<and> c \<noteq> 92 \<and> c \<noteq> 63 \<and> c \<noteq> 35) v"

definition path_ok :: "pystr \<Rightarrow> bool" where
  "path_ok path \<longleftrightarrow> path = [] \<or> hd path = 47 \<and> 37 \<notin> set path \<and> \<not> contains [47, 47] path
     \<and> list_all (\<lambda>segment. segment \<noteq> [46] \<and> segment \<noteq> [46, 46]) (split_on 47 path)"

definition rstrip_slash :: "pystr \<Rightarrow> pystr" where
  "rstrip_slash path = rev (dropWhile (\<lambda>c. c = 47) (rev path))"

definition build_url :: "pystr \<Rightarrow> pystr \<Rightarrow> nat option \<Rightarrow> pystr \<Rightarrow> pystr" where
  "build_url scheme host port path = scheme @ [58, 47, 47] @ (if 58 \<in> set host then [91] @ host @ [93] else host)
     @ (case port of None \<Rightarrow> [] | Some p \<Rightarrow> 58 # nat_str p) @ path"

definition normalize_ollama_url :: "net_lib \<Rightarrow> pystr \<Rightarrow> pystr option" where
  "normalize_ollama_url lib v = (if \<not> sendable_text v then None
     else (case url_split lib v of
         None \<Rightarrow> None
       | Some (scheme, netloc, path) \<Rightarrow>
           if scheme \<notin> {lit ''http'', lit ''https''} \<or> netloc = [] \<or> 64 \<in> set netloc \<or> 37 \<in> set netloc then None
           else (case (canonical_host lib (host_name lib netloc), port_of netloc) of
               (Some host, Some port) \<Rightarrow>
                 if port = Some 0 \<or> last netloc = 58 \<or> \<not> path_ok path then None
                 else Some (build_url scheme host port (rstrip_slash path))
             | _ \<Rightarrow> None)))"

section \<open>The client\<close>

text \<open>Whether the administrator allows private addresses for this host and port.\<close>

fun allowed_host :: "net_lib \<Rightarrow> pystr \<Rightarrow> nat \<Rightarrow> pystr list \<Rightarrow> bool option" where
  "allowed_host lib host port [] = Some False"
| "allowed_host lib host port (entry # entries) =
     (case normalize_ollama_url lib (lit ''https://'' @ entry) of
       None \<Rightarrow> None
     | Some url \<Rightarrow> (case url_split lib url of
         None \<Rightarrow> None
       | Some (scheme, netloc, path) \<Rightarrow>
           if path \<noteq> [] then None
           else if host_name lib netloc \<noteq> host then allowed_host lib host port entries
           else (case port_of netloc of
               None \<Rightarrow> None
             | Some p \<Rightarrow> if p = None \<or> p = Some port then Some True else allowed_host lib host port entries)))"

record ollama_client =
  oc_base_url :: pystr
  oc_key :: pystr
  oc_origin :: "pystr \<times> pystr \<times> nat"
  oc_address :: pystr

definition default_port :: "pystr \<Rightarrow> nat option \<Rightarrow> nat" where
  "default_port scheme port = (case port of
     Some p \<Rightarrow> if p \<noteq> 0 then p else if scheme = lit ''https'' then 443 else 80
   | None \<Rightarrow> if scheme = lit ''https'' then 443 else 80)"

text \<open>\<open>answers\<close> are the addresses the resolver returned; \<open>None\<close> is a failed lookup.\<close>

definition resolve_addresses :: "pystr list option \<Rightarrow> pystr list option" where
  "resolve_addresses answers = (case answers of None \<Rightarrow> None
     | Some records \<Rightarrow> if fromkeys records = [] then None else Some (fromkeys records))"

text \<open>The policy on the resolved addresses and the key.\<close>

definition connection_allowed :: "net_lib \<Rightarrow> pystr \<Rightarrow> pystr \<Rightarrow> bool \<Rightarrow> bool \<Rightarrow> pystr list \<Rightarrow> bool" where
  "connection_allowed lib scheme key private_network allow_private addresses \<longleftrightarrow>
     list_all (safe_address lib allow_private) addresses
   \<and> (scheme = lit ''http'' \<longrightarrow> allow_private \<and> list_all (\<lambda>a. is_public_address lib a = Some False) addresses)
   \<and> list_all (\<lambda>c. 33 \<le> c \<and> c \<le> 126) key
   \<and> (key \<noteq> [] \<and> scheme = lit ''http'' \<longrightarrow> private_network)"

definition make_ollama_client ::
  "net_lib \<Rightarrow> (pystr \<Rightarrow> nat \<Rightarrow> pystr list option) \<Rightarrow> pystr \<Rightarrow> pystr \<Rightarrow> bool \<Rightarrow> pystr list \<Rightarrow> ollama_client option" where
  "make_ollama_client lib lookup base_url key private_network allowed =
     Option.bind (normalize_ollama_url lib base_url) (\<lambda>url.
     Option.bind (url_split lib url) (\<lambda>(scheme, netloc, path).
     Option.bind (port_of netloc) (\<lambda>given.
     let host = host_name lib netloc; port = default_port scheme given in
     Option.bind (if private_network then Some True else allowed_host lib host port allowed) (\<lambda>allow_private.
     Option.bind (resolve_addresses (lookup host port)) (\<lambda>addresses.
       if connection_allowed lib scheme key private_network allow_private addresses
       then Some \<lparr>oc_base_url = url, oc_key = key, oc_origin = (scheme, host, port), oc_address = hd addresses\<rparr>
       else None)))))"

text \<open>A request names a scheme, a host and maybe a port. The pool opens its connection through the pinned backend,
  to the host and port of the request's origin.\<close>

definition connect_tcp :: "ollama_client \<Rightarrow> pystr \<Rightarrow> nat \<Rightarrow> (pystr \<times> nat) option" where
  "connect_tcp c host port = (case oc_origin c of (_, own_host, own_port) \<Rightarrow>
     if host \<noteq> own_host \<or> port \<noteq> own_port then None else Some (oc_address c, port))"

definition request_origin :: "pystr \<times> pystr \<times> nat option \<Rightarrow> pystr \<times> pystr \<times> nat" where
  "request_origin = (\<lambda>(scheme, host, port). (scheme, host, default_port scheme port))"

definition handle_async_request :: "ollama_client \<Rightarrow> pystr \<times> pystr \<times> nat option \<Rightarrow> (pystr \<times> nat) option" where
  "handle_async_request c r = (if request_origin r \<noteq> oc_origin c then None
     else (case request_origin r of (scheme, host, port) \<Rightarrow> connect_tcp c host port))"

section \<open>Networks\<close>

lemma in_net_nested:
  assumes "in_net a (base, p)" "q \<le> p" "p \<le> LENGTH('a)"
  shows "in_net (a::'a::len word) (other, q) \<longleftrightarrow> in_net base (other, q)"
proof -
  have "(2::int) ^ (LENGTH('a) - q) = 2 ^ (LENGTH('a) - p) * 2 ^ (p - q)"
    using assms(2,3) by (simp flip: power_add)
  then have shift: "uint x div 2 ^ (LENGTH('a) - q) = uint x div 2 ^ (LENGTH('a) - p) div 2 ^ (p - q)" for x :: "'a word"
    by (simp add: zdiv_zmult2_eq)
  show ?thesis
    using assms(1) by (simp only: in_net_def prod.case shift)
qed

text \<open>Whether no network of one list meets one of another.\<close>

definition nets_apart :: "('a::len word \<times> nat) list \<Rightarrow> ('a word \<times> nat) list \<Rightarrow> bool" where
  "nets_apart ns ms \<longleftrightarrow> list_all (\<lambda>(b, p). list_all (\<lambda>(c, q). q \<le> p \<and> p \<le> LENGTH('a) \<and> \<not> in_net b (c, q)) ms) ns"

lemma nets_apart_in: "nets_apart ns ms \<Longrightarrow> in_any a ns \<Longrightarrow> \<not> in_any a ms"
  unfolding nets_apart_def in_any_def list_all_iff using in_net_nested by fast

definition inner_v4 :: "(32 word \<times> nat) list" where
  "inner_v4 = [(ipv4 0 0 0 0, 8), (ipv4 10 0 0 0, 8), (ipv4 100 64 0 0, 10), (ipv4 127 0 0 0, 8), (ipv4 172 16 0 0, 12),
     (ipv4 192 168 0 0, 16)]"

definition barred_v4 :: "(32 word \<times> nat) list" where
  "barred_v4 = [(ipv4 169 254 0 0, 16), (ipv4 224 0 0 0, 4), (ipv4 240 0 0 0, 4), (ipv4 0 0 0 0, 32), (ipv4 100 100 100 200, 32),
     (ipv4 168 63 129 16, 32), (ipv4 192 0 0 192, 32)]"

definition inner_v6 :: "(128 word \<times> nat) list" where
  "inner_v6 = [(1, 128), (ipv6 [64512], 7)]"

definition barred_v6 :: "(128 word \<times> nat) list" where
  "barred_v6 = [(0, 128), (ipv6 [65152], 10), (ipv6 [65280], 8), (ipv6 [100, 65435], 96), (ipv6 [100, 65435, 1], 48),
     (ipv6 [8193], 32), (ipv6 [8194], 16), (ipv6 [64768, 3778, 0, 0, 0, 0, 0, 596], 128), (ipv6 [64800, 206, 0, 0, 0, 0, 0, 596], 128)]"

lemmas net_eval = nets_apart_def in_any_def in_net_def ipv4_def ipv6_def uint_word_of_int

lemma in_any_simps [simp]: "\<not> in_any a []" "in_any a (n # ns) \<longleftrightarrow> in_net a n \<or> in_any a ns"
  by (auto simp: in_any_def)

lemma in_net_single [simp]: "in_net (a::32 word) (b, 32) \<longleftrightarrow> a = b" "in_net (a'::128 word) (b', 128) \<longleftrightarrow> a' = b'"
  by (simp_all add: in_net_def word_uint_eq_iff)

lemma global_v4_outside: "global_v4 a \<Longrightarrow> \<not> in_any a inner_v4"
proof -
  assume global: "global_v4 a"
  have "nets_apart [(ipv4 192 0 0 9, 32), (ipv4 192 0 0 10, 32)] inner_v4"
    by (simp add: net_eval inner_v4_def)
  from nets_apart_in [OF this, of a] show ?thesis
    using global unfolding global_v4_def private_v4_def inner_v4_def by auto
qed

lemma global_v6_outside: "global_v6 a \<Longrightarrow> \<not> in_any a inner_v6"
proof -
  assume global: "global_v6 a"
  have "nets_apart public_v6 [(ipv6 [64512], 7)]" "\<not> in_any 1 public_v6"
    by (simp_all add: net_eval public_v6_def)
  from nets_apart_in [OF this(1), of a] this(2) show ?thesis
    using global unfolding global_v6_def private_v6_def inner_v6_def by auto
qed

lemma safe_v4_outside: "safe_v4 allow_private a \<Longrightarrow> \<not> in_any a barred_v4 \<and> (\<not> allow_private \<longrightarrow> \<not> in_any a inner_v4)"
proof -
  assume safe: "safe_v4 allow_private a"
  have "\<not> in_net a (ipv4 240 0 0 0, 4)"
  proof
    assume "in_net a (ipv4 240 0 0 0, 4)"
    moreover have "nets_apart [(ipv4 127 0 0 0, 8)] [(ipv4 240 0 0 0, 4)]"
      by (simp add: net_eval)
    ultimately show False
      using safe nets_apart_in [of "[(ipv4 127 0 0 0, 8)]" "[(ipv4 240 0 0 0, 4)]" a] by (auto simp: safe_v4_def split: if_splits)
  qed
  moreover have "ipv4 0 0 0 0 = 0"
    by (simp add: ipv4_def)
  ultimately show ?thesis
    using safe global_v4_outside [of a] by (auto simp: safe_v4_def barred_v4_def metadata_v4_def split: if_splits)
qed

definition v4_of :: "ip_address \<Rightarrow> 32 word option" where
  "v4_of a = (case a of V4 b \<Rightarrow> Some b | V6 b _ \<Rightarrow> mapped_v4 b)"

text \<open>Outside the barred networks, and outside the inner ones unless they are allowed.\<close>

definition outside :: "bool \<Rightarrow> ip_address \<Rightarrow> bool" where
  "outside allow_private a \<longleftrightarrow>
     (\<forall>b. v4_of a = Some b \<longrightarrow> \<not> in_any b barred_v4 \<and> (\<not> allow_private \<longrightarrow> \<not> in_any b inner_v4))
   \<and> (\<forall>b scope. a = V6 b scope \<longrightarrow> scope = None \<and> (mapped_v4 b = None \<longrightarrow>
        \<not> in_any b barred_v6 \<and> (\<not> allow_private \<longrightarrow> \<not> in_any b inner_v6)))"

lemma safe_outside: "safe_ip allow_private a \<Longrightarrow> outside allow_private a"
proof (cases a)
  case (V4 b)
  then show "safe_ip allow_private a \<Longrightarrow> outside allow_private a"
    using safe_v4_outside by (simp add: outside_def v4_of_def)
next
  case (V6 b scope)
  assume safe: "safe_ip allow_private a"
  have transitions: "\<not> in_any b blocked_transitions" "scope = None"
    using safe V6 by (auto split: if_splits)
  show "outside allow_private a"
  proof (cases "mapped_v4 b")
    case None
    then have "safe_v6 allow_private b"
      using safe V6 by (auto split: if_splits)
    then have "\<not> in_any b barred_v6 \<and> (\<not> allow_private \<longrightarrow> \<not> in_any b inner_v6)"
      using transitions(1) global_v6_outside [of b]
      by (auto simp: safe_v6_def barred_v6_def blocked_transitions_def metadata_v6_def split: if_splits)
    then show ?thesis
      using V6 None transitions(2) by (simp add: outside_def v4_of_def)
  next
    case (Some c)
    then have "safe_v4 allow_private c"
      using safe V6 by (auto split: if_splits)
    then show ?thesis
      using V6 Some transitions(2) safe_v4_outside by (simp add: outside_def v4_of_def)
  qed
qed

text \<open>The policy takes the site-local addresses of the older standard for public ones.\<close>

lemma site_local_is_accepted: "safe_ip False (V6 (ipv6 [65216, 0, 0, 0, 0, 0, 0, 1]) None)"
proof -
  let ?a = "ipv6 [65216, 0, 0, 0, 0, 0, 0, 1]"
  have net: "\<not> in_any ?a blocked_transitions" "\<not> in_any ?a reserved_v6" "\<not> in_any ?a private_v6"
    "\<not> in_any ?a [(ipv6 [65152], 10), (ipv6 [65280], 8), (0, 128)]"
    by (simp_all add: net_eval blocked_transitions_def reserved_v6_def private_v6_def)
  moreover have "mapped_v4 ?a = None" "?a \<notin> set metadata_v6"
    by (simp_all add: net_eval mapped_v4_def metadata_v6_def)
  ultimately show ?thesis
    by (simp add: safe_v6_def global_v6_def)
qed


section \<open>What the client reaches\<close>

lemma client_made:
  assumes "make_ollama_client lib lookup base_url key private_network allowed = Some c"
  obtains url scheme host port allow_private records where "normalize_ollama_url lib base_url = Some url"
    "oc_base_url c = url" "oc_key c = key" "oc_origin c = (scheme, host, port)" "lookup host port = Some records"
    "oc_address c \<in> set records" "connection_allowed lib scheme key private_network allow_private (fromkeys records)"
    "allow_private \<longrightarrow> private_network \<or> allowed_host lib host port allowed = Some True"
proof -
  obtain url scheme netloc path given allow_private addresses where url: "normalize_ollama_url lib base_url = Some url"
    and allow: "(if private_network then Some True
        else allowed_host lib (host_name lib netloc) (default_port scheme given) allowed) = Some allow_private"
    and resolved: "resolve_addresses (lookup (host_name lib netloc) (default_port scheme given)) = Some addresses"
    and final: "(if connection_allowed lib scheme key private_network allow_private addresses
       then Some \<lparr>oc_base_url = url, oc_key = key, oc_origin = (scheme, host_name lib netloc, default_port scheme given),
         oc_address = hd addresses\<rparr> else None) = Some c"
    using assms unfolding make_ollama_client_def Let_def bind_eq_Some_conv case_prod_beta
    by (elim exE conjE) (rule that; assumption)
  let ?host = "host_name lib netloc" and ?port = "default_port scheme given"
  have run: "connection_allowed lib scheme key private_network allow_private addresses"
      "c = \<lparr>oc_base_url = url, oc_key = key, oc_origin = (scheme, ?host, ?port), oc_address = hd addresses\<rparr>"
    using final by (simp_all split: if_splits)
  obtain records where records: "lookup ?host ?port = Some records"
      "addresses = fromkeys records" "fromkeys records \<noteq> []"
    using resolved by (auto simp: resolve_addresses_def split: option.splits if_splits)
  have member: "hd addresses \<in> set records"
    using hd_in_set [OF records(3)] by (simp add: records(2) fromkeys_def)
  have "connection_allowed lib scheme key private_network allow_private (fromkeys records)"
    using run(1) records(2) by simp
  moreover have "allow_private \<longrightarrow> private_network \<or> allowed_host lib ?host ?port allowed = Some True"
    using allow by (cases private_network) simp_all
  ultimately show thesis
    by (intro that [OF url _ _ _ records(1)]) (simp_all add: run(2) member)
qed

lemma handled:
  "handle_async_request c r = Some (address, port)
    \<longleftrightarrow> request_origin r = oc_origin c \<and> port = snd (snd (oc_origin c)) \<and> address = oc_address c"
  by (auto simp: handle_async_request_def connect_tcp_def split: prod.splits)

section \<open>The normal form is a fixed point\<close>

definition host_char :: "nat \<Rightarrow> bool" where
  "host_char c \<longleftrightarrow> label_char c \<or> c \<in> {45, 46, 58}"

text \<open>What the code rests on in reading and printing addresses and in the IDNA codec: an address that was read from a
  text without a zone prints as lower-case hexadecimal digits, colons and dots, and reads back; a dotted quad is
  read only in the form it prints; only the newer kind has colons; and the codec and lower case keep a host name of
  plain labels.\<close>

definition net_laws :: "net_lib \<Rightarrow> bool" where
  "net_laws lib \<longleftrightarrow>
     (\<forall>t a. nl_parse lib t = Some a \<longrightarrow> 37 \<notin> set t \<longrightarrow> nl_parse lib (nl_print lib a) = Some a \<and> nl_print lib a \<noteq> []
        \<and> last (nl_print lib a) \<noteq> 46 \<and> list_all (\<lambda>c. host_char c \<and> c \<noteq> 118) (nl_print lib a))
   \<and> (\<forall>t b. nl_parse lib t = Some (V4 b) \<longrightarrow> nl_print lib (V4 b) = t \<and> 58 \<notin> set t)
   \<and> (\<forall>t b scope. nl_parse lib t = Some (V6 b scope) \<longrightarrow> 58 \<in> set t)
   \<and> (\<forall>t. list_all host_label (split_on 46 t) \<and> length t \<le> 253 \<longrightarrow> nl_idna lib t = Some t)
   \<and> (\<forall>t. list_all host_char t \<longrightarrow> uc_lower (nl_unicode lib) t = t)"

lemma upto_char_simps [simp]:
  "c \<notin> set a \<Longrightarrow> upto_char c (a @ c # b) = a" "c \<notin> set a \<Longrightarrow> upto_char c a = a"
  "c \<notin> set a \<Longrightarrow> after_char c (a @ c # b) = b" "c \<notin> set a \<Longrightarrow> after_char c a = []"
proof -
  assume c: "c \<notin> set a"
  have whole: "takeWhile (\<lambda>x. x \<noteq> c) a = a" "dropWhile (\<lambda>x. x \<noteq> c) a = []"
    using c by (auto simp: takeWhile_eq_all_conv)
  show "upto_char c (a @ c # b) = a" "upto_char c a = a"
    using c by (auto simp: upto_char_def takeWhile_append whole(1))
  show "after_char c (a @ c # b) = b" "after_char c a = []"
    using c by (simp_all only: after_char_def dropWhile_append whole(2)) auto
qed

lemma split_on_nonempty: "split_on c s \<noteq> []"
  by (induction s) (auto split: list.splits)

lemma split_on_chars: "x \<in> set s \<Longrightarrow> x = c \<or> (\<exists>p \<in> set (split_on c s). x \<in> set p)"
proof (induction s)
  case (Cons y ys)
  then show ?case
    using split_on_nonempty [of c ys] by (cases "split_on c ys") auto
qed simp

lemma split_on_snoc: "split_on c (s @ [c]) = split_on c s @ [[]]"
proof (induction s)
  case (Cons y ys)
  then show ?case
    using split_on_nonempty [of c ys] by (cases "split_on c ys") auto
qed simp

lemma ascii_lower_host: "host_char c \<Longrightarrow> ascii_lower c = c"
  by (auto simp: host_char_def label_char_def ascii_digit_def ascii_lower_def)

lemma labels_text:
  assumes "list_all host_label (split_on 46 a)"
  shows "a \<noteq> []" "last a \<noteq> 46" "list_all (\<lambda>c. host_char c \<and> c \<noteq> 58) a"
proof -
  have none: "[] \<notin> set (split_on 46 a)"
    using assms by (auto simp: list_all_iff host_label_def)
  then show "a \<noteq> []"
    by auto
  then show "last a \<noteq> 46"
    using none split_on_snoc [of 46 "butlast a"] append_butlast_last_id [of a] by (metis in_set_conv_decomp)
  have "label_char c \<or> c = 45 \<or> c = 46" if "c \<in> set a" for c
    using split_on_chars [OF that, of 46] assms by (auto simp: list_all_iff host_label_def)
  then have "host_char c \<and> c \<noteq> 58" if "c \<in> set a" for c
    using that by (force simp: host_char_def label_char_def ascii_digit_def)
  then show "list_all (\<lambda>c. host_char c \<and> c \<noteq> 58) a"
    by (simp add: list_all_iff)
qed

lemma canonical_host_fixed:
  assumes laws: "net_laws lib" and run: "canonical_host lib h = Some host"
  shows "host \<noteq> []" "list_all host_char host" "canonical_host lib host = Some host"
    and "58 \<in> set host \<Longrightarrow> bracketed_ok lib host"
proof -
  have h: "37 \<notin> set h"
    using run by (auto simp: canonical_host_def split: if_splits)
  have "host \<noteq> [] \<and> list_all host_char host \<and> canonical_host lib host = Some host \<and> (58 \<in> set host \<longrightarrow> bracketed_ok lib host)"
  proof (cases "nl_parse lib h")
    case (Some a)
    then have host: "host = nl_print lib a"
      using run by (auto simp: canonical_host_def split: if_splits)
    have printed: "nl_parse lib host = Some a" "host \<noteq> []" "last host \<noteq> 46" "list_all (\<lambda>c. host_char c \<and> c \<noteq> 118) host"
      using laws Some h unfolding net_laws_def host by blast+
    then have chars: "list_all host_char host" "37 \<notin> set host" "hd host \<noteq> 118"
      using hd_in_set [of host] by (auto simp: list_all_iff host_char_def label_char_def ascii_digit_def)
    have "bracketed_ok lib host" if colon: "58 \<in> set host"
    proof (cases a)
      case (V4 b)
      then show ?thesis
        using laws printed(1) colon unfolding net_laws_def by blast
    next
      case (V6 b scope)
      then show ?thesis
        using printed(1) chars(3) by (simp add: bracketed_ok_def)
    qed
    then show ?thesis
      using printed chars by (simp add: canonical_host_def host [symmetric])
  next
    case None
    then obtain t where t: "host = map ascii_lower t" "length host \<le> 253" "list_all host_label (split_on 46 host)"
      using run by (auto simp: canonical_host_def Let_def split: if_splits option.splits)
    note labels = labels_text [OF t(3)]
    have chars: "list_all host_char host" "37 \<notin> set host" "58 \<notin> set host"
      using labels(3) by (auto simp: list_all_iff host_char_def label_char_def ascii_digit_def)
    have lower: "map ascii_lower host = host"
      using chars(1) by (auto simp: list_all_iff ascii_lower_host intro: map_idI)
    have idna: "nl_idna lib host = Some host"
      using laws t(2,3) unfolding net_laws_def by blast
    have "canonical_host lib host = Some host"
    proof (cases "nl_parse lib host")
      case None
      then show ?thesis
        using labels idna lower t(2,3) chars by (simp add: canonical_host_def Let_def)
    next
      case (Some a)
      then show ?thesis
      proof (cases a)
        case (V4 b)
        then have "nl_print lib a = host"
          using laws Some unfolding net_laws_def by blast
        then show ?thesis
          using Some labels chars by (simp add: canonical_host_def)
      next
        case (V6 b scope)
        then have "58 \<in> set host"
          using laws Some unfolding net_laws_def by blast
        then show ?thesis
          using chars(3) by simp
      qed
    qed
    then show ?thesis
      using labels(1) chars by simp
  qed
  then show "host \<noteq> []" "list_all host_char host" "canonical_host lib host = Some host"
    and "58 \<in> set host \<Longrightarrow> bracketed_ok lib host"
    by blast+
qed

lemma nat_str_digits: "nat_str n \<noteq> [] \<and> list_all ascii_digit (nat_str n) \<and> digits_nat (nat_str n) = n"
proof (induction n rule: nat_str.induct)
  case (1 n)
  show ?case
  proof (cases "n < 10")
    case True
    then show ?thesis
      by (simp add: nat_str.simps [of n] ascii_digit_def digits_nat_def)
  next
    case False
    then show ?thesis
      using 1 by (simp add: nat_str.simps [of n] ascii_digit_def digits_nat_def)
  qed
qed

definition port_text :: "nat option \<Rightarrow> pystr" where
  "port_text port = (case port of None \<Rightarrow> [] | Some p \<Rightarrow> nat_str p)"

definition authority :: "pystr \<Rightarrow> nat option \<Rightarrow> pystr" where
  "authority host port = (if 58 \<in> set host then [91] @ host @ [93] else host)
     @ (case port of None \<Rightarrow> [] | Some p \<Rightarrow> 58 # nat_str p)"

lemma host_chars:
  assumes "list_all host_char host"
  shows "91 \<notin> set host" "93 \<notin> set host" "64 \<notin> set host" "47 \<notin> set host" "37 \<notin> set host" "\<forall>c \<in> set host. c < 128"
  using assms by (auto simp: list_all_iff host_char_def label_char_def ascii_digit_def)

lemma port_chars:
  "91 \<notin> set (nat_str p)" "93 \<notin> set (nat_str p)" "64 \<notin> set (nat_str p)" "47 \<notin> set (nat_str p)" "37 \<notin> set (nat_str p)"
  "58 \<notin> set (nat_str p)" "\<forall>c \<in> set (nat_str p). c < 128" "nat_str p \<noteq> []"
  using nat_str_digits [of p] by (auto simp: list_all_iff ascii_digit_def)

lemma authority_chars:
  assumes "list_all host_char host"
  shows "64 \<notin> set (authority host port)" "47 \<notin> set (authority host port)" "37 \<notin> set (authority host port)"
    "\<forall>c \<in> set (authority host port). c < 128" "91 \<in> set (authority host port) \<longleftrightarrow> 58 \<in> set host"
    "93 \<in> set (authority host port) \<longleftrightarrow> 58 \<in> set host"
  using host_chars [OF assms] port_chars by (auto simp: authority_def split: option.splits)

lemma host_info_authority:
  assumes "list_all host_char host"
  shows "host_info (authority host port) = (host, port_text port)"
proof -
  have "rev (takeWhile (\<lambda>c. c \<noteq> 64) (rev (authority host port))) = authority host port"
    using takeWhile_eq_all_conv [of "\<lambda>c. c \<noteq> 64" "rev (authority host port)"] authority_chars(1) [OF assms, of port]
    by (metis (mono_tags, lifting) rev_rev_ident set_rev)
  moreover have "after_char 91 ([91] @ host @ [93] @ rest) = host @ 93 # rest" for rest
    by (simp add: after_char_def)
  moreover have "after_char 58 (58 # nat_str p) = nat_str p" for p
    by (simp add: after_char_def)
  ultimately show ?thesis
    using host_chars [OF assms] port_chars authority_chars(5) [OF assms, of port]
    by (cases port) (auto simp: host_info_def authority_def port_text_def)
qed

lemma last_authority:
  assumes "list_all host_char host" "host \<noteq> []"
  shows "last (authority host port) \<noteq> 58" "authority host port \<noteq> []"
proof -
  have "last (nat_str p) \<noteq> 58" for p
    using port_chars(6,8) [of p] last_in_set by metis
  moreover have "58 \<notin> set host \<Longrightarrow> last host \<noteq> 58"
    using assms(2) last_in_set by metis
  ultimately show "last (authority host port) \<noteq> 58" "authority host port \<noteq> []"
    using assms(2) port_chars(8) by (auto simp: authority_def split: option.splits)
qed

lemma rstrip_slash_path:
  assumes "path_ok path"
  shows "path_ok (rstrip_slash path)" "rstrip_slash (rstrip_slash path) = rstrip_slash path"
    "rstrip_slash path = [] \<or> hd (rstrip_slash path) = 47"
proof -
  show "rstrip_slash (rstrip_slash path) = rstrip_slash path"
    by (simp add: rstrip_slash_def)
  define q where "q = rstrip_slash path"
  have whole: "path = q @ rev (takeWhile (\<lambda>c. c = 47) (rev path))"
    unfolding q_def rstrip_slash_def by (metis rev_append rev_rev_ident takeWhile_dropWhile_id)
  have slashes: "\<forall>c \<in> set (rev (takeWhile (\<lambda>c. c = 47) (rev path))). c = 47"
    by (auto dest: set_takeWhileD)
  then obtain k where k: "path = q @ replicate k 47"
    using whole replicate_length_same by metis
  have hd_q: "q = [] \<or> hd q = 47"
    using assms k by (cases q) (auto simp: path_ok_def)
  then show "rstrip_slash path = [] \<or> hd (rstrip_slash path) = 47"
    by (simp add: q_def)
  have "k \<le> 1"
  proof (rule ccontr)
    assume "\<not> k \<le> 1"
    then obtain m where "k = Suc (Suc m)"
      by (metis One_nat_def le_SucI le_zero_eq not0_implies_Suc order_refl)
    then have "path = q @ [47, 47] @ replicate m 47"
      using k by simp
    then have "contains [47, 47] path"
      unfolding contains_def sublist_def by blast
    then show False
      using assms k \<open>k = Suc (Suc m)\<close> by (auto simp: path_ok_def)
  qed
  then consider "path = q" | "path = q @ [47]"
    using k by (cases k) auto
  then show "path_ok (rstrip_slash path)"
  proof cases
    case 1
    then show ?thesis
      using assms q_def by metis
  next
    case 2
    have "\<not> contains [47, 47] q"
      using assms 2 unfolding path_ok_def contains_def by (metis append_Cons append_is_Nil_conv list.distinct(1) sublist_append_rightI sublist_order.order_trans)
    then have "path_ok q"
      using assms 2 hd_q split_on_snoc [of 47 q] by (auto simp: path_ok_def)
    then show ?thesis
      by (simp only: q_def)
  qed
qed


lemma build_authority: "build_url scheme host port path = scheme @ 58 # [47, 47] @ authority host port @ path"
  by (simp add: build_url_def authority_def)

lemma url_split_build:
  assumes scheme: "scheme \<in> {lit ''http'', lit ''https''}" and host: "list_all host_char host"
    and colon: "58 \<in> set host \<Longrightarrow> bracketed_ok lib host" and path: "path = [] \<or> hd path = 47"
  shows "url_split lib (build_url scheme host port path) = Some (scheme, authority host port, path)"
proof -
  have "58 \<notin> set scheme" "scheme \<noteq> []" "ascii_alpha (hd scheme)" "list_all scheme_char scheme" "map ascii_lower scheme = scheme"
    using scheme by (auto simp: lit_def ascii_alpha_def scheme_char_def ascii_lower_def)
  then have "split_scheme (build_url scheme host port path) = (scheme, [47, 47] @ authority host port @ path)"
    unfolding build_authority by (simp add: split_scheme_def)
  moreover have "split_netloc ([47, 47] @ authority host port @ path) = (authority host port, path)"
  proof (cases path)
    case Nil
    then show ?thesis
      using authority_chars(2) [OF host, of port] by (simp add: split_netloc_def upto_char_def takeWhile_eq_all_conv) metis
  next
    case (Cons c rest)
    then have "c = 47"
      using path by simp
    then show ?thesis
      using Cons authority_chars(2) [OF host, of port]
      by (auto simp: split_netloc_def upto_char_def takeWhile_append dropWhile_append takeWhile_eq_all_conv)
  qed
  moreover have "brackets_ok lib (authority host port)"
  proof (cases "58 \<in> set host")
    case True
    have "after_char 91 (authority host port) = host @ 93 # (case port of None \<Rightarrow> [] | Some p \<Rightarrow> 58 # nat_str p)"
      using True by (simp add: authority_def after_char_def)
    then show ?thesis
      using True colon host_chars(2) [OF host] authority_chars(5,6) [OF host, of port] by (simp add: brackets_ok_def)
  next
    case False
    then show ?thesis
      using authority_chars(5,6) [OF host, of port] by (simp add: brackets_ok_def)
  qed
  moreover have "nfkc_ok lib (authority host port)"
    using authority_chars(4) [OF host] by (simp add: nfkc_ok_def)
  ultimately show ?thesis
    by (simp add: url_split_def)
qed

lemma host_name_authority:
  assumes "net_laws lib" "list_all host_char host"
  shows "host_name lib (authority host port) = host"
proof -
  have "dropWhile (\<lambda>c. c \<noteq> 37) host = []"
    using host_chars(5) [OF assms(2)] by auto
  moreover have "uc_lower (nl_unicode lib) host = host"
    using assms unfolding net_laws_def by blast
  ultimately show ?thesis
    using host_chars(5) [OF assms(2)] by (simp add: host_name_def host_info_authority [OF assms(2)])
qed

lemma port_of_authority:
  assumes "list_all host_char host" "port = None \<or> (\<exists>p. port = Some p \<and> p \<le> 65535)"
  shows "port_of (authority host port) = Some port"
  using assms nat_str_digits port_chars(8) by (auto simp: port_of_def host_info_authority port_text_def)

lemma port_of_bound: "port_of netloc = Some (Some p) \<Longrightarrow> p \<le> 65535"
  by (auto simp: port_of_def Let_def split: if_splits)

lemma normalized_parts:
  assumes "normalize_ollama_url lib v = Some n"
  obtains scheme netloc path host port where "scheme \<in> {lit ''http'', lit ''https''}" "path_ok path"
    "canonical_host lib (host_name lib netloc) = Some host" "port = None \<or> (\<exists>p. port = Some p \<and> p \<le> 65535)" "port \<noteq> Some 0"
    "n = build_url scheme host port (rstrip_slash path)"
  using assms port_of_bound
  by (auto simp: normalize_ollama_url_def split: if_splits option.splits) (metis not_None_eq)+

lemma normal_form_fixed:
  assumes laws: "net_laws lib" and run: "normalize_ollama_url lib v = Some n"
  shows "\<exists>scheme host port path. scheme \<in> {lit ''http'', lit ''https''} \<and> n = build_url scheme host port path
      \<and> url_split lib n = Some (scheme, authority host port, path) \<and> host_name lib (authority host port) = host
      \<and> port_of (authority host port) = Some port \<and> list_all host_char host \<and> host \<noteq> []"
    and "sendable_text n \<Longrightarrow> normalize_ollama_url lib n = Some n"
proof -
  obtain scheme netloc path host port where parts: "scheme \<in> {lit ''http'', lit ''https''}" "path_ok path"
    "canonical_host lib (host_name lib netloc) = Some host" "port = None \<or> (\<exists>p. port = Some p \<and> p \<le> 65535)" "port \<noteq> Some 0"
    "n = build_url scheme host port (rstrip_slash path)"
    by (rule normalized_parts [OF run])
  note host = canonical_host_fixed [OF laws parts(3)] and path = rstrip_slash_path [OF parts(2)]
  have split: "url_split lib n = Some (scheme, authority host port, rstrip_slash path)"
    unfolding parts(6) by (rule url_split_build [OF parts(1) host(2,4) path(3)])
  have name: "host_name lib (authority host port) = host" and port: "port_of (authority host port) = Some port"
    using host_name_authority [OF laws host(2)] port_of_authority [OF host(2) parts(4)] .
  show "\<exists>scheme host port path. scheme \<in> {lit ''http'', lit ''https''} \<and> n = build_url scheme host port path
      \<and> url_split lib n = Some (scheme, authority host port, path) \<and> host_name lib (authority host port) = host
      \<and> port_of (authority host port) = Some port \<and> list_all host_char host \<and> host \<noteq> []"
    using parts(1,6) split name port host(1,2) by blast
  show "normalize_ollama_url lib n = Some n" if "sendable_text n"
    using that parts(1,5) path last_authority [OF host(2,1), of port] authority_chars(1,3) [OF host(2), of port]
    by (simp add: normalize_ollama_url_def split name port host(3) parts(6) [symmetric])
qed

section \<open>Properties\<close>

definition one_lib :: net_lib where
  "one_lib = \<lparr>nl_unicode = ascii_unicode, nl_parse = (\<lambda>t. if t = lit ''1.1.1.1'' then Some (V4 (ipv4 1 1 1 1)) else None),
     nl_print = (\<lambda>_. lit ''1.1.1.1''), nl_idna = Some\<rparr>"

lemma one_lib_laws: "net_laws one_lib"
proof -
  have "uc_lower (nl_unicode one_lib) t = t" if "list_all host_char t" for t
    using that by (simp add: one_lib_def ascii_unicode_def list_all_iff ascii_lower_host map_idI)
  then show ?thesis
    by (auto simp: net_laws_def) (auto simp: one_lib_def lit_def host_char_def label_char_def ascii_digit_def split: if_splits)
qed


lemma one_client: "map_option oc_origin (make_ollama_client one_lib (\<lambda>_ _. Some [lit ''1.1.1.1'']) (lit ''https://Example.com/v1/'') (lit ''k'') False [])
    = Some (lit ''https'', lit ''example.com'', 443)"
  by code_simp




text \<open>A path that ends in a blank and a slash passes, but its normal form ends in the blank and is refused: an address
  that was stored after validation can make every later client fail.\<close>

lemma normal_form_refused:
  "\<exists>n. normalize_ollama_url one_lib (lit ''https://h/a'' @ [12288, 47]) = Some n \<and> normalize_ollama_url one_lib n = None"
proof -
  have "normalize_ollama_url one_lib (lit ''https://h/a'' @ [12288, 47]) = Some (lit ''https://h/a'' @ [12288])"
    "normalize_ollama_url one_lib (lit ''https://h/a'' @ [12288]) = None"
    by code_simp+
  then show ?thesis
    by blast
qed

end
