(* ===== verification/WorkspaceCreation.thy ===== *)
theory WorkspaceCreation
  imports ModelSettings AgentWorkflows
begin

text \<open>
  The creation of a workspace over the web (\<^verbatim>\<open>create_workspace\<close> in \<^verbatim>\<open>api/workspaces/router.py\<close>): with a saved
  connection, with a new key that becomes a connection of the account, or with neither. A request runs on the tables
  and the vault, which commit together; the validation of a key and the models it offers are arguments. The lemmas
  show that a created workspace is ready to use, and which errors a creation can have.
\<close>

section \<open>A free label\<close>

text \<open>The label of a first connection, "default" in Korean.\<close>

definition default_label :: pystr where
  "default_label = [44592, 48376]"

definition numbered_label :: "nat \<Rightarrow> pystr" where
  "numbered_label n = default_label @ 32 # nat_str n"

definition read_digits :: "pystr \<Rightarrow> nat" where
  "read_digits s = foldl (\<lambda>n c. 10 * n + (c - 48)) 0 s"

lemma read_nat_str: "read_digits (nat_str n) = n"
proof (induction n rule: nat_str.induct)
  case (1 n)
  show ?case
  proof (cases "n < 10")
    case True
    then show ?thesis
      by (simp add: nat_str.simps [of n] read_digits_def)
  next
    case False
    then have "read_digits (nat_str (n div 10)) = n div 10"
      by (rule 1)
    then have "read_digits (nat_str (n div 10) @ [48 + n mod 10]) = n"
      by (simp add: read_digits_def)
    then show ?thesis
      using False by (simp only: nat_str.simps [of n] if_False)
  qed
qed

lemma numbered_label_inj:
  assumes "numbered_label a = numbered_label b"
  shows "a = b"
proof -
  have "nat_str a = nat_str b"
    using assms by (simp add: numbered_label_def)
  then show ?thesis
    using read_nat_str by metis
qed

definition taken_from :: "pystr list \<Rightarrow> nat \<Rightarrow> nat set" where
  "taken_from taken n = {k. n \<le> k \<and> numbered_label k \<in> set taken}"

lemma finite_taken: "finite (taken_from taken n)"
proof -
  have "inj_on numbered_label (taken_from taken n)"
    by (auto intro: inj_onI dest: numbered_label_inj)
  moreover have "numbered_label ` taken_from taken n \<subseteq> set taken"
    by (auto simp: taken_from_def)
  ultimately show ?thesis
    using finite_subset finite_imageD by blast
qed

lemma taken_Suc: "taken_from taken n = (if numbered_label n \<in> set taken then insert n (taken_from taken (Suc n)) else taken_from taken (Suc n))"
  by (rule set_eqI, rename_tac k, case_tac "k = n") (auto simp: taken_from_def)

lemma card_taken_Suc:
  "card (taken_from taken n) = (if numbered_label n \<in> set taken then Suc (card (taken_from taken (Suc n))) else card (taken_from taken (Suc n)))"
proof -
  have "n \<notin> taken_from taken (Suc n)"
    by (simp add: taken_from_def)
  then show ?thesis
    unfolding taken_Suc [of taken n] by (simp add: finite_taken)
qed

function free_label :: "pystr list \<Rightarrow> pystr \<Rightarrow> nat \<Rightarrow> pystr" where
  "free_label taken label n = (if label \<in> set taken then free_label taken (numbered_label n) (Suc n) else label)"
  by auto
termination
  by (relation "measure (\<lambda>(taken, label, n). 2 * card (taken_from taken n) + (if label \<in> set taken then 1 else 0))")
    (auto simp: card_taken_Suc)

declare free_label.simps [simp del]

lemma free_label_free: "free_label taken label n \<notin> set taken"
  by (induction taken label n rule: free_label.induct) (subst free_label.simps, simp)

section \<open>The request\<close>

record creation_request =
  nw_name :: pystr
  nw_llm_provider :: "pystr option"
  nw_credential_id :: "uuid option"
  nw_llm_api_key :: "pystr option"
  nw_llm_base_url :: "pystr option"
  nw_models :: "(pystr \<times> model_option) list option"

definition creation_name_ok :: "creation_request \<Rightarrow> bool" where
  "creation_name_ok b \<longleftrightarrow> nw_name b \<noteq> [] \<and> length (nw_name b) \<le> 120"

definition requested_models :: "creation_request \<Rightarrow> (pystr \<times> model_option) list" where
  "requested_models b = (case nw_models b of None \<Rightarrow> [] | Some ms \<Rightarrow> ms)"

definition creation_event :: "uuid \<Rightarrow> auth_user \<Rightarrow> (pystr \<times> json) list \<Rightarrow> audit_event" where
  "creation_event ws user details = user_event ws user ''workspace.created'' ''workspace'' ws details None"

section \<open>Without a provider\<close>

text \<open>The shared service makes the workspace; its error is not handled by the route.\<close>

definition plain_body :: "unicode \<Rightarrow> stamp \<Rightarrow> auth_user \<Rightarrow> creation_request \<Rightarrow> ('v, workspace_info) vault_body" where
  "plain_body uc st user b = (\<lambda>(db, v). case create_workspace st (us_id user) (nw_name b) db of
     Inl _ \<Rightarrow> Inl (http 500 ''WorkflowError'')
   | Inr (w, db1) \<Rightarrow> let email = (case us_email user of Some e \<Rightarrow> e | None \<Rightarrow> []) in
       Inr (w, add_audit_event st (creation_event (wi_id w) user []) (db1\<lparr>ab_members :=
         map (\<lambda>m. if mb_workspace_id m = wi_id w \<and> mb_user_id m = Some (us_id user)
             then m\<lparr>mb_email := email, mb_email_normalized := normalize_member_email uc email\<rparr> else m) (ab_members db1)\<rparr>), v))"

section \<open>With a provider\<close>

definition account_connections :: "uuid \<Rightarrow> app_db \<Rightarrow> credential_row list" where
  "account_connections user db = filter (in_credential_scope None user) (ab_credentials db)"

type_synonym connection = "pystr \<times> pystr \<times> pystr option \<times> credential_row option"

text \<open>The provider, the key and the address to use, and the saved connection they come from.\<close>

definition creation_connection ::
  "'v credential_env \<Rightarrow> auth_user \<Rightarrow> creation_request \<Rightarrow> app_db \<Rightarrow> 'v \<Rightarrow> http_error + connection" where
  "creation_connection ce user b db v = (case nw_credential_id b of
     Some i \<Rightarrow> (case find (\<lambda>c. cd_id c = i \<and> cd_status c = lit ''active'') (account_connections (us_id user) db) of
         None \<Rightarrow> Inl (http 404 ''Credential not found'')
       | Some c \<Rightarrow>
           rbind (guard (nw_llm_provider b = None \<or> nw_llm_provider b = Some (cd_provider c)) (http 422 ''Provider mismatch'')) (\<lambda>_.
           rbind (guard (nw_llm_api_key b = None \<and> nw_llm_base_url b = None) (http 422 ''Use the saved credential'')) (\<lambda>_.
           case resolve_credential_secret ((ce_providers ce)\<lparr>pv_reveal := (\<lambda>i. va_reveal (ce_vault ce) i v)\<rparr>) c of
             None \<Rightarrow> Inl (http 422 ''Saved credential is unavailable'')
           | Some key \<Rightarrow> Inr (cd_provider c, key, cd_base_url c, Some c))))
   | None \<Rightarrow> (case nw_llm_provider b of
         None \<Rightarrow> Inl (http 422 ''credentialId or llmProvider is required'')
       | Some provider \<Rightarrow> rbind (credential_key provider (nw_llm_api_key b)) (\<lambda>key.
           rbind (checked_base_url (ce_normalize_url ce) provider (nw_llm_base_url b) None) (\<lambda>url.
           Inr (provider, key, url, None)))))"

definition later :: "nat \<Rightarrow> stamp \<Rightarrow> stamp" where
  "later k st = st\<lparr>st_fresh := (\<lambda>n. st_fresh st (k + n))\<rparr>"

text \<open>The connection the workspace names, with the table and the vault that hold it: a new key is saved first.\<close>

definition saved_connection ::
  "'v credential_env \<Rightarrow> stamp \<Rightarrow> auth_user \<Rightarrow> app_db \<Rightarrow> 'v \<Rightarrow> connection \<Rightarrow> credential_row \<times> credential_row list \<times> 'v" where
  "saved_connection ce st user db v = (\<lambda>(provider, key, url, found). case found of
     Some c \<Rightarrow> (c, ab_credentials db, v)
   | None \<Rightarrow> let own = account_connections (us_id user) db;
         label = free_label (map cd_label (filter (\<lambda>c. cd_provider c = provider) own)) default_label 2 in
       (case with_secret (ce_vault ce) (new_credential (later 2 st) None user
           \<lparr>ci_provider = provider, ci_api_key = Some key, ci_base_url = url, ci_label = label\<rparr>
           key url (\<not> (\<exists>c \<in> set own. cd_is_default c))) key v of
         (c, v') \<Rightarrow> (c, row_add c (ab_credentials db), v')))"

fun with_credential_id :: "uuid \<Rightarrow> json \<Rightarrow> json" where
  "with_credential_id i (JObj kvs) = JObj (AList.update (lit ''credentialId'') (JStr (uuid_str i)) kvs)"
| "with_credential_id i other = other"

definition creation_settings :: "uuid \<Rightarrow> (pystr \<times> model_option) list \<Rightarrow> role_options \<Rightarrow> (pystr \<times> json) list" where
  "creation_settings i models options = map (\<lambda>(role, choice). (role, with_credential_id i choice))
     (with_recommended_defaults (map (\<lambda>(role, choice). (role, dump_option choice)) models) options)"

definition connection_options :: "'v credential_env \<Rightarrow> model_env \<Rightarrow> connection \<Rightarrow> role_options" where
  "connection_options ce me = (\<lambda>(provider, key, url, found).
     options_for_key (ce_unicode ce) (me_registry me) (me_prices me) (ce_providers ce) provider key url (map_option cd_id found))"

definition configured_body ::
  "'v credential_env \<Rightarrow> model_env \<Rightarrow> stamp \<Rightarrow> auth_user \<Rightarrow> creation_request \<Rightarrow> ('v, workspace_info) vault_body" where
  "configured_body ce me st user b = (\<lambda>(db, v).
     rbind (creation_connection ce user b db v) (\<lambda>conn.
     rbind (case conn of (provider, key, url, _) \<Rightarrow> validated ce provider key url) (\<lambda>_.
     let options = connection_options ce me conn in
     rbind (guard (invalid_selections (requested_models b) options = []) (http 422 ''Invalid model selections'')) (\<lambda>_.
     case saved_connection ce st user db v conn of (c, cs, v') \<Rightarrow>
       let settings = creation_settings (cd_id c) (requested_models b) options;
           w = \<lparr>wk_id = st_fresh st 0, wk_owner_id = us_id user, wk_name = strip (nw_name b), wk_model_settings = settings,
             wk_created_at = st_now st\<rparr>;
           details = [(lit ''modelsConfigured'', JArr (map JStr (sort (map fst settings))))] in
       commit_credentials (workspace_info_of w) cs (add_audit_event st (creation_event (wk_id w) user details)
         (db\<lparr>ab_workspaces := ab_workspaces db @ [w],
            ab_members := ab_members db @ [owner_member (ce_unicode ce) (later 1 st) w user]\<rparr>)) v'))))"

definition create_user_workspace ::
  "'v credential_env \<Rightarrow> model_env \<Rightarrow> stamp \<Rightarrow> auth_user \<Rightarrow> creation_request \<Rightarrow> ('v, workspace_info) vault_request" where
  "create_user_workspace ce me st user b t =
     (if \<not> creation_name_ok b then (Inl unprocessable, t)
      else if nw_credential_id b = None \<and> nw_llm_provider b = None
      then (if nw_llm_api_key b \<noteq> None \<or> nw_llm_base_url b \<noteq> None \<or> requested_models b \<noteq> []
        then (Inl (http 422 ''Choose a provider before configuring its credential or models''), t)
        else vault_respond (plain_body (ce_unicode ce) st user b) t)
      else vault_respond (configured_body ce me st user b) t)"

section \<open>The new connection\<close>

lemma indexes_add:
  assumes "credential_indexes cs" "credential_has_secret c"
    and "\<forall>d \<in> set cs. scope_of d = scope_of c \<longrightarrow> cd_provider d = cd_provider c \<longrightarrow> cd_label d \<noteq> cd_label c"
    and "cd_is_default c \<longrightarrow> (\<forall>d \<in> set cs. scope_of d = scope_of c \<longrightarrow> \<not> cd_is_default d)"
  shows "credential_indexes (row_add c cs)"
  using assms by (auto simp: credential_indexes_def row_add_def)

lemma connection_key:
  assumes "creation_connection ce user b db v = Inr (provider, key, url, None)"
  shows "provider = ollama \<or> key \<noteq> []"
  using assms
  by (auto simp: creation_connection_def rbind_Inr_iff credential_key_def elim: truthy.elims split: option.splits if_splits)

lemma account_scope: "c \<in> set (account_connections user db) \<longleftrightarrow> c \<in> set (ab_credentials db) \<and> scope_of c = Inl user"
  by (auto simp: account_connections_def in_scope_iff scope_key_def)

lemma connection_saved:
  assumes "creation_connection ce user b db v = Inr (provider, key, url, Some c)"
  shows "c \<in> set (ab_credentials db)" "scope_of c = Inl (us_id user)" "cd_status c = lit ''active''" "provider = cd_provider c"
    "url = cd_base_url c" "stored_secret ce v c = Inr key"
proof -
  obtain i where "find (\<lambda>c. cd_id c = i \<and> cd_status c = lit ''active'') (account_connections (us_id user) db) = Some c"
    and rest: "provider = cd_provider c" "url = cd_base_url c" "stored_secret ce v c = Inr key"
    using assms by (auto simp: creation_connection_def rbind_Inr_iff stored_secret_def split: option.splits if_splits)
  then show "c \<in> set (ab_credentials db)" "scope_of c = Inl (us_id user)" "cd_status c = lit ''active''" "provider = cd_provider c"
    "url = cd_base_url c" "stored_secret ce v c = Inr key"
    using find_SomeD by (fastforce simp: account_scope)+
qed

text \<open>A new key as the row it becomes: its label is free, and it is the default of an account that has none.\<close>

definition new_connection :: "stamp \<Rightarrow> auth_user \<Rightarrow> app_db \<Rightarrow> connection \<Rightarrow> credential_row" where
  "new_connection st user db = (\<lambda>(provider, key, url, _). let own = account_connections (us_id user) db in
     new_credential (later 2 st) None user \<lparr>ci_provider = provider, ci_api_key = Some key, ci_base_url = url,
       ci_label = free_label (map cd_label (filter (\<lambda>c. cd_provider c = provider) own)) default_label 2\<rparr>
       key url (\<not> (\<exists>c \<in> set own. cd_is_default c)))"

lemma new_connection_fields:
  "cd_id (new_connection st user db (provider, key, url, f)) = st_fresh st 2"
  "scope_of (new_connection st user db (provider, key, url, f)) = Inl (us_id user)"
  "cd_provider (new_connection st user db (provider, key, url, f)) = provider"
  "cd_base_url (new_connection st user db (provider, key, url, f)) = url"
  "cd_status (new_connection st user db (provider, key, url, f)) = lit ''active''"
  "cd_vault_secret_id (new_connection st user db (provider, key, url, f)) = None"
  "cd_encrypted_secret (new_connection st user db (provider, key, url, f)) = None"
  by (simp_all add: new_connection_def new_credential_def later_def scope_of_def Let_def eval_nat_numeral)

lemma new_connection_label:
  assumes "d \<in> set (ab_credentials db)" "scope_of d = Inl (us_id user)" "cd_provider d = provider"
  shows "cd_label d \<noteq> cd_label (new_connection st user db (provider, key, url, f))"
proof -
  have "cd_label d \<in> set (map cd_label (filter (\<lambda>c. cd_provider c = provider) (account_connections (us_id user) db)))"
    using assms by (auto simp: account_scope)
  then show ?thesis
    using free_label_free by (metis (no_types, lifting) credential_input.select_convs(4) new_connection_def new_credential_def
        case_prod_conv credential_row.select_convs(5))
qed

lemma new_connection_default:
  "cd_is_default (new_connection st user db (provider, key, url, f))
    \<longleftrightarrow> \<not> (\<exists>d \<in> set (ab_credentials db). scope_of d = Inl (us_id user) \<and> cd_is_default d)"
  by (auto simp: new_connection_def new_credential_def account_scope Let_def)

lemma saved_connection_new: "saved_connection ce st user db v (provider, key, url, None)
    = (case with_secret (ce_vault ce) (new_connection st user db (provider, key, url, None)) key v of
        (c, v') \<Rightarrow> (c, row_add c (ab_credentials db), v'))"
  by (simp add: saved_connection_def new_connection_def Let_def)

lemma new_secret:
  assumes run: "with_secret va c key v = (c', v')" and laws: "vault_laws va"
    and none: "cd_vault_secret_id c = None" "cd_encrypted_secret c = None"
  shows "c' = c\<lparr>cd_vault_secret_id := cd_vault_secret_id c', cd_key_hint := cd_key_hint c'\<rparr>"
    and "if key = [] then cd_vault_secret_id c' = None else \<exists>s. cd_vault_secret_id c' = Some s \<and> va_reveal va s v' = Some key"
proof -
  show "c' = c\<lparr>cd_vault_secret_id := cd_vault_secret_id c', cd_key_hint := cd_key_hint c'\<rparr>"
    using run none by (cases c) (auto simp: with_secret_def set_secret_def split: prod.splits if_splits)
  show "if key = [] then cd_vault_secret_id c' = None else \<exists>s. cd_vault_secret_id c' = Some s \<and> va_reveal va s v' = Some key"
  proof (cases "key = []")
    case True
    then show ?thesis
      using run none by (simp add: with_secret_def)
  next
    case False
    have "va_reveal va (fst (va_create va key v)) (snd (va_create va key v)) = Some key"
      using laws by (simp add: vault_laws_def)
    then show ?thesis
      using False run none by (auto simp: with_secret_def set_secret_def split: prod.splits)
  qed
qed

text \<open>What holds of the connection of a new workspace, in the table and the vault that are committed.\<close>

definition sound_connection ::
  "'v credential_env \<Rightarrow> auth_user \<Rightarrow> credential_row list \<Rightarrow> 'v \<Rightarrow> credential_row list \<Rightarrow> 'v \<Rightarrow> pystr \<Rightarrow> credential_row \<Rightarrow> bool" where
  "sound_connection ce user old v cs v' key c \<longleftrightarrow> c \<in> set cs \<and> scope_of c = Inl (us_id user) \<and> cd_status c = lit ''active''
     \<and> stored_secret ce v' c = Inr key
     \<and> keys_unique cd_id cs \<and> credential_indexes cs \<and> has_default cs \<and> secrets_ok (ce_vault ce) v' (secret_refs cs)
     \<and> (\<forall>(j, s) \<in> secret_refs old. va_reveal (ce_vault ce) s v' = va_reveal (ce_vault ce) s v)"

lemma new_row_secret:
  assumes "if key = [] then cd_vault_secret_id c = None else \<exists>s. cd_vault_secret_id c = Some s \<and> va_reveal (ce_vault ce) s v' = Some key"
    and "cd_provider c = ollama \<or> key \<noteq> []" "cd_encrypted_secret c = None"
  shows "stored_secret ce v' c = Inr key" "credential_has_secret c"
  using assms by (cases key; auto simp: stored_secret_def resolve_credential_secret_def credential_has_secret_def)+

lemma new_connection_sound:
  assumes laws: "vault_laws (ce_vault ce)" and fresh: "vault_fresh (ce_vault ce) v" "row_get cd_id (st_fresh st 2) (ab_credentials db) = None"
    and wf: "credentials_wf (ce_vault ce) (db, v)" and key: "provider = ollama \<or> key \<noteq> []"
    and secret: "with_secret (ce_vault ce) (new_connection st user db (provider, key, url, None)) key v = (c, v')"
  shows "sound_connection ce user (ab_credentials db) v (row_add c (ab_credentials db)) v' key c"
    and "cd_provider c = provider" "cd_base_url c = url"
proof -
  let ?n = "new_connection st user db (provider, key, url, None)"
  note fields = new_connection_fields [where st = st and user = user and db = db and provider = provider and key = key and url = url and f = None]
  note row = new_secret [OF secret laws fields(6,7)]
  note x = with_secret_row [OF secret]
  have c: "cd_provider c = provider" "cd_label c = cd_label ?n" "cd_base_url c = url" "cd_status c = lit ''active''"
    "cd_encrypted_secret c = None"
    by (subst row(1), simp add: fields)+
  have scope: "scope_of c = Inl (us_id user)"
    using x(2) fields(2) by (rule trans)
  have old: "keys_unique cd_id (ab_credentials db)" "has_default (ab_credentials db)" "credential_indexes (ab_credentials db)"
    "secrets_ok (ce_vault ce) v (secret_refs (ab_credentials db))"
    using wf by (simp_all add: credentials_wf_def)
  have new: "row_get cd_id (cd_id ?n) (ab_credentials db) = None" "row_get cd_id (cd_id c) (ab_credentials db) = None"
    using fresh(2) by (simp_all only: x(1) fields(1))
  note refs = with_secret_refs [OF laws fresh(1) old(4) new(1) fields(6) secret]
  have "cd_provider c = ollama \<or> key \<noteq> []"
    using key by (simp only: c(1))
  note own = new_row_secret [OF row(2) this c(5)]
  have "credential_indexes (row_add c (ab_credentials db))"
  proof (rule indexes_add [OF old(3) own(2)]; unfold scope c(1,2) x(3))
    show "\<forall>d \<in> set (ab_credentials db). scope_of d = Inl (us_id user) \<longrightarrow> cd_provider d = provider \<longrightarrow> cd_label d \<noteq> cd_label ?n"
      by (intro ballI impI) (rule new_connection_label)
    show "cd_is_default ?n \<longrightarrow> (\<forall>d \<in> set (ab_credentials db). scope_of d = Inl (us_id user) \<longrightarrow> \<not> cd_is_default d)"
      unfolding new_connection_default by blast
  qed
  moreover have "has_default (row_add c (ab_credentials db))"
    by (rule has_default_add [OF old(2)]) (unfold scope x(3) new_connection_default, blast)
  moreover have "keys_unique cd_id (row_add c (ab_credentials db))"
    using old(1) new(2) by (simp add: keys_unique_add)
  ultimately show "sound_connection ce user (ab_credentials db) v (row_add c (ab_credentials db)) v' key c"
    unfolding sound_connection_def using scope c(4) own(1) refs by (intro conjI) (simp_all add: row_add_def)
  show "cd_provider c = provider" "cd_base_url c = url"
    by (fact c)+
qed

lemma saved_connection_sound:
  assumes laws: "vault_laws (ce_vault ce)" and fresh: "vault_fresh (ce_vault ce) v" "row_get cd_id (st_fresh st 2) (ab_credentials db) = None"
    and wf: "credentials_wf (ce_vault ce) (db, v)" and conn: "creation_connection ce user b db v = Inr (provider, key, url, found)"
    and saved: "saved_connection ce st user db v (provider, key, url, found) = (c, cs, v')"
  shows "sound_connection ce user (ab_credentials db) v cs v' key c \<and> cd_provider c = provider \<and> cd_base_url c = url
    \<and> (found = None \<or> found = Some c)"
proof (cases found)
  case (Some d)
  then have same: "c = d" "cs = ab_credentials db" "v' = v"
    using saved by (simp_all add: saved_connection_def)
  have "sound_connection ce user (ab_credentials db) v (ab_credentials db) v key d"
    using connection_saved [OF conn [unfolded Some]] wf by (simp add: sound_connection_def credentials_wf_def)
  then show ?thesis
    unfolding same Some using connection_saved(4,5) [OF conn [unfolded Some]] by simp
next
  case None
  then obtain secret: "with_secret (ce_vault ce) (new_connection st user db (provider, key, url, None)) key v = (c, v')"
    and cs: "cs = row_add c (ab_credentials db)"
    using saved unfolding None saved_connection_new by (auto split: prod.splits)
  show ?thesis
    unfolding cs None using new_connection_sound [OF laws fresh wf connection_key [OF conn [unfolded None]] secret] by simp
qed

section \<open>The stored models\<close>

lemma map_of_mapped: "map_of (map (\<lambda>(k, x). (k, f x)) kvs) k = map_option f (map_of kvs k)"
  by (induction kvs) auto

lemma with_credential_dump: "with_credential_id i (dump_option x) = dump_option (x\<lparr>mo_credential_id := Some i\<rparr>)"
  by (cases "mo_credential_id x") (auto simp: dump_option_def lit_def)

lemma settings_at:
  assumes "distinct (map fst models)"
  shows "map_of (creation_settings i models options) (model_role_value role)
    = map_option (\<lambda>x. dump_option (x\<lparr>mo_credential_id := Some i\<rparr>)) (case map_of models (model_role_value role) of
        Some x \<Rightarrow> Some x | None \<Rightarrow> (case options role of [] \<Rightarrow> None | x # _ \<Rightarrow> Some x))"
proof -
  have "distinct (map fst (map (\<lambda>(role, choice). (role, dump_option choice)) models))"
    using assms by (simp add: comp_def case_prod_beta)
  then show ?thesis
    by (simp add: creation_settings_def map_of_mapped with_recommended_defaults_def map_of_updates map_of_dumps map_add_def
        map_of_recommended with_credential_dump split: option.split list.split)
qed

lemma settings_selection:
  assumes parse: "\<And>u. parse (uuid_str u) = Some u" and models: "distinct (map fst models)"
  shows "selection_of parse (Some (creation_settings i models options)) role
    = map_option (\<lambda>x. x\<lparr>mo_credential_id := Some i\<rparr>) (case map_of models (model_role_value role) of
        Some x \<Rightarrow> Some x | None \<Rightarrow> (case options role of [] \<Rightarrow> None | x # _ \<Rightarrow> Some x))"
proof (cases "case map_of models (model_role_value role) of Some x \<Rightarrow> Some x | None \<Rightarrow> (case options role of [] \<Rightarrow> None | x # _ \<Rightarrow> Some x)")
  case None
  then show ?thesis
    using settings_at [OF models, of i options role] by (simp add: selection_of_def)
next
  case (Some x)
  then have "map_of (creation_settings i models options) (model_role_value role) = Some (dump_option (x\<lparr>mo_credential_id := Some i\<rparr>))"
    using settings_at [OF models, of i options role] by simp
  from selection_of_dump [OF parse this] show ?thesis
    using Some by simp
qed

lemma valid_selections:
  "invalid_selections models options = [] \<Longrightarrow> (name, x) \<in> set models
    \<Longrightarrow> \<exists>role. name = model_role_value role \<and> (\<exists>y \<in> set (options role). mo_provider y = mo_provider x \<and> mo_model y = mo_model x)"
proof (induction models options rule: invalid_selections.induct)
  case (2 name' choice rest options)
  then obtain role where "name' = model_role_value role" "acceptable choice (options role)" "invalid_selections rest options = []"
    by (auto simp: parse_role_Some split: option.splits if_splits)
  then show ?case
    using 2 by (auto simp: acceptable_def)
qed simp

lemma options_without_id:
  "x \<in> set (options_for_key uc registry prices env provider key url cid role)
    \<longleftrightarrow> mo_credential_id x = cid \<and> x\<lparr>mo_credential_id := None\<rparr> \<in> set (options_for_key uc registry prices env provider key url None role)"
  by (cases x) (auto simp: options_for_key_def set_options_by_role offered_def image_iff split: option.split)

lemma options_provider:
  assumes "x \<in> set (options_for_key uc registry prices env provider key url cid role)" "\<And>p u a. registry p u = Some a \<Longrightarrow> ad_id a = p"
  shows "mo_provider x = provider"
proof -
  obtain a where a: "registry provider (if provider = lit ''ollama'' then url else None) = Some a"
    using assms(1) by (auto simp: options_for_key_def split: option.splits)
  then have "\<exists>(a', infos, c) \<in> set [(a, models_of a key, cid)]. mo_provider x = ad_id a'"
    using assms(1) by (auto simp: options_for_key_def dest!: bspec [OF conjunct1 [OF options_offered]])
  then show ?thesis
    using assms(2) [OF a] by simp
qed

section \<open>A ready workspace\<close>

text \<open>A connection offers a model for a role when the stored key does.\<close>

definition offers :: "'v credential_env \<Rightarrow> model_env \<Rightarrow> 'v \<Rightarrow> credential_row \<Rightarrow> model_role \<Rightarrow> pystr \<Rightarrow> bool" where
  "offers ce me v c role m \<longleftrightarrow> (\<exists>key. stored_secret ce v c = Inr key
     \<and> (\<exists>x \<in> set (options_for_key (ce_unicode ce) (me_registry me) (me_prices me) (ce_providers ce) (cd_provider c) key (cd_base_url c)
          (Some (cd_id c)) role). mo_model x = m))"

text \<open>A role without a choice is one for which the connection offers nothing.\<close>

definition ready_for :: "'v credential_env \<Rightarrow> model_env \<Rightarrow> 'v \<Rightarrow> credential_row \<Rightarrow> workspace_row \<Rightarrow> model_role \<Rightarrow> bool" where
  "ready_for ce me v c w role \<longleftrightarrow> (case selection_of (pv_parse_uuid (ce_providers ce)) (Some (wk_model_settings w)) role of
     None \<Rightarrow> \<not> (\<exists>m. offers ce me v c role m)
   | Some x \<Rightarrow> mo_credential_id x = Some (cd_id c) \<and> mo_provider x = cd_provider c \<and> offers ce me v c role (mo_model x))"

lemma settings_ready:
  assumes parse: "\<And>u. pv_parse_uuid (ce_providers ce) (uuid_str u) = Some u" and models: "distinct (map fst models)"
    and registry: "\<And>p u a. me_registry me p u = Some a \<Longrightarrow> ad_id a = p"
    and valid: "invalid_selections models (connection_options ce me (cd_provider c, key, cd_base_url c, found)) = []"
    and key: "stored_secret ce v c = Inr key"
    and w: "wk_model_settings w = creation_settings (cd_id c) models (connection_options ce me (cd_provider c, key, cd_base_url c, found))"
  shows "ready_for ce me v c w role"
proof -
  let ?options = "connection_options ce me (cd_provider c, key, cd_base_url c, found)"
  have offered: "offers ce me v c role (mo_model y)" if "y \<in> set (?options role)" for y
  proof -
    have "y\<lparr>mo_credential_id := None\<rparr> \<in> set (options_for_key (ce_unicode ce) (me_registry me) (me_prices me) (ce_providers ce)
        (cd_provider c) key (cd_base_url c) None role)"
      using that options_without_id unfolding connection_options_def prod.case by blast
    then have "y\<lparr>mo_credential_id := Some (cd_id c)\<rparr> \<in> set (options_for_key (ce_unicode ce) (me_registry me) (me_prices me)
        (ce_providers ce) (cd_provider c) key (cd_base_url c) (Some (cd_id c)) role)"
      by (subst options_without_id) simp
    then show ?thesis
      unfolding offers_def using key by (intro exI [of _ key] conjI bexI [of _ "y\<lparr>mo_credential_id := Some (cd_id c)\<rparr>"]) simp_all
  qed
  have provider: "mo_provider y = cd_provider c" if "y \<in> set (?options role)" for y
    using that unfolding connection_options_def prod.case by (rule options_provider) (rule registry)
  have none: "\<not> offers ce me v c role m" if "?options role = []" for m
  proof
    assume "offers ce me v c role m"
    then obtain x where "x \<in> set (options_for_key (ce_unicode ce) (me_registry me) (me_prices me) (ce_providers ce) (cd_provider c)
        key (cd_base_url c) (Some (cd_id c)) role)"
      using key by (auto simp: offers_def)
    then have "x\<lparr>mo_credential_id := None\<rparr> \<in> set (options_for_key (ce_unicode ce) (me_registry me) (me_prices me) (ce_providers ce)
        (cd_provider c) key (cd_base_url c) None role)"
      using options_without_id by blast
    then have "x\<lparr>mo_credential_id := map_option cd_id found\<rparr> \<in> set (?options role)"
      unfolding connection_options_def prod.case by (subst options_without_id) simp
    then show False
      using that by simp
  qed
  note stored = settings_selection [OF parse models, of "cd_id c" ?options role, folded w]
  show ?thesis
  proof (cases "map_of models (model_role_value role)")
    case (Some x)
    then have "(model_role_value role, x) \<in> set models"
      by (rule map_of_SomeD)
    from valid_selections [OF valid this] obtain y
      where "y \<in> set (?options role)" "mo_provider y = mo_provider x" "mo_model y = mo_model x"
      by (auto simp: model_role_value_inj)
    then show ?thesis
      using stored Some offered [of y] provider [of y] by (simp add: ready_for_def)
  next
    case no_choice: None
    show ?thesis
    proof (cases "?options role")
      case Nil
      then show ?thesis
        using stored no_choice none by (simp add: ready_for_def)
    next
      case (Cons y ys)
      then show ?thesis
        using stored no_choice offered [of y] provider [of y] by (simp add: ready_for_def)
    qed
  qed
qed

lemma configured_Inr:
  assumes "configured_body ce me st user b (db, v) = Inr (r, db', v')"
  obtains provider key url found c cs w where "creation_connection ce user b db v = Inr (provider, key, url, found)"
    "validated ce provider key url = Inr ()"
    "invalid_selections (requested_models b) (connection_options ce me (provider, key, url, found)) = []"
    "saved_connection ce st user db v (provider, key, url, found) = (c, cs, v')" "credential_indexes cs"
    "w = \<lparr>wk_id = st_fresh st 0, wk_owner_id = us_id user, wk_name = strip (nw_name b), wk_model_settings =
        creation_settings (cd_id c) (requested_models b) (connection_options ce me (provider, key, url, found)), wk_created_at = st_now st\<rparr>"
    "r = workspace_info_of w" "ab_workspaces db' = ab_workspaces db @ [w]" "ab_credentials db' = cs"
    "ab_members db' = ab_members db @ [owner_member (ce_unicode ce) (later 1 st) w user]"
proof -
  obtain conn where conn: "creation_connection ce user b db v = Inr conn"
    "(case conn of (provider, key, url, _) \<Rightarrow> validated ce provider key url) = Inr ()"
    "invalid_selections (requested_models b) (connection_options ce me conn) = []"
    and rest: "(case saved_connection ce st user db v conn of (c, cs, v') \<Rightarrow>
       let settings = creation_settings (cd_id c) (requested_models b) (connection_options ce me conn);
           w = \<lparr>wk_id = st_fresh st 0, wk_owner_id = us_id user, wk_name = strip (nw_name b), wk_model_settings = settings,
             wk_created_at = st_now st\<rparr>;
           details = [(lit ''modelsConfigured'', JArr (map JStr (sort (map fst settings))))] in
       commit_credentials (workspace_info_of w) cs (add_audit_event st (creation_event (wk_id w) user details)
         (db\<lparr>ab_workspaces := ab_workspaces db @ [w],
            ab_members := ab_members db @ [owner_member (ce_unicode ce) (later 1 st) w user]\<rparr>)) v') = Inr (r, db', v')"
    using assms by (auto simp: configured_body_def rbind_Inr_iff Let_def)
  obtain provider key url found where parts: "conn = (provider, key, url, found)"
    by (cases conn)
  obtain c cs v1 where saved: "saved_connection ce st user db v conn = (c, cs, v1)"
    by (cases "saved_connection ce st user db v conn")
  show thesis
    by (rule that [OF conn(1) [unfolded parts] _ conn(3) [unfolded parts] _ _ refl])
      (use conn(2) rest saved in \<open>simp_all add: parts commit_Inr Let_def\<close>)
qed

section \<open>Errors\<close>

lemma connection_errors: "creation_connection ce user b db v = Inl e \<Longrightarrow> he_status e \<in> {404, 422}"
  by (auto simp: creation_connection_def rbind_Inl_iff rbind_Inr_iff credential_key_def checked_base_url_def http_def guard_Inl_iff
    split: option.splits if_splits)

lemma validated_errors: "validated ce provider key url = Inl e \<Longrightarrow> he_status e = 422"
  by (auto simp: validated_def guard_Inl_iff http_def split: prod.splits)

lemma configured_errors:
  assumes wf: "vault_laws (ce_vault ce)" "vault_fresh (ce_vault ce) v" "row_get cd_id (st_fresh st 2) (ab_credentials db) = None"
      "credentials_wf (ce_vault ce) (db, v)" and fail: "configured_body ce me st user b (db, v) = Inl e"
  shows "he_status e \<in> {404, 422}"
proof (rule ccontr)
  assume other: "he_status e \<notin> {404, 422}"
  obtain conn where conn: "creation_connection ce user b db v = Inr conn"
    using fail other by (cases "creation_connection ce user b db v") (auto simp: configured_body_def dest: connection_errors)
  obtain provider key url found where parts: "conn = (provider, key, url, found)"
    by (cases conn)
  obtain c cs v1 where saved: "saved_connection ce st user db v conn = (c, cs, v1)"
    by (cases "saved_connection ce st user db v conn")
  have indexes: "credential_indexes cs"
    using saved_connection_sound [OF wf conn [unfolded parts] saved [unfolded parts]] by (simp add: sound_connection_def)
  have "validated ce provider key url = Inl e \<or> he_status e = 422"
    using fail indexes by (auto simp: configured_body_def conn parts saved [unfolded parts] commit_credentials_def rbind_Inl_iff guard_Inl_iff http_def Let_def)
  then show False
    using other by (auto dest: validated_errors)
qed

section \<open>Properties\<close>

text \<open>C38: a workspace created with a provider is ready to use: its owner is its one new member; its connection is an active
  one of the owner's account; every role has a choice, unless the key offers nothing for it, and the choice names that
  connection and a model the key in the vault offers for the role. The table of connections stays sound, and no other
  secret changes.\<close>
theorem created_workspace_is_ready:
  assumes "vault_laws (ce_vault ce)" "vault_fresh (ce_vault ce) v" "row_get cd_id (st_fresh st 2) (ab_credentials db) = None"
    and "credentials_wf (ce_vault ce) (db, v)" "\<And>u. pv_parse_uuid (ce_providers ce) (uuid_str u) = Some u"
    and "\<forall>p u a. me_registry me p u = Some a \<longrightarrow> ad_id a = p" "distinct (map fst (requested_models b))"
    and "nw_credential_id b \<noteq> None \<or> nw_llm_provider b \<noteq> None"
    and "create_user_workspace ce me st user b (db, v) = (Inr r, db', v')"
  shows "credentials_wf (ce_vault ce) (db', v')
    \<and> (\<forall>(i, s) \<in> secret_refs (ab_credentials db). va_reveal (ce_vault ce) s v' = va_reveal (ce_vault ce) s v)
    \<and> (\<exists>w m c. ab_workspaces db' = ab_workspaces db @ [w] \<and> ab_members db' = ab_members db @ [m] \<and> wk_owner_id w = us_id user
      \<and> mb_workspace_id m = wk_id w \<and> mb_user_id m = Some (us_id user) \<and> mb_role m = Owner \<and> mb_joined_at m \<noteq> None
      \<and> c \<in> set (ab_credentials db') \<and> scope_of c = Inl (us_id user) \<and> cd_status c = lit ''active''
      \<and> (\<forall>role. ready_for ce me v' c w role)
      \<and> (\<forall>role x. map_of (requested_models b) (model_role_value role) = Some x
        \<longrightarrow> selection_of (pv_parse_uuid (ce_providers ce)) (Some (wk_model_settings w)) role = Some (x\<lparr>mo_credential_id := Some (cd_id c)\<rparr>)))"
proof -
  have "configured_body ce me st user b (db, v) = Inr (r, db', v')"
    using assms(8,9) by (auto simp: create_user_workspace_def vault_respond_def split: if_splits sum.splits)
  then obtain provider key url found c cs w where run: "creation_connection ce user b db v = Inr (provider, key, url, found)"
    and valid: "invalid_selections (requested_models b) (connection_options ce me (provider, key, url, found)) = []"
    and saved: "saved_connection ce st user db v (provider, key, url, found) = (c, cs, v')"
    and w: "w = \<lparr>wk_id = st_fresh st 0, wk_owner_id = us_id user, wk_name = strip (nw_name b), wk_model_settings =
        creation_settings (cd_id c) (requested_models b) (connection_options ce me (provider, key, url, found)), wk_created_at = st_now st\<rparr>"
    and tables: "ab_workspaces db' = ab_workspaces db @ [w]" "ab_credentials db' = cs"
      "ab_members db' = ab_members db @ [owner_member (ce_unicode ce) (later 1 st) w user]"
    by (rule configured_Inr)
  have c: "sound_connection ce user (ab_credentials db) v cs v' key c" "provider = cd_provider c" "url = cd_base_url c"
    using saved_connection_sound [OF assms(1-4) run saved] by simp_all
  have "credentials_wf (ce_vault ce) (db', v')"
    using c(1) by (simp add: sound_connection_def credentials_wf_def tables(2))
  moreover have "\<forall>role. ready_for ce me v' c w role"
    using c(1) valid assms(6) by (intro allI settings_ready [OF assms(5,7)]) (auto simp: w c(2,3) sound_connection_def)
  moreover have "selection_of (pv_parse_uuid (ce_providers ce)) (Some (wk_model_settings w)) role = Some (x\<lparr>mo_credential_id := Some (cd_id c)\<rparr>)"
    if "map_of (requested_models b) (model_role_value role) = Some x" for role x
    using settings_selection [OF assms(5,7), of "cd_id c"] that by (simp add: w)
  moreover let ?m = "owner_member (ce_unicode ce) (later 1 st) w user"
  have "mb_workspace_id ?m = wk_id w \<and> mb_user_id ?m = Some (us_id user) \<and> mb_role ?m = Owner \<and> mb_joined_at ?m \<noteq> None \<and> wk_owner_id w = us_id user"
    by (simp add: owner_member_def w Let_def)
  ultimately show ?thesis
    using c(1) tables unfolding sound_connection_def by blast
qed

definition local_request :: creation_request where
  "local_request = \<lparr>nw_name = lit ''team'', nw_llm_provider = Some ollama, nw_credential_id = None, nw_llm_api_key = None,
     nw_llm_base_url = Some (lit ''a''), nw_models = None\<rparr>"

definition echo_models :: model_env where
  "echo_models = \<lparr>me_registry = (\<lambda>p _. Some (sample_adapter\<lparr>ad_id := p\<rparr>)), me_adapters = [], me_prices = None\<rparr>"

lemma read_env_fields: "ce_vault read_env = list_vault" "ce_normalize_url read_env = Some" "ce_validate read_env p k u = (True, '''')"
    "pv_parse_uuid (ce_providers read_env) (uuid_str i) = Some i"
  by (simp_all add: read_env_def list_env_def inverse_uuid_str_def inj_def uuid_str_inj inv_f_f)

lemma empty_wf: "credentials_wf list_vault (empty_db, v)"
  by (simp add: credentials_wf_def empty_db_def keys_unique_def credential_indexes_def has_default_def secrets_ok_def secret_refs_def)

lemma empty_fresh: "vault_fresh list_vault []" "row_get cd_id i (ab_credentials empty_db) = None"
  by (simp_all add: vault_fresh_def list_vault_def empty_db_def)

lemma local_request_models: "nw_models local_request = None"
  by (simp add: local_request_def)

lemma local_creation: "\<exists>r db' v'. create_user_workspace read_env echo_models example_stamp list_user local_request (empty_db, []) = (Inr r, db', v')"
proof (cases "configured_body read_env echo_models example_stamp list_user local_request (empty_db, [])")
  case (Inr y)
  then show ?thesis
    by (cases y) (simp add: create_user_workspace_def vault_respond_def creation_name_ok_def local_request_def lit_def)
next
  case (Inl e)
  have conn: "creation_connection read_env list_user local_request empty_db [] = Inr (ollama, [], Some (lit ''a''), None)"
    by (simp add: creation_connection_def local_request_def credential_key_def key_or_empty_def checked_base_url_def read_env_fields)
  obtain c cs v1 where saved: "saved_connection read_env example_stamp list_user empty_db [] (ollama, [], Some (lit ''a''), None) = (c, cs, v1)"
    by (rule prod_cases3)
  have "credential_indexes cs"
    using saved_connection_sound [OF _ _ _ _ conn saved] list_vault_laws empty_fresh empty_wf
    by (simp add: read_env_fields sound_connection_def)
  then have False
    using Inl by (simp add: configured_body_def conn saved validated_def read_env_fields commit_credentials_def Let_def
        requested_models_def [of local_request] local_request_models guard_def)
  then show ?thesis
    by blast
qed

theorem created_workspace_is_ready_witness:
  "\<exists>r db' v' w c. create_user_workspace read_env echo_models example_stamp list_user local_request (empty_db, []) = (Inr r, db', v')
    \<and> ab_workspaces db' = [w] \<and> c \<in> set (ab_credentials db') \<and> ready_for read_env echo_models v' c w RoleAnswer"
proof -
  obtain r db' v' where run: "create_user_workspace read_env echo_models example_stamp list_user local_request (empty_db, []) = (Inr r, db', v')"
    using local_creation by blast
  have facts: "distinct (map fst (requested_models local_request))" "nw_credential_id local_request \<noteq> None \<or> nw_llm_provider local_request \<noteq> None"
    "ab_workspaces empty_db = []"
    by (simp_all add: local_request_def requested_models_def empty_db_def)
  have registry: "\<forall>p u a. me_registry echo_models p u = Some a \<longrightarrow> ad_id a = p"
    by (auto simp: echo_models_def)
  have "\<exists>w c. ab_workspaces db' = [w] \<and> c \<in> set (ab_credentials db') \<and> (\<forall>role. ready_for read_env echo_models v' c w role)"
    using created_workspace_is_ready [where ce = read_env and me = echo_models, unfolded read_env_fields(1),
        OF list_vault_laws empty_fresh empty_wf read_env_fields(4) registry facts(1,2) run]
    unfolding facts(3) append_Nil by blast
  then show ?thesis
    using run by blast
qed

text \<open>A creation with a provider is refused for a reason of the request alone, and without a trace: on a sound table of
  connections the new label is free and the default unique, so no integrity error is possible.\<close>
theorem creation_errors:
  assumes "vault_laws (ce_vault ce)" "vault_fresh (ce_vault ce) v" "row_get cd_id (st_fresh st 2) (ab_credentials db) = None"
    and "credentials_wf (ce_vault ce) (db, v)" "nw_credential_id b \<noteq> None \<or> nw_llm_provider b \<noteq> None"
    and "create_user_workspace ce me st user b (db, v) = (Inl e, t)"
  shows "he_status e \<in> {404, 422} \<and> t = (db, v)"
  using assms(5,6) configured_errors [OF assms(1-4)]
  by (auto simp: create_user_workspace_def vault_respond_def unprocessable_def http_def split: if_splits sum.splits)

theorem creation_errors_witness:
  "create_user_workspace read_env echo_models example_stamp list_user (local_request\<lparr>nw_llm_base_url := None\<rparr>) (empty_db, [])
     = (Inl (http 422 ''Ollama baseUrl is required''), (empty_db, []))
   \<and> he_status (http 422 ''Ollama baseUrl is required'') \<in> {404, 422}"
proof -
  let ?b = "local_request\<lparr>nw_llm_base_url := None\<rparr>"
  have run: "create_user_workspace read_env echo_models example_stamp list_user ?b (empty_db, [])
     = (Inl (http 422 ''Ollama baseUrl is required''), (empty_db, []))"
    by (simp add: create_user_workspace_def vault_respond_def configured_body_def creation_connection_def local_request_def
        credential_key_def key_or_empty_def checked_base_url_def creation_name_ok_def lit_def)
  have "nw_credential_id ?b \<noteq> None \<or> nw_llm_provider ?b \<noteq> None"
    by (simp add: local_request_def)
  from creation_errors [OF _ _ _ _ this run] show ?thesis
    using run list_vault_laws empty_fresh empty_wf by (simp add: read_env_fields)
qed

text \<open>A name of blanks: without a provider it ends in an internal error, with one the workspace has an empty name.\<close>

lemma blank_name_without_provider:
  assumes "strip (nw_name b) = []" "creation_name_ok b" "nw_credential_id b = None" "nw_llm_provider b = None"
    and "nw_llm_api_key b = None" "nw_llm_base_url b = None" "nw_models b = None"
  shows "create_user_workspace ce me st user b t = (Inl (http 500 ''WorkflowError''), t)"
  using assms by (cases t) (simp add: create_user_workspace_def vault_respond_def plain_body_def create_workspace_def requested_models_def)

lemma blank_name_with_provider:
  assumes "strip (nw_name b) = []" "configured_body ce me st user b (db, v) = Inr (r, db', v')"
  shows "wi_name r = []"
  using assms(1) by (rule_tac configured_Inr [OF assms(2)]) (simp add: workspace_info_of_def)

end
