(* ===== verification/KnowledgeGraph.thy ===== *)
theory KnowledgeGraph
  imports Retrieval Directory
begin

text \<open>
  The knowledge graph of a workspace as its members see it (\<^verbatim>\<open>api/workspaces/graph.py\<close>, \<^verbatim>\<open>graph_reader.py\<close>):
  the entities and relations of the graph store, the people and projects of the directory, and the approved
  sources with their links. Identifiers of nodes stay UUIDs and instants stay instants; the query of the graph store is a
  function of its nodes and edges, where the remaining order of equal rows is that of the store. The lemmas show that
  the view is closed, counts its degrees, and shows nothing of another workspace.
\<close>

section \<open>Reading the graph\<close>

definition reader_nodes :: "uuid \<Rightarrow> graph_db \<Rightarrow> graph_node list" where
  "reader_nodes ws g = sort_key (\<lambda>n. (gn_name n, gn_id n)) (filter (\<lambda>n. gn_workspace_id n = ws) (gb_nodes g))"

definition node_name :: "graph_db \<Rightarrow> uuid \<Rightarrow> pystr" where
  "node_name g i = (case row_get gn_id i (gb_nodes g) of Some n \<Rightarrow> gn_name n | None \<Rightarrow> [])"

text \<open>A missing identifier sorts last.\<close>

definition reader_order :: "graph_db \<Rightarrow> graph_edge \<Rightarrow> (pystr \<times> uuid) \<times> pystr \<times> (pystr \<times> uuid) \<times> bool \<times> uuid" where
  "reader_order g d = ((node_name g (gd_source d), gd_source d), gd_kind d, (node_name g (gd_target d), gd_target d),
     gd_id d = None, case gd_id d of Some i \<Rightarrow> i | None \<Rightarrow> 0)"

definition reader_edges :: "uuid \<Rightarrow> instant \<Rightarrow> graph_db \<Rightarrow> graph_edge list" where
  "reader_edges ws t g = sort_key (reader_order g) (filter (\<lambda>d. has_ends ws (gb_nodes g) (gd_source d, gd_target d)
     \<and> gd_kind d \<in> set relation_kind_names \<and> valid_at t d) (gb_edges g))"

section \<open>The view\<close>

record source_mark =
  sm_id :: uuid
  sm_kind :: source_kind
  sm_title :: pystr

record view_node =
  vn_id :: uuid
  vn_type :: pystr
  vn_kind :: pystr
  vn_label :: pystr
  vn_degree :: nat
  vn_sources :: "source_mark list"
  vn_superseded_by :: "uuid option"
  vn_material :: bool
  vn_source_id :: "uuid option"
  vn_directory_id :: "uuid option"
  vn_directory_kind :: "pystr option"

record view_edge =
  ve_id :: pystr
  ve_source :: uuid
  ve_target :: uuid
  ve_type :: pystr
  ve_kind :: pystr
  ve_valid_from :: "instant option"
  ve_valid_to :: "instant option"
  ve_explicit :: bool
  ve_role :: "pystr option"

type_synonym view_answer = "view_node list \<times> view_edge list"

definition entity_type :: "pystr \<Rightarrow> pystr" where
  "entity_type kind = (case map_of (map (\<lambda>(k, t). (lit k, lit t)) [(''Person'', ''person''), (''Organization'', ''person''),
     (''Project'', ''project''), (''Technology'', ''project''), (''Decision'', ''decision''), (''Task'', ''task''),
     (''Meeting'', ''event''), (''Event'', ''event''), (''Issue'', ''event''), (''Document'', ''event'')]) kind of
     Some t \<Rightarrow> t | None \<Rightarrow> lit ''event'')"

definition relation_type :: "pystr \<Rightarrow> pystr" where
  "relation_type kind = (case map_of (map (\<lambda>(k, t). (lit k, lit t)) [(''PARTICIPATED_IN'', ''participates_in''),
     (''DECIDED_IN'', ''decided''), (''ASSIGNED_TO'', ''assigned_to''), (''BLOCKED_BY'', ''blocks''),
     (''WORKS_ON'', ''relates_to''), (''CREATED'', ''relates_to''), (''RELATED_TO'', ''relates_to''),
     (''MENTIONED_IN'', ''relates_to'')]) kind of Some t \<Rightarrow> t | None \<Rightarrow> lit ''relates_to'')"

definition drawn_edge :: "graph_edge \<Rightarrow> view_edge" where
  "drawn_edge d = (let (a, b) = (if gd_kind d = lit ''BLOCKED_BY'' then (gd_target d, gd_source d) else (gd_source d, gd_target d)) in
     \<lparr>ve_id = (case gd_id d of Some i \<Rightarrow> uuid_str i | None \<Rightarrow> uuid_str a @ [45] @ gd_kind d @ [45] @ uuid_str b),
      ve_source = a, ve_target = b, ve_type = relation_type (gd_kind d), ve_kind = gd_kind d,
      ve_valid_from = gd_valid_from d, ve_valid_to = gd_valid_to d, ve_explicit = False, ve_role = None\<rparr>)"

definition plain_edge :: "pystr \<Rightarrow> uuid \<Rightarrow> uuid \<Rightarrow> string \<Rightarrow> string \<Rightarrow> view_edge" where
  "plain_edge i a b type_name kind = \<lparr>ve_id = i, ve_source = a, ve_target = b, ve_type = lit type_name, ve_kind = lit kind,
     ve_valid_from = None, ve_valid_to = None, ve_explicit = False, ve_role = None\<rparr>"

definition supersedes_edges :: "graph_node list \<Rightarrow> view_edge list" where
  "supersedes_edges rows = List.map_filter (\<lambda>n. case gn_superseded_by n of
     Some s \<Rightarrow> if s \<in> gn_id ` set rows
       then Some (plain_edge (uuid_str s @ lit ''-supersedes-'' @ uuid_str (gn_id n)) s (gn_id n) ''supersedes'' ''SUPERSEDES'') else None
   | None \<Rightarrow> None) rows"

definition extracted_edges :: "graph_node list \<Rightarrow> graph_edge list \<Rightarrow> view_edge list" where
  "extracted_edges rows ds = filter (\<lambda>e. ve_source e \<in> gn_id ` set rows \<and> ve_target e \<in> gn_id ` set rows) (map drawn_edge ds)
     @ supersedes_edges rows"

definition mark_of :: "source_row \<Rightarrow> source_mark" where
  "mark_of s = \<lparr>sm_id = so_id s, sm_kind = so_kind s, sm_title = so_title s\<rparr>"

definition view_sources :: "bool \<Rightarrow> workspace_row \<Rightarrow> app_db \<Rightarrow> graph_node list \<Rightarrow> source_row list" where
  "view_sources materials w db rows = filter (\<lambda>s. so_workspace_id s = wk_id w \<and> so_owner_id s = wk_owner_id w
     \<and> (materials \<or> (\<exists>n \<in> set rows. so_id s \<in> set (gn_source_ids n)))) (ab_sources db)"

definition entity_node :: "source_row list \<Rightarrow> graph_node \<Rightarrow> view_node" where
  "entity_node sources n = \<lparr>vn_id = gn_id n, vn_type = entity_type (gn_kind n), vn_kind = gn_kind n, vn_label = gn_name n,
     vn_degree = 0, vn_sources = List.map_filter (\<lambda>i. map_option mark_of (row_get so_id i sources)) (gn_source_ids n),
     vn_superseded_by = gn_superseded_by n, vn_material = False, vn_source_id = None, vn_directory_id = None,
     vn_directory_kind = None\<rparr>"

section \<open>The directory\<close>

text \<open>The two kinds of the directory, as they stand in an identifier and in a node.\<close>

datatype entry_kind = PersonEntry | ProjectEntry

fun entry_prefix :: "entry_kind \<Rightarrow> pystr" where
  "entry_prefix PersonEntry = lit ''directory:person:''"
| "entry_prefix ProjectEntry = lit ''directory:project:''"

fun entry_kind_name :: "entry_kind \<Rightarrow> pystr" where
  "entry_kind_name PersonEntry = lit ''Person''"
| "entry_kind_name ProjectEntry = lit ''Project''"

fun entry_type_name :: "entry_kind \<Rightarrow> pystr" where
  "entry_type_name PersonEntry = lit ''person''"
| "entry_type_name ProjectEntry = lit ''project''"

text \<open>The node each directory identifier names; the last one counts.\<close>

definition directory_nodes :: "(pystr \<Rightarrow> uuid option) \<Rightarrow> graph_node list \<Rightarrow> ((entry_kind \<times> uuid) \<times> uuid) list" where
  "directory_nodes parse rows = rev (concat (map (\<lambda>n. concat (map (\<lambda>identifier. List.map_filter (\<lambda>k.
     if prefix (entry_prefix k) identifier
     then map_option (\<lambda>i. ((k, i), gn_id n)) (parse (removeprefix (entry_prefix k) identifier)) else None)
     [PersonEntry, ProjectEntry]) (gn_identifiers n))) rows))"

definition directory_node_id ::
  "runtime \<Rightarrow> uuid \<Rightarrow> ((entry_kind \<times> uuid) \<times> uuid) list \<Rightarrow> entry_kind \<Rightarrow> uuid \<Rightarrow> uuid" where
  "directory_node_id rt ws found k i = (case map_of found (k, i) of Some n \<Rightarrow> n
     | None \<Rightarrow> entity_id rt ws (entry_kind_name k) (lit ''id:'' @ entry_prefix k @ uuid_str i))"

definition directory_entry :: "uuid \<Rightarrow> entry_kind \<Rightarrow> uuid \<Rightarrow> pystr \<Rightarrow> view_node" where
  "directory_entry n k i label = \<lparr>vn_id = n, vn_type = entry_type_name k, vn_kind = entry_kind_name k, vn_label = label,
     vn_degree = 0, vn_sources = [], vn_superseded_by = None, vn_material = False, vn_source_id = None,
     vn_directory_id = Some i, vn_directory_kind = Some (entry_kind_name k)\<rparr>"

definition add_directory ::
  "runtime \<Rightarrow> uuid \<Rightarrow> ((entry_kind \<times> uuid) \<times> uuid) list \<Rightarrow> view_node list \<Rightarrow> entry_kind \<times> uuid \<times> pystr \<Rightarrow> view_node list" where
  "add_directory rt ws found nodes = (\<lambda>(k, i, label). let n = directory_node_id rt ws found k i in
     if n \<in> vn_id ` set nodes
     then map (\<lambda>x. if vn_id x = n then x\<lparr>vn_label := label, vn_directory_id := Some i,
       vn_directory_kind := Some (entry_kind_name k)\<rparr> else x) nodes
     else nodes @ [directory_entry n k i label])"

definition directory_people :: "workspace_row \<Rightarrow> app_db \<Rightarrow> person_row list" where
  "directory_people w db = filter (\<lambda>p. pe_workspace_id p = wk_id w \<and> pe_owner_id p = wk_owner_id w) (ab_people db)"

definition directory_projects :: "workspace_row \<Rightarrow> app_db \<Rightarrow> project_row list" where
  "directory_projects w db = filter (\<lambda>p. pj_workspace_id p = wk_id w \<and> pj_owner_id p = wk_owner_id w) (ab_projects db)"

definition directory_entries :: "workspace_row \<Rightarrow> app_db \<Rightarrow> (entry_kind \<times> uuid \<times> pystr) list" where
  "directory_entries w db = map (\<lambda>p. (PersonEntry, pe_id p, pe_name p)) (directory_people w db)
     @ map (\<lambda>p. (ProjectEntry, pj_id p, pj_name p)) (directory_projects w db)"

text \<open>\<^verbatim>\<open>person_nodes\<close> and \<^verbatim>\<open>project_nodes\<close>: the node of an entry that is in the directory.\<close>

definition entry_node ::
  "runtime \<Rightarrow> workspace_row \<Rightarrow> app_db \<Rightarrow> ((entry_kind \<times> uuid) \<times> uuid) list \<Rightarrow> entry_kind \<Rightarrow> uuid \<Rightarrow> uuid option" where
  "entry_node rt w db found k i = (if \<exists>label. (k, i, label) \<in> set (directory_entries w db)
     then Some (directory_node_id rt (wk_id w) found k i) else None)"

section \<open>Explicit edges\<close>

definition explicit_edge :: "runtime \<Rightarrow> uuid \<Rightarrow> uuid \<Rightarrow> uuid \<Rightarrow> string \<Rightarrow> pystr \<Rightarrow> view_edge" where
  "explicit_edge rt ws a b kind role = \<lparr>ve_id = uuid_str (rt_uuid5 rt (lit ''explicit:'' @ uuid_str ws @ [58] @ uuid_str a @ [58]
       @ lit kind @ [58] @ uuid_str b @ [58] @ role)),
     ve_source = a, ve_target = b, ve_type = relation_type (lit kind), ve_kind = lit kind, ve_valid_from = None,
     ve_valid_to = None, ve_explicit = True, ve_role = Some role\<rparr>"

definition membership_edges ::
  "runtime \<Rightarrow> workspace_row \<Rightarrow> app_db \<Rightarrow> ((entry_kind \<times> uuid) \<times> uuid) list \<Rightarrow> view_edge list" where
  "membership_edges rt w db found = List.map_filter (\<lambda>m.
     case (entry_node rt w db found PersonEntry (pm_person_id m), entry_node rt w db found ProjectEntry (pm_project_id m)) of
       (Some a, Some b) \<Rightarrow> Some (explicit_edge rt (wk_id w) a b ''WORKS_ON'' (lit ''member''))
     | _ \<Rightarrow> None) (filter (\<lambda>m. pm_workspace_id m = wk_id w) (ab_project_members db))"

section \<open>Materials\<close>

definition visible_sources :: "source_row list \<Rightarrow> source_row list" where
  "visible_sources = filter (\<lambda>s. so_status s = Succeeded \<or> so_kind s = MeetingKind \<and> so_review_state s = Some RvConfirmed)"

definition material_kind :: "source_row \<Rightarrow> pystr" where
  "material_kind s = (if so_kind s = MeetingKind then lit ''Meeting'' else lit ''Document'')"

definition material_id :: "runtime \<Rightarrow> uuid \<Rightarrow> source_row \<Rightarrow> uuid" where
  "material_id rt ws s = entity_id rt ws (material_kind s) (lit ''source:'' @ uuid_str (so_id s))"

definition material_node :: "runtime \<Rightarrow> uuid \<Rightarrow> source_row \<Rightarrow> view_node" where
  "material_node rt ws s = \<lparr>vn_id = material_id rt ws s, vn_type = lit ''event'', vn_kind = material_kind s, vn_label = so_title s,
     vn_degree = 0, vn_sources = [mark_of s], vn_superseded_by = None, vn_material = True, vn_source_id = Some (so_id s),
     vn_directory_id = None, vn_directory_kind = None\<rparr>"

definition evidence_edges :: "runtime \<Rightarrow> uuid \<Rightarrow> graph_node list \<Rightarrow> source_row \<Rightarrow> view_edge list" where
  "evidence_edges rt ws rows s = concat (map (\<lambda>n. map (\<lambda>_. plain_edge
       (uuid_str (rt_uuid5 rt (lit ''evidence:'' @ uuid_str ws @ [58] @ uuid_str (gn_id n) @ [58] @ uuid_str (so_id s))))
       (gn_id n) (material_id rt ws s) ''relates_to'' ''MENTIONED_IN'') (filter (\<lambda>i. i = so_id s) (gn_source_ids n)))
     (filter (\<lambda>n. gn_kind n \<in> lit ` {''Event'', ''Decision'', ''Task'', ''Issue'', ''Technology''}) rows))"

fun person_role_value :: "source_person_role \<Rightarrow> pystr" where
  "person_role_value Participant = lit ''participant''"
| "person_role_value Author = lit ''author''"

definition project_edges ::
  "runtime \<Rightarrow> workspace_row \<Rightarrow> app_db \<Rightarrow> ((entry_kind \<times> uuid) \<times> uuid) list \<Rightarrow> source_row \<Rightarrow> view_edge list" where
  "project_edges rt w db found s = (let
       links = filter (\<lambda>r. sp_workspace_id r = wk_id w \<and> sp_source_id r = so_id s) (ab_source_projects db);
       ids = (if links \<noteq> [] then map sp_project_id links else case so_project_id s of Some i \<Rightarrow> [i] | None \<Rightarrow> [])
     in List.map_filter (\<lambda>i. map_option (\<lambda>n. explicit_edge rt (wk_id w) (material_id rt (wk_id w) s) n ''RELATED_TO'' (lit ''project''))
       (entry_node rt w db found ProjectEntry i)) ids)"

definition person_edges ::
  "runtime \<Rightarrow> workspace_row \<Rightarrow> app_db \<Rightarrow> ((entry_kind \<times> uuid) \<times> uuid) list \<Rightarrow> source_row \<Rightarrow> view_edge list" where
  "person_edges rt w db found s = List.map_filter (\<lambda>r. map_option (\<lambda>n. explicit_edge rt (wk_id w) n (material_id rt (wk_id w) s)
       (if sn_role r = Author then ''CREATED'' else ''PARTICIPATED_IN'') (person_role_value (sn_role r)))
       (entry_node rt w db found PersonEntry (sn_person_id r)))
     (filter (\<lambda>r. sn_workspace_id r = wk_id w \<and> sn_source_id r = so_id s) (ab_source_people db))"

definition material_edges ::
  "runtime \<Rightarrow> workspace_row \<Rightarrow> app_db \<Rightarrow> ((entry_kind \<times> uuid) \<times> uuid) list \<Rightarrow> graph_node list \<Rightarrow> source_row \<Rightarrow> view_edge list" where
  "material_edges rt w db found rows s = evidence_edges rt (wk_id w) rows s @ project_edges rt w db found s @ person_edges rt w db found s"

section \<open>The graph of a workspace\<close>

definition degree_of :: "view_edge list \<Rightarrow> uuid \<Rightarrow> nat" where
  "degree_of es i = count_list (map ve_source es) i + count_list (map ve_target es) i"

definition graph_view :: "runtime \<Rightarrow> workspace_row \<Rightarrow> app_db \<Rightarrow> graph_db option \<Rightarrow> instant \<Rightarrow> bool \<Rightarrow> view_answer" where
  "graph_view rt w db store t materials = (let
       rows = (case store of Some g \<Rightarrow> reader_nodes (wk_id w) g | None \<Rightarrow> []);
       ds = (case store of Some g \<Rightarrow> reader_edges (wk_id w) t g | None \<Rightarrow> []);
       sources = view_sources materials w db rows;
       found = directory_nodes (rt_parse_uuid rt) rows;
       shown = (if materials then visible_sources sources else []);
       nodes = foldl (add_directory rt (wk_id w) found) (map (entity_node sources) rows) (directory_entries w db)
         @ map (material_node rt (wk_id w)) shown;
       edges = extracted_edges rows ds @ membership_edges rt w db found @ concat (map (material_edges rt w db found rows) shown)
     in (map (\<lambda>x. x\<lparr>vn_degree := degree_of edges (vn_id x)\<rparr>) nodes, edges))"

definition get_knowledge_graph ::
  "runtime \<Rightarrow> stamp \<Rightarrow> uuid \<Rightarrow> auth_user \<Rightarrow> graph_db option \<Rightarrow> py_datetime option \<Rightarrow> bool \<Rightarrow> view_answer request" where
  "get_knowledge_graph rt st ws user store at_time materials = with_access (rt_unicode rt) st ws user Viewer (\<lambda>a db.
     case as_utc at_time of
       Inl _ \<Rightarrow> Inl (http 500 ''OverflowError'')
     | Inr t \<Rightarrow> Inr (graph_view rt (wa_workspace a) db store (case t of Some i \<Rightarrow> i | None \<Rightarrow> st_now st) materials, db))"

section \<open>A closed view\<close>

lemma set_mapped: "set (List.map_filter f xs) = {y. \<exists>x \<in> set xs. f x = Some y}"
  by (induction xs) (auto simp: List.map_filter_simps split: option.splits)

lemma add_directory_ids:
  "vn_id ` set (add_directory rt ws found nodes (k, i, label)) = insert (directory_node_id rt ws found k i) (vn_id ` set nodes)"
proof (cases "directory_node_id rt ws found k i \<in> vn_id ` set nodes")
  case True
  let ?relabel = "\<lambda>x. if vn_id x = directory_node_id rt ws found k i then x\<lparr>vn_label := label, vn_directory_id := Some i,
       vn_directory_kind := Some (entry_kind_name k)\<rparr> else x"
  have "map vn_id (map ?relabel nodes) = map vn_id nodes"
    by simp
  then have "vn_id ` set (map ?relabel nodes) = vn_id ` set nodes"
    unfolding set_map [symmetric] by (rule arg_cong)
  then show ?thesis
    using True by (simp add: add_directory_def Let_def insert_absorb)
next
  case False
  then show ?thesis
    by (simp add: add_directory_def Let_def directory_entry_def)
qed

lemma add_directories_ids:
  "vn_id ` set (foldl (add_directory rt ws found) nodes es)
    = vn_id ` set nodes \<union> {directory_node_id rt ws found k i | k i label. (k, i, label) \<in> set es}"
proof (induction es arbitrary: nodes)
  case (Cons e es)
  obtain k i label where "e = (k, i, label)"
    by (cases e)
  then show ?case
    using Cons [of "add_directory rt ws found nodes e"] by (auto simp: add_directory_ids)
qed simp

definition ends_in :: "uuid set \<Rightarrow> view_edge \<Rightarrow> bool" where
  "ends_in ids e \<longleftrightarrow> ve_source e \<in> ids \<and> ve_target e \<in> ids"

lemma extracted_ends: "e \<in> set (extracted_edges rows ds) \<Longrightarrow> ends_in (gn_id ` set rows) e"
  by (auto simp: extracted_edges_def supersedes_edges_def set_mapped plain_edge_def ends_in_def split: option.splits if_splits)

lemma entry_node_Some: "entry_node rt w db found k i = Some n
    \<longleftrightarrow> (\<exists>label. (k, i, label) \<in> set (directory_entries w db)) \<and> n = directory_node_id rt (wk_id w) found k i"
  by (auto simp: entry_node_def)

text \<open>The identifiers of the view: entities, entries of the directory and materials.\<close>

definition directory_ids_of :: "runtime \<Rightarrow> workspace_row \<Rightarrow> app_db \<Rightarrow> ((entry_kind \<times> uuid) \<times> uuid) list \<Rightarrow> uuid set" where
  "directory_ids_of rt w db found = {directory_node_id rt (wk_id w) found k i | k i label. (k, i, label) \<in> set (directory_entries w db)}"

lemma entry_in: "entry_node rt w db found k i = Some n \<Longrightarrow> n \<in> directory_ids_of rt w db found"
  by (auto simp: entry_node_Some directory_ids_of_def)

lemma explicit_ends: "ends_in ids (explicit_edge rt ws a b kind role) \<longleftrightarrow> a \<in> ids \<and> b \<in> ids"
  by (simp add: explicit_edge_def ends_in_def)

lemma membership_ends:
  assumes "e \<in> set (membership_edges rt w db found)"
  shows "ends_in (directory_ids_of rt w db found) e"
proof -
  obtain m :: project_member_row where m: "(case (entry_node rt w db found PersonEntry (pm_person_id m), entry_node rt w db found ProjectEntry (pm_project_id m)) of
       (Some a, Some b) \<Rightarrow> Some (explicit_edge rt (wk_id w) a b ''WORKS_ON'' (lit ''member'')) | _ \<Rightarrow> None) = Some e"
    using assms unfolding membership_edges_def set_mapped by (elim CollectE bexE) (rule that)
  obtain a b where "entry_node rt w db found PersonEntry (pm_person_id m) = Some a"
    "entry_node rt w db found ProjectEntry (pm_project_id m) = Some b" "e = explicit_edge rt (wk_id w) a b ''WORKS_ON'' (lit ''member'')"
    using m by (cases "entry_node rt w db found PersonEntry (pm_person_id m)"; cases "entry_node rt w db found ProjectEntry (pm_project_id m)") auto
  then show ?thesis
    by (simp add: explicit_ends entry_in)
qed

lemma material_ends: "e \<in> set (material_edges rt w db found rows s)
    \<Longrightarrow> ends_in (gn_id ` set rows \<union> directory_ids_of rt w db found \<union> {material_id rt (wk_id w) s}) e"
  by (auto simp: material_edges_def evidence_edges_def project_edges_def person_edges_def set_mapped explicit_edge_def plain_edge_def
    ends_in_def Let_def dest: entry_in)

section \<open>What a view shows\<close>

text \<open>A node shows sources of its workspace and owner; a material is one approved source.\<close>

definition scoped_node :: "workspace_row \<Rightarrow> app_db \<Rightarrow> view_node \<Rightarrow> bool" where
  "scoped_node w db n \<longleftrightarrow> (\<forall>m \<in> set (vn_sources n). \<exists>s \<in> set (ab_sources db). m = mark_of s
       \<and> so_workspace_id s = wk_id w \<and> so_owner_id s = wk_owner_id w)
     \<and> (vn_material n \<longrightarrow> (\<exists>s \<in> set (ab_sources db). vn_sources n = [mark_of s] \<and> vn_source_id n = Some (so_id s)
       \<and> (so_status s = Succeeded \<or> so_kind s = MeetingKind \<and> so_review_state s = Some RvConfirmed)))"

lemma add_directory_scoped:
  "\<forall>n \<in> set nodes. scoped_node w db n \<Longrightarrow> \<forall>n \<in> set (foldl (add_directory rt ws found) nodes es). scoped_node w db n"
proof (induction es arbitrary: nodes)
  case (Cons e es)
  have "\<forall>n \<in> set (add_directory rt ws found nodes e). scoped_node w db n"
    using Cons.prems by (cases e) (auto simp: add_directory_def Let_def directory_entry_def scoped_node_def)
  then show ?case
    using Cons.IH by simp
qed simp

lemma entity_node_scoped: "scoped_node w db (entity_node (view_sources materials w db rows) n)"
  by (auto simp: scoped_node_def entity_node_def set_mapped view_sources_def dest!: row_get_Some)

lemma material_node_scoped: "s \<in> set (visible_sources (view_sources materials w db rows)) \<Longrightarrow> scoped_node w db (material_node rt ws s)"
  by (auto simp: scoped_node_def material_node_def visible_sources_def view_sources_def)

lemma graph_view_ids:
  assumes "graph_view rt w db store t materials = (nodes, edges)"
  shows "e \<in> set edges \<Longrightarrow> ends_in (vn_id ` set nodes) e" "n \<in> set nodes \<Longrightarrow> vn_degree n = degree_of edges (vn_id n) \<and> scoped_node w db n"
proof -
  define rows where "rows = (case store of Some g \<Rightarrow> reader_nodes (wk_id w) g | None \<Rightarrow> [])"
  define ds where "ds = (case store of Some g \<Rightarrow> reader_edges (wk_id w) t g | None \<Rightarrow> [])"
  define sources where "sources = view_sources materials w db rows"
  define found where "found = directory_nodes (rt_parse_uuid rt) rows"
  define shown where "shown = (if materials then visible_sources sources else [])"
  define plain where "plain = foldl (add_directory rt (wk_id w) found) (map (entity_node sources) rows) (directory_entries w db)
      @ map (material_node rt (wk_id w)) shown"
  have "(nodes, edges) = (let edges = extracted_edges rows ds @ membership_edges rt w db found @ concat (map (material_edges rt w db found rows) shown)
      in (map (\<lambda>x. x\<lparr>vn_degree := degree_of edges (vn_id x)\<rparr>) plain, edges))"
    unfolding assms [symmetric] graph_view_def Let_def plain_def shown_def found_def sources_def rows_def ds_def ..
  then have edges: "edges = extracted_edges rows ds @ membership_edges rt w db found @ concat (map (material_edges rt w db found rows) shown)"
    and nodes: "nodes = map (\<lambda>x. x\<lparr>vn_degree := degree_of edges (vn_id x)\<rparr>) plain"
    by (simp_all add: Let_def)
  have "vn_id ` set nodes = vn_id ` set plain"
    by (auto simp: nodes image_iff)
  moreover have "vn_id ` set (map (entity_node sources) rows) = gn_id ` set rows"
    by (force simp: entity_node_def)
  moreover have "vn_id ` set (map (material_node rt (wk_id w)) shown) = material_id rt (wk_id w) ` set shown"
    by (force simp: material_node_def)
  ultimately have ids: "vn_id ` set nodes
      = gn_id ` set rows \<union> directory_ids_of rt w db found \<union> material_id rt (wk_id w) ` set shown"
    by (simp add: plain_def image_Un add_directories_ids directory_ids_of_def)
  show "ends_in (vn_id ` set nodes) e" if "e \<in> set edges" for e
    using that extracted_ends membership_ends material_ends unfolding edges ids ends_in_def by fastforce
  have scoped: "\<forall>n \<in> set plain. scoped_node w db n"
    using add_directory_scoped [of "map (entity_node sources) rows" w db] entity_node_scoped material_node_scoped
    unfolding plain_def shown_def sources_def by (auto split: if_splits)
  show "vn_degree n = degree_of edges (vn_id n) \<and> scoped_node w db n" if "n \<in> set nodes" for n
    using that scoped by (auto simp: nodes scoped_node_def)
qed

section \<open>Writes to other workspaces\<close>

lemma insort_key_agree: "\<forall>y \<in> insert x (set xs). f y = g y \<Longrightarrow> insort_key f x xs = insort_key g x xs"
  by (induction xs) auto

lemma sort_key_agree: "\<forall>x \<in> set xs. f x = g x \<Longrightarrow> sort_key f xs = sort_key g xs"
proof (induction xs)
  case (Cons x xs)
  then have "insort_key f x (sort_key g xs) = insort_key g x (sort_key g xs)"
    by (intro insort_key_agree) simp
  then show ?case
    using Cons by simp
qed simp

text \<open>In a graph that is well formed, an edge lies in the workspace of its ends.\<close>

lemma edge_home:
  assumes "graph_wf g" "d \<in> set (gb_edges g)"
  shows "has_ends ws (gb_nodes g) (gd_source d, gd_target d) \<longleftrightarrow> gd_workspace_id d = ws"
proof -
  have ends: "has_ends (gd_workspace_id d) (gb_nodes g) (gd_source d, gd_target d)"
    using assms by (auto simp: graph_wf_def row_ends_def edge_pair_def)
  moreover have "gd_workspace_id d = ws" if "has_ends ws (gb_nodes g) (gd_source d, gd_target d)"
    using that ends has_node_unique [of "gb_nodes g" "gd_workspace_id d" "gd_source d" ws] assms(1)
    by (simp add: has_ends_def graph_wf_def)
  ultimately show ?thesis
    by auto
qed

definition same_part :: "uuid \<Rightarrow> graph_db \<Rightarrow> graph_db \<Rightarrow> bool" where
  "same_part ws g g' \<longleftrightarrow> filter (\<lambda>n. gn_workspace_id n = ws) (gb_nodes g') = filter (\<lambda>n. gn_workspace_id n = ws) (gb_nodes g)
     \<and> filter (\<lambda>d. gd_workspace_id d = ws) (gb_edges g') = filter (\<lambda>d. gd_workspace_id d = ws) (gb_edges g)"

lemma filter_within: "(\<And>x. P x \<Longrightarrow> Q x) \<Longrightarrow> filter P (filter Q xs) = filter P xs"
  by (induction xs) auto

lemma foreign_same_part:
  assumes "foreign_nodes ws' (gb_nodes g') = foreign_nodes ws' (gb_nodes g)" "foreign_edges ws' (gb_edges g') = foreign_edges ws' (gb_edges g)"
    and "ws \<noteq> ws'"
  shows "same_part ws g g'"
proof -
  have "filter (\<lambda>n. gn_workspace_id n = ws) (foreign_nodes ws' ns) = filter (\<lambda>n. gn_workspace_id n = ws) ns" for ns
    unfolding foreign_nodes_def by (rule filter_within) (use assms(3) in simp)
  moreover have "filter (\<lambda>d. gd_workspace_id d = ws) (foreign_edges ws' ds) = filter (\<lambda>d. gd_workspace_id d = ws) ds" for ds
    unfolding foreign_edges_def by (rule filter_within) (use assms(3) in simp)
  ultimately show ?thesis
    using assms(1,2) unfolding same_part_def by metis
qed

lemma node_name_home:
  assumes "graph_wf g" "has_node ws (gb_nodes g) i"
  shows "row_get gn_id i (filter (\<lambda>n. gn_workspace_id n = ws) (gb_nodes g)) = row_get gn_id i (gb_nodes g)"
proof -
  obtain n where n: "n \<in> set (gb_nodes g)" "gn_id n = i" "gn_workspace_id n = ws"
    using assms(2) by (auto simp: has_node_def)
  have unique: "keys_unique gn_id (gb_nodes g)"
    using assms(1) by (simp add: graph_wf_def)
  then have "keys_unique gn_id (filter (\<lambda>n. gn_workspace_id n = ws) (gb_nodes g))"
    by (simp add: keys_unique_def distinct_map_filter)
  then have "row_get gn_id i (filter (\<lambda>n. gn_workspace_id n = ws) (gb_nodes g)) = Some n"
    using row_get_unique [of gn_id "filter (\<lambda>n. gn_workspace_id n = ws) (gb_nodes g)" n] n by simp
  then show ?thesis
    using row_get_unique [OF unique n(1)] n(2) by simp
qed

lemma reader_edges_home:
  assumes "graph_wf g"
  shows "reader_edges ws t g = sort_key (reader_order (g\<lparr>gb_nodes := filter (\<lambda>n. gn_workspace_id n = ws) (gb_nodes g)\<rparr>))
    (filter (\<lambda>d. gd_kind d \<in> set relation_kind_names \<and> valid_at t d) (filter (\<lambda>d. gd_workspace_id d = ws) (gb_edges g)))"
proof -
  have same: "filter (\<lambda>d. has_ends ws (gb_nodes g) (gd_source d, gd_target d) \<and> gd_kind d \<in> set relation_kind_names \<and> valid_at t d) (gb_edges g)
      = filter (\<lambda>d. gd_kind d \<in> set relation_kind_names \<and> valid_at t d) (filter (\<lambda>d. gd_workspace_id d = ws) (gb_edges g))"
    unfolding filter_filter by (rule filter_cong [OF refl]) (use edge_home [OF assms] in auto)
  have "reader_order g d = reader_order (g\<lparr>gb_nodes := filter (\<lambda>n. gn_workspace_id n = ws) (gb_nodes g)\<rparr>) d"
    if "d \<in> set (gb_edges g)" "gd_workspace_id d = ws" for d
  proof -
    have "has_node ws (gb_nodes g) (gd_source d)" "has_node ws (gb_nodes g) (gd_target d)"
      using edge_home [OF assms that(1), of ws] that(2) by (auto simp: has_ends_def)
    then show ?thesis
      using node_name_home [OF assms] by (simp add: reader_order_def node_name_def)
  qed
  then show ?thesis
    unfolding reader_edges_def same by (intro sort_key_agree) auto
qed

lemma same_part_view:
  assumes "graph_wf g" "graph_wf g'" "same_part (wk_id w) g g'"
  shows "graph_view rt w db (Some g') t materials = graph_view rt w db (Some g) t materials"
proof -
  have order: "reader_order (g'\<lparr>gb_nodes := ns\<rparr>) = reader_order (g\<lparr>gb_nodes := ns\<rparr>)" for ns
    by (rule ext) (simp add: reader_order_def node_name_def)
  have "reader_nodes (wk_id w) g' = reader_nodes (wk_id w) g"
    using assms(3) by (simp add: reader_nodes_def same_part_def)
  moreover have "reader_edges (wk_id w) t g' = reader_edges (wk_id w) t g"
    using assms(3) unfolding reader_edges_home [OF assms(1)] reader_edges_home [OF assms(2)] same_part_def by (simp add: order)
  ultimately show ?thesis
    by (simp add: graph_view_def)
qed

section \<open>Properties\<close>

text \<open>C39: the graph a member sees is closed and their own. Whoever gets a graph has a role in the workspace; every edge
  joins two nodes of the answer, whatever the graph store, the directory and the links of sources hold; the degree of a
  node counts the ends of edges at it; every source a node shows belongs to the workspace and its owner; and a node
  that stands for a source stands for one that is processed or, as a meeting, confirmed.\<close>
theorem graph_view_is_closed:
  assumes "get_knowledge_graph rt st ws user store at_time materials db = (Inr (nodes, edges), db')"
  shows "\<exists>a. workspace_access (rt_unicode rt) st ws user Viewer db = (Inr a, db')
    \<and> (\<forall>e \<in> set edges. ve_source e \<in> vn_id ` set nodes \<and> ve_target e \<in> vn_id ` set nodes)
    \<and> (\<forall>n \<in> set nodes. vn_degree n = degree_of edges (vn_id n)
      \<and> (\<forall>m \<in> set (vn_sources n). \<exists>s \<in> set (ab_sources db'). m = mark_of s
        \<and> so_workspace_id s = wk_id (wa_workspace a) \<and> so_owner_id s = wk_owner_id (wa_workspace a))
      \<and> (vn_material n \<longrightarrow> (\<exists>s \<in> set (ab_sources db'). vn_sources n = [mark_of s] \<and> vn_source_id n = Some (so_id s)
        \<and> (so_status s = Succeeded \<or> so_kind s = MeetingKind \<and> so_review_state s = Some RvConfirmed))))"
proof -
  obtain a where access: "workspace_access (rt_unicode rt) st ws user Viewer db = (Inr a, db')"
    and view: "\<exists>t. graph_view rt (wa_workspace a) db' store t materials = (nodes, edges)"
    using assms unfolding get_knowledge_graph_def with_access_def respond_def by (auto split: prod.splits sum.splits)
  then obtain t where view: "graph_view rt (wa_workspace a) db' store t materials = (nodes, edges)"
    by blast
  show ?thesis
    using access graph_view_ids [OF view] unfolding ends_in_def scoped_node_def by (intro exI [of _ a]) blast
qed

text \<open>C40: what is written to the graph of one workspace is invisible in every other. Merging a resolved graph of a
  workspace into a well-formed store leaves the graph the members of another workspace see exactly as it was.\<close>
theorem writes_elsewhere_are_invisible:
  assumes "graph_wf g" "writable ws rg" "own_ids ws rg g" "graph_write rt rg g = (r, g')" "wk_id w \<noteq> ws"
  shows "graph_view rt' w db (Some g') t materials = graph_view rt' w db (Some g) t materials"
proof -
  have kept: "graph_wf g'" "foreign_nodes ws (gb_nodes g') = foreign_nodes ws (gb_nodes g)"
    "foreign_edges ws (gb_edges g') = foreign_edges ws (gb_edges g)"
    using graph_write_keeps [OF assms(1-4)] by simp_all
  show ?thesis
    by (rule same_part_view [OF assms(1) kept(1) foreign_same_part [OF kept(2,3) assms(5)]])
qed

definition team_workspace :: "uuid \<Rightarrow> workspace_row" where
  "team_workspace i = \<lparr>wk_id = i, wk_owner_id = 2, wk_name = lit ''team'', wk_model_settings = [], wk_created_at = 0\<rparr>"

definition view_db :: app_db where
  "view_db = empty_db\<lparr>ab_workspaces := [team_workspace 1],
     ab_people := [\<lparr>pe_id = 5, pe_workspace_id = 1, pe_owner_id = 2, pe_name = lit ''kim'', pe_email = None, pe_email_normalized = None,
       pe_role = None, pe_aliases = [], pe_archived_at = None, pe_created_at = 0, pe_updated_at = 0\<rparr>]\<rparr>"

lemma view_example: "\<exists>n edges db'. get_knowledge_graph toy_runtime example_stamp 1 \<lparr>us_id = 2, us_email = None\<rparr> None None True view_db
    = (Inr ([n], edges), db') \<and> vn_label n = lit ''kim''"
  by (simp add: get_knowledge_graph_def with_access_def workspace_access_def claim_pending_memberships_def grant_def view_db_def
    team_workspace_def row_get_def as_utc_def respond_def graph_view_def Let_def directory_entries_def directory_people_def
    directory_projects_def add_directory_def directory_entry_def view_sources_def visible_sources_def empty_db_def)

theorem graph_view_is_closed_witness:
  "\<exists>n edges db'. get_knowledge_graph toy_runtime example_stamp 1 \<lparr>us_id = 2, us_email = None\<rparr> None None True view_db
      = (Inr ([n], edges), db')
    \<and> vn_label n = lit ''kim'' \<and> vn_degree n = degree_of edges (vn_id n)"
proof -
  obtain n edges db' where run: "get_knowledge_graph toy_runtime example_stamp 1 \<lparr>us_id = 2, us_email = None\<rparr> None None True view_db
      = (Inr ([n], edges), db')" and label: "vn_label n = lit ''kim''"
    using view_example by blast
  have "vn_degree n = degree_of edges (vn_id n)"
    using graph_view_is_closed [OF run] by auto
  then show ?thesis
    using run label by blast
qed

definition other_graph :: graph_db where
  "other_graph = \<lparr>gb_nodes = [(sample_node 3 Person ''lee'' [''lee''] [] [7])\<lparr>gn_workspace_id := 2\<rparr>], gb_edges = []\<rparr>"

theorem writes_elsewhere_are_invisible_witness:
  "graph_view toy_runtime (team_workspace 2) view_db
      (Some (snd (graph_write toy_runtime (sample_resolved [sample_graph_entity 5 Person ''kim'' None]) other_graph))) 0 True
    = graph_view toy_runtime (team_workspace 2) view_db (Some other_graph) 0 True"
proof (rule writes_elsewhere_are_invisible)
  show "graph_wf other_graph"
    by (simp add: other_graph_def graph_wf_def keys_unique_def edges_wf_def)
  show "writable 1 (sample_resolved [sample_graph_entity 5 Person ''kim'' None])"
    by (simp add: writable_def sample_resolved_def sample_graph_entity_def)
  show "own_ids 1 (sample_resolved [sample_graph_entity 5 Person ''kim'' None]) other_graph"
    by (simp add: own_ids_def sample_resolved_def sample_graph_entity_def other_graph_def foreign_nodes_def sample_node_def)
qed (rule surjective_pairing, simp add: team_workspace_def)

end
