(* ===== verification/Spec2Isabelle.thy ===== *)
theory Spec2Isabelle
  imports PgQueue AttemptContract ModelCatalog AgentContract WorkspaceScope Answering ModelSettings OllamaEndpoint WorkspaceCreation KnowledgeGraph
begin

text \<open>
  Maeglagi keeps a workspace's meetings and documents, extracts entities, events, relations and
  contexts from them with language models, merges these into a running Context Store and a graph, and
  lets people and external agents review and extend them. This development models the backend's core
  (\<^verbatim>\<open>src/backend/app\<close>); below, paths are relative to its \<^verbatim>\<open>modules\<close> unless they start with \<^verbatim>\<open>api\<close>.

  Reading the code as definitions. A row of a table is a record, a table the list of its rows
  (\<open>Rows\<close>, \<open>Database\<close>); Python text is a list of code points (\<open>PyText\<close>), an unbounded int is \<open>int\<close>, an
  identifier a 128-bit word, an instant a number of microseconds. A raise is an \<open>Inl\<close>. A request is a function
  from the committed tables to its answer and the tables it leaves (\<open>Access\<close>); a processing attempt or
  an agent's submission, which commit on their way, run over a session that logs each durable state
  (\<open>Sessions\<close>). Providers, the vault, JSON text, hashes, the Unicode database, the calendar, uuid5, storage and
  the graph store are arguments.

  Context engine. \<open>Ontology\<close> (domain types), \<open>Temporal\<close> (\<^verbatim>\<open>temporal.py\<close>: instants and validity periods),
  \<open>EntityResolution\<close> (\<^verbatim>\<open>entity_resolution.py\<close>: mentions to one graph), \<open>Providers\<close> (\<^verbatim>\<open>provider.py\<close>),
  \<open>StagePipeline\<close> (\<^verbatim>\<open>extraction.py\<close>: five stages, two chat attempts each), \<open>Analysis\<close> (\<^verbatim>\<open>analysis.py\<close>),
  \<open>ContextStore\<close> (\<^verbatim>\<open>context_store.py\<close>, its repository and the keyless updater), \<open>ModelRoles\<close> and
  \<open>ModelCatalog\<close> (\<^verbatim>\<open>model_roles.py\<close>, \<^verbatim>\<open>model_catalog.py\<close>). Their lemmas show what is kept, what is dropped
  and counted, and that results do not depend on order or repetition.

  Ingestion. \<open>Chunking\<close> (normalizers and chunker), \<open>Indexing\<close> (\<^verbatim>\<open>pipeline.py\<close>: choice of a connection,
  embeddings, search), \<open>DirectoryResolution\<close> (\<^verbatim>\<open>directory_resolution.py\<close>), \<open>SourceAnalysis\<close>
  (\<^verbatim>\<open>source_analysis.py\<close>: extraction, Context Store and graph under a checkpoint), \<open>SourceProcessing\<close>
  (\<^verbatim>\<open>source_processor.py\<close>, \<^verbatim>\<open>tasks.py\<close>), \<open>Attempts\<close> (errors and lock keys of an attempt), \<open>PgQueue\<close>
  (\<^verbatim>\<open>pg_executor.py\<close>, \<^verbatim>\<open>pg_recovery.py\<close>: jobs, leases and generations as a transition system).
  \<open>DurableSteps\<close> states the abstract contract of a source (\<open>durable_step\<close>), \<open>ProcessorSteps\<close> shows that every
  commit and graph write of the processor is such a step, \<open>AttemptContract\<close> draws the consequences for any
  number of interrupted attempts.

  Workspaces. \<open>Access\<close> (\<^verbatim>\<open>workspaces/application/access.py\<close>, \<^verbatim>\<open>api/workspaces/collaboration.py\<close>: roles,
  invitations, members, audit page), \<open>Directory\<close> (\<^verbatim>\<open>directory.py\<close>, \<^verbatim>\<open>associations.py\<close>: people, projects
  and their links), \<open>Review\<close> (\<^verbatim>\<open>review.py\<close>: edit, confirm and retry a transcript). \<open>WorkspaceScope\<close> makes
  these requests one step function and shows that references stay in a workspace and requests reach only
  theirs, with the role they need.

  Retrieval. \<open>GraphWriter\<close> (\<^verbatim>\<open>retrieval/infrastructure/graph_writer.py\<close>: the Cypher statements on nodes and edges,
  the reconciling of extracted entities with stored nodes, merged validity periods), \<open>Retrieval\<close> (\<^verbatim>\<open>lexical.py\<close>,
  \<^verbatim>\<open>graph_neighborhood.py\<close>, \<^verbatim>\<open>hybrid.py\<close>: the evidence for a question, all of it quoted from approved sources), \<open>Answering\<close> (\<^verbatim>\<open>answer.py\<close>, \<^verbatim>\<open>api/ask\<close>: prompt,
  streamed answer and its citation filter, shown equal to a function of the whole text).

  Agents. \<open>AgentValidation\<close> (\<^verbatim>\<open>agent_workflows/validation.py\<close>), \<open>AgentRepository\<close> (\<^verbatim>\<open>repositories.py\<close>,
  \<^verbatim>\<open>locks.py\<close>, \<^verbatim>\<open>transcript_recovery.py\<close>), \<open>AgentWorkflows\<close> (\<^verbatim>\<open>service.py\<close>), and \<open>AgentContract\<close>: a submission
  keeps to \<open>durable_step\<close>, a refusal commits nothing, an accepted extraction is grounded, a repetition is
  recognised unless something was promoted, and the locks are the server's.

  Bounds. A stage asks at most twice; an error is classified over at most eight causes; a job gets four
  provider attempts, the Celery task three retries; these are the code's own constants, no fuel was added.
  Loops of the code are structural recursions or functions with a termination proof.

  Interfaces are locales, each interpreted where its provider is defined: the updaters and the repository of
  the Context Store, and the containers of the resolution.

  Not modelled: the provider adapters and credential validation (HTTP exchanges),
  storage and signed links, the MCP and FastAPI transport, authentication, observability, migrations and
  the demo data. Waiting for a lock is not modelled: what runs under a lock is one transition or run.
  Planned: credentials, the source and workspace routes.
\<close>

end
